(* ===== verification/Prelude.thy ===== *)
theory Prelude
  imports Main "HOL-Library.Sublist"
begin

text \<open>
  What every component of the development shares: the result type of code that may throw
  (an error on the left, a value on the right), sequencing and mapping over it, and the
  collections of facts the component proofs pass to the simplifier.

  \<^item> \<open>result_simps\<close>: how sequencing acts on a value and on an error;
  \<^item> \<open>wf_simps\<close>: well-formedness of the data the components exchange.
\<close>

named_theorems result_simps \<open>evaluation of computations that may throw\<close>
named_theorems wf_simps \<open>well-formedness of the data the components exchange\<close>

section \<open>Computations that may throw\<close>

type_synonym ('e, 'a) result = "'e + 'a"

text \<open>\<open>bindR m f\<close>: run \<open>m\<close>; if it throws, so does the whole, else continue with its value.\<close>

definition bindR :: "('e, 'a) result \<Rightarrow> ('a \<Rightarrow> ('e, 'b) result) \<Rightarrow> ('e, 'b) result" where
  "bindR m f = (case m of Inl e \<Rightarrow> Inl e | Inr x \<Rightarrow> f x)"

text \<open>\<open>guardR b e\<close>: the statement \<open>if (!b) throw e\<close>.\<close>

definition guardR :: "bool \<Rightarrow> 'e \<Rightarrow> ('e, unit) result" where
  "guardR b e = (if b then Inr () else Inl e)"

text \<open>\<open>mapR f xs\<close>: \<open>xs.map(f)\<close> for a callback that may throw; the first throw ends it.\<close>

fun mapR :: "('a \<Rightarrow> ('e, 'b) result) \<Rightarrow> 'a list \<Rightarrow> ('e, 'b list) result" where
  "mapR f [] = Inr []"
| "mapR f (x # xs) = bindR (f x) (\<lambda>y. bindR (mapR f xs) (\<lambda>ys. Inr (y # ys)))"

lemma bindR_simps [simp, result_simps]:
  "bindR (Inl e) f = Inl e"
  "bindR (Inr x) f = f x"
  by (simp_all add: bindR_def)

lemma bindR_eq_Inr: "bindR m f = Inr y \<longleftrightarrow> (\<exists>x. m = Inr x \<and> f x = Inr y)"
  by (cases m) auto

lemma bindR_eq_Inl: "bindR m f = Inl e \<longleftrightarrow> m = Inl e \<or> (\<exists>x. m = Inr x \<and> f x = Inl e)"
  by (cases m) auto

lemma guardR_eq [simp, result_simps]:
  "guardR b e = Inr u \<longleftrightarrow> b"
  "guardR b e = Inl e' \<longleftrightarrow> \<not> b \<and> e = e'"
  by (auto simp: guardR_def)

lemma guardR_simps [simp, result_simps]:
  "guardR True e = Inr ()"
  "guardR False e = Inl e"
  by (simp_all add: guardR_def)

lemma bindR_guardR: "bindR (guardR b e) f = (if b then f () else Inl e)"
  by (simp add: guardR_def)

lemma mapR_Inr_iff:
  "mapR f xs = Inr ys \<longleftrightarrow> list_all2 (\<lambda>x y. f x = Inr y) xs ys"
  by (induction xs arbitrary: ys) (auto simp: bindR_eq_Inr list_all2_Cons1)

lemma mapR_total: "(\<And>x. x \<in> set xs \<Longrightarrow> f x = Inr (g x)) \<Longrightarrow> mapR f xs = Inr (map g xs)"
  by (induction xs) auto

lemma mapR_length: "mapR f xs = Inr ys \<Longrightarrow> length ys = length xs"
  by (auto simp: mapR_Inr_iff dest: list_all2_lengthD)

lemma mapR_append:
  "mapR f (xs @ ys) = bindR (mapR f xs) (\<lambda>us. bindR (mapR f ys) (\<lambda>vs. Inr (us @ vs)))"
proof (induction xs)
  case Nil
  then show ?case by (cases "mapR f ys") simp_all
next
  case (Cons x xs)
  then show ?case
    by (cases "f x"; cases "mapR f xs"; cases "mapR f ys") simp_all
qed

lemma mapR_Inl:
  "mapR f xs = Inl e \<Longrightarrow> \<exists>x \<in> set xs. f x = Inl e"
  by (induction xs) (auto simp: bindR_eq_Inl)

section \<open>Enumerated lists\<close>

text \<open>\<open>xs.map((x, index) => ...)\<close> hands the callback the position as well.\<close>

definition indexed :: "'a list \<Rightarrow> ('a \<times> nat) list" where
  "indexed xs = zip xs [0..<length xs]"

lemma indexed_simps [simp]:
  "indexed [] = []"
  "length (indexed xs) = length xs"
  "map fst (indexed xs) = xs"
  by (simp_all add: indexed_def)

lemma indexed_Cons: "indexed (x # xs) = (x, 0) # map (\<lambda>(y, i). (y, Suc i)) (indexed xs)"
proof -
  have "zip xs [Suc 0..<Suc (length xs)] = map (\<lambda>(y, i). (y, Suc i)) (zip xs [0..<length xs])"
    by (subst map_Suc_upt [symmetric]) (simp add: zip_map2)
  then show ?thesis
    by (simp add: indexed_def upt_conv_Cons del: upt_Suc)
qed

lemma indexed_nth: "i < length xs \<Longrightarrow> indexed xs ! i = (xs ! i, i)"
  by (simp add: indexed_def)

lemma set_indexed: "(x, i) \<in> set (indexed xs) \<longleftrightarrow> i < length xs \<and> xs ! i = x"
  by (auto simp: indexed_def set_zip)

lemma indexed_append:
  "indexed (xs @ ys) = indexed xs @ map (\<lambda>(y, i). (y, length xs + i)) (indexed ys)"
  by (induction xs) (simp_all add: indexed_Cons case_prod_unfold o_def)

section \<open>Spans\<close>

text \<open>Facts about \<open>takeWhile\<close> and \<open>dropWhile\<close> on a concatenation, for the scanners.\<close>

lemma takeWhile_append_stop:
  "list_all P xs \<Longrightarrow> ys = [] \<or> \<not> P (hd ys) \<Longrightarrow> takeWhile P (xs @ ys) = xs"
  by (induction xs) (cases ys; auto)+

lemma dropWhile_append_stop:
  "list_all P xs \<Longrightarrow> ys = [] \<or> \<not> P (hd ys) \<Longrightarrow> dropWhile P (xs @ ys) = ys"
  by (induction xs) (cases ys; auto)+

end
