(* ===== verification/JsString.thy ===== *)
theory JsString
  imports Prelude "HOL-Library.Word" "HOL-Library.List_Lexorder" "HOL-Library.Char_ord"
begin

text \<open>
  JavaScript strings: lists of UTF-16 code units. \<open>length\<close> counts code units, as
  \<open>String.prototype.length\<close> does, and the order \<open><\<close> of \<open>List_Lexorder\<close> on these lists is
  the order of JavaScript's \<open><\<close> on strings (code unit by code unit, a proper prefix first).
  Also here: the parts of the string library the program calls (\<open>trim\<close>, iteration by code
  points, \<open>padStart\<close>, \<open>join\<close>), decimal printing and reading of naturals, and the regular
  expression for SHA-256 digests.
\<close>

type_synonym cu = "16 word"
type_synonym jstr = "cu list"

text \<open>The code unit of an ASCII character and the string of an ASCII literal.\<close>

definition ch :: "char \<Rightarrow> cu" where
  "ch c = of_char c"

definition js :: "string \<Rightarrow> jstr" where
  "js s = map ch s"

lemma unat_ch: "unat (ch c) = of_char c"
proof -
  have "ch c = of_nat (of_char c)"
    unfolding ch_def by (rule of_nat_of_char [symmetric])
  then have "unat (ch c) = of_char c mod 65536"
    by (simp add: unat_of_nat)
  also have "\<dots> = of_char c"
    by (rule mod_less, rule less_trans [OF nat_of_char_less_256]) simp
  finally show ?thesis .
qed

lemma ch_inject [simp]: "ch c = ch d \<longleftrightarrow> c = d"
  by (metis of_char_eq_iff unat_ch)

lemma js_simps [simp]:
  "js [] = []"
  "js (c # s) = ch c # js s"
  "length (js s) = length s"
  by (simp_all add: js_def)

lemma js_Nil_iff [simp]: "js s = [] \<longleftrightarrow> s = []"
  by (simp add: js_def)

lemma js_append: "js (s @ t) = js s @ js t"
  by (simp add: js_def)

lemma js_inject: "js s = js t \<longleftrightarrow> s = t"
  by (simp add: js_def inj_map_eq_map inj_def)

section \<open>Library functions on strings\<close>

text \<open>White space and line terminators, as \<open>String.prototype.trim\<close> removes them.\<close>

definition is_space :: "cu \<Rightarrow> bool" where
  "is_space c \<longleftrightarrow> c \<in> {0x9, 0xA, 0xB, 0xC, 0xD, 0x20, 0xA0, 0x1680, 0x2028, 0x2029, 0x202F, 0x205F,
    0x3000, 0xFEFF} \<or> (0x2000 \<le> c \<and> c \<le> 0x200A)"

definition trim :: "jstr \<Rightarrow> jstr" where
  "trim s = rev (dropWhile is_space (rev (dropWhile is_space s)))"

text \<open>Surrogates and \<open>[...value].length\<close>, the number of code points of a string.\<close>

definition is_high_surrogate :: "cu \<Rightarrow> bool" where
  "is_high_surrogate c \<longleftrightarrow> 0xD800 \<le> c \<and> c \<le> 0xDBFF"

definition is_low_surrogate :: "cu \<Rightarrow> bool" where
  "is_low_surrogate c \<longleftrightarrow> 0xDC00 \<le> c \<and> c \<le> 0xDFFF"

fun code_point_length :: "jstr \<Rightarrow> nat" where
  "code_point_length [] = 0"
| "code_point_length [c] = 1"
| "code_point_length (c # d # s) =
     (if is_high_surrogate c \<and> is_low_surrogate d then Suc (code_point_length s)
      else Suc (code_point_length (d # s)))"

text \<open>\<open>parts.join(",")\<close>.\<close>

fun join :: "jstr \<Rightarrow> jstr list \<Rightarrow> jstr" where
  "join sep [] = []"
| "join sep [s] = s"
| "join sep (s # ss) = s @ sep @ join sep ss"

lemma join_Cons: "ss \<noteq> [] \<Longrightarrow> join sep (s # ss) = s @ sep @ join sep ss"
  by (cases ss) simp_all

lemma length_trim: "length (trim s) \<le> length s"
proof -
  have "length (trim s) \<le> length (dropWhile is_space s)"
    using length_dropWhile_le [of is_space "rev (dropWhile is_space s)"] by (simp add: trim_def)
  also have "\<dots> \<le> length s" by (rule length_dropWhile_le)
  finally show ?thesis .
qed

text \<open>A string is its own trimming exactly when no edge is white space.\<close>

lemma dropWhile_length_id: "length (dropWhile P xs) = length xs \<Longrightarrow> dropWhile P xs = xs"
  by (cases xs) (use length_dropWhile_le [of P "tl xs"] in \<open>auto split: if_splits\<close>)

lemma trim_id_iff: "trim s = s \<longleftrightarrow> s = [] \<or> (\<not> is_space (hd s) \<and> \<not> is_space (last s))"
proof
  assume eq: "trim s = s"
  let ?a = "dropWhile is_space s"
  have "length (dropWhile is_space (rev ?a)) = length s"
    using arg_cong [OF eq, of length] by (simp add: trim_def)
  moreover have "length (dropWhile is_space (rev ?a)) \<le> length ?a"
    using length_dropWhile_le [of is_space "rev ?a"] by simp
  moreover have "length ?a \<le> length s" by (rule length_dropWhile_le)
  ultimately have "length ?a = length s" by simp
  then have a: "?a = s" by (rule dropWhile_length_id)
  have "rev (dropWhile is_space (rev s)) = s"
    using eq unfolding trim_def a .
  then have b: "dropWhile is_space (rev s) = rev s"
    by (metis rev_rev_ident)
  from a b show "s = [] \<or> (\<not> is_space (hd s) \<and> \<not> is_space (last s))"
    by (auto simp: dropWhile_eq_self_iff hd_rev)
next
  assume edges: "s = [] \<or> (\<not> is_space (hd s) \<and> \<not> is_space (last s))"
  then have "dropWhile is_space s = s" "dropWhile is_space (rev s) = rev s"
    by (auto simp: dropWhile_eq_self_iff hd_rev)
  then show "trim s = s" by (simp add: trim_def)
qed

section \<open>Decimal digits\<close>

definition is_digit :: "cu \<Rightarrow> bool" where
  "is_digit c \<longleftrightarrow> ch CHR ''0'' \<le> c \<and> c \<le> ch CHR ''9''"

definition digit :: "nat \<Rightarrow> cu" where
  "digit n = ch CHR ''0'' + of_nat n"

definition digit_val :: "cu \<Rightarrow> nat" where
  "digit_val c = unat (c - ch CHR ''0'')"

fun dec :: "nat \<Rightarrow> jstr" where
  "dec n = (if n < 10 then [digit n] else dec (n div 10) @ [digit (n mod 10)])"

declare dec.simps [simp del]

definition undec :: "jstr \<Rightarrow> nat" where
  "undec s = foldl (\<lambda>n c. 10 * n + digit_val c) 0 s"

lemma ch_0: "ch CHR ''0'' = 48"
  by (simp add: ch_def)

lemma ch_9: "ch CHR ''9'' = 57"
  by (simp add: ch_def)

lemma digit_val_digit: "n < 10 \<Longrightarrow> digit_val (digit n) = n"
  by (simp add: digit_val_def digit_def unat_of_nat)

lemma unat_digit: "n < 10 \<Longrightarrow> unat (digit n) = 48 + n"
  by (simp add: digit_def ch_0 unat_word_ariths unat_of_nat)

lemma is_digit_digit: "n < 10 \<Longrightarrow> is_digit (digit n)"
  by (simp add: is_digit_def ch_0 ch_9 word_le_nat_alt unat_digit)

lemma undec_snoc: "undec (s @ [c]) = 10 * undec s + digit_val c"
  by (simp add: undec_def)

lemma undec_Nil [simp]: "undec [] = 0"
  by (simp add: undec_def)

lemma undec_dec: "undec (dec n) = n"
proof (induction n rule: dec.induct)
  case (1 n)
  then show ?case
    by (cases "n < 10")
      (simp_all add: dec.simps [of n] undec_snoc digit_val_digit undec_def [of "[digit n]"])
qed

lemma dec_inject: "dec m = dec n \<longleftrightarrow> m = n"
  by (metis undec_dec)

lemma dec_nonempty [simp]: "dec n \<noteq> []"
  by (simp add: dec.simps [of n])

lemma dec_digits: "list_all is_digit (dec n)"
proof (induction n rule: dec.induct)
  case (1 n)
  then show ?case
    by (cases "n < 10") (simp_all add: dec.simps [of n] is_digit_digit)
qed

lemma digit_val_0 [simp]: "digit_val (ch CHR ''0'') = 0"
  by (simp add: digit_val_def)

lemma digit_zero_iff:
  assumes "n < 10"
  shows "digit n = ch CHR ''0'' \<longleftrightarrow> n = 0"
proof
  assume "digit n = ch CHR ''0''"
  then have "digit_val (digit n) = 0" by simp
  with assms show "n = 0" by (simp add: digit_val_digit)
qed (simp add: digit_def)

lemma hd_dec_zero: "hd (dec n) = ch CHR ''0'' \<longleftrightarrow> n = 0"
proof (induction n rule: dec.induct)
  case (1 n)
  show ?case
  proof (cases "n < 10")
    case True
    then show ?thesis by (simp add: dec.simps [of n] digit_zero_iff)
  next
    case False
    then have "n div 10 \<noteq> 0" by simp
    with 1 False show ?thesis by (simp add: dec.simps [of n])
  qed
qed

lemma dec_0: "dec 0 = [ch CHR ''0'']"
  by (simp add: dec.simps digit_def)

lemma undec_zeros_append: "undec (replicate k (ch CHR ''0'') @ s) = undec s"
  by (induction k) (simp_all add: undec_def digit_val_def)

lemma undec_append_zeros: "undec (s @ replicate k (ch CHR ''0'')) = undec s * 10 ^ k"
proof (induction k)
  case (Suc k)
  have "undec (s @ replicate (Suc k) (ch CHR ''0'')) =
      undec ((s @ replicate k (ch CHR ''0'')) @ [ch CHR ''0''])"
    by (simp add: replicate_append_same)
  also have "\<dots> = 10 * undec (s @ replicate k (ch CHR ''0''))"
    by (simp only: undec_snoc) (simp add: digit_val_def)
  finally show ?case using Suc by simp
qed simp

lemma list_all_digits_zeros: "list_all is_digit (replicate k (ch CHR ''0''))"
  by (simp add: list_all_length is_digit_def ch_0 ch_9 word_le_nat_alt)

section \<open>Fixed-width decimal fields\<close>

text \<open>\<open>String(n).padStart(w, "0")\<close> for numbers of at most \<open>w\<close> digits.\<close>

definition pad :: "nat \<Rightarrow> nat \<Rightarrow> jstr" where
  "pad w n = replicate (w - length (dec n)) (ch CHR ''0'') @ dec n"

lemma undec_pad: "undec (pad w n) = n"
  by (simp add: pad_def undec_zeros_append undec_dec)

lemma pad_digits: "list_all is_digit (pad w n)"
  by (simp add: pad_def dec_digits list_all_digits_zeros)

lemma length_dec_le: "0 < w \<Longrightarrow> n < 10 ^ w \<Longrightarrow> length (dec n) \<le> w"
proof (induction n arbitrary: w rule: dec.induct)
  case (1 n)
  show ?case
  proof (cases "n < 10")
    case True
    with 1 show ?thesis by (simp add: dec.simps [of n])
  next
    case False
    with "1.prems" obtain v where v: "w = Suc v" "0 < v"
      by (cases w; cases "w - 1") auto
    with "1.prems" have "n div 10 < 10 ^ v" by auto
    with "1.IH" False v have "length (dec (n div 10)) \<le> v" by blast
    with False v show ?thesis by (simp add: dec.simps [of n])
  qed
qed

lemma length_pad: "0 < w \<Longrightarrow> n < 10 ^ w \<Longrightarrow> length (pad w n) = w"
  using length_dec_le [of w n] by (simp add: pad_def)

section \<open>Hexadecimal digests\<close>

text \<open>The regular expressions \<open>/^[a-f\d]{64}$/\<close> and, with the flag \<open>i\<close>, \<open>/^[a-f\d]{64}$/i\<close>.\<close>

definition is_hex_lower :: "cu \<Rightarrow> bool" where
  "is_hex_lower c \<longleftrightarrow> is_digit c \<or> (ch CHR ''a'' \<le> c \<and> c \<le> ch CHR ''f'')"

definition is_hex_any :: "cu \<Rightarrow> bool" where
  "is_hex_any c \<longleftrightarrow> is_hex_lower c \<or> (ch CHR ''A'' \<le> c \<and> c \<le> ch CHR ''F'')"

definition hex64 :: "jstr \<Rightarrow> bool" where
  "hex64 s \<longleftrightarrow> length s = 64 \<and> list_all is_hex_lower s"

definition hex64_i :: "jstr \<Rightarrow> bool" where
  "hex64_i s \<longleftrightarrow> length s = 64 \<and> list_all is_hex_any s"

lemma hex64_imp_hex64_i: "hex64 s \<Longrightarrow> hex64_i s"
  by (auto simp: hex64_def hex64_i_def is_hex_any_def list_all_iff)

end
