(* ===== verification/JsDate.thy ===== *)
theory JsDate
  imports JsString "HOL-Library.Monad_Syntax"
begin

text \<open>
  JavaScript dates: a time value in milliseconds since 1970-01-01T00:00Z, or an invalid date.
  \<open>toISOString\<close> follows the calendar algorithms of ECMAScript (DayFromYear, YearFromTime,
  MonthFromTime); \<open>date_parse\<close> reads the forms \<open>YYYY-MM-DDTHH:mm[:ss[.sss]]\<close> with \<open>Z\<close> or an
  offset, and the expanded years, which are the forms the event schema lets through. The main fact is that
  reading a printed time gives the time back, for every time value a date can hold.
\<close>

datatype jsdate = Date int | InvalidDate

fun getTime :: "jsdate \<Rightarrow> int option" where
  "getTime (Date t) = Some t"
| "getTime InvalidDate = None"

definition MAX_TIME :: int where
  "MAX_TIME = 8640000000000000"

text \<open>\<open>new Date(t)\<close> for a number \<open>t\<close>, which may be \<open>NaN\<close>.\<close>

definition new_date :: "int option \<Rightarrow> jsdate" where
  "new_date t = (case t of Some n \<Rightarrow> if \<bar>n\<bar> \<le> MAX_TIME then Date n else InvalidDate | None \<Rightarrow> InvalidDate)"

definition date_wf :: "jsdate \<Rightarrow> bool" where
  "date_wf d = (case d of Date t \<Rightarrow> \<bar>t\<bar> \<le> MAX_TIME | InvalidDate \<Rightarrow> True)"

text \<open>Comparison of numbers that may be \<open>NaN\<close>: false as soon as one of them is.\<close>

definition js_le :: "int option \<Rightarrow> int option \<Rightarrow> bool" where
  "js_le x y = (case (x, y) of (Some a, Some b) \<Rightarrow> a \<le> b | _ \<Rightarrow> False)"

definition js_lt :: "int option \<Rightarrow> int option \<Rightarrow> bool" where
  "js_lt x y = (case (x, y) of (Some a, Some b) \<Rightarrow> a < b | _ \<Rightarrow> False)"

lemma js_cmp_simps [simp]:
  "js_le (Some a) (Some b) \<longleftrightarrow> a \<le> b" "js_lt (Some a) (Some b) \<longleftrightarrow> a < b"
  "js_le None y \<longleftrightarrow> False" "js_le x None \<longleftrightarrow> False" "js_lt None y \<longleftrightarrow> False" "js_lt x None \<longleftrightarrow> False"
  by (simp_all add: js_le_def js_lt_def split: option.splits)

section \<open>The calendar\<close>

definition day_from_year :: "int \<Rightarrow> int" where
  "day_from_year y = 365 * (y - 1970) + (y - 1969) div 4 - (y - 1901) div 100 + (y - 1601) div 400"

definition year_of_day :: "int \<Rightarrow> int" where
  "year_of_day d =
     (let y = 1970 + (400 * d) div 146097
      in if day_from_year (y + 1) \<le> d then y + 1 else if d < day_from_year y then y - 1 else y)"

definition leap_day :: "int \<Rightarrow> nat" where
  "leap_day y = (if (4 dvd y \<and> \<not> 100 dvd y) \<or> 400 dvd y then 1 else 0)"

definition month_lengths :: "int \<Rightarrow> nat list" where
  "month_lengths y = [31, 28 + leap_day y, 31, 30, 31, 30, 31, 31, 30, 31, 30, 31]"

text \<open>Month (from 1) and day of the month (from 1) of a day of the year (from 0).\<close>

fun find_month :: "nat \<Rightarrow> nat list \<Rightarrow> nat \<Rightarrow> nat \<times> nat" where
  "find_month m [] n = (m, Suc n)"
| "find_month m (l # ls) n = (if n < l then (m, Suc n) else find_month (Suc m) ls (n - l))"

definition date_of_day :: "int \<Rightarrow> int \<times> nat \<times> nat" where
  "date_of_day d =
     (let y = year_of_day d; (m, k) = find_month 1 (month_lengths y) (nat (d - day_from_year y))
      in (y, m, k))"

definition day_of_date :: "int \<Rightarrow> nat \<Rightarrow> nat \<Rightarrow> int" where
  "day_of_date y m k =
     day_from_year y + int (sum_list (take (m - 1) (month_lengths y))) + int k - 1"

section \<open>Printing\<close>

definition year_str :: "int \<Rightarrow> jstr" where
  "year_str y =
     (if 0 \<le> y \<and> y \<le> 9999 then pad 4 (nat y)
      else (if y < 0 then js ''-'' else js ''+'') @ pad 6 (nat \<bar>y\<bar>))"

definition MS_PER_DAY :: int where
  "MS_PER_DAY = 86400000"

definition iso_string :: "int \<Rightarrow> jstr" where
  "iso_string t =
     (let (y, m, k) = date_of_day (t div MS_PER_DAY); r = nat (t mod MS_PER_DAY)
      in year_str y @ js ''-'' @ pad 2 m @ js ''-'' @ pad 2 k @ js ''T'' @ pad 2 (r div 3600000) @ js '':'' @
         pad 2 (r div 60000 mod 60) @ js '':'' @ pad 2 (r div 1000 mod 60) @ js ''.'' @ pad 3 (r mod 1000) @
         js ''Z'')"

text \<open>\<open>date.toISOString()\<close>: \<open>None\<close> when it throws a \<open>RangeError\<close>.\<close>

fun toISOString :: "jsdate \<Rightarrow> jstr option" where
  "toISOString (Date t) = Some (iso_string t)"
| "toISOString InvalidDate = None"

section \<open>Reading\<close>

definition take_digits :: "nat \<Rightarrow> jstr \<Rightarrow> (nat \<times> jstr) option" where
  "take_digits w s =
     (if w \<le> length s \<and> list_all is_digit (take w s) then Some (undec (take w s), drop w s) else None)"

definition lit :: "char \<Rightarrow> jstr \<Rightarrow> jstr option" where
  "lit c s = (case s of d # r \<Rightarrow> if d = ch c then Some r else None | [] \<Rightarrow> None)"

definition read_year :: "jstr \<Rightarrow> (int \<times> jstr) option" where
  "read_year s =
     (case lit CHR ''+'' s of
        Some r \<Rightarrow> map_option (\<lambda>(n, t). (int n, t)) (take_digits 6 r)
      | None \<Rightarrow>
          (case lit CHR ''-'' s of
             Some r \<Rightarrow> do { (n, t) \<leftarrow> take_digits 6 r; if n = 0 then None else Some (- int n, t) }
           | None \<Rightarrow> map_option (\<lambda>(n, t). (int n, t)) (take_digits 4 s)))"

text \<open>An optional fraction of a second, to the millisecond.\<close>

definition read_fraction :: "jstr \<Rightarrow> (nat \<times> jstr) option" where
  "read_fraction s =
     (case lit CHR ''.'' s of
        None \<Rightarrow> Some (0, s)
      | Some r \<Rightarrow>
          let fs = takeWhile is_digit r
          in if fs = [] then None
             else Some (undec (take 3 (fs @ replicate 2 (ch CHR ''0''))), dropWhile is_digit r))"

definition read_seconds :: "jstr \<Rightarrow> (nat \<times> nat \<times> jstr) option" where
  "read_seconds s =
     (case lit CHR '':'' s of
        None \<Rightarrow> Some (0, 0, s)
      | Some r \<Rightarrow> do { (sec, t) \<leftarrow> take_digits 2 r; (ms, u) \<leftarrow> read_fraction t; Some (sec, ms, u) })"

definition date_fields_ok :: "int \<Rightarrow> nat \<Rightarrow> nat \<Rightarrow> nat \<Rightarrow> nat \<Rightarrow> nat \<Rightarrow> nat \<Rightarrow> bool" where
  "date_fields_ok y m k h mi s ms \<longleftrightarrow>
     1 \<le> m \<and> m \<le> 12 \<and> 1 \<le> k \<and> k \<le> month_lengths y ! (m - 1) \<and>
     (h < 24 \<or> (h = 24 \<and> mi = 0 \<and> s = 0 \<and> ms = 0)) \<and> mi < 60 \<and> s < 60"

text \<open>The time zone: \<open>Z\<close>, or an offset from UTC, in milliseconds.\<close>

definition read_offset :: "jstr \<Rightarrow> (int \<times> jstr) option" where
  "read_offset s =
     do { (h, s1) \<leftarrow> take_digits 2 s;
          s2 \<leftarrow> lit CHR '':'' s1;
          (mi, s3) \<leftarrow> take_digits 2 s2;
          if h < 24 \<and> mi < 60 then Some (int (h * 3600000 + mi * 60000), s3) else None }"

definition read_zone :: "jstr \<Rightarrow> (int \<times> jstr) option" where
  "read_zone s =
     (case lit CHR ''Z'' s of
        Some r \<Rightarrow> Some (0, r)
      | None \<Rightarrow>
          (case lit CHR ''+'' s of
             Some r \<Rightarrow> read_offset r
           | None \<Rightarrow> do { r \<leftarrow> lit CHR ''-'' s; (n, t) \<leftarrow> read_offset r; Some (- n, t) }))"

text \<open>
  \<open>Date.parse(text)\<close> on the date-time forms with a time zone, which are those the program hands it
  (texts of \<open>toISOString\<close> or accepted by \<open>z.iso.datetime\<close>): \<open>None\<close> is \<open>NaN\<close>.
\<close>

definition date_parse :: "jstr \<Rightarrow> int option" where
  "date_parse text =
     do { (y, s1) \<leftarrow> read_year text;
          s2 \<leftarrow> lit CHR ''-'' s1;
          (m, s3) \<leftarrow> take_digits 2 s2;
          s4 \<leftarrow> lit CHR ''-'' s3;
          (k, s5) \<leftarrow> take_digits 2 s4;
          s6 \<leftarrow> lit CHR ''T'' s5;
          (h, s7) \<leftarrow> take_digits 2 s6;
          s8 \<leftarrow> lit CHR '':'' s7;
          (mi, s9) \<leftarrow> take_digits 2 s8;
          (s, ms, s10) \<leftarrow> read_seconds s9;
          (off, s11) \<leftarrow> read_zone s10;
          if s11 = [] \<and> date_fields_ok y m k h mi s ms then
            getTime (new_date (Some (day_of_date y m k * MS_PER_DAY +
              int (h * 3600000 + mi * 60000 + s * 1000 + ms) - off)))
          else None }"

section \<open>Calendar facts\<close>

lemma div_bounds:
  fixes n k :: int
  assumes "0 < k"
  shows "k * (n div k) \<le> n" "n < k * (n div k) + k"
  using mult_div_mod_eq [of k n] pos_mod_bound [OF assms, of n] pos_mod_sign [OF assms, of n]
  by linarith+

lemma day_from_year_bounds:
  shows day_from_year_lower: "146097 * z - 506 \<le> 400 * day_from_year (1970 + z)"
    and day_from_year_upper: "400 * day_from_year (1970 + z) \<le> 146097 * z + 589"
proof -
  define a b c where "a = (z + 1) div 4" and "b = (z + 69) div 100" and "c = (z + 369) div 400"
  have "4 * a \<le> z + 1" "z + 1 < 4 * a + 4" "100 * b \<le> z + 69" "z + 69 < 100 * b + 100"
    "400 * c \<le> z + 369" "z + 369 < 400 * c + 400"
    unfolding a_def b_def c_def by (rule div_bounds; simp)+
  moreover have "day_from_year (1970 + z) = 365 * z + a - b + c"
    by (simp add: day_from_year_def a_def b_def c_def algebra_simps)
  ultimately show "146097 * z - 506 \<le> 400 * day_from_year (1970 + z)"
    and "400 * day_from_year (1970 + z) \<le> 146097 * z + 589"
    by linarith+
qed

lemma year_of_day:
  "day_from_year (year_of_day d) \<le> d" "d < day_from_year (year_of_day d + 1)"
proof -
  define q where "q = (400 * d) div 146097"
  have q: "146097 * q \<le> 400 * d" "400 * d < 146097 * q + 146097"
    unfolding q_def by (rule div_bounds; simp)+
  have "400 * day_from_year (1970 + (q - 1)) \<le> 146097 * q - 145508"
    using day_from_year_upper [of "q - 1"] by (simp add: algebra_simps)
  with q have lo: "day_from_year (1970 + (q - 1)) \<le> d" by linarith
  have "146097 * q + 291688 \<le> 400 * day_from_year (1970 + (q + 2))"
    using day_from_year_lower [of "q + 2"] by (simp add: algebra_simps)
  with q have hi: "d < day_from_year (1970 + (q + 2))" by linarith
  have "year_of_day d = (if day_from_year (1970 + q + 1) \<le> d then 1970 + q + 1
      else if d < day_from_year (1970 + q) then 1970 + q - 1 else 1970 + q)"
    by (simp add: year_of_day_def Let_def q_def)
  with lo hi show "day_from_year (year_of_day d) \<le> d" "d < day_from_year (year_of_day d + 1)"
    by (simp_all add: algebra_simps split: if_splits)
qed

lemma div_step:
  fixes n k :: int
  assumes "0 < k"
  shows "(n + 1) div k = n div k + (if k dvd n + 1 then 1 else 0)"
proof -
  define q r where "q = (n + 1) div k" and "r = (n + 1) mod k"
  have n: "n + 1 = k * q + r" "0 \<le> r" "r < k"
    using assms by (simp_all add: q_def r_def)
  show ?thesis
  proof (cases "r = 0")
    case True
    then have "n = k * (q - 1) + (k - 1)" using n by (simp add: algebra_simps)
    then have "n div k = q - 1" by (rule int_div_pos_eq) (use assms in simp_all)
    moreover have "k dvd n + 1" using True by (simp add: r_def dvd_eq_mod_eq_0)
    ultimately show ?thesis by (simp flip: q_def)
  next
    case False
    then have "n = k * q + (r - 1)" using n by simp
    then have "n div k = q" by (rule int_div_pos_eq) (use n False in simp_all)
    moreover have "\<not> k dvd n + 1" using False by (simp add: r_def dvd_eq_mod_eq_0)
    ultimately show ?thesis by (simp flip: q_def)
  qed
qed

lemma div_step_shift:
  fixes y k c :: int
  assumes "0 < k" "k dvd c"
  shows "(y - c) div k = (y - c - 1) div k + (if k dvd y then 1 else 0)"
proof -
  have "k dvd y - c \<longleftrightarrow> k dvd y"
    using assms(2) by (metis dvd_add_left_iff dvd_minus_iff uminus_add_conv_diff add.commute)
  then show ?thesis using div_step [OF assms(1), of "y - c - 1"] by simp
qed

lemma year_length: "day_from_year (y + 1) - day_from_year y = 365 + int (leap_day y)"
proof -
  have step: "(y + 1 - 1969) div 4 = (y - 1969) div 4 + (if 4 dvd y then 1 else 0)"
    "(y + 1 - 1901) div 100 = (y - 1901) div 100 + (if 100 dvd y then 1 else 0)"
    "(y + 1 - 1601) div 400 = (y - 1601) div 400 + (if 400 dvd y then 1 else 0)"
    using div_step_shift [of 4 1968 y] div_step_shift [of 100 1900 y] div_step_shift [of 400 1600 y]
    by simp_all
  have sum: "365 * (y + 1 - 1970) + (p + a) - (q + b) + (r + c) - (365 * (y - 1970) + p - q + r)
      = 365 + a - b + c" for p q r a b c :: int
    by simp
  have "int (leap_day y) = (if 4 dvd y then 1 else 0) - (if 100 dvd y then 1 else 0)
      + (if 400 dvd y then 1 else 0)"
    by (auto simp: leap_day_def elim!: dvd_trans [rotated])
  then show ?thesis unfolding day_from_year_def step sum by simp
qed

lemma sum_month_lengths: "sum_list (month_lengths y) = 365 + leap_day y"
  by (simp add: month_lengths_def)

lemma find_month:
  assumes "n < sum_list ls" "find_month m ls n = (m', k)"
  shows "m \<le> m' \<and> m' < m + length ls \<and> 1 \<le> k \<and> k \<le> ls ! (m' - m) \<and>
    sum_list (take (m' - m) ls) + k = Suc n"
  using assms
proof (induction m ls n rule: find_month.induct)
  case (2 m l ls n)
  show ?case
  proof (cases "n < l")
    case True
    with 2 show ?thesis by auto
  next
    case False
    with 2 have IH: "Suc m \<le> m' \<and> m' < Suc m + length ls \<and> 1 \<le> k \<and> k \<le> ls ! (m' - Suc m) \<and>
        sum_list (take (m' - Suc m) ls) + k = Suc (n - l)"
      by simp
    then obtain i where i: "m' - m = Suc i" "m' - Suc m = i" by (metis Suc_diff_le diff_Suc_Suc)
    from IH False show ?thesis unfolding i by auto
  qed
qed simp

text \<open>The fields of a day, and the day they determine.\<close>

lemma date_of_day:
  assumes "date_of_day d = (y, m, k)"
  shows "y = year_of_day d" "1 \<le> m" "m \<le> 12" "1 \<le> k" "k \<le> month_lengths y ! (m - 1)"
    "day_of_date y m k = d"
proof -
  let ?n = "nat (d - day_from_year y)"
  show y: "y = year_of_day d" using assms by (auto simp: date_of_day_def Let_def split: prod.splits)
  have fm: "find_month 1 (month_lengths y) ?n = (m, k)"
    using assms y by (auto simp: date_of_day_def Let_def split: prod.splits)
  have n: "int ?n = d - day_from_year y" "d - day_from_year y < 365 + int (leap_day y)"
    using year_of_day [of d] year_length [of y] y by simp_all
  then have "?n < sum_list (month_lengths y)" by (simp add: sum_month_lengths)
  note f = find_month [OF this fm]
  show "1 \<le> m" "m \<le> 12" "1 \<le> k" "k \<le> month_lengths y ! (m - 1)"
    using f by (auto simp: month_lengths_def)
  have "int (sum_list (take (m - 1) (month_lengths y))) + int k = 1 + int ?n"
    using f by linarith
  with n(1) show "day_of_date y m k = d"
    unfolding day_of_date_def by linarith
qed

lemma month_lengths_le: "m \<le> 12 \<Longrightarrow> 1 \<le> m \<Longrightarrow> month_lengths y ! (m - 1) \<le> 31"
proof -
  assume "m \<le> 12" "1 \<le> m"
  then have "m - 1 < length (month_lengths y)" by (simp add: month_lengths_def)
  then have "month_lengths y ! (m - 1) \<in> set (month_lengths y)" by (rule nth_mem)
  then show ?thesis by (auto simp: month_lengths_def leap_day_def)
qed

lemma year_of_day_bound:
  assumes "\<bar>d\<bar> \<le> 100000000"
  shows "\<bar>year_of_day d\<bar> < 1000000"
proof -
  define z where "z = year_of_day d - 1970"
  then have y: "year_of_day d = 1970 + z" by simp
  have "146097 * z - 506 \<le> 400 * d"
    using day_from_year_lower [of z] year_of_day(1) [of d] y by simp
  moreover have "400 * d \<le> 146097 * z + 146686"
    using day_from_year_upper [of "z + 1"] year_of_day(2) [of d] y by (simp add: algebra_simps)
  ultimately have "\<bar>z\<bar> \<le> 300000" using assms by linarith
  then show ?thesis using y by linarith
qed

section \<open>Reading inverts printing\<close>

lemma take_digits_pad:
  "0 < w \<Longrightarrow> n < 10 ^ w \<Longrightarrow> take_digits w (pad w n @ r) = Some (n, r)"
  using length_pad [of w n] pad_digits [of w n] undec_pad [of w n] by (simp add: take_digits_def)

lemma lit_js [simp]: "lit c (ch c # r) = Some r"
  by (simp add: lit_def)

lemma lit_digits:
  assumes "c \<noteq> CHR ''0''" "\<not> is_digit (ch c)" "s \<noteq> []" "list_all is_digit s"
  shows "lit c (s @ r) = None"
  using assms by (cases s) (auto simp: lit_def)

lemma pad_nonempty [simp]: "pad w n \<noteq> []"
  by (simp add: pad_def)

lemma lit_pad:
  "lit CHR ''+'' (pad w n @ r) = None" "lit CHR ''-'' (pad w n @ r) = None"
  using lit_digits [OF _ _ pad_nonempty pad_digits, of "CHR ''+''"]
    lit_digits [OF _ _ pad_nonempty pad_digits, of "CHR ''-''"]
  by (simp_all add: is_digit_def ch_def)

lemma read_year_str:
  assumes "\<bar>y\<bar> < 1000000"
  shows "read_year (year_str y @ r) = Some (y, r)"
proof -
  consider "0 \<le> y" "y \<le> 9999" | "y < 0" | "9999 < y" by linarith
  then show ?thesis
  proof cases
    case 1
    then show ?thesis by (simp add: year_str_def read_year_def lit_pad take_digits_pad)
  next
    case 2
    then have "nat \<bar>y\<bar> < 10 ^ 6" "nat \<bar>y\<bar> \<noteq> 0" using assms by auto
    with 2 show ?thesis
      by (simp add: year_str_def read_year_def take_digits_pad lit_def)
  next
    case 3
    then have "nat \<bar>y\<bar> < 10 ^ 6" using assms by auto
    with 3 show ?thesis by (simp add: year_str_def read_year_def take_digits_pad)
  qed
qed

lemma read_fraction_pad:
  assumes "n < 1000" "r = [] \<or> \<not> is_digit (hd r)"
  shows "read_fraction (ch CHR ''.'' # pad 3 n @ r) = Some (n, r)"
proof -
  have "takeWhile is_digit (pad 3 n @ r) = pad 3 n" "dropWhile is_digit (pad 3 n @ r) = r"
    using assms(2) pad_digits [of 3 n] by (simp_all add: takeWhile_append_stop dropWhile_append_stop)
  moreover have "length (pad 3 n) = 3" using assms(1) by (simp add: length_pad)
  ultimately show ?thesis by (simp add: read_fraction_def undec_pad)
qed

lemma read_seconds_pad:
  assumes "s < 60" "n < 1000" "r = [] \<or> \<not> is_digit (hd r)"
  shows "read_seconds (ch CHR '':'' # pad 2 s @ ch CHR ''.'' # pad 3 n @ r) = Some (s, n, r)"
  using assms by (simp add: read_seconds_def take_digits_pad read_fraction_pad)

lemma time_of_day:
  fixes r :: nat
  assumes "r < 86400000"
  shows "r div 3600000 < 24" "r div 3600000 * 3600000 + r div 60000 mod 60 * 60000 +
    r div 1000 mod 60 * 1000 + r mod 1000 = r"
proof -
  show "r div 3600000 < 24" using assms by simp
  have "r div 60000 = r div 1000 div 60" "r div 3600000 = r div 60000 div 60"
    by (simp_all flip: div_mult2_eq)
  then have "r = 1000 * (r div 1000) + r mod 1000" "r div 1000 = 60 * (r div 60000) + r div 1000 mod 60"
    "r div 60000 = 60 * (r div 3600000) + r div 60000 mod 60"
    by simp_all
  then show "r div 3600000 * 3600000 + r div 60000 mod 60 * 60000 + r div 1000 mod 60 * 1000 +
      r mod 1000 = r"
    by linarith
qed

text \<open>The text of the fields, and what reading it gives.\<close>

definition fields_str :: "int \<Rightarrow> nat \<Rightarrow> nat \<Rightarrow> nat \<Rightarrow> nat \<Rightarrow> nat \<Rightarrow> nat \<Rightarrow> jstr" where
  "fields_str y m k h mi s ms =
     year_str y @ js ''-'' @ pad 2 m @ js ''-'' @ pad 2 k @ js ''T'' @ pad 2 h @ js '':'' @ pad 2 mi @
     js '':'' @ pad 2 s @ js ''.'' @ pad 3 ms @ js ''Z''"

lemma date_parse_fields:
  assumes "\<bar>y\<bar> < 1000000" "m < 100" "k < 100" "h < 24" "mi < 60" "s < 60" "ms < 1000"
    and "date_fields_ok y m k h mi s ms"
  shows "date_parse (fields_str y m k h mi s ms) =
    getTime (new_date (Some (day_of_date y m k * MS_PER_DAY +
      int (h * 3600000 + mi * 60000 + s * 1000 + ms))))"
proof -
  have "\<not> is_digit (ch CHR ''Z'')" by (simp add: is_digit_def ch_def)
  then have sec: "read_seconds (ch CHR '':'' # pad 2 s @ ch CHR ''.'' # pad 3 ms @ [ch CHR ''Z'']) =
      Some (s, ms, [ch CHR ''Z''])"
    using assms by (intro read_seconds_pad) simp_all
  show ?thesis
    unfolding date_parse_def fields_str_def
    using assms by (simp add: read_year_str take_digits_pad sec read_zone_def)
qed

lemma date_parse_iso_string:
  assumes "\<bar>t\<bar> \<le> MAX_TIME"
  shows "date_parse (iso_string t) = Some t"
proof -
  define d r where "d = t div MS_PER_DAY" and "r = nat (t mod MS_PER_DAY)"
  obtain y m k where ymk: "date_of_day d = (y, m, k)" by (cases "date_of_day d")
  note f = date_of_day [OF ymk]
  have t: "d * MS_PER_DAY + int r = t" by (simp add: d_def r_def MS_PER_DAY_def)
  have r: "r < 86400000" by (simp add: r_def MS_PER_DAY_def)
  have "\<bar>d\<bar> \<le> 100000000"
    using assms t r unfolding MAX_TIME_def MS_PER_DAY_def by linarith
  then have y: "\<bar>y\<bar> < 1000000" using year_of_day_bound [of d] f(1) by linarith
  have k: "k < 100" using month_lengths_le [of m y] f by linarith
  have m: "m < 100" using f by linarith
  have ok: "date_fields_ok y m k (r div 3600000) (r div 60000 mod 60) (r div 1000 mod 60) (r mod 1000)"
    using f(2-5) time_of_day(1) [OF r] by (simp add: date_fields_ok_def)
  have "iso_string t =
      fields_str y m k (r div 3600000) (r div 60000 mod 60) (r div 1000 mod 60) (r mod 1000)"
    by (simp add: iso_string_def fields_str_def ymk flip: d_def r_def)
  then have "date_parse (iso_string t) = getTime (new_date (Some (d * MS_PER_DAY + int r)))"
    using date_parse_fields [OF y m k time_of_day(1) [OF r] _ _ _ ok] f(6) time_of_day(2) [OF r]
    by simp
  then show ?thesis
    unfolding t using assms by (simp add: new_date_def)
qed

text \<open>\<open>Date.parse(date.toISOString())\<close> is the time value of the date.\<close>

lemma date_parse_toISOString:
  "date_wf d \<Longrightarrow> toISOString d = Some s \<Longrightarrow> date_parse s = getTime d"
  by (cases d) (auto simp: date_wf_def date_parse_iso_string)

lemma date_wf_new_date [simp, wf_simps]: "date_wf (new_date t)"
  by (auto simp: date_wf_def new_date_def split: option.splits)

text \<open>From here on string literals stay folded and are compared as literals.\<close>

declare js_simps(2) [simp del]
declare js_inject [simp]

end
