(* ===== verification/JsNumber.thy ===== *)
theory JsNumber
  imports JsString
begin

text \<open>
  Finite JavaScript numbers. A number is kept as the shortest decimal that reads back to it,
  \<open>Dec m e\<close> for \<open>m * 10 ^ e\<close>: these are the digits \<open>Number::toString\<close> prints, two different
  doubles have different shortest decimals, and their order and their being integers can be
  read off the decimal. Negative zero is identified with zero, which the program never tells
  apart. A literal of more digits than a double holds is kept exactly (the rounding to a double
  is not modelled); the program computes only with integers it has checked to be safe.

  The theory prints a number as \<open>Number::toString\<close> does, reads a JSON number literal, and
  shows that reading inverts printing.
\<close>

datatype jsnum = Dec (mant: int) (expo: int)

text \<open>The decimal in normal form: no trailing zero in the mantissa.\<close>

function norm :: "int \<Rightarrow> int \<Rightarrow> jsnum" where
  "norm m e = (if m = 0 then Dec 0 0 else if m mod 10 = 0 then norm (m div 10) (e + 1) else Dec m e)"
  by pat_completeness auto
termination
  by (relation "measure (\<lambda>(m, e). nat \<bar>m\<bar>)") auto

declare norm.simps [simp del]

definition num_wf :: "jsnum \<Rightarrow> bool" where
  "num_wf x \<longleftrightarrow> (mant x = 0 \<and> expo x = 0) \<or> mant x mod 10 \<noteq> 0"

definition num_of_int :: "int \<Rightarrow> jsnum" where
  "num_of_int n = norm n 0"

text \<open>\<open>Number.isInteger\<close>, the integer a number is, and \<open>Number.isSafeInteger\<close>.\<close>

definition is_integer :: "jsnum \<Rightarrow> bool" where
  "is_integer x \<longleftrightarrow> 0 \<le> expo x"

definition int_of_num :: "jsnum \<Rightarrow> int" where
  "int_of_num x = mant x * 10 ^ nat (expo x)"

definition MAX_SAFE_INTEGER :: int where
  "MAX_SAFE_INTEGER = 2 ^ 53 - 1"

definition safe_int :: "int \<Rightarrow> bool" where
  "safe_int n \<longleftrightarrow> \<bar>n\<bar> \<le> MAX_SAFE_INTEGER"

definition is_safe_integer :: "jsnum \<Rightarrow> bool" where
  "is_safe_integer x \<longleftrightarrow> is_integer x \<and> safe_int (int_of_num x)"

text \<open>The order of two numbers, on a common exponent.\<close>

definition num_le :: "jsnum \<Rightarrow> jsnum \<Rightarrow> bool" where
  "num_le x y \<longleftrightarrow>
     (let k = min (expo x) (expo y)
      in mant x * 10 ^ nat (expo x - k) \<le> mant y * 10 ^ nat (expo y - k))"

definition num_less :: "jsnum \<Rightarrow> jsnum \<Rightarrow> bool" where
  "num_less x y \<longleftrightarrow> \<not> num_le y x"

section \<open>Printing\<close>

definition zeros :: "nat \<Rightarrow> jstr" where
  "zeros n = replicate n (ch CHR ''0'')"

text \<open>\<open>Number::toString\<close>: with \<open>k\<close> digits and the point after the \<open>n\<close>-th.\<close>

definition digits_str :: "jstr \<Rightarrow> int \<Rightarrow> jstr" where
  "digits_str ds n =
     (let k = int (length ds) in
      if k \<le> n \<and> n \<le> 21 then ds @ zeros (nat (n - k))
      else if 0 < n \<and> n \<le> 21 then take (nat n) ds @ js ''.'' @ drop (nat n) ds
      else if -6 < n \<and> n \<le> 0 then js ''0.'' @ zeros (nat (- n)) @ ds
      else (if k = 1 then ds else take 1 ds @ js ''.'' @ drop 1 ds) @
           js ''e'' @ (if 0 < n then js ''+'' else js ''-'') @ dec (nat \<bar>n - 1\<bar>))"

definition num_str :: "jsnum \<Rightarrow> jstr" where
  "num_str x =
     (if mant x = 0 then js ''0''
      else let ds = dec (nat \<bar>mant x\<bar>)
           in (if mant x < 0 then js ''-'' else []) @ digits_str ds (int (length ds) + expo x))"

definition int_str :: "int \<Rightarrow> jstr" where
  "int_str n = num_str (num_of_int n)"

section \<open>Reading a JSON number literal\<close>

definition scan_sign :: "jstr \<Rightarrow> bool \<times> jstr" where
  "scan_sign s = (case s of c # r \<Rightarrow> if c = ch CHR ''-'' then (True, r) else (False, s) | [] \<Rightarrow> (False, s))"

text \<open>The integer part: a zero alone, or digits that do not start with a zero.\<close>

definition scan_int :: "jstr \<Rightarrow> (jstr \<times> jstr) option" where
  "scan_int s =
     (case s of
        [] \<Rightarrow> None
      | c # r \<Rightarrow>
          if c = ch CHR ''0'' then Some ([c], r)
          else if is_digit c then Some (takeWhile is_digit s, dropWhile is_digit s)
          else None)"

definition scan_frac :: "jstr \<Rightarrow> (jstr \<times> jstr) option" where
  "scan_frac s =
     (case s of
        [] \<Rightarrow> Some ([], [])
      | c # r \<Rightarrow>
          if c \<noteq> ch CHR ''.'' then Some ([], s)
          else if takeWhile is_digit r = [] then None
          else Some (takeWhile is_digit r, dropWhile is_digit r))"

definition scan_exp_digits :: "bool \<Rightarrow> jstr \<Rightarrow> (int \<times> jstr) option" where
  "scan_exp_digits neg r =
     (if takeWhile is_digit r = [] then None
      else let e = int (undec (takeWhile is_digit r))
           in Some (if neg then - e else e, dropWhile is_digit r))"

definition scan_exp :: "jstr \<Rightarrow> (int \<times> jstr) option" where
  "scan_exp s =
     (case s of
        [] \<Rightarrow> Some (0, [])
      | c # r \<Rightarrow>
          if c \<noteq> ch CHR ''e'' \<and> c \<noteq> ch CHR ''E'' then Some (0, s)
          else (case r of
                  [] \<Rightarrow> None
                | d # t \<Rightarrow>
                    if d = ch CHR ''-'' then scan_exp_digits True t
                    else if d = ch CHR ''+'' then scan_exp_digits False t
                    else scan_exp_digits False r))"

definition parse_unsigned :: "bool \<Rightarrow> jstr \<Rightarrow> (jsnum \<times> jstr) option" where
  "parse_unsigned neg r0 =
     (case scan_int r0 of
        None \<Rightarrow> None
      | Some (is, r1) \<Rightarrow>
          (case scan_frac r1 of
             None \<Rightarrow> None
           | Some (fs, r2) \<Rightarrow>
               (case scan_exp r2 of
                  None \<Rightarrow> None
                | Some (e, r3) \<Rightarrow>
                    let m = int (undec (is @ fs))
                    in Some (norm (if neg then - m else m) (e - int (length fs)), r3))))"

definition parse_number :: "jstr \<Rightarrow> (jsnum \<times> jstr) option" where
  "parse_number s = (let (neg, r) = scan_sign s in parse_unsigned neg r)"

section \<open>Normal forms\<close>

lemma norm_0 [simp]: "norm 0 e = Dec 0 0"
  by (simp add: norm.simps)

lemma norm_wf: "num_wf (norm m e)"
proof (induction m e rule: norm.induct)
  case (1 m e)
  then show ?case
    by (cases "m = 0"; cases "m mod 10 = 0") (simp_all add: norm.simps [of m e] num_wf_def)
qed

lemma norm_normal: "m mod 10 \<noteq> 0 \<Longrightarrow> norm m e = Dec m e"
  by (cases "m = 0") (simp_all add: norm.simps [of m e])

lemma norm_id: "num_wf x \<Longrightarrow> norm (mant x) (expo x) = x"
  by (cases x) (auto simp: num_wf_def norm_normal)

lemma norm_times_10: "norm (m * 10) e = norm m (e + 1)"
  by (cases "m = 0") (simp_all add: norm.simps [of "m * 10" e])

lemma norm_pow: "norm (m * 10 ^ k) e = norm m (e + int k)"
proof (induction k arbitrary: e)
  case (Suc k)
  have "norm (m * 10 ^ Suc k) e = norm ((m * 10 ^ k) * 10) e"
    by (simp add: ac_simps)
  also have "\<dots> = norm m (e + int (Suc k))"
    by (simp only: norm_times_10 Suc) (simp add: ac_simps)
  finally show ?case .
qed simp

lemma norm_expo: "e \<le> expo (norm m e) \<or> m = 0"
proof (induction m e rule: norm.induct)
  case (1 m e)
  then show ?case
    by (cases "m = 0"; cases "m mod 10 = 0") (auto simp: norm.simps [of m e])
qed

lemma norm_value: "m \<noteq> 0 \<Longrightarrow> mant (norm m e) * 10 ^ nat (expo (norm m e) - e) = m"
proof (induction m e rule: norm.induct)
  case (1 m e)
  show ?case
  proof (cases "m mod 10 = 0")
    case False
    then show ?thesis by (simp add: norm_normal)
  next
    case True
    let ?x = "norm (m div 10) (e + 1)"
    from True "1.prems" have nz: "m div 10 \<noteq> 0" by auto
    have le: "e + 1 \<le> expo ?x"
      using norm_expo [of "e + 1" "m div 10"] nz by auto
    have eq: "norm m e = ?x"
      using True "1.prems" by (simp add: norm.simps [of m e])
    have "nat (expo ?x - e) = Suc (nat (expo ?x - (e + 1)))"
      using le by arith
    then have "mant ?x * 10 ^ nat (expo ?x - e) = (m div 10) * 10"
      using "1.IH" [OF "1.prems" True nz] by (simp add: ac_simps)
    also have "\<dots> = m" using True by auto
    finally show ?thesis by (simp add: eq)
  qed
qed

lemma num_of_int_wf [simp, wf_simps]: "num_wf (num_of_int n)"
  by (simp add: num_of_int_def norm_wf)

lemma is_integer_num_of_int [simp]: "is_integer (num_of_int n)"
  using norm_expo [of 0 n] by (auto simp: is_integer_def num_of_int_def)

lemma int_of_num_of_int [simp]: "int_of_num (num_of_int n) = n"
  using norm_value [of n 0]
  by (cases "n = 0") (simp_all add: int_of_num_def num_of_int_def)

lemma num_of_int_inject [simp]: "num_of_int m = num_of_int n \<longleftrightarrow> m = n"
  by (metis int_of_num_of_int)

lemma num_of_int_of_num:
  assumes "num_wf x" "is_integer x"
  shows "num_of_int (int_of_num x) = x"
  using norm_pow [of "mant x" "nat (expo x)" 0] norm_id [of x] assms
  by (simp add: num_of_int_def int_of_num_def is_integer_def)

lemma is_safe_num_of_int [simp]: "is_safe_integer (num_of_int n) \<longleftrightarrow> safe_int n"
  by (simp add: is_safe_integer_def)

lemma num_le_ints:
  assumes "is_integer x" "is_integer y"
  shows "num_le x y \<longleftrightarrow> int_of_num x \<le> int_of_num y"
proof -
  let ?k = "min (expo x) (expo y)"
  have k: "0 \<le> ?k" using assms by (simp add: is_integer_def)
  have "int_of_num z = mant z * 10 ^ nat (expo z - ?k) * 10 ^ nat ?k" if "?k \<le> expo z" for z
  proof -
    have "nat (expo z) = nat (expo z - ?k) + nat ?k" using k that by arith
    then show ?thesis by (simp add: int_of_num_def power_add)
  qed
  then show ?thesis by (simp add: num_le_def Let_def)
qed

section \<open>Reading inverts printing\<close>

text \<open>What follows a number in JSON text never continues it.\<close>

definition number_end :: "jstr \<Rightarrow> bool" where
  "number_end s \<longleftrightarrow> s = [] \<or>
     (\<not> is_digit (hd s) \<and> hd s \<noteq> ch CHR ''.'' \<and> hd s \<noteq> ch CHR ''e'' \<and> hd s \<noteq> ch CHR ''E'')"

lemma is_digit_ch:
  "is_digit (ch CHR ''.'') = False" "is_digit (ch CHR ''e'') = False" "is_digit (ch CHR ''E'') = False"
  "is_digit (ch CHR ''-'') = False" "is_digit (ch CHR ''+'') = False" "is_digit (ch CHR '','') = False"
  "is_digit (ch CHR '']'') = False" "is_digit (ch CHR ''}'') = False" "is_digit (ch CHR ''0'') = True"
  "is_digit (ch CHR '':'') = False"
  by (simp_all add: is_digit_def ch_def)

lemma dec_shape:
  assumes "0 < n"
  obtains c t where "dec n = c # t" "c \<noteq> ch CHR ''0''" "is_digit c" "list_all is_digit t"
    "c \<noteq> ch CHR ''-''" "c \<noteq> ch CHR ''+''"
proof (cases "dec n")
  case (Cons c t)
  have "c \<noteq> ch CHR ''0''" using hd_dec_zero [of n] Cons assms by simp
  moreover have "is_digit c" "list_all is_digit t" using dec_digits [of n] Cons by simp_all
  moreover have "c \<noteq> ch CHR ''-''" "c \<noteq> ch CHR ''+''"
    using \<open>is_digit c\<close> is_digit_ch by metis+
  ultimately show ?thesis using that Cons by blast
qed simp

lemma scan_int_digits:
  assumes "c \<noteq> ch CHR ''0''" "is_digit c" "list_all is_digit t" "r = [] \<or> \<not> is_digit (hd r)"
  shows "scan_int (c # t @ r) = Some (c # t, r)"
  using assms by (simp add: scan_int_def takeWhile_append_stop dropWhile_append_stop)

lemma scan_frac_digits:
  assumes "list_all is_digit t" "t \<noteq> []" "r = [] \<or> \<not> is_digit (hd r)"
  shows "scan_frac (ch CHR ''.'' # t @ r) = Some (t, r)"
  using assms by (simp add: scan_frac_def takeWhile_append_stop dropWhile_append_stop)

lemma scan_frac_none: "r = [] \<or> hd r \<noteq> ch CHR ''.'' \<Longrightarrow> scan_frac r = Some ([], r)"
  by (auto simp: scan_frac_def split: list.splits)

lemma scan_exp_none:
  "r = [] \<or> (hd r \<noteq> ch CHR ''e'' \<and> hd r \<noteq> ch CHR ''E'') \<Longrightarrow> scan_exp r = Some (0, r)"
  by (auto simp: scan_exp_def split: list.splits)

lemma scan_exp_dec:
  assumes "r = [] \<or> \<not> is_digit (hd r)"
  shows "scan_exp (ch CHR ''e'' # ch CHR ''+'' # dec n @ r) = Some (int n, r)"
    and "scan_exp (ch CHR ''e'' # ch CHR ''-'' # dec n @ r) = Some (- int n, r)"
  using assms dec_digits [of n]
  by (simp_all add: scan_exp_def scan_exp_digits_def takeWhile_append_stop dropWhile_append_stop
      undec_dec)

definition with_sign :: "bool \<Rightarrow> nat \<Rightarrow> int" where
  "with_sign neg a = (if neg then - int a else int a)"

lemma with_sign_scale: "with_sign neg (a * 10 ^ k) = with_sign neg a * 10 ^ k"
  by (simp add: with_sign_def)

lemma parse_unsignedI:
  assumes "scan_int s = Some (is, r1)" "scan_frac r1 = Some (fs, r2)" "scan_exp r2 = Some (e, r3)"
  shows "parse_unsigned neg s = Some (norm (with_sign neg (undec (is @ fs))) (e - int (length fs)), r3)"
  using assms by (simp add: parse_unsigned_def with_sign_def)

text \<open>What may follow a number is no part of it.\<close>

lemma number_end_scans:
  assumes "number_end rest"
  shows "scan_frac rest = Some ([], rest)" "scan_exp rest = Some (0, rest)" "rest = [] \<or> \<not> is_digit (hd rest)"
  using assms [unfolded number_end_def] is_digit_ch by (auto intro!: scan_frac_none scan_exp_none)

text \<open>The four layouts of \<open>Number::toString\<close>.\<close>

lemma parse_digits_whole:
  assumes a: "0 < a" and rest: "number_end rest"
    and whole: "int (length (dec a)) \<le> int (length (dec a)) + e" "int (length (dec a)) + e \<le> 21"
  shows "parse_unsigned neg (digits_str (dec a) (int (length (dec a)) + e) @ rest) =
    Some (norm (with_sign neg a) e, rest)"
proof -
  let ?n = "int (length (dec a)) + e"
  obtain c t where ds: "dec a = c # t" and c: "c \<noteq> ch CHR ''0''" "is_digit c" "list_all is_digit t"
    using dec_shape [OF a] by metis
  have val: "undec (c # t) = a" using undec_dec [of a] ds by simp
  note ends = rest [unfolded number_end_def] is_digit_ch
  note frac_rest = number_end_scans(1) [OF rest] and exp_rest = number_end_scans(2) [OF rest]
    and stop = number_end_scans(3) [OF rest]
  have e: "0 \<le> e" using whole by simp
  have str: "digits_str (dec a) ?n = c # (t @ zeros (nat e))"
    using whole ds by (simp add: digits_str_def Let_def)
  have "scan_int (c # (t @ zeros (nat e)) @ rest) = Some (c # t @ zeros (nat e), rest)"
    by (rule scan_int_digits) (use c stop in \<open>auto simp: zeros_def list_all_digits_zeros\<close>)
  from parse_unsignedI [OF this frac_rest exp_rest]
  have "parse_unsigned neg (c # (t @ zeros (nat e)) @ rest) =
      Some (norm (with_sign neg (undec ((c # t) @ zeros (nat e)))) 0, rest)"
    by simp
  also have "norm (with_sign neg (undec ((c # t) @ zeros (nat e)))) 0 = norm (with_sign neg a) e"
    unfolding zeros_def undec_append_zeros val with_sign_scale norm_pow using e by simp
  finally show ?thesis by (simp add: str)
qed

lemma parse_digits_point:
  assumes a: "0 < a" and rest: "number_end rest"
    and point: "\<not> int (length (dec a)) \<le> int (length (dec a)) + e" "0 < int (length (dec a)) + e" "int (length (dec a)) + e \<le> 21"
  shows "parse_unsigned neg (digits_str (dec a) (int (length (dec a)) + e) @ rest) =
    Some (norm (with_sign neg a) e, rest)"
proof -
  let ?n = "int (length (dec a)) + e"
  obtain c t where ds: "dec a = c # t" and c: "c \<noteq> ch CHR ''0''" "is_digit c" "list_all is_digit t"
    using dec_shape [OF a] by metis
  have val: "undec (c # t) = a" using undec_dec [of a] ds by simp
  note ends = rest [unfolded number_end_def] is_digit_ch
  note frac_rest = number_end_scans(1) [OF rest] and exp_rest = number_end_scans(2) [OF rest]
    and stop = number_end_scans(3) [OF rest]
  let ?p = "nat ?n"
  have p: "0 < ?p" "?p < length (dec a)" using point by auto
  have str: "digits_str (dec a) ?n = take ?p (dec a) @ js ''.'' @ drop ?p (dec a)"
    using point by (simp add: digits_str_def Let_def)
  have tk: "take ?p (dec a) = c # take (?p - 1) t"
    using ds p by (cases ?p) simp_all
  have dr: "drop ?p (dec a) \<noteq> []" "list_all is_digit (drop ?p (dec a))"
    using p dec_digits [of a] by (auto simp: list_all_iff dest: in_set_dropD)
  let ?r = "js ''.'' @ drop ?p (dec a) @ rest"
  have "scan_int (c # take (?p - 1) t @ ?r) = Some (c # take (?p - 1) t, ?r)"
    by (rule scan_int_digits)
      (use c ends in \<open>auto simp: list_all_iff dest: in_set_takeD\<close>)
  moreover have "scan_frac ?r = Some (drop ?p (dec a), rest)"
    using scan_frac_digits [OF dr(2) dr(1) stop] by simp
  ultimately have "parse_unsigned neg (c # take (?p - 1) t @ ?r) =
      Some (norm (with_sign neg (undec (take ?p (dec a) @ drop ?p (dec a)))) (0 - int (length (drop ?p (dec a)))), rest)"
    using parse_unsignedI [OF _ _ exp_rest] tk by metis
  also have "undec (take ?p (dec a) @ drop ?p (dec a)) = a"
    by (simp only: append_take_drop_id undec_dec)
  also have "0 - int (length (drop ?p (dec a))) = e" using p by simp
  finally show ?thesis by (simp add: str tk)
qed

lemma parse_digits_small:
  assumes a: "0 < a" and rest: "number_end rest"
    and small: "-6 < int (length (dec a)) + e" "int (length (dec a)) + e \<le> 0"
  shows "parse_unsigned neg (digits_str (dec a) (int (length (dec a)) + e) @ rest) =
    Some (norm (with_sign neg a) e, rest)"
proof -
  let ?n = "int (length (dec a)) + e"
  obtain c t where ds: "dec a = c # t" and c: "c \<noteq> ch CHR ''0''" "is_digit c" "list_all is_digit t"
    using dec_shape [OF a] by metis
  have val: "undec (c # t) = a" using undec_dec [of a] ds by simp
  note ends = rest [unfolded number_end_def] is_digit_ch
  note frac_rest = number_end_scans(1) [OF rest] and exp_rest = number_end_scans(2) [OF rest]
    and stop = number_end_scans(3) [OF rest]
  let ?z = "zeros (nat (- ?n))"
  have str: "digits_str (dec a) ?n = ch CHR ''0'' # ch CHR ''.'' # ?z @ dec a"
    using small ds by (simp add: digits_str_def Let_def)
  have "scan_int (ch CHR ''0'' # ch CHR ''.'' # (?z @ dec a) @ rest) =
      Some ([ch CHR ''0''], ch CHR ''.'' # (?z @ dec a) @ rest)"
    by (simp add: scan_int_def)
  moreover have "scan_frac (ch CHR ''.'' # (?z @ dec a) @ rest) = Some (?z @ dec a, rest)"
    by (rule scan_frac_digits) (use stop dec_digits [of a] in \<open>simp_all add: zeros_def list_all_digits_zeros\<close>)
  ultimately have "parse_unsigned neg (ch CHR ''0'' # ch CHR ''.'' # (?z @ dec a) @ rest) =
      Some (norm (with_sign neg (undec ([ch CHR ''0''] @ ?z @ dec a))) (0 - int (length (?z @ dec a))), rest)"
    using parse_unsignedI [OF _ _ exp_rest] by metis
  also have "undec ([ch CHR ''0''] @ ?z @ dec a) = a"
    using undec_zeros_append [of "Suc (nat (- ?n))" "dec a"] by (simp add: zeros_def undec_dec)
  also have "0 - int (length (?z @ dec a)) = e" using small by (simp add: zeros_def)
  finally show ?thesis by (simp add: str)
qed

lemma parse_digits_sci:
  assumes a: "0 < a" and rest: "number_end rest"
    and sci: "\<not> (int (length (dec a)) \<le> int (length (dec a)) + e \<and> int (length (dec a)) + e \<le> 21)"
      "\<not> (0 < int (length (dec a)) + e \<and> int (length (dec a)) + e \<le> 21)"
      "\<not> (-6 < int (length (dec a)) + e \<and> int (length (dec a)) + e \<le> 0)"
  shows "parse_unsigned neg (digits_str (dec a) (int (length (dec a)) + e) @ rest) =
    Some (norm (with_sign neg a) e, rest)"
proof -
  let ?n = "int (length (dec a)) + e"
  obtain c t where ds: "dec a = c # t" and c: "c \<noteq> ch CHR ''0''" "is_digit c" "list_all is_digit t"
    using dec_shape [OF a] by metis
  have val: "undec (c # t) = a" using undec_dec [of a] ds by simp
  note ends = rest [unfolded number_end_def] is_digit_ch
  note frac_rest = number_end_scans(1) [OF rest] and exp_rest = number_end_scans(2) [OF rest]
    and stop = number_end_scans(3) [OF rest]
  let ?x = "js ''e'' @ (if 0 < ?n then js ''+'' else js ''-'') @ dec (nat \<bar>?n - 1\<bar>) @ rest"
  have exp: "scan_exp ?x = Some (?n - 1, rest)"
    using scan_exp_dec [OF stop, of "nat \<bar>?n - 1\<bar>"] by auto
  show ?thesis
  proof (cases t)
    case Nil
    have str: "digits_str (dec a) ?n @ rest = c # [] @ ?x"
      using sci ds Nil by (auto simp: digits_str_def Let_def)
    have "scan_int (c # [] @ ?x) = Some (c # [], ?x)"
      by (rule scan_int_digits) (use c ends in auto)
    moreover have "scan_frac ?x = Some ([], ?x)"
      by (rule scan_frac_none) simp
    ultimately have "parse_unsigned neg (c # [] @ ?x) =
        Some (norm (with_sign neg (undec ((c # []) @ []))) (?n - 1 - int (length ([] :: jstr))), rest)"
      using parse_unsignedI [OF _ _ exp] by blast
    moreover have "?n - 1 - int (length ([] :: jstr)) = e" using ds Nil by simp
    ultimately show ?thesis using str val Nil by simp
  next
    case (Cons d u)
    have str: "digits_str (dec a) ?n @ rest = c # [] @ js ''.'' @ t @ ?x"
      using sci ds Cons by (auto simp: digits_str_def Let_def)
    have "scan_int (c # [] @ js ''.'' @ t @ ?x) = Some (c # [], js ''.'' @ t @ ?x)"
      by (rule scan_int_digits) (use c ends in auto)
    moreover have "scan_frac (js ''.'' @ t @ ?x) = Some (t, ?x)"
      using scan_frac_digits [of t ?x] c Cons ends by simp
    ultimately have "parse_unsigned neg (c # [] @ js ''.'' @ t @ ?x) =
        Some (norm (with_sign neg (undec ((c # []) @ t))) (?n - 1 - int (length t)), rest)"
      using parse_unsignedI [OF _ _ exp] by blast
    moreover have "?n - 1 - int (length t) = e" using ds by simp
    ultimately show ?thesis using str val by simp
  qed
qed

lemma parse_unsigned_digits:
  assumes "0 < a" "number_end rest"
  shows "parse_unsigned neg (digits_str (dec a) (int (length (dec a)) + e) @ rest) =
    Some (norm (with_sign neg a) e, rest)"
proof -
  let ?k = "int (length (dec a))" and ?n = "int (length (dec a)) + e"
  consider (whole) "?k \<le> ?n" "?n \<le> 21" | (point) "\<not> ?k \<le> ?n" "0 < ?n" "?n \<le> 21"
    | (small) "-6 < ?n" "?n \<le> 0" | (sci) "\<not> (?k \<le> ?n \<and> ?n \<le> 21)" "\<not> (0 < ?n \<and> ?n \<le> 21)" "\<not> (-6 < ?n \<and> ?n \<le> 0)"
    by linarith
  then show ?thesis
  proof cases
    case whole
    then show ?thesis by (rule parse_digits_whole [OF assms])
  next
    case point
    then show ?thesis by (rule parse_digits_point [OF assms])
  next
    case small
    then show ?thesis by (rule parse_digits_small [OF assms])
  next
    case sci
    then show ?thesis by (rule parse_digits_sci [OF assms])
  qed
qed

text \<open>Reading back the text of a number, whatever follows it in the JSON text.\<close>

lemma parse_number_num_str:
  assumes wf: "num_wf x" and rest: "number_end rest"
  shows "parse_number (num_str x @ rest) = Some (x, rest)"
proof (cases "mant x = 0")
  case True
  have "scan_frac rest = Some ([], rest)" "scan_exp rest = Some (0, rest)"
    using rest by (auto simp: number_end_def intro!: scan_frac_none scan_exp_none)
  then have "parse_unsigned False (ch CHR ''0'' # rest) = Some (norm 0 0, rest)"
    using parse_unsignedI [of "ch CHR ''0'' # rest" "[ch CHR ''0'']" rest "[]" rest 0 rest False]
    by (simp add: scan_int_def with_sign_def undec_def)
  with True wf show ?thesis
    by (cases x) (auto simp: parse_number_def num_str_def scan_sign_def num_wf_def)
next
  case False
  let ?a = "nat \<bar>mant x\<bar>" and ?neg = "mant x < 0"
  let ?ds = "dec ?a"
  let ?body = "digits_str ?ds (int (length ?ds) + expo x) @ rest"
  have a: "0 < ?a" using False by simp
  have m: "with_sign ?neg ?a = mant x" by (simp add: with_sign_def)
  have "scan_sign ((if ?neg then js ''-'' else []) @ ?body) = (?neg, ?body)"
  proof (cases ?neg)
    case False
    obtain c t where "?ds = c # t" "c \<noteq> ch CHR ''-''" using dec_shape [OF a] by metis
    then have "?body \<noteq> []" "hd ?body \<noteq> ch CHR ''-''"
      by (auto simp: digits_str_def Let_def take_Cons' split: if_splits)
    with False show ?thesis by (cases ?body) (simp_all add: scan_sign_def)
  qed (simp add: scan_sign_def)
  then have "parse_number (num_str x @ rest) = parse_unsigned ?neg ?body"
    using False by (simp add: parse_number_def num_str_def Let_def)
  also have "\<dots> = Some (norm (mant x) (expo x), rest)"
    using parse_unsigned_digits [OF a rest] m by simp
  finally show ?thesis using wf by (simp add: norm_id)
qed

lemma num_str_inject:
  assumes "num_wf x" "num_wf y" "num_str x = num_str y"
  shows "x = y"
  using parse_number_num_str [of x "[]"] parse_number_num_str [of y "[]"] assms
  by (simp add: number_end_def)

lemma num_str_nonempty [simp]: "num_str x \<noteq> []"
  by (auto simp: num_str_def digits_str_def Let_def zeros_def)

text \<open>The first code unit of a printed number: what the JSON reader dispatches on.\<close>

lemma hd_num_str: "is_digit (hd (num_str x)) \<or> hd (num_str x) = ch CHR ''-''"
proof (cases "mant x = 0 \<or> mant x < 0")
  case True
  then show ?thesis by (auto simp: num_str_def is_digit_ch Let_def)
next
  case False
  then have "0 < nat \<bar>mant x\<bar>" by simp
  then obtain c t where "dec (nat \<bar>mant x\<bar>) = c # t" "is_digit c"
    using dec_shape by metis
  with False show ?thesis
    by (auto simp: num_str_def digits_str_def Let_def is_digit_ch take_Cons')
qed

end
