(* ===== verification/Json.thy ===== *)
theory Json
  imports JsNumber "HOL-Library.AList" "HOL-Library.Multiset" "HOL-Library.Monad_Syntax"
begin

text \<open>
  JSON values as JavaScript holds them, \<open>JSON.stringify\<close> and \<open>JSON.parse\<close>.

  An object is the list of its own properties in property order. \<open>js_obj\<close> is that order: a
  repeated key keeps its place and takes the last value, keys that are array indices come first
  in ascending order, the others in order of insertion. \<open>json_wf\<close> says that every object of a
  value is in that order and every number is in normal form, which holds of every JavaScript
  value. The main fact is that \<open>JSON.parse\<close> inverts \<open>JSON.stringify\<close> on such values.
\<close>

datatype json =
    JNull
  | JBool bool
  | JNum jsnum
  | JStr jstr
  | JArr "json list"
  | JObj "(jstr \<times> json) list"

abbreviation JInt :: "int \<Rightarrow> json" where
  "JInt n \<equiv> JNum (num_of_int n)"

text \<open>\<open>value[key]\<close> on an object: \<open>None\<close> is \<open>undefined\<close>.\<close>

fun get :: "string \<Rightarrow> json \<Rightarrow> json option" where
  "get k (JObj fs) = map_of fs (js k)"
| "get k _ = None"

section \<open>JSON.stringify\<close>

definition hex_digit :: "nat \<Rightarrow> cu" where
  "hex_digit n = (if n < 10 then digit n else ch CHR ''a'' + of_nat (n - 10))"

text \<open>The escape \<open>\uXXXX\<close> of a code unit.\<close>

definition unicode_escape :: "cu \<Rightarrow> jstr" where
  "unicode_escape c =
     (let n = unat c in
      [ch CHR 0x5C, ch CHR ''u'', hex_digit (n div 4096), hex_digit (n div 256 mod 16),
       hex_digit (n div 16 mod 16), hex_digit (n mod 16)])"

abbreviation backslash :: cu where
  "backslash \<equiv> ch CHR 0x5C"

abbreviation quotation :: cu where
  "quotation \<equiv> ch CHR 0x22"

definition is_surrogate :: "cu \<Rightarrow> bool" where
  "is_surrogate c \<longleftrightarrow> is_high_surrogate c \<or> is_low_surrogate c"

definition esc :: "cu \<Rightarrow> jstr" where
  "esc c =
     (if c = quotation then [backslash, quotation]
      else if c = backslash then [backslash, backslash]
      else if c = 8 then [backslash, ch CHR ''b'']
      else if c = 12 then [backslash, ch CHR ''f'']
      else if c = 10 then [backslash, ch CHR ''n'']
      else if c = 13 then [backslash, ch CHR ''r'']
      else if c = 9 then [backslash, ch CHR ''t'']
      else if c < 0x20 \<or> is_surrogate c then unicode_escape c
      else [c])"

text \<open>A surrogate pair is kept, a lone surrogate is escaped.\<close>

fun quote_units :: "jstr \<Rightarrow> jstr" where
  "quote_units [] = []"
| "quote_units [c] = esc c"
| "quote_units (c # d # s) =
     (if is_high_surrogate c \<and> is_low_surrogate d then c # d # quote_units s
      else esc c @ quote_units (d # s))"

definition quote :: "jstr \<Rightarrow> jstr" where
  "quote s = quotation # quote_units s @ [quotation]"

text \<open>\<open>JSON.stringify(value)\<close>, without indentation.\<close>

fun stringify :: "json \<Rightarrow> jstr" where
  "stringify JNull = js ''null''"
| "stringify (JBool b) = (if b then js ''true'' else js ''false'')"
| "stringify (JNum n) = num_str n"
| "stringify (JStr s) = quote s"
| "stringify (JArr vs) = js ''['' @ join (js '','') (map stringify vs) @ js '']''"
| "stringify (JObj fs) =
     js ''{'' @ join (js '','') (map (\<lambda>(k, v). quote k @ js '':'' @ stringify v) fs) @ js ''}''"

section \<open>JSON.parse\<close>

definition is_json_space :: "cu \<Rightarrow> bool" where
  "is_json_space c \<longleftrightarrow> c = 0x20 \<or> c = 0x9 \<or> c = 0xA \<or> c = 0xD"

definition skip_ws :: "jstr \<Rightarrow> jstr" where
  "skip_ws s = dropWhile is_json_space s"

text \<open>The given code unit, after white space.\<close>

definition expect :: "cu \<Rightarrow> jstr \<Rightarrow> jstr option" where
  "expect c s = (case skip_ws s of [] \<Rightarrow> None | d # r \<Rightarrow> if d = c then Some r else None)"

definition hex_val :: "cu \<Rightarrow> nat option" where
  "hex_val c =
     (if is_digit c then Some (digit_val c)
      else if ch CHR ''a'' \<le> c \<and> c \<le> ch CHR ''f'' then Some (unat (c - ch CHR ''a'') + 10)
      else if ch CHR ''A'' \<le> c \<and> c \<le> ch CHR ''F'' then Some (unat (c - ch CHR ''A'') + 10)
      else None)"

definition unescape :: "cu \<Rightarrow> cu option" where
  "unescape d =
     (if d = quotation then Some quotation
      else if d = backslash then Some backslash
      else if d = ch CHR ''/'' then Some (ch CHR ''/'')
      else if d = ch CHR ''b'' then Some 8
      else if d = ch CHR ''f'' then Some 12
      else if d = ch CHR ''n'' then Some 10
      else if d = ch CHR ''r'' then Some 13
      else if d = ch CHR ''t'' then Some 9
      else None)"

definition hex4 :: "jstr \<Rightarrow> (cu \<times> jstr) option" where
  "hex4 s =
     (case s of
        a # b # c # d # r \<Rightarrow>
          do { w \<leftarrow> hex_val a; x \<leftarrow> hex_val b; y \<leftarrow> hex_val c; z \<leftarrow> hex_val d;
               Some (of_nat (4096 * w + 256 * x + 16 * y + z), r) }
      | _ \<Rightarrow> None)"

text \<open>One element of a string literal, escape or code unit; \<open>None\<close> at the closing quotation mark.\<close>

definition scan_unit :: "jstr \<Rightarrow> (cu \<times> jstr) option" where
  "scan_unit s =
     (case s of
        [] \<Rightarrow> None
      | c # r \<Rightarrow>
          if c = quotation \<or> c < 0x20 then None
          else if c = backslash then
            (case r of
               [] \<Rightarrow> None
             | d # t \<Rightarrow>
                 if d = ch CHR ''u'' then hex4 t else map_option (\<lambda>x. (x, t)) (unescape d))
          else Some (c, r))"

lemma hex4_length: "hex4 s = Some (c, r) \<Longrightarrow> length r < length s"
  by (auto simp: hex4_def Option.bind_eq_Some_conv split: list.splits)

lemma scan_unit_length: "scan_unit s = Some (c, r) \<Longrightarrow> length r < length s"
  by (auto simp: scan_unit_def split: list.splits if_splits dest!: hex4_length)

function scan_string :: "jstr \<Rightarrow> (jstr \<times> jstr) option" where
  "scan_string s =
     (case scan_unit s of
        Some (c, r) \<Rightarrow> map_option (\<lambda>(t, u). (c # t, u)) (scan_string r)
      | None \<Rightarrow> (case s of [] \<Rightarrow> None | c # r \<Rightarrow> if c = quotation then Some ([], r) else None))"
  by pat_completeness auto
termination
  by (relation "measure length") (auto dest: scan_unit_length)

declare scan_string.simps [simp del]

text \<open>
  Values, members of an object after its brace and elements of an array after its bracket. The
  first argument bounds the nesting of calls. One more than twice the length of the text is
  enough: between two calls of \<open>parse_value\<close> on the way down a code unit is consumed, and there
  is at most one call of the other two between them (\<open>reads_back_all\<close> below).
\<close>

fun parse_value :: "nat \<Rightarrow> jstr \<Rightarrow> (json \<times> jstr) option"
  and parse_members :: "nat \<Rightarrow> jstr \<Rightarrow> ((jstr \<times> json) list \<times> jstr) option"
  and parse_elems :: "nat \<Rightarrow> jstr \<Rightarrow> (json list \<times> jstr) option" where
  "parse_value 0 s = None"
| "parse_value (Suc f) s =
     (case skip_ws s of
        [] \<Rightarrow> None
      | c # r \<Rightarrow>
          if c = ch CHR ''{'' then
            (case expect (ch CHR ''}'') r of
               Some t \<Rightarrow> Some (JObj [], t)
             | None \<Rightarrow> map_option (\<lambda>(fs, t). (JObj fs, t)) (parse_members f r))
          else if c = ch CHR ''['' then
            (case expect (ch CHR '']'') r of
               Some t \<Rightarrow> Some (JArr [], t)
             | None \<Rightarrow> map_option (\<lambda>(vs, t). (JArr vs, t)) (parse_elems f r))
          else if c = quotation then map_option (\<lambda>(x, t). (JStr x, t)) (scan_string r)
          else if prefix (js ''true'') (c # r) then Some (JBool True, drop 4 (c # r))
          else if prefix (js ''false'') (c # r) then Some (JBool False, drop 5 (c # r))
          else if prefix (js ''null'') (c # r) then Some (JNull, drop 4 (c # r))
          else map_option (\<lambda>(n, t). (JNum n, t)) (parse_number (c # r)))"
| "parse_members 0 s = None"
| "parse_members (Suc f) s =
     do { r \<leftarrow> expect quotation s;
          (k, t) \<leftarrow> scan_string r;
          u \<leftarrow> expect (ch CHR '':'') t;
          (v, w) \<leftarrow> parse_value f u;
          (case expect (ch CHR ''}'') w of
             Some x \<Rightarrow> Some ([(k, v)], x)
           | None \<Rightarrow>
               do { x \<leftarrow> expect (ch CHR '','') w;
                    (fs, y) \<leftarrow> parse_members f x;
                    Some ((k, v) # fs, y) }) }"
| "parse_elems 0 s = None"
| "parse_elems (Suc f) s =
     do { (v, w) \<leftarrow> parse_value f s;
          (case expect (ch CHR '']'') w of
             Some x \<Rightarrow> Some ([v], x)
           | None \<Rightarrow>
               do { x \<leftarrow> expect (ch CHR '','') w;
                    (vs, y) \<leftarrow> parse_elems f x;
                    Some (v # vs, y) }) }"

definition parse_text :: "jstr \<Rightarrow> json option" where
  "parse_text s =
     do { (v, r) \<leftarrow> parse_value (Suc (2 * length s)) s;
          if skip_ws r = [] then Some v else None }"

text \<open>The property order of a JavaScript object built from these entries in turn.\<close>

definition is_array_index :: "jstr \<Rightarrow> bool" where
  "is_array_index k \<longleftrightarrow> k = dec (undec k) \<and> undec k < 2 ^ 32 - 1"

definition js_obj :: "(jstr \<times> 'a) list \<Rightarrow> (jstr \<times> 'a) list" where
  "js_obj es =
     (let ps = foldl (\<lambda>ps (k, v). AList.update k v ps) [] es
      in sort_key (\<lambda>(k, v). undec k) (filter (\<lambda>(k, v). is_array_index k) ps) @
         filter (\<lambda>(k, v). \<not> is_array_index k) ps)"

fun js_value :: "json \<Rightarrow> json" where
  "js_value (JArr vs) = JArr (map js_value vs)"
| "js_value (JObj fs) = JObj (js_obj (map (\<lambda>(k, v). (k, js_value v)) fs))"
| "js_value v = v"

text \<open>\<open>JSON.parse(text)\<close>; \<open>None\<close> when it throws a \<open>SyntaxError\<close>.\<close>

definition json_parse :: "jstr \<Rightarrow> json option" where
  "json_parse s = map_option js_value (parse_text s)"

section \<open>Well-formed values\<close>

fun nums_wf :: "json \<Rightarrow> bool" where
  "nums_wf (JNum n) = num_wf n"
| "nums_wf (JArr vs) = list_all nums_wf vs"
| "nums_wf (JObj fs) = list_all (\<lambda>(k, v). nums_wf v) fs"
| "nums_wf _ = True"

fun json_wf :: "json \<Rightarrow> bool" where
  "json_wf (JNum n) = num_wf n"
| "json_wf (JArr vs) = list_all json_wf vs"
| "json_wf (JObj fs) = (list_all (\<lambda>(k, v). json_wf v) fs \<and> js_obj fs = fs)"
| "json_wf _ = True"

section \<open>Strings read back\<close>

lemma hex_val_digit:
  assumes "n < 16"
  shows "hex_val (hex_digit n) = Some n"
proof -
  from assms have "n \<in> {0, 1, 2, 3, 4, 5, 6, 7, 8, 9, 10, 11, 12, 13, 14, 15}"
    by (simp only: insert_iff empty_iff) presburger
  then show ?thesis
    by (elim insertE emptyE)
      (simp_all add: hex_val_def hex_digit_def digit_def digit_val_def is_digit_def ch_def)
qed

lemma hex_digits_sum:
  "n = 4096 * (n div 4096) + 256 * (n div 256 mod 16) + 16 * (n div 16 mod 16) + n mod 16"
  for n :: nat
proof -
  have split: "m = 16 * (m div 16) + m mod 16" for m :: nat by simp
  have d: "n div 256 = n div 16 div 16" "n div 4096 = n div 256 div 16"
    by (simp_all flip: div_mult2_eq)
  have "n div 256 = 16 * (n div 4096) + n div 256 mod 16"
    unfolding d(2) by (rule split)
  moreover have "n div 16 = 16 * (n div 256) + n div 16 mod 16"
    unfolding d(1) by (rule split)
  moreover note split [of n]
  ultimately show ?thesis by linarith
qed

lemma hex4_unicode_escape:
  "unicode_escape c = backslash # ch CHR ''u'' # t \<Longrightarrow> hex4 (t @ r) = Some (c, r)"
proof -
  assume eq: "unicode_escape c = backslash # ch CHR ''u'' # t"
  let ?n = "unat c"
  have "?n < 2 ^ 16" using unsigned_less [of c] by simp
  then have lt: "?n div 4096 < 16" by simp
  have "of_nat (4096 * (?n div 4096) + 256 * (?n div 256 mod 16) + 16 * (?n div 16 mod 16) + ?n mod 16) = c"
    by (subst hex_digits_sum [symmetric]) simp
  with eq lt show ?thesis
    by (auto simp: unicode_escape_def Let_def hex4_def hex_val_digit)
qed

lemma quotation_neq [simp]:
  "quotation \<noteq> backslash" "backslash \<noteq> quotation"
  by simp_all

lemma scan_unit_esc: "scan_unit (esc c @ r) = Some (c, r)"
proof -
  have uni: "scan_unit (unicode_escape c @ r) = Some (c, r)"
  proof -
    obtain t where t: "unicode_escape c = backslash # ch CHR ''u'' # t"
      by (simp add: unicode_escape_def Let_def)
    from hex4_unicode_escape [OF t] show ?thesis
      by (simp add: t scan_unit_def ch_def)
  qed
  consider "c = quotation" | "c = backslash" | "c = 8" | "c = 12" | "c = 10" | "c = 13" | "c = 9"
    | "c \<notin> {quotation, backslash, 8, 12, 10, 13, 9}"
    by blast
  then show ?thesis
  proof cases
    case 8
    then show ?thesis using uni by (auto simp: esc_def scan_unit_def)
  qed (simp_all add: esc_def scan_unit_def unescape_def ch_def)
qed

lemma scan_unit_raw:
  "c \<noteq> quotation \<Longrightarrow> c \<noteq> backslash \<Longrightarrow> 0x20 \<le> c \<Longrightarrow> scan_unit (c # r) = Some (c, r)"
  by (simp add: scan_unit_def)

lemma surrogate_raw:
  assumes "is_surrogate c"
  shows "scan_unit (c # r) = Some (c, r)"
proof (rule scan_unit_raw)
  have le: "0xD800 \<le> c"
    using assms by (auto simp: is_surrogate_def is_high_surrogate_def is_low_surrogate_def
        intro: order_trans [of "0xD800" "0xDC00"])
  then show "c \<noteq> quotation" "c \<noteq> backslash" by (auto simp: ch_def)
  show "0x20 \<le> c" by (rule order_trans [OF _ le]) simp
qed

lemma scan_string_step:
  "scan_unit s = Some (c, r) \<Longrightarrow> scan_string s = map_option (\<lambda>(t, u). (c # t, u)) (scan_string r)"
  by (simp add: scan_string.simps [of s])

lemma scan_string_end: "scan_string (quotation # r) = Some ([], r)"
  by (simp add: scan_string.simps scan_unit_def)

lemma scan_string_quote_units: "scan_string (quote_units s @ quotation # r) = Some (s, r)"
proof (induction s rule: quote_units.induct)
  case 1
  then show ?case by (simp add: scan_string_end)
next
  case (2 c)
  then show ?case by (simp add: scan_string_step [OF scan_unit_esc] scan_string_end)
next
  case (3 c d s)
  show ?case
  proof (cases "is_high_surrogate c \<and> is_low_surrogate d")
    case True
    then have "is_surrogate c" "is_surrogate d" by (auto simp: is_surrogate_def)
    then show ?thesis
      using "3.IH"(1) True by (simp add: scan_string_step [OF surrogate_raw])
  next
    case False
    then show ?thesis using "3.IH"(2) by (auto simp: scan_string_step [OF scan_unit_esc])
  qed
qed

lemma scan_string_quote: "scan_string (tl (quote s) @ r) = Some (s, r)"
  by (simp add: quote_def scan_string_quote_units)

lemma quote_inject [simp]: "quote s = quote t \<longleftrightarrow> s = t"
  by (metis option.inject prod.inject scan_string_quote)

section \<open>Values read back\<close>

lemma skip_ws_idem [simp]: "c # r = s \<Longrightarrow> \<not> is_json_space c \<Longrightarrow> skip_ws s = s"
  by (auto simp: skip_ws_def)

lemma skip_ws_Cons: "\<not> is_json_space c \<Longrightarrow> skip_ws (c # r) = c # r"
  by (simp add: skip_ws_def)

lemma not_space_ch:
  "\<not> is_json_space (ch CHR ''{'')" "\<not> is_json_space (ch CHR ''}'')" "\<not> is_json_space (ch CHR ''['')"
  "\<not> is_json_space (ch CHR '']'')" "\<not> is_json_space (ch CHR '','')" "\<not> is_json_space (ch CHR '':'')"
  "\<not> is_json_space quotation" "\<not> is_json_space (ch CHR ''t'')" "\<not> is_json_space (ch CHR ''f'')"
  "\<not> is_json_space (ch CHR ''n'')" "\<not> is_json_space (ch CHR ''-'')"
  by (simp_all add: is_json_space_def ch_def)

lemma not_space_digit: "is_digit c \<Longrightarrow> \<not> is_json_space c"
  by (auto simp: is_digit_def is_json_space_def ch_def)

lemma expect_ch: "\<not> is_json_space c \<Longrightarrow> expect d (c # r) = (if c = d then Some r else None)"
  by (simp add: expect_def skip_ws_Cons)

text \<open>The first code unit of a printed value: no white space and no closing bracket.\<close>

lemma stringify_start: "\<exists>c t. stringify v = c # t \<and> \<not> is_json_space c \<and> c \<noteq> ch CHR '']''"
proof (cases v)
  case (JNum n)
  obtain c t where n: "num_str n = c # t" by (cases "num_str n") simp_all
  then have c: "is_digit c \<or> c = ch CHR ''-''" using hd_num_str [of n] by simp
  then have "\<not> is_json_space c" by (auto simp: not_space_digit not_space_ch)
  moreover have "c \<noteq> ch CHR '']''" using c is_digit_ch by auto
  ultimately show ?thesis using n JNum by simp
qed (simp_all add: not_space_ch quote_def)

lemma stringify_Cons:
  obtains c t where "stringify v = c # t" "\<not> is_json_space c" "c \<noteq> ch CHR '']''"
  using stringify_start by blast

lemma number_start:
  assumes "is_digit c \<or> c = ch CHR ''-''"
  shows "c \<noteq> ch CHR ''{''" "c \<noteq> ch CHR ''[''" "c \<noteq> quotation" "c \<noteq> ch CHR ''t''" "c \<noteq> ch CHR ''f''"
    "c \<noteq> ch CHR ''n''"
  using assms by (auto simp: is_digit_def ch_def)

lemma parse_value_num:
  assumes "num_wf n" "number_end rest"
  shows "parse_value (Suc f) (num_str n @ rest) = Some (JNum n, rest)"
proof -
  obtain c t where n: "num_str n = c # t" by (cases "num_str n") simp_all
  then have c: "is_digit c \<or> c = ch CHR ''-''" using hd_num_str [of n] by simp
  have "\<not> is_json_space c" using c by (auto simp: not_space_digit not_space_ch)
  moreover have "parse_number (c # t @ rest) = Some (n, rest)"
    using parse_number_num_str [OF assms] n by simp
  ultimately show ?thesis
    using number_start [OF c] by (simp add: n skip_ws_Cons)
qed

lemma parse_value_atoms:
  "parse_value (Suc f) (stringify JNull @ rest) = Some (JNull, rest)"
  "parse_value (Suc f) (stringify (JBool b) @ rest) = Some (JBool b, rest)"
  "parse_value (Suc f) (stringify (JStr s) @ rest) = Some (JStr s, rest)"
  by (simp_all add: skip_ws_Cons not_space_ch quote_def scan_string_quote_units)

lemma number_end_ch:
  "number_end []" "number_end (ch CHR '','' # r)" "number_end (ch CHR '']'' # r)" "number_end (ch CHR ''}'' # r)"
  by (simp_all add: number_end_def is_digit_ch)

text \<open>What the induction on the value gives for each element.\<close>

definition reads_back :: "json \<Rightarrow> bool" where
  "reads_back v \<longleftrightarrow> (\<forall>fuel rest. number_end rest \<longrightarrow> 2 * length (stringify v @ rest) < fuel \<longrightarrow>
     parse_value fuel (stringify v @ rest) = Some (v, rest))"

lemma reads_backD:
  "reads_back v \<Longrightarrow> number_end rest \<Longrightarrow> 2 * length (stringify v @ rest) < fuel \<Longrightarrow>
    parse_value fuel (stringify v @ rest) = Some (v, rest)"
  by (simp add: reads_back_def)

lemma reads_backI:
  assumes "\<And>f rest. number_end rest \<Longrightarrow> 2 * length (stringify v @ rest) < Suc f \<Longrightarrow>
    parse_value (Suc f) (stringify v @ rest) = Some (v, rest)"
  shows "reads_back v"
  unfolding reads_back_def
proof (intro allI impI)
  fix fuel rest
  assume "number_end rest" "2 * length (stringify v @ rest) < fuel"
  with assms show "parse_value fuel (stringify v @ rest) = Some (v, rest)"
    by (cases fuel) simp_all
qed

lemma reads_back_atoms:
  "reads_back JNull" "reads_back (JBool b)" "reads_back (JStr s)"
  by (rule reads_backI, rule parse_value_atoms)+

lemma reads_back_num: "num_wf n \<Longrightarrow> reads_back (JNum n)"
  by (rule reads_backI, simp only: stringify.simps, rule parse_value_num)

lemma parse_elems_join:
  assumes "vs \<noteq> []" "list_all reads_back vs"
    and "Suc (2 * length (join (js '','') (map stringify vs) @ ch CHR '']'' # rest)) < fuel"
  shows "parse_elems fuel (join (js '','') (map stringify vs) @ ch CHR '']'' # rest) = Some (vs, rest)"
  using assms
proof (induction vs arbitrary: fuel)
  case (Cons v vs)
  obtain f where fuel: "fuel = Suc f" using Cons.prems(3) by (cases fuel) simp_all
  show ?case
  proof (cases vs)
    case Nil
    have "parse_value f (stringify v @ ch CHR '']'' # rest) = Some (v, ch CHR '']'' # rest)"
      by (rule reads_backD) (use Cons.prems Nil fuel in \<open>simp_all add: number_end_ch\<close>)
    then show ?thesis using Nil fuel by (simp add: expect_ch not_space_ch)
  next
    case (Cons w ws)
    let ?tail = "join (js '','') (map stringify vs) @ ch CHR '']'' # rest"
    have str: "join (js '','') (map stringify (v # vs)) @ ch CHR '']'' # rest =
        stringify v @ ch CHR '','' # ?tail"
      using Cons by simp
    have "parse_value f (stringify v @ ch CHR '','' # ?tail) = Some (v, ch CHR '','' # ?tail)"
      by (rule reads_backD) (use Cons.prems fuel str in \<open>simp_all add: number_end_ch\<close>)
    moreover have "parse_elems f ?tail = Some (vs, rest)"
      by (rule Cons.IH) (use Cons.prems fuel str Cons in simp_all)
    ultimately show ?thesis
      unfolding str fuel by (simp add: expect_ch not_space_ch)
  qed
qed simp

lemma parse_members_join:
  assumes "fs \<noteq> []" "list_all (\<lambda>(k, v). reads_back v) fs"
    and "Suc (2 * length (join (js '','')
      (map (\<lambda>(k, v). quote k @ js '':'' @ stringify v) fs) @ ch CHR ''}'' # rest)) < fuel"
  shows "parse_members fuel
      (join (js '','') (map (\<lambda>(k, v). quote k @ js '':'' @ stringify v) fs) @ ch CHR ''}'' # rest) =
    Some (fs, rest)"
  using assms
proof (induction fs arbitrary: fuel)
  case (Cons p fs)
  obtain k v where p: "p = (k, v)" by (cases p)
  obtain f where fuel: "fuel = Suc f" using Cons.prems(3) by (cases fuel) simp_all
  let ?mem = "\<lambda>(k, v). quote k @ js '':'' @ stringify v"
  have open_k: "expect quotation (quote k @ x) = Some (quote_units k @ quotation # x)" for x
    by (simp add: quote_def expect_ch not_space_ch)
  show ?case
  proof (cases fs)
    case Nil
    have "parse_value f (stringify v @ ch CHR ''}'' # rest) = Some (v, ch CHR ''}'' # rest)"
      by (rule reads_backD) (use Cons.prems Nil fuel p in \<open>simp_all add: number_end_ch\<close>)
    then show ?thesis
      using Nil fuel p by (simp add: open_k scan_string_quote_units expect_ch not_space_ch)
  next
    case (Cons q qs)
    let ?tail = "join (js '','') (map ?mem fs) @ ch CHR ''}'' # rest"
    have str: "join (js '','') (map ?mem (p # fs)) @ ch CHR ''}'' # rest =
        quote k @ ch CHR '':'' # stringify v @ ch CHR '','' # ?tail"
      using Cons p by simp
    have "parse_value f (stringify v @ ch CHR '','' # ?tail) = Some (v, ch CHR '','' # ?tail)"
      by (rule reads_backD) (use Cons.prems fuel str p in \<open>simp_all add: number_end_ch\<close>)
    moreover have "parse_members f ?tail = Some (fs, rest)"
      by (rule Cons.IH) (use Cons.prems fuel str Cons p in simp_all)
    ultimately show ?thesis
      unfolding str fuel
      by (simp add: p open_k scan_string_quote_units expect_ch not_space_ch)
  qed
qed simp

lemma reads_back_arr:
  assumes all: "list_all reads_back vs"
  shows "reads_back (JArr vs)"
proof (rule reads_backI)
  fix f rest
  assume len: "2 * length (stringify (JArr vs) @ rest) < Suc f"
  show "parse_value (Suc f) (stringify (JArr vs) @ rest) = Some (JArr vs, rest)"
  proof (cases vs)
    case Nil
    then show ?thesis by (simp add: skip_ws_Cons expect_ch not_space_ch)
  next
    case (Cons v ws)
    obtain c t where c: "stringify v = c # t" "\<not> is_json_space c" "c \<noteq> ch CHR '']''"
      by (rule stringify_Cons)
    have "parse_elems f (join (js '','') (map stringify vs) @ ch CHR '']'' # rest) = Some (vs, rest)"
      by (rule parse_elems_join) (use Cons all len in simp_all)
    moreover have "expect (ch CHR '']'') (join (js '','') (map stringify vs) @ x) = None" for x
      using c Cons by (cases ws) (simp_all add: expect_ch)
    ultimately show ?thesis by (simp add: skip_ws_Cons not_space_ch)
  qed
qed

lemma reads_back_obj:
  assumes all: "list_all (\<lambda>(k, v). reads_back v) fs"
  shows "reads_back (JObj fs)"
proof (rule reads_backI)
  fix f rest
  assume len: "2 * length (stringify (JObj fs) @ rest) < Suc f"
  let ?body = "join (js '','') (map (\<lambda>(k, v). quote k @ js '':'' @ stringify v) fs)"
  show "parse_value (Suc f) (stringify (JObj fs) @ rest) = Some (JObj fs, rest)"
  proof (cases fs)
    case Nil
    then show ?thesis by (simp add: skip_ws_Cons expect_ch not_space_ch)
  next
    case (Cons p ps)
    have "parse_members f (?body @ ch CHR ''}'' # rest) = Some (fs, rest)"
      by (rule parse_members_join) (use Cons all len in simp_all)
    moreover have "expect (ch CHR ''}'') (?body @ x) = None" for x
      using Cons by (cases ps; cases p) (simp_all add: quote_def expect_ch not_space_ch)
    ultimately show ?thesis by (simp add: skip_ws_Cons not_space_ch)
  qed
qed

lemma reads_back_all: "nums_wf v \<Longrightarrow> reads_back v"
proof (induction v rule: nums_wf.induct)
  case (2 vs)
  then show ?case by (auto intro!: reads_back_arr simp: list_all_iff)
next
  case (3 fs)
  then show ?case by (force intro!: reads_back_obj simp: list_all_iff)
qed (simp_all add: reads_back_atoms reads_back_num)

text \<open>The text of a value, alone, reads back to the value with its members in text order.\<close>

lemma parse_text_stringify: "nums_wf v \<Longrightarrow> parse_text (stringify v) = Some v"
  using reads_backD [OF reads_back_all, of v "[]" "Suc (2 * length (stringify v))"]
  by (simp add: parse_text_def number_end_ch skip_ws_def)

lemma stringify_inject: "nums_wf v \<Longrightarrow> nums_wf w \<Longrightarrow> stringify v = stringify w \<longleftrightarrow> v = w"
  by (metis option.inject parse_text_stringify)

lemma json_wf_nums_wf: "json_wf v \<Longrightarrow> nums_wf v"
  by (induction v rule: json_wf.induct) (auto simp: list_all_iff)

lemma js_value_wf: "json_wf v \<Longrightarrow> js_value v = v"
proof (induction v rule: json_wf.induct)
  case (2 vs)
  then show ?case by (simp add: list_all_iff map_idI)
next
  case (3 fs)
  then have "map (\<lambda>(k, v). (k, js_value v)) fs = fs"
    by (intro map_idI) (auto simp: list_all_iff)
  with 3 show ?case by simp
qed simp_all

text \<open>\<open>JSON.parse(JSON.stringify(v))\<close> is \<open>v\<close>.\<close>

lemma json_parse_stringify: "json_wf v \<Longrightarrow> json_parse (stringify v) = Some v"
  by (simp add: json_parse_def parse_text_stringify json_wf_nums_wf js_value_wf)

section \<open>Objects with literal member names\<close>

lemma is_array_index_digit: "is_array_index (c # s) \<Longrightarrow> is_digit c"
  using dec_digits [of "undec (c # s)"] by (auto simp: is_array_index_def list_all_iff)

lemma is_array_index_js [simp]:
  "\<not> (48 \<le> (of_char c :: nat) \<and> (of_char c :: nat) \<le> 57) \<Longrightarrow> \<not> is_array_index (js (c # cs))"
  using is_array_index_digit [of "ch c" "js cs"]
  by (auto simp: is_digit_def word_le_nat_alt unat_ch ch_0 ch_9)

lemma foldl_update:
  "distinct (map fst (ps @ fs)) \<Longrightarrow> foldl (\<lambda>ps (k, v). AList.update k v ps) ps fs = ps @ fs"
proof (induction fs arbitrary: ps)
  case (Cons f fs)
  obtain k v where f: "f = (k, v)" by (cases f)
  with Cons.prems have "k \<notin> fst ` set ps" by auto
  then have "AList.update k v ps = ps @ [(k, v)]" by (induction ps) auto
  with Cons f show ?case by simp
qed simp

lemma js_obj_distinct:
  assumes "distinct (map fst fs)"
  shows "js_obj fs = sort_key (\<lambda>(k, v). undec k) (filter (\<lambda>(k, v). is_array_index k) fs) @
    filter (\<lambda>(k, v). \<not> is_array_index k) fs"
  using foldl_update [of "[]" fs] assms by (simp add: js_obj_def)

text \<open>Distinct names that are not array indices keep the order they are written in.\<close>

lemma js_obj_id:
  assumes "distinct (map fst fs)" "list_all (\<lambda>(k, v). \<not> is_array_index k) fs"
  shows "js_obj fs = fs"
proof -
  have "filter (\<lambda>(k, v). is_array_index k) fs = []" "filter (\<lambda>(k, v). \<not> is_array_index k) fs = fs"
    using assms(2) by (auto simp: list_all_iff filter_empty_conv filter_id_conv)
  then show ?thesis by (simp add: js_obj_distinct assms(1))
qed

lemma mset_js_obj: "distinct (map fst fs) \<Longrightarrow> mset (js_obj fs) = mset fs"
  by (simp add: js_obj_distinct case_prod_unfold flip: multiset_partition)

lemma distinct_foldl_update:
  "distinct (map fst ps) \<Longrightarrow> distinct (map fst (foldl (\<lambda>ps (k, v). AList.update k v ps) ps fs))"
  by (induction fs arbitrary: ps) (auto intro: distinct_update)

lemma distinct_js_obj: "distinct (map fst (js_obj fs))"
proof -
  let ?ps = "foldl (\<lambda>ps (k, v). AList.update k v ps) [] fs"
  have "distinct (map fst ?ps)" by (rule distinct_foldl_update) simp
  moreover have "mset (js_obj fs) = mset ?ps"
    by (simp add: js_obj_def Let_def case_prod_unfold flip: multiset_partition)
  then have "mset (map fst (js_obj fs)) = mset (map fst ?ps)" by simp
  ultimately show ?thesis using mset_eq_imp_distinct_iff by blast
qed

lemma map_of_js_obj [simp]: "distinct (map fst fs) \<Longrightarrow> map_of (js_obj fs) = map_of fs"
  using mset_eq_setD [OF mset_js_obj [of fs]] by (simp add: map_of_inject_set distinct_js_obj)

text \<open>From here on string literals stay folded and are compared as literals.\<close>

declare js_simps(2) [simp del]
declare js_inject [simp]

end
