(* ===== verification/Zod.thy ===== *)
theory Zod
  imports JsDate Json
begin

text \<open>
  The schema language the program is written against. The schemas of the source (zod 4) are
  transcribed as values of \<open>schema\<close>; the parser itself is third-party code and stays a parameter:
  a function \<open>sp\<close> from a schema and an input (\<open>None\<close> is \<open>undefined\<close>) to the parsed value, or
  \<open>None\<close> where \<open>safeParse\<close> does not succeed. The locale \<open>zod\<close> names the documented behaviour the
  program relies on, one equation per schema form; \<open>zod_ref\<close> is an executable parser that satisfies
  it, so that properties stated for every \<open>sp\<close> can be evaluated.
\<close>

datatype str_check =
    MinLength nat
  | MaxLength nat
  | Trim
  | StrCheck "jstr \<Rightarrow> bool" \<comment> \<open>\<open>regex(...)\<close> and \<open>refine(...)\<close>\<close>

datatype num_check =
    IsInt
  | Positive
  | NonNegative
  | Safe
  | Finite
  | GreaterEq int
  | LessEq int

datatype object_mode = Strict | Passthrough | Strip

datatype schema =
    ZString "str_check list"
  | ZNumber "num_check list"
  | ZBoolean
  | ZLiteral json
  | ZEnum "jstr list"
  | ZArray schema nat
  | ZObject object_mode "(jstr \<times> schema) list"
  | ZRecord schema
  | ZUnion "schema list"
  | ZDiscriminatedUnion jstr "schema list"
  | ZOptional schema
  | ZDefault schema json
  | ZRefine schema "json \<Rightarrow> bool"
  | ZIsoDatetime bool \<comment> \<open>\<open>z.iso.datetime({ offset })\<close>\<close>
  | ZIsoDate
  | ZEmail
  | ZJson
  | ZUnknown
  | ZNever

type_synonym zvalue = "json option"
type_synonym zparser = "zvalue \<Rightarrow> zvalue option"

section \<open>The schema combinators\<close>

fun str_check_run :: "str_check \<Rightarrow> jstr \<Rightarrow> jstr option" where
  "str_check_run (MinLength n) s = (if n \<le> length s then Some s else None)"
| "str_check_run (MaxLength n) s = (if length s \<le> n then Some s else None)"
| "str_check_run Trim s = Some (trim s)"
| "str_check_run (StrCheck p) s = (if p s then Some s else None)"

fun str_checks_run :: "str_check list \<Rightarrow> jstr \<Rightarrow> jstr option" where
  "str_checks_run [] s = Some s"
| "str_checks_run (c # cs) s = (case str_check_run c s of None \<Rightarrow> None | Some t \<Rightarrow> str_checks_run cs t)"

text \<open>In zod 4 both \<open>int()\<close> and \<open>safe()\<close> accept exactly the safe integers.\<close>

fun num_check_ok :: "num_check \<Rightarrow> jsnum \<Rightarrow> bool" where
  "num_check_ok IsInt n = is_safe_integer n"
| "num_check_ok Safe n = is_safe_integer n"
| "num_check_ok Finite n = True"
| "num_check_ok Positive n = num_less (num_of_int 0) n"
| "num_check_ok NonNegative n = num_le (num_of_int 0) n"
| "num_check_ok (GreaterEq k) n = num_le (num_of_int k) n"
| "num_check_ok (LessEq k) n = num_le n (num_of_int k)"

definition string_parse :: "str_check list \<Rightarrow> zparser" where
  "string_parse cs v = (case v of
     Some (JStr s) \<Rightarrow> map_option (\<lambda>t. Some (JStr t)) (str_checks_run cs s)
   | _ \<Rightarrow> None)"

definition number_parse :: "num_check list \<Rightarrow> zparser" where
  "number_parse cs v = (case v of
     Some (JNum n) \<Rightarrow> if list_all (\<lambda>c. num_check_ok c n) cs then Some v else None
   | _ \<Rightarrow> None)"

definition boolean_parse :: "zparser" where
  "boolean_parse v = (case v of Some (JBool b) \<Rightarrow> Some v | _ \<Rightarrow> None)"

definition literal_parse :: "json \<Rightarrow> zparser" where
  "literal_parse l v = (if v = Some l then Some v else None)"

definition enum_parse :: "jstr list \<Rightarrow> zparser" where
  "enum_parse ls v = (case v of
     Some (JStr s) \<Rightarrow> if s \<in> set ls then Some v else None
   | _ \<Rightarrow> None)"

text \<open>Every element must parse to a value.\<close>

fun elems_parse :: "zparser \<Rightarrow> json list \<Rightarrow> json list option" where
  "elems_parse p [] = Some []"
| "elems_parse p (v # vs) = (case p (Some v) of
     Some (Some w) \<Rightarrow> map_option (\<lambda>ws. w # ws) (elems_parse p vs)
   | _ \<Rightarrow> None)"

definition array_parse :: "zparser \<Rightarrow> nat \<Rightarrow> zparser" where
  "array_parse p n v = (case v of
     Some (JArr vs) \<Rightarrow>
       if n \<le> length vs then map_option (\<lambda>ws. Some (JArr ws)) (elems_parse p vs) else None
   | _ \<Rightarrow> None)"

fun members_parse :: "zparser \<Rightarrow> (jstr \<times> json) list \<Rightarrow> (jstr \<times> json) list option" where
  "members_parse p [] = Some []"
| "members_parse p ((k, v) # fs) = (case p (Some v) of
     Some (Some w) \<Rightarrow> map_option (\<lambda>gs. (k, w) # gs) (members_parse p fs)
   | _ \<Rightarrow> None)"

definition record_parse :: "zparser \<Rightarrow> zparser" where
  "record_parse p v = (case v of
     Some (JObj fs) \<Rightarrow> map_option (\<lambda>gs. Some (JObj gs)) (members_parse p fs)
   | _ \<Rightarrow> None)"

text \<open>
  The declared fields in the order of the shape; a field whose schema yields \<open>undefined\<close> is absent
  from the result.
\<close>

fun fields_parse :: "(jstr \<times> zparser) list \<Rightarrow> (jstr \<times> json) list \<Rightarrow> (jstr \<times> json) list option" where
  "fields_parse [] fs = Some []"
| "fields_parse ((k, p) # shape) fs = (case p (map_of fs k) of
     None \<Rightarrow> None
   | Some None \<Rightarrow> fields_parse shape fs
   | Some (Some w) \<Rightarrow> map_option (\<lambda>gs. (k, w) # gs) (fields_parse shape fs))"

definition extra_fields :: "(jstr \<times> 'a) list \<Rightarrow> (jstr \<times> json) list \<Rightarrow> (jstr \<times> json) list" where
  "extra_fields shape fs = filter (\<lambda>(k, v). k \<notin> fst ` set shape) fs"

definition object_parse :: "object_mode \<Rightarrow> (jstr \<times> zparser) list \<Rightarrow> zparser" where
  "object_parse m shape v = (case v of
     Some (JObj fs) \<Rightarrow>
       (if m = Strict \<and> extra_fields shape fs \<noteq> [] then None
        else map_option
          (\<lambda>gs. Some (JObj (if m = Passthrough then js_obj (gs @ extra_fields shape fs) else gs)))
          (fields_parse shape fs))
   | _ \<Rightarrow> None)"

fun union_parse :: "zparser list \<Rightarrow> zparser" where
  "union_parse [] v = None"
| "union_parse (p # ps) v = (case p v of Some r \<Rightarrow> Some r | None \<Rightarrow> union_parse ps v)"

text \<open>The literal an object schema fixes its discriminator to.\<close>

fun discriminator :: "jstr \<Rightarrow> schema \<Rightarrow> json option" where
  "discriminator d (ZObject m shape) =
     (case map_of shape d of Some (ZLiteral l) \<Rightarrow> Some l | _ \<Rightarrow> None)"
| "discriminator d _ = None"

fun tagged_parse :: "json option \<Rightarrow> (json option \<times> zparser) list \<Rightarrow> zparser" where
  "tagged_parse t [] v = None"
| "tagged_parse t ((l, p) # ps) v = (if t \<noteq> None \<and> l = t then p v else tagged_parse t ps v)"

definition discriminated_parse :: "jstr \<Rightarrow> (json option \<times> zparser) list \<Rightarrow> zparser" where
  "discriminated_parse d ps v = (case v of
     Some (JObj fs) \<Rightarrow> tagged_parse (map_of fs d) ps v
   | _ \<Rightarrow> None)"

definition optional_parse :: "zparser \<Rightarrow> zparser" where
  "optional_parse p v = (case v of None \<Rightarrow> Some None | Some _ \<Rightarrow> p v)"

definition default_parse :: "zparser \<Rightarrow> json \<Rightarrow> zparser" where
  "default_parse p d v = (case v of None \<Rightarrow> Some (Some d) | Some _ \<Rightarrow> p v)"

definition refine_parse :: "zparser \<Rightarrow> (json \<Rightarrow> bool) \<Rightarrow> zparser" where
  "refine_parse p q v = (case p v of
     Some (Some w) \<Rightarrow> if q w then Some (Some w) else None
   | r \<Rightarrow> r)"

section \<open>Values a parser hands back unchanged\<close>

text \<open>
  Values as a JavaScript program holds them: decimal numbers in normal form, no repeated member
  name, members in property order. \<open>__proto__\<close> is excluded as a member name: zod leaves that
  member out of the records it rebuilds.
\<close>

fun proto_free :: "json \<Rightarrow> bool" where
  "proto_free (JArr vs) = list_all proto_free vs"
| "proto_free (JObj fs) = list_all (\<lambda>(k, v). k \<noteq> js ''__proto__'' \<and> proto_free v) fs"
| "proto_free _ = True"

definition json_ok :: "json \<Rightarrow> bool" where
  "json_ok v \<longleftrightarrow> json_wf v \<and> proto_free v"

lemma json_ok_simps [simp, wf_simps]:
  "json_ok JNull" "json_ok (JBool b)" "json_ok (JStr s)" "json_ok (JNum n) \<longleftrightarrow> num_wf n"
  "json_ok (JArr vs) \<longleftrightarrow> list_all json_ok vs"
  by (auto simp: json_ok_def list_all_iff)

lemma json_ok_wf: "json_ok v \<Longrightarrow> json_wf v"
  by (simp add: json_ok_def)

lemma json_ok_obj:
  "json_ok (JObj fs) \<longleftrightarrow>
    js_obj fs = fs \<and> list_all (\<lambda>(k, v). k \<noteq> js ''__proto__'' \<and> json_ok v) fs"
  by (auto simp: json_ok_def list_all_iff)

section \<open>The documented behaviour\<close>

text \<open>
  The member names of a record or object input: distinct, and none of them \<open>__proto__\<close>.
\<close>

definition plain_object :: "zvalue \<Rightarrow> bool" where
  "plain_object v = (case v of
     Some (JObj fs) \<Rightarrow> distinct (map fst fs) \<and> js ''__proto__'' \<notin> fst ` set fs
   | _ \<Rightarrow> True)"

locale zod =
  fixes sp :: "schema \<Rightarrow> zvalue \<Rightarrow> zvalue option"
  assumes string: "sp (ZString cs) v = string_parse cs v"
    and number: "sp (ZNumber ns) v = number_parse ns v"
    and boolean: "sp ZBoolean v = boolean_parse v"
    and literal: "sp (ZLiteral l) v = literal_parse l v"
    and enum: "sp (ZEnum ls) v = enum_parse ls v"
    and array: "sp (ZArray s n) v = array_parse (sp s) n v"
    and object: "plain_object v \<Longrightarrow>
      sp (ZObject m shape) v = object_parse m (map (map_prod id sp) shape) v"
    and record': "plain_object v \<Longrightarrow> sp (ZRecord s) v = record_parse (sp s) v"
    and union: "sp (ZUnion ss) v = union_parse (map sp ss) v"
    and discriminated: "sp (ZDiscriminatedUnion d ss) v =
      discriminated_parse d (map (\<lambda>s. (discriminator d s, sp s)) ss) v"
    and optional: "sp (ZOptional s) v = optional_parse (sp s) v"
    and default: "sp (ZDefault s w) v = default_parse (sp s) w v"
    and refine: "sp (ZRefine s q) v = refine_parse (sp s) q v"
    and unknown: "sp ZUnknown v = Some v"
    and never: "sp ZNever v = None"
    and json_value: "json_ok w \<Longrightarrow> sp ZJson (Some w) = Some (Some w)"
    and json_undefined: "sp ZJson None = None"
    and formats: "s \<in> {ZIsoDatetime off, ZIsoDate, ZEmail} \<Longrightarrow> sp s v = Some r \<Longrightarrow>
      r = v \<and> (\<exists>text. v = Some (JStr text))"
    and iso_datetime: "0 \<le> y \<Longrightarrow> y \<le> 9999 \<Longrightarrow> fst (date_of_day (t div MS_PER_DAY)) = y \<Longrightarrow>
      sp (ZIsoDatetime off) (Some (JStr (iso_string t))) = Some (Some (JStr (iso_string t)))"

section \<open>An executable parser\<close>

text \<open>
  ISO date-times with seconds or without, a \<open>Z\<close> or (where allowed) an offset; enough to evaluate
  the schemas of the program on concrete values.
\<close>

definition iso_datetime_ok :: "bool \<Rightarrow> jstr \<Rightarrow> bool" where
  "iso_datetime_ok off s \<longleftrightarrow>
     10 < length s \<and> is_digit (s ! 0) \<and> s ! 10 = ch CHR ''T'' \<and>
     (off \<or> last s = ch CHR ''Z'') \<and> date_parse s \<noteq> None"

definition format_parse :: "(jstr \<Rightarrow> bool) \<Rightarrow> zparser" where
  "format_parse p v = (case v of Some (JStr s) \<Rightarrow> if p s then Some v else None | _ \<Rightarrow> None)"

primrec zod_ref :: "schema \<Rightarrow> zparser" where
  "zod_ref (ZString cs) = string_parse cs"
| "zod_ref (ZNumber cs) = number_parse cs"
| "zod_ref ZBoolean = boolean_parse"
| "zod_ref (ZLiteral l) = literal_parse l"
| "zod_ref (ZEnum ls) = enum_parse ls"
| "zod_ref (ZArray s n) = array_parse (zod_ref s) n"
| "zod_ref (ZObject m shape) = object_parse m (map (map_prod id zod_ref) shape)"
| "zod_ref (ZRecord s) = record_parse (zod_ref s)"
| "zod_ref (ZUnion ss) = union_parse (map zod_ref ss)"
| "zod_ref (ZDiscriminatedUnion d ss) =
     discriminated_parse d (map (\<lambda>s. (discriminator d s, zod_ref s)) ss)"
| "zod_ref (ZOptional s) = optional_parse (zod_ref s)"
| "zod_ref (ZDefault s d) = default_parse (zod_ref s) d"
| "zod_ref (ZRefine s q) = refine_parse (zod_ref s) q"
| "zod_ref (ZIsoDatetime off) = format_parse (iso_datetime_ok off)"
| "zod_ref ZIsoDate = format_parse (\<lambda>s. length s = 10 \<and> is_digit (s ! 0) \<and> date_parse s \<noteq> None)"
| "zod_ref ZEmail = format_parse (\<lambda>s. ch CHR ''@'' \<in> set s)"
| "zod_ref ZJson = (\<lambda>v. if v = None then None else Some v)"
| "zod_ref ZUnknown = Some"
| "zod_ref ZNever = (\<lambda>v. None)"

lemma iso_string_datetime:
  assumes "0 \<le> y" "y \<le> 9999" "fst (date_of_day (t div MS_PER_DAY)) = y"
  shows "iso_datetime_ok off (iso_string t)"
proof -
  define d where "d = t div MS_PER_DAY"
  obtain m k where ymk: "date_of_day d = (y, m, k)"
    using assms(3) by (cases "date_of_day d") (simp add: d_def)
  note f = date_of_day [OF ymk]
  have mk: "length (pad 2 m) = 2" "length (pad 2 k) = 2"
    using f(3,5) month_lengths_le [OF f(3,2), of y] by (simp_all add: length_pad)
  have y: "length (year_str y) = 4" "list_all is_digit (year_str y)" "year_str y \<noteq> []"
    using assms pad_digits [of 4 "nat y"] by (simp_all add: year_str_def length_pad)
  have "\<exists>r. iso_string t = year_str y @ js ''-'' @ pad 2 m @ js ''-'' @ pad 2 k @ js ''T'' @ r @ js ''Z''"
    using ymk unfolding iso_string_def d_def [symmetric] by (simp add: Let_def)
  then obtain r where
    r: "iso_string t = year_str y @ js ''-'' @ pad 2 m @ js ''-'' @ pad 2 k @ js ''T'' @ r @ js ''Z''" ..
  have "year_of_day d \<le> 9999" "0 \<le> year_of_day d" using f(1) assms by simp_all
  then have "\<bar>d\<bar> \<le> 99999999"
    using year_of_day [of d] day_from_year_lower [of "year_of_day d - 1970"]
      day_from_year_upper [of "year_of_day d - 1969"]
    by (simp add: algebra_simps)
  then have "\<bar>t\<bar> \<le> MAX_TIME"
    unfolding d_def MAX_TIME_def MS_PER_DAY_def by linarith
  then have "date_parse (iso_string t) = Some t" by (rule date_parse_iso_string)
  moreover have "iso_string t ! 10 = ch CHR ''T''"
    using y(1) mk by (simp add: r nth_append js_simps)
  moreover have "is_digit (iso_string t ! 0)"
    using y by (cases "year_str y") (simp_all add: r)
  moreover have "last (iso_string t) = ch CHR ''Z''" "10 < length (iso_string t)"
    using y(1) mk by (simp_all add: r js_simps)
  ultimately show ?thesis by (simp add: iso_datetime_ok_def)
qed

interpretation zod_reference: zod zod_ref
proof
  fix s :: schema and v r off
  assume "s \<in> {ZIsoDatetime off, ZIsoDate, ZEmail}" "zod_ref s v = Some r"
  then show "r = v \<and> (\<exists>t. v = Some (JStr t))"
    by (auto simp: format_parse_def split: option.splits json.splits if_splits)
next
  fix y t :: int and off
  assume "0 \<le> y" "y \<le> 9999" "fst (date_of_day (t div MS_PER_DAY)) = y"
  then show "zod_ref (ZIsoDatetime off) (Some (JStr (iso_string t))) = Some (Some (JStr (iso_string t)))"
    using iso_string_datetime by (simp add: format_parse_def)
qed simp_all

end
