(* ===== verification/Errors.thy ===== *)
theory Errors
  imports Json
begin

text \<open>
  \<open>src/domain/errors.ts\<close>: the machine-readable errors of the domain, with their codes, messages
  and details, and the failures any operation of the program can end with. Also the status of a
  continuation (\<open>src/domain/types.ts\<close>), which the errors mention.
\<close>

datatype continuation_status = StPending | StResumed | StCancelled | StExpired

fun status_str :: "continuation_status \<Rightarrow> jstr" where
  "status_str StPending = js ''pending''"
| "status_str StResumed = js ''resumed''"
| "status_str StCancelled = js ''cancelled''"
| "status_str StExpired = js ''expired''"

datatype pausemesh_error_code =
    CONTINUATION_CANCELLED
  | CONTINUATION_EXPIRED
  | CONTINUATION_ID_MISMATCH
  | CONTINUATION_NOT_FOUND
  | IDEMPOTENCY_CONFLICT
  | INVALID_TRANSITION
  | TOKEN_ALREADY_USED
  | TOKEN_MISMATCH
  | UNSUPPORTED_SCHEMA_VERSION
  | VERSION_CONFLICT

fun code_str :: "pausemesh_error_code \<Rightarrow> jstr" where
  "code_str CONTINUATION_CANCELLED = js ''CONTINUATION_CANCELLED''"
| "code_str CONTINUATION_EXPIRED = js ''CONTINUATION_EXPIRED''"
| "code_str CONTINUATION_ID_MISMATCH = js ''CONTINUATION_ID_MISMATCH''"
| "code_str CONTINUATION_NOT_FOUND = js ''CONTINUATION_NOT_FOUND''"
| "code_str IDEMPOTENCY_CONFLICT = js ''IDEMPOTENCY_CONFLICT''"
| "code_str INVALID_TRANSITION = js ''INVALID_TRANSITION''"
| "code_str TOKEN_ALREADY_USED = js ''TOKEN_ALREADY_USED''"
| "code_str TOKEN_MISMATCH = js ''TOKEN_MISMATCH''"
| "code_str UNSUPPORTED_SCHEMA_VERSION = js ''UNSUPPORTED_SCHEMA_VERSION''"
| "code_str VERSION_CONFLICT = js ''VERSION_CONFLICT''"

text \<open>The error classes, with the constructor arguments of each.\<close>

datatype pausemesh_error =
    ContinuationNotFoundError jstr
  | VersionConflictError jstr int int
  | InvalidTransitionError jstr "continuation_status option" jstr
  | ContinuationIdMismatchError jstr jstr
  | UnsupportedSchemaVersionError int
  | TokenMismatchError jstr
  | TokenAlreadyUsedError jstr
  | ContinuationExpiredError jstr
  | ContinuationCancelledError jstr
  | IdempotencyConflictError jstr

fun error_code :: "pausemesh_error \<Rightarrow> pausemesh_error_code" where
  "error_code (ContinuationNotFoundError _) = CONTINUATION_NOT_FOUND"
| "error_code (VersionConflictError _ _ _) = VERSION_CONFLICT"
| "error_code (InvalidTransitionError _ _ _) = INVALID_TRANSITION"
| "error_code (ContinuationIdMismatchError _ _) = CONTINUATION_ID_MISMATCH"
| "error_code (UnsupportedSchemaVersionError _) = UNSUPPORTED_SCHEMA_VERSION"
| "error_code (TokenMismatchError _) = TOKEN_MISMATCH"
| "error_code (TokenAlreadyUsedError _) = TOKEN_ALREADY_USED"
| "error_code (ContinuationExpiredError _) = CONTINUATION_EXPIRED"
| "error_code (ContinuationCancelledError _) = CONTINUATION_CANCELLED"
| "error_code (IdempotencyConflictError _) = IDEMPOTENCY_CONFLICT"

text \<open>The state an invalid transition starts from: a status, or \<open>missing\<close>.\<close>

definition from_status_str :: "continuation_status option \<Rightarrow> jstr" where
  "from_status_str st = (case st of None \<Rightarrow> js ''missing'' | Some s \<Rightarrow> status_str s)"

fun error_message :: "pausemesh_error \<Rightarrow> jstr" where
  "error_message (ContinuationNotFoundError cid) = js ''Continuation '' @ cid @ js '' was not found''"
| "error_message (VersionConflictError cid expected actual) =
     js ''Continuation '' @ cid @ js '' expected version '' @ int_str expected @ js '', received '' @ int_str actual"
| "error_message (InvalidTransitionError cid st ty) =
     js ''Cannot apply '' @ ty @ js '' to continuation '' @ cid @ js '' in state '' @ from_status_str st"
| "error_message (ContinuationIdMismatchError expected actual) =
     js ''Expected continuation '' @ expected @ js '', received event for '' @ actual"
| "error_message (UnsupportedSchemaVersionError v) =
     js ''Unsupported continuation schema version '' @ int_str v"
| "error_message (TokenMismatchError cid) = js ''Resume token did not match continuation '' @ cid"
| "error_message (TokenAlreadyUsedError cid) =
     js ''Resume token for continuation '' @ cid @ js '' was already consumed''"
| "error_message (ContinuationExpiredError cid) = js ''Continuation '' @ cid @ js '' has expired''"
| "error_message (ContinuationCancelledError cid) = js ''Continuation '' @ cid @ js '' was cancelled''"
| "error_message (IdempotencyConflictError cid) =
     js ''Idempotency key conflicts with the completed request for continuation '' @ cid"

fun error_details :: "pausemesh_error \<Rightarrow> json" where
  "error_details (ContinuationNotFoundError cid) = JObj [(js ''continuationId'', JStr cid)]"
| "error_details (VersionConflictError cid expected actual) =
     JObj [(js ''actualVersion'', JInt actual), (js ''continuationId'', JStr cid),
           (js ''expectedVersion'', JInt expected)]"
| "error_details (InvalidTransitionError cid st ty) =
     JObj [(js ''continuationId'', JStr cid), (js ''eventType'', JStr ty),
           (js ''fromStatus'', JStr (from_status_str st))]"
| "error_details (ContinuationIdMismatchError expected actual) =
     JObj [(js ''actualContinuationId'', JStr actual), (js ''expectedContinuationId'', JStr expected)]"
| "error_details (UnsupportedSchemaVersionError v) = JObj [(js ''schemaVersion'', JInt v)]"
| "error_details (TokenMismatchError cid) = JObj [(js ''continuationId'', JStr cid)]"
| "error_details (TokenAlreadyUsedError cid) = JObj [(js ''continuationId'', JStr cid)]"
| "error_details (ContinuationExpiredError cid) = JObj [(js ''continuationId'', JStr cid)]"
| "error_details (ContinuationCancelledError cid) = JObj [(js ''continuationId'', JStr cid)]"
| "error_details (IdempotencyConflictError cid) = JObj [(js ''continuationId'', JStr cid)]"

text \<open>
  What an operation can throw: a domain error, one of JavaScript's own error classes with its
  message, or an error of a host-provided dependency (a driver, an issuer), of which the
  program knows nothing but that it was thrown.
\<close>

datatype failure =
    PauseMeshError pausemesh_error
  | TypeError jstr
  | RangeError jstr
  | PlainError jstr
  | HostError json

fun is_version_conflict :: "failure \<Rightarrow> bool" where
  "is_version_conflict (PauseMeshError (VersionConflictError _ _ _)) = True"
| "is_version_conflict _ = False"

end
