(* ===== verification/Reducer.thy ===== *)
theory Reducer
  imports Errors JsDate
begin

text \<open>
  \<open>src/domain/types.ts\<close>, \<open>src/domain/events.ts\<close> and \<open>src/domain/reducer.ts\<close>: the persisted
  envelope of a continuation, its lifecycle events and the pure state machine that folds the
  events into the envelope. The abstract machine \<open>lifecycle\<close> says which event leads from which
  status to which; the lemmas show that the reducer implements it, what it preserves, and which
  event streams it replays.
\<close>

definition CONTINUATION_SCHEMA_VERSION :: int where
  "CONTINUATION_SCHEMA_VERSION = 1"

definition INITIAL_CONTINUATION_VERSION :: int where
  "INITIAL_CONTINUATION_VERSION = 0"

type_synonym json_object = "(jstr \<times> json) list"

text \<open>What an envelope holds besides the common fields, by status.\<close>

datatype continuation_state =
    PendingState (state_resumeTokenHash: jstr)
  | ResumedState (state_resumedAt: jstr) (state_idempotencyKey: jstr) (state_resumePayload: json)
  | CancelledState (state_cancelledAt: jstr) (state_reason: "jstr option")
  | ExpiredState (state_expiredAt: jstr)

record envelope =
  env_schemaVersion :: int
  env_continuationId :: jstr
  env_correlationId :: jstr
  env_version :: int
  env_createdAt :: jstr
  env_expiresAt :: jstr
  env_payload :: json
  env_metadata :: json_object
  env_state :: continuation_state

fun state_status :: "continuation_state \<Rightarrow> continuation_status" where
  "state_status (PendingState _) = StPending"
| "state_status (ResumedState _ _ _) = StResumed"
| "state_status (CancelledState _ _) = StCancelled"
| "state_status (ExpiredState _) = StExpired"

definition env_status :: "envelope \<Rightarrow> continuation_status" where
  "env_status s = state_status (env_state s)"

text \<open>The events: the common fields and what each type adds.\<close>

datatype event_body =
    Created (body_correlationId: jstr) (body_expiresAt: jstr) (body_payload: json)
      (body_metadata: json_object) (body_resumeTokenHash: jstr)
  | Resumed (body_idempotencyKey: jstr) (body_resumePayload: json)
  | Cancelled (body_reason: "jstr option")
  | Expired

record event =
  ev_schemaVersion :: int
  ev_continuationId :: jstr
  ev_version :: int
  ev_occurredAt :: jstr
  ev_body :: event_body

fun body_type :: "event_body \<Rightarrow> jstr" where
  "body_type (Created _ _ _ _ _) = js ''continuation.created''"
| "body_type (Resumed _ _) = js ''continuation.resumed''"
| "body_type (Cancelled _) = js ''continuation.cancelled''"
| "body_type Expired = js ''continuation.expired''"

definition ev_type :: "event \<Rightarrow> jstr" where
  "ev_type e = body_type (ev_body e)"

section \<open>The reducer\<close>

definition terminalBase :: "envelope \<Rightarrow> int \<Rightarrow> continuation_state \<Rightarrow> envelope" where
  "terminalBase state version terminal =
     \<lparr>env_schemaVersion = CONTINUATION_SCHEMA_VERSION,
      env_continuationId = env_continuationId state,
      env_correlationId = env_correlationId state,
      env_version = version,
      env_createdAt = env_createdAt state,
      env_expiresAt = env_expiresAt state,
      env_payload = env_payload state,
      env_metadata = env_metadata state,
      env_state = terminal\<rparr>"

definition assertEventIdentity :: "envelope \<Rightarrow> event \<Rightarrow> (pausemesh_error, unit) result" where
  "assertEventIdentity state event =
     guardR (env_continuationId state = ev_continuationId event)
       (ContinuationIdMismatchError (env_continuationId state) (ev_continuationId event))"

definition assertVersion :: "envelope option \<Rightarrow> event \<Rightarrow> (pausemesh_error, unit) result" where
  "assertVersion state event =
     (let expectedVersion = (case state of None \<Rightarrow> 0 | Some s \<Rightarrow> env_version s) + 1
      in guardR (ev_version event = expectedVersion)
           (VersionConflictError (ev_continuationId event) expectedVersion (ev_version event)))"

definition assertPending :: "envelope \<Rightarrow> event \<Rightarrow> (pausemesh_error, unit) result" where
  "assertPending state event =
     guardR (env_status state = StPending)
       (InvalidTransitionError (env_continuationId state) (Some (env_status state)) (ev_type event))"

definition created_envelope :: "event \<Rightarrow> jstr \<Rightarrow> jstr \<Rightarrow> json \<Rightarrow> json_object \<Rightarrow> jstr \<Rightarrow> envelope" where
  "created_envelope event corr exp p md hash =
     \<lparr>env_schemaVersion = CONTINUATION_SCHEMA_VERSION,
      env_continuationId = ev_continuationId event,
      env_correlationId = corr,
      env_version = ev_version event,
      env_createdAt = ev_occurredAt event,
      env_expiresAt = exp,
      env_payload = p,
      env_metadata = md,
      env_state = PendingState hash\<rparr>"

definition reduceContinuation :: "envelope option \<Rightarrow> event \<Rightarrow> (pausemesh_error, envelope) result" where
  "reduceContinuation state event =
     bindR (guardR (ev_schemaVersion event = CONTINUATION_SCHEMA_VERSION)
              (UnsupportedSchemaVersionError (ev_schemaVersion event))) (\<lambda>_.
     bindR (case state of None \<Rightarrow> Inr () | Some s \<Rightarrow> assertEventIdentity s event) (\<lambda>_.
     bindR (assertVersion state event) (\<lambda>_.
       (case state of
          None \<Rightarrow>
            (case ev_body event of
               Created corr exp p md hash \<Rightarrow> Inr (created_envelope event corr exp p md hash)
             | _ \<Rightarrow> Inl (InvalidTransitionError (ev_continuationId event) None (ev_type event)))
        | Some s \<Rightarrow>
            (case ev_body event of
               Created _ _ _ _ _ \<Rightarrow>
                 Inl (InvalidTransitionError (env_continuationId s) (Some (env_status s)) (ev_type event))
             | Resumed key p \<Rightarrow>
                 bindR (assertPending s event) (\<lambda>_.
                   Inr (terminalBase s (ev_version event) (ResumedState (ev_occurredAt event) key p)))
             | Cancelled r \<Rightarrow>
                 bindR (assertPending s event) (\<lambda>_.
                   Inr (terminalBase s (ev_version event) (CancelledState (ev_occurredAt event) r)))
             | Expired \<Rightarrow>
                 bindR (assertPending s event) (\<lambda>_.
                   Inr (terminalBase s (ev_version event) (ExpiredState (ev_occurredAt event)))))))))"

text \<open>\<open>events.reduce(reduceContinuation, undefined)\<close>.\<close>

fun replay_from :: "envelope option \<Rightarrow> event list \<Rightarrow> (pausemesh_error, envelope option) result" where
  "replay_from state [] = Inr state"
| "replay_from state (e # es) = bindR (reduceContinuation state e) (\<lambda>s. replay_from (Some s) es)"

definition replayContinuation :: "event list \<Rightarrow> (pausemesh_error, envelope option) result" where
  "replayContinuation events = replay_from None events"

section \<open>The abstract lifecycle\<close>

text \<open>Which event leads from which status (\<open>None\<close>: no continuation yet) to which.\<close>

inductive lifecycle :: "continuation_status option \<Rightarrow> event_body \<Rightarrow> continuation_status \<Rightarrow> bool" where
  create: "lifecycle None (Created corr exp p md hash) StPending"
| resume: "lifecycle (Some StPending) (Resumed key p) StResumed"
| cancel: "lifecycle (Some StPending) (Cancelled r) StCancelled"
| expire: "lifecycle (Some StPending) Expired StExpired"

code_pred lifecycle .

inductive_simps lifecycle_simps [simp]:
  "lifecycle None b t"
  "lifecycle (Some s) b t"
  "lifecycle st (Created corr exp p md hash) t"
  "lifecycle st (Resumed key p) t"
  "lifecycle st (Cancelled r) t"
  "lifecycle st Expired t"

inductive_cases lifecycle_SomeE: "lifecycle (Some s) b t"

text \<open>The guards an event has to pass whatever its type.\<close>

definition event_fits :: "envelope option \<Rightarrow> event \<Rightarrow> bool" where
  "event_fits state event \<longleftrightarrow>
     ev_schemaVersion event = 1 \<and>
     (case state of
        None \<Rightarrow> ev_version event = 1
      | Some s \<Rightarrow> ev_continuationId event = env_continuationId s \<and> ev_version event = env_version s + 1)"

text \<open>What an event records on an envelope it is accepted by.\<close>

fun apply_body :: "envelope option \<Rightarrow> event \<Rightarrow> event_body \<Rightarrow> envelope" where
  "apply_body _ e (Created corr exp p md hash) = created_envelope e corr exp p md hash"
| "apply_body (Some s) e (Resumed key p) =
     s\<lparr>env_schemaVersion := 1, env_version := ev_version e, env_state := ResumedState (ev_occurredAt e) key p\<rparr>"
| "apply_body (Some s) e (Cancelled r) =
     s\<lparr>env_schemaVersion := 1, env_version := ev_version e, env_state := CancelledState (ev_occurredAt e) r\<rparr>"
| "apply_body (Some s) e Expired =
     s\<lparr>env_schemaVersion := 1, env_version := ev_version e, env_state := ExpiredState (ev_occurredAt e)\<rparr>"
| "apply_body None e _ = created_envelope e [] [] JNull [] []" \<comment> \<open>no event but a creation is accepted here\<close>

lemma terminalBase_eq:
  "terminalBase s v t = s\<lparr>env_schemaVersion := 1, env_version := v, env_state := t\<rparr>"
  by (simp add: terminalBase_def CONTINUATION_SCHEMA_VERSION_def)

lemma reduce_eq_Inr_iff:
  "reduceContinuation state e = Inr s' \<longleftrightarrow>
    event_fits state e \<and> lifecycle (map_option env_status state) (ev_body e) (env_status s') \<and>
    s' = apply_body state e (ev_body e)"
  by (cases state; cases "ev_body e")
    (auto simp: reduceContinuation_def bindR_guardR assertEventIdentity_def assertVersion_def
      assertPending_def event_fits_def CONTINUATION_SCHEMA_VERSION_def terminalBase_eq env_status_def
      created_envelope_def Let_def)

section \<open>What a step keeps\<close>

lemmas reduceD = reduce_eq_Inr_iff [THEN iffD1]

text \<open>The facts about a single accepted event that the other components use.\<close>

lemma reduce_None_iff:
  "reduceContinuation None e = Inr s \<longleftrightarrow>
    (\<exists>corr exp p md hash. ev_body e = Created corr exp p md hash \<and> ev_schemaVersion e = 1 \<and>
      ev_version e = 1 \<and> s = created_envelope e corr exp p md hash)"
  by (auto simp: reduce_eq_Inr_iff event_fits_def env_status_def created_envelope_def)

lemma reduce_Some_iff:
  "reduceContinuation (Some s) e = Inr s' \<longleftrightarrow>
    ev_schemaVersion e = 1 \<and> ev_continuationId e = env_continuationId s \<and>
    ev_version e = env_version s + 1 \<and> env_status s = StPending \<and>
    (case ev_body e of Created _ _ _ _ _ \<Rightarrow> False | _ \<Rightarrow> True) \<and> s' = apply_body (Some s) e (ev_body e)"
  by (cases "ev_body e") (auto simp: reduce_eq_Inr_iff event_fits_def env_status_def)

lemma reduce_terminal:
  "env_status s \<noteq> StPending \<Longrightarrow> \<exists>err. reduceContinuation (Some s) e = Inl err"
  by (cases "reduceContinuation (Some s) e") (auto simp: reduce_Some_iff)

lemma reduce_closes: "reduceContinuation (Some s) e = Inr s' \<Longrightarrow> env_status s' \<noteq> StPending"
  by (cases "ev_body e") (auto simp: reduce_Some_iff env_status_def)

lemma reduce_status:
  "reduceContinuation state e = Inr s' \<Longrightarrow>
    lifecycle (map_option env_status state) (ev_body e) (env_status s')"
  by (drule reduceD) blast

text \<open>The fields of a continuation that no event after its creation changes.\<close>

definition same_origin :: "envelope \<Rightarrow> envelope \<Rightarrow> bool" where
  "same_origin s t \<longleftrightarrow>
     env_continuationId s = env_continuationId t \<and> env_correlationId s = env_correlationId t \<and>
     env_createdAt s = env_createdAt t \<and> env_expiresAt s = env_expiresAt t \<and>
     env_payload s = env_payload t \<and> env_metadata s = env_metadata t"

lemma same_origin_refl [simp]: "same_origin s s"
  by (simp add: same_origin_def)

lemma same_origin_trans: "same_origin s t \<Longrightarrow> same_origin t u \<Longrightarrow> same_origin s u"
  by (simp add: same_origin_def)

lemma reduce_keeps_origin:
  "reduceContinuation (Some s) e = Inr s' \<Longrightarrow> same_origin s s' \<and> env_version s' = env_version s + 1"
  by (cases "ev_body e") (auto simp: reduce_Some_iff same_origin_def)

section \<open>Which streams replay\<close>

definition is_creation :: "event \<Rightarrow> bool" where
  "is_creation e \<longleftrightarrow> ev_schemaVersion e = 1 \<and> ev_version e = 1 \<and>
     (case ev_body e of Created _ _ _ _ _ \<Rightarrow> True | _ \<Rightarrow> False)"

definition closes :: "event \<Rightarrow> event \<Rightarrow> bool" where
  "closes c e \<longleftrightarrow> ev_schemaVersion e = 1 \<and> ev_version e = 2 \<and>
     ev_continuationId e = ev_continuationId c \<and>
     (case ev_body e of Created _ _ _ _ _ \<Rightarrow> False | _ \<Rightarrow> True)"

text \<open>Nothing, a creation, or a creation and one closing event of the same continuation.\<close>

fun lifecycle_stream :: "event list \<Rightarrow> bool" where
  "lifecycle_stream [] = True"
| "lifecycle_stream [c] = is_creation c"
| "lifecycle_stream [c, e] = (is_creation c \<and> closes c e)"
| "lifecycle_stream _ = False"

lemma replay_append:
  "replay_from st (es @ fs) = bindR (replay_from st es) (\<lambda>s. replay_from s fs)"
  by (induction es arbitrary: st) (auto simp: bindR_def split: sum.splits)

lemma replay_from_terminal:
  "env_status s \<noteq> StPending \<Longrightarrow> replay_from (Some s) es = Inr r \<longleftrightarrow> es = [] \<and> r = Some s"
  by (cases es) (auto simp: bindR_eq_Inr dest: reduce_terminal [where s = s and e = "hd es"])

lemma created_status [simp]:
  "env_status (created_envelope e corr exp p md hash) = StPending"
  "env_version (created_envelope e corr exp p md hash) = ev_version e"
  "env_continuationId (created_envelope e corr exp p md hash) = ev_continuationId e"
  by (simp_all add: env_status_def created_envelope_def)

lemma replay_single:
  "replayContinuation [c] = Inr r \<longleftrightarrow> (\<exists>s. reduceContinuation None c = Inr s \<and> r = Some s)"
  by (auto simp: replayContinuation_def bindR_eq_Inr)

lemma replay_pair:
  "replayContinuation [c, e] = Inr r \<longleftrightarrow>
    (\<exists>s t. reduceContinuation None c = Inr s \<and> reduceContinuation (Some s) e = Inr t \<and> r = Some t)"
  by (auto simp: replayContinuation_def bindR_eq_Inr)

lemma replay_long: "replayContinuation (c # d # e # es) \<noteq> Inr r"
proof
  assume "replayContinuation (c # d # e # es) = Inr r"
  then obtain s t where "reduceContinuation (Some s) d = Inr t" "replay_from (Some t) (e # es) = Inr r"
    by (auto simp: replayContinuation_def bindR_eq_Inr)
  then show False using reduce_closes replay_from_terminal by blast
qed

lemma replay_succeeds_iff: "(\<exists>r. replayContinuation es = Inr r) \<longleftrightarrow> lifecycle_stream es"
proof (cases es rule: lifecycle_stream.cases)
  case 1
  then show ?thesis by (simp add: replayContinuation_def)
next
  case (2 c)
  then show ?thesis
    by (auto simp: replay_single reduce_None_iff is_creation_def split: event_body.splits)
next
  case (3 c e)
  then show ?thesis
    by (auto simp: replay_pair reduce_None_iff reduce_Some_iff is_creation_def closes_def
        split: event_body.splits)
next
  case (4 c d e es')
  then show ?thesis using replay_long by auto
qed

lemma replay_version:
  assumes "replayContinuation es = Inr (Some s)"
  shows "env_version s = int (length es)" "env_schemaVersion s = 1"
    "env_status s = StPending \<longleftrightarrow> length es = 1"
proof -
  have "lifecycle_stream es" using assms replay_succeeds_iff by blast
  then consider "es = []" | (one) c where "es = [c]" | (two) c e where "es = [c, e]"
    by (cases es rule: lifecycle_stream.cases) auto
  then have "env_version s = int (length es) \<and> env_schemaVersion s = 1 \<and>
      (env_status s = StPending \<longleftrightarrow> length es = 1)"
  proof cases
    case 1
    with assms show ?thesis by (simp add: replayContinuation_def)
  next
    case one
    with assms show ?thesis
      by (auto simp: replay_single reduce_None_iff created_envelope_def CONTINUATION_SCHEMA_VERSION_def
          env_status_def)
  next
    case two
    with assms obtain s0 where s0: "reduceContinuation None c = Inr s0" "reduceContinuation (Some s0) e = Inr s"
      by (auto simp: replay_pair)
    have "env_schemaVersion s = 1"
      using s0(2) by (cases "ev_body e") (auto simp: reduce_Some_iff)
    moreover have "env_version s = 2"
      using reduce_keeps_origin [OF s0(2)] s0(1) by (auto simp: reduce_None_iff)
    ultimately show ?thesis using reduce_closes [OF s0(2)] two by simp
  qed
  then show "env_version s = int (length es)" "env_schemaVersion s = 1"
    "env_status s = StPending \<longleftrightarrow> length es = 1"
    by simp_all
qed

lemma replay_None_iff: "replayContinuation es = Inr None \<longleftrightarrow> es = []"
proof
  assume r: "replayContinuation es = Inr None"
  then have "lifecycle_stream es" using replay_succeeds_iff by blast
  with r show "es = []"
    by (cases es rule: lifecycle_stream.cases) (auto simp: replay_single replay_pair)
qed (simp add: replayContinuation_def)

lemma replay_snoc:
  "replayContinuation es = Inr st \<Longrightarrow>
    replayContinuation (es @ [e]) = bindR (reduceContinuation st e) (\<lambda>s. Inr (Some s))"
  by (simp add: replayContinuation_def replay_append)

text \<open>Every prefix of a stream that replays, replays.\<close>

lemma replay_prefix: "replayContinuation (es @ fs) = Inr r \<Longrightarrow> \<exists>q. replayContinuation es = Inr q"
  by (auto simp: replayContinuation_def replay_append bindR_eq_Inr)

lemma lifecycle_stream_append: "lifecycle_stream (es @ fs) \<Longrightarrow> lifecycle_stream es"
  using replay_prefix replay_succeeds_iff by blast

text \<open>The identity of the continuation is that of every event of its stream.\<close>

lemma replay_ids:
  assumes "replayContinuation es = Inr (Some s)" "e \<in> set es"
  shows "ev_continuationId e = env_continuationId s"
proof -
  have "lifecycle_stream es" using assms replay_succeeds_iff by blast
  then consider "es = []" | (one) c where "es = [c]" | (two) c d where "es = [c, d]"
    by (cases es rule: lifecycle_stream.cases) auto
  then show ?thesis
  proof cases
    case 1
    with assms show ?thesis by simp
  next
    case one
    with assms show ?thesis by (auto simp: replay_single reduce_None_iff)
  next
    case two
    with assms(1) obtain s0 where s0: "reduceContinuation None c = Inr s0" "reduceContinuation (Some s0) d = Inr s"
      by (auto simp: replay_pair)
    have "env_continuationId s = env_continuationId s0"
      using reduce_keeps_origin [OF s0(2)] by (simp add: same_origin_def)
    moreover have "ev_continuationId c = env_continuationId s0" "ev_continuationId d = env_continuationId s0"
      using s0 by (auto simp: reduce_None_iff reduce_Some_iff)
    ultimately show ?thesis using two assms(2) by auto
  qed
qed

end
