(* ===== verification/EventSerialization.thy ===== *)
theory EventSerialization
  imports Zod Reducer
begin

text \<open>
  \<open>src/adapters/storage/event-serialization.ts\<close>: the strict schema of a stored event, the texts an
  append writes and the events a load reads back. The main fact is the round trip: a batch that
  serializes is read back as the same events.
\<close>

section \<open>Schemas\<close>

definition eventBaseSchema :: "(jstr \<times> schema) list" where
  "eventBaseSchema =
     [(js ''schemaVersion'', ZLiteral (JInt CONTINUATION_SCHEMA_VERSION)),
      (js ''continuationId'', ZString [MinLength 1]),
      (js ''version'', ZNumber [IsInt, Positive, Safe]),
      (js ''occurredAt'', ZIsoDatetime False)]"

definition continuationEventSchema :: schema where
  "continuationEventSchema = ZDiscriminatedUnion (js ''type'')
     [ZObject Strict (eventBaseSchema @
        [(js ''type'', ZLiteral (JStr (js ''continuation.created''))),
         (js ''correlationId'', ZString [MinLength 1]),
         (js ''expiresAt'', ZIsoDatetime False),
         (js ''payload'', ZJson),
         (js ''metadata'', ZRecord ZJson),
         (js ''resumeTokenHash'', ZString [StrCheck hex64_i])]),
      ZObject Strict (eventBaseSchema @
        [(js ''type'', ZLiteral (JStr (js ''continuation.resumed''))),
         (js ''idempotencyKey'', ZString [MinLength 1]),
         (js ''resumePayload'', ZJson)]),
      ZObject Strict (eventBaseSchema @
        [(js ''type'', ZLiteral (JStr (js ''continuation.cancelled''))),
         (js ''reason'', ZOptional (ZString []))]),
      ZObject Strict (eventBaseSchema @
        [(js ''type'', ZLiteral (JStr (js ''continuation.expired'')))])]"

section \<open>Events as JavaScript objects\<close>

text \<open>An event as a JavaScript object; the members in the order in which the schema rebuilds them.\<close>

fun body_fields :: "event_body \<Rightarrow> (jstr \<times> json) list" where
  "body_fields (Created corr exp p md hash) =
     [(js ''correlationId'', JStr corr), (js ''expiresAt'', JStr exp), (js ''payload'', p),
      (js ''metadata'', JObj md), (js ''resumeTokenHash'', JStr hash)]"
| "body_fields (Resumed key p) = [(js ''idempotencyKey'', JStr key), (js ''resumePayload'', p)]"
| "body_fields (Cancelled r) = (case r of None \<Rightarrow> [] | Some s \<Rightarrow> [(js ''reason'', JStr s)])"
| "body_fields Expired = []"

definition event_json :: "event \<Rightarrow> json" where
  "event_json e = JObj
     ([(js ''schemaVersion'', JInt (ev_schemaVersion e)), (js ''continuationId'', JStr (ev_continuationId e)),
       (js ''version'', JInt (ev_version e)), (js ''occurredAt'', JStr (ev_occurredAt e)),
       (js ''type'', JStr (ev_type e))] @ body_fields (ev_body e))"

text \<open>
  Reading the fields of an object the schema has accepted: \<open>result.data as ContinuationEventV1\<close>. The
  schema guarantees the fields; the default values are never read from accepted data.
\<close>

definition str_field :: "string \<Rightarrow> json \<Rightarrow> jstr" where
  "str_field k d = (case get k d of Some (JStr s) \<Rightarrow> s | _ \<Rightarrow> [])"

definition int_field :: "string \<Rightarrow> json \<Rightarrow> int" where
  "int_field k d = (case get k d of Some (JNum n) \<Rightarrow> int_of_num n | _ \<Rightarrow> 0)"

definition json_field :: "string \<Rightarrow> json \<Rightarrow> json" where
  "json_field k d = (case get k d of Some v \<Rightarrow> v | None \<Rightarrow> JNull)"

definition obj_field :: "string \<Rightarrow> json \<Rightarrow> json_object" where
  "obj_field k d = (case get k d of Some (JObj fs) \<Rightarrow> fs | _ \<Rightarrow> [])"

definition opt_str_field :: "string \<Rightarrow> json \<Rightarrow> jstr option" where
  "opt_str_field k d = (case get k d of Some (JStr s) \<Rightarrow> Some s | _ \<Rightarrow> None)"

definition as_body :: "json \<Rightarrow> event_body" where
  "as_body d =
     (let ty = str_field ''type'' d
      in if ty = js ''continuation.created'' then
           Created (str_field ''correlationId'' d) (str_field ''expiresAt'' d) (json_field ''payload'' d)
             (obj_field ''metadata'' d) (str_field ''resumeTokenHash'' d)
         else if ty = js ''continuation.resumed'' then
           Resumed (str_field ''idempotencyKey'' d) (json_field ''resumePayload'' d)
         else if ty = js ''continuation.cancelled'' then Cancelled (opt_str_field ''reason'' d)
         else Expired)"

definition as_event :: "json \<Rightarrow> event" where
  "as_event d =
     \<lparr>ev_schemaVersion = int_field ''schemaVersion'' d, ev_continuationId = str_field ''continuationId'' d,
      ev_version = int_field ''version'' d, ev_occurredAt = str_field ''occurredAt'' d,
      ev_body = as_body d\<rparr>"

section \<open>Operations\<close>

definition parseEvent :: "(schema \<Rightarrow> zparser) \<Rightarrow> json \<Rightarrow> (failure, json) result" where
  "parseEvent sp v =
     (case sp continuationEventSchema (Some v) of
        Some (Some d) \<Rightarrow> Inr d
      | _ \<Rightarrow> Inl (TypeError (js ''Stored continuation event does not match schema version 1'')))"

definition serialize_one :: "(schema \<Rightarrow> zparser) \<Rightarrow> jstr \<Rightarrow> int \<Rightarrow> event \<times> nat \<Rightarrow> (failure, jstr) result" where
  "serialize_one sp continuationId expectedVersion = (\<lambda>(event, index).
     let nextVersion = expectedVersion + int index + 1
     in bindR (guardR (ev_continuationId event = continuationId)
          (PauseMeshError (ContinuationIdMismatchError continuationId (ev_continuationId event)))) (\<lambda>_.
        bindR (guardR (ev_version event = nextVersion)
          (PauseMeshError (VersionConflictError continuationId nextVersion (ev_version event)))) (\<lambda>_.
        bindR (parseEvent sp (event_json event)) (\<lambda>data. Inr (stringify data)))))"

definition serializeAppendBatch ::
    "(schema \<Rightarrow> zparser) \<Rightarrow> jstr \<Rightarrow> int \<Rightarrow> event list \<Rightarrow> (failure, jstr list) result" where
  "serializeAppendBatch sp continuationId expectedVersion events =
     mapR (serialize_one sp continuationId expectedVersion) (indexed events)"

definition deserializeEvent :: "(schema \<Rightarrow> zparser) \<Rightarrow> jstr \<Rightarrow> (failure, event) result" where
  "deserializeEvent sp serializedEvent =
     (case json_parse serializedEvent of
        None \<Rightarrow> Inl (TypeError (js ''Stored continuation event must be valid JSON''))
      | Some v \<Rightarrow> bindR (parseEvent sp v) (\<lambda>data. Inr (as_event data)))"

section \<open>Which events the schema accepts\<close>

text \<open>
  An event as a JavaScript program holds it: its JSON parts are plain JSON values. What the schema
  asks besides is \<open>storable\<close>.
\<close>

fun body_ok :: "event_body \<Rightarrow> bool" where
  "body_ok (Created corr exp p md hash) = (json_ok p \<and> json_ok (JObj md))"
| "body_ok (Resumed key p) = json_ok p"
| "body_ok _ = True"

definition is_datetime :: "(schema \<Rightarrow> zparser) \<Rightarrow> jstr \<Rightarrow> bool" where
  "is_datetime sp s \<longleftrightarrow> sp (ZIsoDatetime False) (Some (JStr s)) \<noteq> None"

fun body_storable :: "(schema \<Rightarrow> zparser) \<Rightarrow> event_body \<Rightarrow> bool" where
  "body_storable sp (Created corr exp p md hash) = (corr \<noteq> [] \<and> is_datetime sp exp \<and> hex64_i hash)"
| "body_storable sp (Resumed key p) = (key \<noteq> [])"
| "body_storable sp _ = True"

definition storable :: "(schema \<Rightarrow> zparser) \<Rightarrow> event \<Rightarrow> bool" where
  "storable sp e \<longleftrightarrow>
     ev_schemaVersion e = 1 \<and> ev_continuationId e \<noteq> [] \<and> 0 < ev_version e \<and> safe_int (ev_version e) \<and>
     is_datetime sp (ev_occurredAt e) \<and> body_storable sp (ev_body e)"

lemma map_of_event_json [simp]:
  "get ''type'' (event_json e) = Some (JStr (ev_type e))"
  by (simp add: event_json_def)

lemma plain_event_json: "plain_object (Some (event_json e))"
  by (cases "ev_body e") (auto simp: plain_object_def event_json_def split: option.splits)

lemma members_parse_id:
  "(\<And>k v. (k, v) \<in> set fs \<Longrightarrow> p (Some v) = Some (Some v)) \<Longrightarrow> members_parse p fs = Some fs"
proof (induction fs)
  case (Cons f fs)
  obtain k v where f: "f = (k, v)" by (cases f)
  then have "p (Some v) = Some (Some v)" using Cons.prems [of k v] by simp
  moreover have "members_parse p fs = Some fs"
    using Cons.IH Cons.prems by (meson list.set_intros(2))
  ultimately show ?case by (simp add: f)
qed simp

lemma json_wf_event_json: "body_ok (ev_body e) \<Longrightarrow> json_wf (event_json e)"
proof (cases "ev_body e")
  case (Cancelled r)
  then show ?thesis
    by (cases r) (simp_all add: event_json_def js_obj_id)
qed (auto simp: event_json_def js_obj_id dest: json_ok_wf)

lemma as_event_event_json [simp]: "as_event (event_json e) = e"
proof -
  have "as_body (event_json e) = ev_body e"
    by (cases "ev_body e")
      (auto simp: as_body_def event_json_def ev_type_def str_field_def json_field_def obj_field_def
        opt_str_field_def split: option.splits)
  then show ?thesis
    by (cases e) (simp add: as_event_def, simp add: event_json_def str_field_def int_field_def)
qed

context zod
begin

lemma datetime_parse:
  "sp (ZIsoDatetime False) (Some (JStr s)) = (if is_datetime sp s then Some (Some (JStr s)) else None)"
  using formats [of "ZIsoDatetime False" False "Some (JStr s)"]
  by (auto simp: is_datetime_def)

lemma parse_atoms:
  "sp (ZString [MinLength (Suc 0)]) (Some (JStr s)) = (if s \<noteq> [] then Some (Some (JStr s)) else None)"
  "sp (ZString [StrCheck f]) (Some (JStr s)) = (if f s then Some (Some (JStr s)) else None)"
  "sp (ZString []) (Some (JStr s)) = Some (Some (JStr s))"
  "sp (ZLiteral l) (Some v) = (if v = l then Some (Some v) else None)"
  "sp (ZNumber [IsInt, Positive, Safe]) (Some (JInt n)) =
     (if 0 < n \<and> safe_int n then Some (Some (JInt n)) else None)"
  by (cases s; simp add: string string_parse_def literal literal_parse_def number number_parse_def
    num_less_def num_le_ints)+

lemma record_json:
  assumes "json_ok (JObj md)"
  shows "sp (ZRecord ZJson) (Some (JObj md)) = Some (Some (JObj md))"
proof -
  have md: "js_obj md = md" "\<forall>(k, v) \<in> set md. k \<noteq> js ''__proto__'' \<and> json_ok v"
    using assms by (auto simp: json_ok_obj list_all_iff)
  then have "distinct (map fst md)" by (metis distinct_js_obj)
  with md have "plain_object (Some (JObj md))" by (auto simp: plain_object_def)
  then show ?thesis
    using md(2) by (auto simp: record' record_parse_def json_value intro!: members_parse_id)
qed

lemmas event_parse_simps = json_value parse_atoms datetime_parse record_json optional optional_parse_def

text \<open>The schema accepts exactly the storable events, and hands them back as they are.\<close>

lemma schema_event:
  assumes "body_ok (ev_body e)"
  shows "sp continuationEventSchema (Some (event_json e)) =
    (if storable sp e then Some (Some (event_json e)) else None)"
proof -
  note event_json_def [simp] ev_type_def [simp]
  have tag: "sp continuationEventSchema (Some (event_json e)) =
      tagged_parse (Some (JStr (body_type (ev_body e))))
        (map (\<lambda>s. (discriminator (js ''type'') s, sp s))
          (case continuationEventSchema of ZDiscriminatedUnion d ss \<Rightarrow> ss | _ \<Rightarrow> []))
        (Some (event_json e))"
    by (simp add: continuationEventSchema_def discriminated discriminated_parse_def)
  note plain = plain_event_json [of e]
  note defs = continuationEventSchema_def object object_parse_def extra_fields_def eventBaseSchema_def
    storable_def event_parse_simps CONTINUATION_SCHEMA_VERSION_def
  show ?thesis
  proof (cases "ev_body e")
    case (Created corr exp p md hash)
    with plain assms show ?thesis unfolding tag by (auto simp: defs)
  next
    case (Resumed key p)
    with plain assms show ?thesis unfolding tag by (auto simp: defs)
  next
    case (Cancelled r)
    with plain show ?thesis unfolding tag by (cases r) (auto simp: defs)
  next
    case Expired
    with plain show ?thesis unfolding tag by (auto simp: defs)
  qed
qed

lemma parseEvent_event:
  "body_ok (ev_body e) \<Longrightarrow> parseEvent sp (event_json e) =
    (if storable sp e then Inr (event_json e)
     else Inl (TypeError (js ''Stored continuation event does not match schema version 1'')))"
  by (simp add: parseEvent_def schema_event)

text \<open>What a text written by an append is read back as.\<close>

lemma deserialize_text:
  "body_ok (ev_body e) \<Longrightarrow> storable sp e \<Longrightarrow> deserializeEvent sp (stringify (event_json e)) = Inr e"
  by (simp add: deserializeEvent_def json_parse_stringify json_wf_event_json parseEvent_event)

end

section \<open>Batches\<close>

text \<open>A batch of events of one continuation, numbered from the version after \<open>v\<close>.\<close>

definition numbered :: "jstr \<Rightarrow> int \<Rightarrow> event list \<Rightarrow> bool" where
  "numbered cid v es \<longleftrightarrow>
     (\<forall>i < length es. ev_continuationId (es ! i) = cid \<and> ev_version (es ! i) = v + int i + 1)"

definition events_ok :: "event list \<Rightarrow> bool" where
  "events_ok es \<longleftrightarrow> (\<forall>e \<in> set es. body_ok (ev_body e))"

lemma events_ok_simps [simp, wf_simps]:
  "events_ok []" "events_ok (e # es) \<longleftrightarrow> body_ok (ev_body e) \<and> events_ok es"
  "events_ok (es @ fs) \<longleftrightarrow> events_ok es \<and> events_ok fs"
  by (auto simp: events_ok_def)

lemma numbered_Nil [simp]: "numbered cid v []"
  by (simp add: numbered_def)

lemma numbered_single [simp]:
  "numbered cid v [e] \<longleftrightarrow> ev_continuationId e = cid \<and> ev_version e = v + 1"
  by (simp add: numbered_def)

lemma numbered_append:
  "numbered cid v (es @ fs) \<longleftrightarrow> numbered cid v es \<and> numbered cid (v + int (length es)) fs"
proof
  assume n: "numbered cid v (es @ fs)"
  have "ev_continuationId (fs ! i) = cid \<and> ev_version (fs ! i) = v + int (length es) + int i + 1"
    if "i < length fs" for i
    using n that unfolding numbered_def by (auto dest: spec [of _ "length es + i"])
  moreover have "ev_continuationId (es ! i) = cid \<and> ev_version (es ! i) = v + int i + 1"
    if "i < length es" for i
    using n that unfolding numbered_def by (auto dest: spec [of _ i] simp: nth_append)
  ultimately show "numbered cid v es \<and> numbered cid (v + int (length es)) fs"
    by (simp add: numbered_def)
next
  assume n: "numbered cid v es \<and> numbered cid (v + int (length es)) fs"
  have "ev_continuationId ((es @ fs) ! i) = cid \<and> ev_version ((es @ fs) ! i) = v + int i + 1"
    if "i < length (es @ fs)" for i
    using n that by (cases "i < length es") (auto simp: numbered_def nth_append)
  then show "numbered cid v (es @ fs)" by (simp add: numbered_def)
qed

context zod
begin

lemma serialize_one_iff:
  "body_ok (ev_body e) \<Longrightarrow> serialize_one sp cid v (e, i) = Inr t \<longleftrightarrow>
    (ev_continuationId e = cid \<and> ev_version e = v + int i + 1) \<and> storable sp e \<and>
    t = stringify (event_json e)"
  by (auto simp: serialize_one_def bindR_guardR parseEvent_event Let_def)

lemma serialize_iff:
  assumes "events_ok es"
  shows "serializeAppendBatch sp cid v es = Inr ts \<longleftrightarrow>
    numbered cid v es \<and> list_all (storable sp) es \<and> ts = map (stringify \<circ> event_json) es"
proof -
  have body: "body_ok (ev_body (es ! i))" if "i < length es" for i
    using assms that by (simp add: events_ok_def)
  have "serializeAppendBatch sp cid v es = Inr ts \<longleftrightarrow>
      length es = length ts \<and>
      (\<forall>i < length es. serialize_one sp cid v (es ! i, i) = Inr (ts ! i))"
    by (simp add: serializeAppendBatch_def mapR_Inr_iff list_all2_conv_all_nth indexed_nth)
  also have "\<dots> \<longleftrightarrow> length es = length ts \<and>
      (\<forall>i < length es. (ev_continuationId (es ! i) = cid \<and> ev_version (es ! i) = v + int i + 1) \<and>
        storable sp (es ! i) \<and> ts ! i = stringify (event_json (es ! i)))"
    using body by (simp add: serialize_one_iff cong: conj_cong)
  also have "\<dots> \<longleftrightarrow> numbered cid v es \<and> list_all (storable sp) es \<and> ts = map (stringify \<circ> event_json) es"
    by (auto simp: numbered_def list_all_length intro: nth_equalityI)
  finally show ?thesis .
qed

lemma deserialize_texts:
  "events_ok es \<Longrightarrow> list_all (storable sp) es \<Longrightarrow>
    mapR (deserializeEvent sp) (map (stringify \<circ> event_json) es) = Inr es"
  by (induction es) (simp_all add: deserialize_text)

end

end
