(* ===== verification/EventStore.thy ===== *)
theory EventStore
  imports EventSerialization
begin

text \<open>
  \<open>src/ports/event-store.ts\<close>: the contract between the continuation service and whatever keeps the
  event streams. A store of type \<open>'s\<close> offers \<open>load\<close> and \<open>append\<close>; the locale states what its doc
  comment promises (an append compares the version of the stream and adds all events or none) as
  laws over the loaded streams. An append whose host fails, as a connection may break after a commit, has
  added all events or none, and does not say which. \<open>good\<close> is the invariant of a store. That a load fails
  because its host does is not a matter of the store: it may happen to any call (theory Concurrency). The stores of
  \<open>src/adapters/storage\<close> are its interpretations. A store that cannot fail for reasons of its own, as a
  disk or a connection can, is a \<open>reliable_event_store\<close>: it stores every event it \<open>accepts\<close>.
\<close>

text \<open>The errors a store, and the other ports, may answer with.\<close>

fun store_failure :: "failure \<Rightarrow> bool" where
  "store_failure (PauseMeshError (VersionConflictError _ _ _)) = True"
| "store_failure (PauseMeshError (ContinuationIdMismatchError _ _)) = True"
| "store_failure (PauseMeshError _) = False"
| "store_failure (PlainError _) = False"
| "store_failure _ = True"

fun host_failure :: "failure \<Rightarrow> bool" where
  "host_failure (HostError _) = True"
| "host_failure _ = False"

locale event_store =
  fixes load :: "'s \<Rightarrow> jstr \<Rightarrow> (failure, event list) result"
    and append :: "'s \<Rightarrow> jstr \<Rightarrow> int \<Rightarrow> event list \<Rightarrow> (failure, unit) result \<times> 's"
    and good :: "'s \<Rightarrow> bool"
  assumes load_total: "good s \<Longrightarrow> \<exists>es. load s c = Inr es \<and> numbered c 0 es \<and> events_ok es"
    and append_done: "good s \<Longrightarrow> events_ok es \<Longrightarrow> append s c v es = (Inr u, s') \<Longrightarrow> load s c = Inr old \<Longrightarrow>
      v = int (length old) \<and> numbered c v es \<and> load s' c = Inr (old @ es)"
    and append_failed: "good s \<Longrightarrow> events_ok es \<Longrightarrow> append s c v es = (Inl e, s') \<Longrightarrow> load s c = Inr old \<Longrightarrow>
      load s' c = Inr old \<or> host_failure e \<and> v = int (length old) \<and> numbered c v es \<and> load s' c = Inr (old @ es)"
    and append_other: "good s \<Longrightarrow> events_ok es \<Longrightarrow> d \<noteq> c \<Longrightarrow> load (snd (append s c v es)) d = load s d"
    and append_good: "good s \<Longrightarrow> events_ok es \<Longrightarrow> good (snd (append s c v es))"
    and append_stale: "good s \<Longrightarrow> load s c = Inr old \<Longrightarrow> v \<noteq> int (length old) \<Longrightarrow>
      \<exists>e. fst (append s c v es) = Inl e"
    and append_conflict: "good s \<Longrightarrow> load s c = Inr old \<Longrightarrow> numbered c v es \<Longrightarrow>
      fst (append s c v es) = Inl e \<Longrightarrow> is_version_conflict e \<Longrightarrow> v \<noteq> int (length old)"
    and append_errors: "good s \<Longrightarrow> fst (append s c v es) = Inl e \<Longrightarrow> store_failure e"
begin

text \<open>The stream of a continuation.\<close>

definition stream :: "'s \<Rightarrow> jstr \<Rightarrow> event list" where
  "stream s c = (case load s c of Inr es \<Rightarrow> es | Inl _ \<Rightarrow> [])"

lemma load_stream: "good s \<Longrightarrow> load s c = Inr (stream s c)"
  using load_total [of s c] by (auto simp: stream_def)

lemma stream_numbered: "good s \<Longrightarrow> numbered c 0 (stream s c)"
  using load_total [of s c] by (auto simp: stream_def)

lemma stream_ok: "good s \<Longrightarrow> events_ok (stream s c)"
  using load_total [of s c] by (auto simp: stream_def)

lemma stream_append:
  assumes "good s" "events_ok es" "append s c v es = (Inr u, s')"
  shows "stream s' d = (if d = c then stream s c @ es else stream s d)"
    "v = int (length (stream s c))" "numbered c v es"
proof -
  note app = append_done [OF assms load_stream [OF assms(1)]]
  show "stream s' d = (if d = c then stream s c @ es else stream s d)"
  proof (cases "d = c")
    case True
    then show ?thesis using app by (simp add: stream_def)
  next
    case False
    have "load (snd (append s c v es)) d = load s d"
      by (rule append_other [OF assms(1,2) False])
    with False show ?thesis by (simp add: stream_def assms(3))
  qed
  show "v = int (length (stream s c))" "numbered c v es"
    using app by blast+
qed

lemma stream_failed:
  assumes "good s" "events_ok es" "append s c v es = (Inl e, s')"
  shows "(\<forall>d. stream s' d = stream s d) \<or>
    host_failure e \<and> v = int (length (stream s c)) \<and> (\<forall>d. stream s' d = (if d = c then stream s c @ es else stream s d))"
proof -
  have "stream s' d = stream s d" if "d \<noteq> c" for d
    using append_other [OF assms(1,2) that, of v] by (simp add: stream_def assms(3))
  moreover have "stream s' c = stream s c \<or>
      host_failure e \<and> v = int (length (stream s c)) \<and> stream s' c = stream s c @ es"
    using append_failed [OF assms load_stream [OF assms(1)]] by (auto simp: stream_def [of s'])
  ultimately show ?thesis by metis
qed

text \<open>Streams only grow.\<close>

lemma stream_grows:
  assumes "good s" "events_ok es"
  shows "prefix (stream s d) (stream (snd (append s c v es)) d)"
proof (cases "append s c v es")
  case (Pair r s')
  show ?thesis
  proof (cases r)
    case (Inl e)
    then show ?thesis using stream_failed [OF assms, of c v e s'] Pair by auto
  next
    case (Inr u)
    then show ?thesis using stream_append(1) [OF assms, of c v u s' d] Pair by simp
  qed
qed

end

locale reliable_event_store = event_store load append good
  for load :: "'s \<Rightarrow> jstr \<Rightarrow> (failure, event list) result"
    and append :: "'s \<Rightarrow> jstr \<Rightarrow> int \<Rightarrow> event list \<Rightarrow> (failure, unit) result \<times> 's"
    and good :: "'s \<Rightarrow> bool" +
  fixes accepts :: "event \<Rightarrow> bool"
  assumes append_accepted: "good s \<Longrightarrow> events_ok es \<Longrightarrow> load s c = Inr old \<Longrightarrow> v = int (length old) \<Longrightarrow>
      numbered c v es \<Longrightarrow> list_all accepts es \<Longrightarrow> fst (append s c v es) = Inr ()"

end
