(* ===== verification/Program.thy ===== *)
theory Program
  imports EventStore
begin

text \<open>
  Asynchronous operations as data. The application service is written against ports (clock, id
  generator, token issuer, event store, observer); an operation is a tree whose nodes are its calls
  to the ports, in order, with the rest of the operation as a function of the answer. Interpreting
  the calls one by one gives a sequential run (\<open>run\<close>); letting several operations take turns between
  calls gives every interleaving of a concurrent service (theory Concurrency).
\<close>

text \<open>\<open>src/ports/observer.ts\<close>: redacted lifecycle facts.\<close>

datatype observation =
    ObsCreated (obs_continuationId: jstr) (obs_correlationId: jstr) (obs_observedAt: jstr) (obs_version: int)
  | ObsTransitioned (obs_continuationId: jstr) (obs_observedAt: jstr) (obs_version: int)
      (obs_status: continuation_status)
  | ObsRejected (obs_continuationId: jstr) (obs_observedAt: jstr) (obs_code: pausemesh_error_code)

text \<open>\<open>src/ports/token-issuer.ts\<close>\<close>

record issued_token =
  it_token :: jstr
  it_tokenHash :: jstr

datatype 'r prog =
    Ret 'r
  | Fail failure
  | Now "jsdate \<Rightarrow> 'r prog"
  | GenerateId "jstr \<Rightarrow> 'r prog"
  | Issue "(failure, issued_token) result \<Rightarrow> 'r prog"
  | Hash jstr "(failure, jstr) result \<Rightarrow> 'r prog"
  | Load jstr "(failure, event list) result \<Rightarrow> 'r prog"
  | Append jstr int "event list" "(failure, unit) result \<Rightarrow> 'r prog"
  | Observe observation "(failure, unit) result \<Rightarrow> 'r prog"

text \<open>Sequencing, and \<open>try ... catch\<close>.\<close>

primrec bindP :: "'a prog \<Rightarrow> ('a \<Rightarrow> 'b prog) \<Rightarrow> 'b prog" where
  "bindP (Ret x) f = f x"
| "bindP (Fail e) f = Fail e"
| "bindP (Now k) f = Now (\<lambda>d. bindP (k d) f)"
| "bindP (GenerateId k) f = GenerateId (\<lambda>i. bindP (k i) f)"
| "bindP (Issue k) f = Issue (\<lambda>r. bindP (k r) f)"
| "bindP (Hash t k) f = Hash t (\<lambda>r. bindP (k r) f)"
| "bindP (Load c k) f = Load c (\<lambda>r. bindP (k r) f)"
| "bindP (Append c v es k) f = Append c v es (\<lambda>r. bindP (k r) f)"
| "bindP (Observe ob k) f = Observe ob (\<lambda>r. bindP (k r) f)"

primrec catchP :: "'a prog \<Rightarrow> (failure \<Rightarrow> 'a prog) \<Rightarrow> 'a prog" where
  "catchP (Ret x) h = Ret x"
| "catchP (Fail e) h = h e"
| "catchP (Now k) h = Now (\<lambda>d. catchP (k d) h)"
| "catchP (GenerateId k) h = GenerateId (\<lambda>i. catchP (k i) h)"
| "catchP (Issue k) h = Issue (\<lambda>r. catchP (k r) h)"
| "catchP (Hash t k) h = Hash t (\<lambda>r. catchP (k r) h)"
| "catchP (Load c k) h = Load c (\<lambda>r. catchP (k r) h)"
| "catchP (Append c v es k) h = Append c v es (\<lambda>r. catchP (k r) h)"
| "catchP (Observe ob k) h = Observe ob (\<lambda>r. catchP (k r) h)"

definition liftP :: "(failure, 'a) result \<Rightarrow> 'a prog" where
  "liftP r = (case r of Inl e \<Rightarrow> Fail e | Inr x \<Rightarrow> Ret x)"

text \<open>A call of the pure domain, whose errors are PauseMesh errors.\<close>

definition domainP :: "(pausemesh_error, 'a) result \<Rightarrow> 'a prog" where
  "domainP r = (case r of Inl e \<Rightarrow> Fail (PauseMeshError e) | Inr x \<Rightarrow> Ret x)"

lemma liftP_simps [simp]: "liftP (Inl e) = Fail e" "liftP (Inr x) = Ret x"
  by (simp_all add: liftP_def)

lemma domainP_simps [simp]: "domainP (Inl e) = Fail (PauseMeshError e)" "domainP (Inr x) = Ret x"
  by (simp_all add: domainP_def)

lemma bindP_if: "bindP (if b then p else q) f = (if b then bindP p f else bindP q f)"
  by simp

lemma bindP_Ret [simp]: "bindP p Ret = p"
  by (induction p) (simp_all add: fun_eq_iff)

lemma bindP_assoc [simp]: "bindP (bindP p f) g = bindP p (\<lambda>x. bindP (f x) g)"
  by (induction p) (simp_all add: fun_eq_iff)

lemma bindP_liftP: "bindP (liftP r) f = (case r of Inl e \<Rightarrow> Fail e | Inr x \<Rightarrow> f x)"
  by (cases r) simp_all

lemma bindP_domainP: "bindP (domainP r) f = (case r of Inl e \<Rightarrow> Fail (PauseMeshError e) | Inr x \<Rightarrow> f x)"
  by (cases r) simp_all

section \<open>The ports, and a sequential run\<close>

text \<open>
  The answers of the ports other than the store: the n-th reading of the clock, the n-th generated
  id, the n-th issued token, the hash of a token, and whether the observer accepts an observation.
\<close>

record ports =
  p_clock :: "nat \<Rightarrow> jsdate"
  p_ids :: "nat \<Rightarrow> jstr"
  p_tokens :: "nat \<Rightarrow> (failure, issued_token) result"
  p_hash :: "jstr \<Rightarrow> (failure, jstr) result"
  p_observe :: "observation \<Rightarrow> (failure, unit) result"

record 's world =
  w_store :: 's
  w_ticks :: nat
  w_ids :: nat
  w_tokens :: nat
  w_log :: "observation list"

primrec run ::
    "('s \<Rightarrow> jstr \<Rightarrow> (failure, event list) result) \<Rightarrow>
     ('s \<Rightarrow> jstr \<Rightarrow> int \<Rightarrow> event list \<Rightarrow> (failure, unit) result \<times> 's) \<Rightarrow>
     ports \<Rightarrow> 'r prog \<Rightarrow> 's world \<Rightarrow> (failure, 'r) result \<times> 's world" where
  "run ld ap P (Ret x) w = (Inr x, w)"
| "run ld ap P (Fail e) w = (Inl e, w)"
| "run ld ap P (Now k) w =
     run ld ap P (k (p_clock P (w_ticks w))) (w\<lparr>w_ticks := Suc (w_ticks w)\<rparr>)"
| "run ld ap P (GenerateId k) w =
     run ld ap P (k (p_ids P (w_ids w))) (w\<lparr>w_ids := Suc (w_ids w)\<rparr>)"
| "run ld ap P (Issue k) w =
     run ld ap P (k (p_tokens P (w_tokens w))) (w\<lparr>w_tokens := Suc (w_tokens w)\<rparr>)"
| "run ld ap P (Hash t k) w = run ld ap P (k (p_hash P t)) w"
| "run ld ap P (Load c k) w = run ld ap P (k (ld (w_store w) c)) w"
| "run ld ap P (Append c v es k) w =
     (case ap (w_store w) c v es of (r, s) \<Rightarrow> run ld ap P (k r) (w\<lparr>w_store := s\<rparr>))"
| "run ld ap P (Observe ob k) w =
     run ld ap P (k (p_observe P ob)) (w\<lparr>w_log := w_log w @ [ob]\<rparr>)"

lemma run_bindP:
  "run ld ap P (bindP p f) w =
    (case run ld ap P p w of
       (Inl e, w') \<Rightarrow> (Inl e, w')
     | (Inr x, w') \<Rightarrow> run ld ap P (f x) w')"
  by (induction p arbitrary: w) (simp_all split: prod.split)

lemma run_catchP:
  "run ld ap P (catchP p h) w =
    (case run ld ap P p w of
       (Inl e, w') \<Rightarrow> run ld ap P (h e) w'
     | (Inr x, w') \<Rightarrow> (Inr x, w'))"
  by (induction p arbitrary: w) (simp_all split: prod.split)

end
