(* ===== verification/Knowledge.thy ===== *)
theory Knowledge
  imports Program
begin

text \<open>
  What an operation may conclude from what it has read. Streams only grow, so a stream an operation
  loaded (or wrote) is a prefix of the stream for ever after, whatever other operations do in the
  meantime. \<open>sat\<close> says that a program, started with such knowledge, appends only events that keep
  every stream a life of one continuation, and ends in a result or an error its knowledge justifies.
  The rules below compute \<open>sat\<close> along the structure of a program.
\<close>

type_synonym know = "(jstr \<times> event list) set"

text \<open>The streams a good store can hold under a continuation id.\<close>

definition proper :: "jstr \<Rightarrow> event list \<Rightarrow> bool" where
  "proper c es \<longleftrightarrow> numbered c 0 es \<and> events_ok es \<and> lifecycle_stream es"

definition fits :: "know \<Rightarrow> jstr \<Rightarrow> event list \<Rightarrow> bool" where
  "fits H c es \<longleftrightarrow> proper c es \<and> (\<forall>hs. (c, hs) \<in> H \<longrightarrow> prefix hs es)"

primrec sat ::
    "(jstr \<Rightarrow> jstr) \<Rightarrow> (know \<Rightarrow> 'r \<Rightarrow> bool) \<Rightarrow> (know \<Rightarrow> failure \<Rightarrow> bool) \<Rightarrow> 'r prog \<Rightarrow> know \<Rightarrow> bool" where
  "sat h Q E (Ret x) H = Q H x"
| "sat h Q E (Fail e) H = E H e"
| "sat h Q E (Now k) H = (\<forall>d. sat h Q E (k d) H)"
| "sat h Q E (GenerateId k) H = (\<forall>i. sat h Q E (k i) H)"
| "sat h Q E (Issue k) H =
     ((\<forall>t. sat h Q E (k (Inr \<lparr>it_token = t, it_tokenHash = h t\<rparr>)) H) \<and>
      (\<forall>e. host_failure e \<longrightarrow> sat h Q E (k (Inl e)) H))"
| "sat h Q E (Hash t k) H =
     (sat h Q E (k (Inr (h t))) H \<and> (\<forall>e. host_failure e \<longrightarrow> sat h Q E (k (Inl e)) H))"
| "sat h Q E (Load c k) H =
     ((\<forall>es. fits H c es \<longrightarrow> sat h Q E (k (Inr es)) (insert (c, es) H)) \<and>
      (\<forall>e. host_failure e \<longrightarrow> sat h Q E (k (Inl e)) H))"
| "sat h Q E (Append c v es k) H =
     (events_ok es \<and> numbered c v es \<and>
      (\<forall>old. fits H c old \<longrightarrow>
        (v = int (length old) \<longrightarrow>
          lifecycle_stream (old @ es) \<and> sat h Q E (k (Inr ())) (insert (c, old @ es) H)) \<and>
        (\<forall>e. store_failure e \<and> (is_version_conflict e \<longrightarrow> v \<noteq> int (length old)) \<longrightarrow>
          sat h Q E (k (Inl e)) (insert (c, old) H))))"
| "sat h Q E (Observe ob k) H = (\<forall>r. sat h Q E (k r) H)"

section \<open>Rules\<close>

lemma sat_bindP [simp]:
  "sat h Q E (bindP p f) H \<longleftrightarrow> sat h (\<lambda>H x. sat h Q E (f x) H) E p H"
  by (induction p arbitrary: H) auto

lemma sat_catchP [simp]:
  "sat h Q E (catchP p g) H \<longleftrightarrow> sat h Q (\<lambda>H e. sat h Q E (g e) H) p H"
  by (induction p arbitrary: H) auto

lemma sat_liftP [simp]:
  "sat h Q E (liftP r) H \<longleftrightarrow> (case r of Inl e \<Rightarrow> E H e | Inr x \<Rightarrow> Q H x)"
  by (cases r) simp_all

lemma sat_domainP [simp]:
  "sat h Q E (domainP r) H \<longleftrightarrow> (case r of Inl e \<Rightarrow> E H (PauseMeshError e) | Inr x \<Rightarrow> Q H x)"
  by (cases r) simp_all

lemma sat_mono:
  "sat h Q E p H \<Longrightarrow> (\<And>H x. Q H x \<Longrightarrow> Q' H x) \<Longrightarrow> (\<And>H e. E H e \<Longrightarrow> E' H e) \<Longrightarrow> sat h Q' E' p H"
  by (induction p arbitrary: H) auto

text \<open>What is known stays known.\<close>

lemma sat_keeps:
  "sat h Q E p H \<Longrightarrow> K \<subseteq> H \<Longrightarrow>
    sat h (\<lambda>H x. K \<subseteq> H \<and> Q H x) (\<lambda>H e. K \<subseteq> H \<and> E H e) p H"
proof (induction p arbitrary: H)
  case (Append c v es k)
  have "sat h (\<lambda>H x. K \<subseteq> H \<and> Q H x) (\<lambda>H e. K \<subseteq> H \<and> E H e) (k r) H'"
    if "sat h Q E (k r) H'" "K \<subseteq> H'" for r H'
    using Append.IH [of "k r" H'] that by simp
  then show ?case using Append.prems by (simp add: subset_insertI2)
qed (auto intro: subset_insertI2)

lemma sat_conseq:
  assumes "sat h Q E p H"
    and "\<And>H' x. H \<subseteq> H' \<Longrightarrow> Q H' x \<Longrightarrow> Q' H' x"
    and "\<And>H' e. H \<subseteq> H' \<Longrightarrow> E H' e \<Longrightarrow> E' H' e"
  shows "sat h Q' E' p H"
  by (rule sat_mono [OF sat_keeps [OF assms(1) order_refl]]) (use assms(2,3) in auto)

section \<open>Snapshots\<close>

text \<open>An envelope some known stream of the continuation replays to.\<close>

definition snap :: "know \<Rightarrow> jstr \<Rightarrow> envelope \<Rightarrow> bool" where
  "snap H c s \<longleftrightarrow> (\<exists>es. (c, es) \<in> H \<and> proper c es \<and> replayContinuation es = Inr (Some s))"

lemma snap_mono: "snap H c s \<Longrightarrow> H \<subseteq> H' \<Longrightarrow> snap H' c s"
  by (auto simp: snap_def)

lemma snap_insert [simp]: "snap H c s \<Longrightarrow> snap (insert x H) c s"
  by (erule snap_mono) auto

lemma snapI: "proper c es \<Longrightarrow> replayContinuation es = Inr (Some s) \<Longrightarrow> snap (insert (c, es) H) c s"
  by (auto simp: snap_def)

lemma proper_cid:
  assumes "proper c es" "replayContinuation es = Inr (Some s)"
  shows "env_continuationId s = c"
proof (cases es)
  case Nil
  then show ?thesis using assms(2) by (simp add: replayContinuation_def)
next
  case (Cons e es')
  then have "ev_continuationId e = env_continuationId s"
    using replay_ids [OF assms(2), of e] by simp
  moreover have "ev_continuationId e = c"
    using assms(1) Cons by (auto simp: proper_def numbered_def)
  ultimately show ?thesis by simp
qed

lemma snap_cid: "snap H c s \<Longrightarrow> env_continuationId s = c"
  using proper_cid by (auto simp: snap_def)

lemma snap_schema: "snap H c s \<Longrightarrow> env_schemaVersion s = 1"
  using replay_version by (auto simp: snap_def)

text \<open>A closing event fits only the stream it was computed for.\<close>

lemma closing_append:
  assumes "snap H c s" "reduceContinuation (Some s) e = Inr t" "body_ok (ev_body e)"
    and "fits H c old" "env_version s = int (length old)"
  shows "lifecycle_stream (old @ [e])" "snap (insert (c, old @ [e]) H) c t"
proof -
  obtain hs where hs: "(c, hs) \<in> H" "proper c hs" "replayContinuation hs = Inr (Some s)"
    using assms(1) by (auto simp: snap_def)
  have "prefix hs old" using assms(4) hs(1) by (simp add: fits_def)
  moreover have "length hs = length old" using replay_version(1) [OF hs(3)] assms(5) by simp
  ultimately have old: "old = hs" by (auto elim: prefixE)
  have rep: "replayContinuation (old @ [e]) = Inr (Some t)"
    using replay_snoc [OF hs(3), of e] assms(2) old by simp
  then show life: "lifecycle_stream (old @ [e])" using replay_succeeds_iff by blast
  have "ev_continuationId e = c" "ev_version e = env_version s + 1"
    using assms(2) snap_cid [OF assms(1)] by (auto simp: reduce_Some_iff)
  then have "proper c (old @ [e])"
    using hs(2) life assms(3,5) old by (simp add: proper_def numbered_append)
  then show "snap (insert (c, old @ [e]) H) c t" using rep by (rule snapI)
qed

text \<open>
  Two terminal snapshots of a continuation are the same: the first one that was written is final.
\<close>

lemma terminal_unique:
  assumes "snap H c s" "snap H' c t" "env_status s \<noteq> StPending" "env_status t \<noteq> StPending"
    and "\<And>hs. (c, hs) \<in> H \<Longrightarrow> prefix hs es" "\<And>hs. (c, hs) \<in> H' \<Longrightarrow> prefix hs es"
  shows "s = t"
proof -
  obtain hs where hs: "(c, hs) \<in> H" "replayContinuation hs = Inr (Some s)"
    using assms(1) by (auto simp: snap_def)
  obtain ks where ks: "(c, ks) \<in> H'" "replayContinuation ks = Inr (Some t)"
    using assms(2) by (auto simp: snap_def)
  have two: "length gs = 2"
    if "replayContinuation gs = Inr (Some u)" "env_status u \<noteq> StPending" for gs u
  proof -
    have "lifecycle_stream gs" using that(1) replay_succeeds_iff by blast
    moreover have "length gs \<noteq> 1" using replay_version(3) [OF that(1)] that(2) by simp
    moreover have "gs \<noteq> []" using that(1) by (auto simp: replayContinuation_def)
    ultimately show ?thesis by (cases gs rule: lifecycle_stream.cases) auto
  qed
  have "prefix hs es" "prefix ks es" using assms(5,6) hs(1) ks(1) by blast+
  then have "prefix hs ks \<or> prefix ks hs" by (rule prefix_same_cases)
  moreover have "length hs = length ks" using two [OF hs(2) assms(3)] two [OF ks(2) assms(4)] by simp
  ultimately have "hs = ks" by (auto elim!: prefixE)
  then show ?thesis using hs(2) ks(2) by simp
qed

end
