(* ===== verification/CanonicalJson.thy ===== *)
theory CanonicalJson
  imports Json
begin

text \<open>
  \<open>src/domain/canonical-json.ts\<close>: the deterministic serialisation used to compare replayed
  payloads and to content-address the adapters' receipts. The specification it is compared with
  is \<open>json_eq\<close>, equality of JSON values up to the order of object members; \<open>canon\<close>, the value
  with the members of every object sorted, is the normal form that connects the two.
\<close>

definition compareUtf16 :: "jstr \<Rightarrow> jstr \<Rightarrow> int" where
  "compareUtf16 left right = (if left < right then -1 else if left > right then 1 else 0)"

text \<open>\<open>Array.prototype.sort\<close> with a comparator: a stable sort.\<close>

fun sort_insert :: "('a \<Rightarrow> 'a \<Rightarrow> int) \<Rightarrow> 'a \<Rightarrow> 'a list \<Rightarrow> 'a list" where
  "sort_insert cmp x [] = [x]"
| "sort_insert cmp x (y # ys) = (if cmp x y \<le> 0 then x # y # ys else y # sort_insert cmp x ys)"

definition js_sort :: "('a \<Rightarrow> 'a \<Rightarrow> int) \<Rightarrow> 'a list \<Rightarrow> 'a list" where
  "js_sort cmp xs = foldr (sort_insert cmp) xs []"

definition compare_entries :: "jstr \<times> 'a \<Rightarrow> jstr \<times> 'a \<Rightarrow> int" where
  "compare_entries l r = compareUtf16 (fst l) (fst r)"

lemma compareUtf16_le: "compareUtf16 x y \<le> 0 \<longleftrightarrow> x \<le> y"
  by (auto simp: compareUtf16_def)

lemma sort_insert_entries: "sort_insert compare_entries = insort_key fst"
proof (intro ext)
  fix x :: "jstr \<times> 'a" and ys
  show "sort_insert compare_entries x ys = insort_key fst x ys"
    by (induction ys) (simp_all add: compare_entries_def compareUtf16_le)
qed

lemma js_sort_entries: "js_sort compare_entries = sort_key fst"
  by (intro ext) (simp add: js_sort_def sort_key_def sort_insert_entries)

lemma set_js_sort_entries [simp]: "set (js_sort compare_entries fs) = set fs"
  by (simp add: js_sort_entries)

text \<open>The size of a member, for the recursion over an object.\<close>

lemma size_member:
  "(k, v) \<in> set fs \<Longrightarrow> size v < Suc (size_list (size_prod (\<lambda>_. 0) size) fs)"
  by (induction fs) auto

function canonicalJson :: "json \<Rightarrow> jstr" where
  "canonicalJson JNull = stringify JNull"
| "canonicalJson (JBool b) = stringify (JBool b)"
| "canonicalJson (JNum n) = stringify (JNum n)"
| "canonicalJson (JStr s) = stringify (JStr s)"
| "canonicalJson (JArr vs) = js ''['' @ join (js '','') (map canonicalJson vs) @ js '']''"
| "canonicalJson (JObj fs) =
     (let entries = js_sort compare_entries fs
      in js ''{'' @ join (js '','') (map (\<lambda>(key, entry). quote key @ js '':'' @ canonicalJson entry) entries) @
         js ''}'')"
  by pat_completeness auto
termination
  by (relation "measure size") (auto simp: size_member less_Suc_eq_le size_list_estimation')

section \<open>The normal form behind the text\<close>

fun canon :: "json \<Rightarrow> json" where
  "canon (JArr vs) = JArr (map canon vs)"
| "canon (JObj fs) = JObj (sort_key fst (map (\<lambda>(k, v). (k, canon v)) fs))"
| "canon v = v"

lemma sort_key_map_values:
  "sort_key fst (map (\<lambda>(k, v). (k, f v)) fs) = map (\<lambda>(k, v). (k, f v)) (sort_key fst fs)"
proof -
  have insort: "insort_key fst (k, f v) (map (\<lambda>(k, v). (k, f v)) gs) =
      map (\<lambda>(k, v). (k, f v)) (insort_key fst (k, v) gs)" for k v gs
    by (induction gs) auto
  show ?thesis by (induction fs) (auto simp: insort)
qed

lemma canonicalJson_canon: "canonicalJson v = stringify (canon v)"
proof (induction v rule: canonicalJson.induct)
  case (5 vs)
  then have "map canonicalJson vs = map (\<lambda>v. stringify (canon v)) vs" by simp
  then show ?case by (simp only: canonicalJson.simps canon.simps stringify.simps map_map o_def)
next
  case (6 fs)
  have "map (\<lambda>(k, v). quote k @ js '':'' @ canonicalJson v) (sort_key fst fs) =
      map (\<lambda>(k, v). quote k @ js '':'' @ stringify (canon v)) (sort_key fst fs)"
    using 6 by (auto simp: js_sort_entries)
  also have "\<dots> = map (\<lambda>(k, v). quote k @ js '':'' @ stringify v)
      (sort_key fst (map (\<lambda>(k, v). (k, canon v)) fs))"
    unfolding sort_key_map_values by auto
  finally show ?case
    by (simp only: canonicalJson.simps canon.simps stringify.simps js_sort_entries Let_def)
qed simp_all

lemma nums_wf_canon: "nums_wf v \<Longrightarrow> nums_wf (canon v)"
  by (induction v rule: canon.induct) (auto simp: list_all_iff)

lemma canonicalJson_eq_iff:
  "nums_wf v \<Longrightarrow> nums_wf w \<Longrightarrow> canonicalJson v = canonicalJson w \<longleftrightarrow> canon v = canon w"
  by (simp add: canonicalJson_canon stringify_inject nums_wf_canon)

section \<open>Equality up to the order of members\<close>

fun json_eq :: "json \<Rightarrow> json \<Rightarrow> bool" where
  "json_eq (JArr vs) (JArr ws) = list_all2 json_eq vs ws"
| "json_eq (JObj fs) (JObj gs) =
     (length fs = length gs \<and>
      (\<forall>(k, v) \<in> set fs. case map_of gs k of None \<Rightarrow> False | Some w \<Rightarrow> json_eq v w))"
| "json_eq v w = (v = w)"

text \<open>No object of the value has a repeated key.\<close>

fun keys_wf :: "json \<Rightarrow> bool" where
  "keys_wf (JArr vs) = list_all keys_wf vs"
| "keys_wf (JObj fs) = (distinct (map fst fs) \<and> list_all (\<lambda>(k, v). keys_wf v) fs)"
| "keys_wf _ = True"

lemma map_of_map_values: "map_of (map (\<lambda>(k, v). (k, f v)) fs) = map_option f \<circ> map_of fs"
  by (induction fs) auto

lemma sorted_alist_unique:
  fixes xs ys :: "('k::linorder \<times> 'v) list"
  assumes "distinct (map fst xs)" "distinct (map fst ys)"
  shows "sort_key fst xs = sort_key fst ys \<longleftrightarrow> map_of xs = map_of ys"
proof
  assume eq: "sort_key fst xs = sort_key fst ys"
  then have "set xs = set ys" by (metis set_sort)
  with assms show "map_of xs = map_of ys" by (metis map_of_inject_set)
next
  assume "map_of xs = map_of ys"
  with assms have sets: "set xs = set ys" by (metis map_of_inject_set)
  show "sort_key fst xs = sort_key fst ys"
  proof (rule map_sorted_distinct_set_unique [where f = fst])
    show "inj_on fst (set (sort_key fst xs) \<union> set (sort_key fst ys))"
      using assms(1) sets by (simp add: distinct_map)
    show "distinct (map fst (sort_key fst xs))" "distinct (map fst (sort_key fst ys))"
      using assms by (simp_all add: distinct_map)
  qed (simp_all add: sets)
qed

lemma canon_obj_eq_iff:
  assumes "distinct (map fst fs)" "distinct (map fst gs)"
  shows "canon (JObj fs) = canon (JObj gs) \<longleftrightarrow>
    (\<forall>k. map_option canon (map_of fs k) = map_option canon (map_of gs k))"
proof -
  have "map fst (map (\<lambda>(k, v). (k, canon v)) hs) = map fst hs" for hs :: "(jstr \<times> json) list"
    by (simp add: case_prod_unfold o_def)
  with assms have "distinct (map fst (map (\<lambda>(k, v). (k, canon v)) fs))"
    "distinct (map fst (map (\<lambda>(k, v). (k, canon v)) gs))"
    by presburger+
  from sorted_alist_unique [OF this] show ?thesis
    by (simp add: map_of_map_values fun_eq_iff)
qed

text \<open>
  With distinct keys, the same number of members and every member of the first object found in
  the second, the two objects have the same keys.
\<close>

lemma alist_rel_iff:
  assumes "distinct (map fst fs)" "distinct (map fst gs)"
  shows "(length fs = length gs \<and>
      (\<forall>(k, v) \<in> set fs. case map_of gs k of None \<Rightarrow> False | Some w \<Rightarrow> R v w)) \<longleftrightarrow>
    (\<forall>k. rel_option R (map_of fs k) (map_of gs k))" (is "?L \<longleftrightarrow> ?R")
proof
  assume L: ?L
  have mem: "\<exists>w. map_of gs k = Some w \<and> R v w" if "map_of fs k = Some v" for k v
    using L map_of_SomeD [OF that] by (auto split: option.splits)
  then have "dom (map_of fs) \<subseteq> dom (map_of gs)" by (force simp: dom_def)
  moreover have "card (dom (map_of fs)) = card (dom (map_of gs))"
    using L assms by (metis dom_map_of_conv_image_fst distinct_card length_map set_map)
  ultimately have "dom (map_of fs) = dom (map_of gs)"
    by (simp add: card_subset_eq finite_dom_map_of)
  then show ?R
  proof (intro allI)
    fix k
    have "map_of fs k = None \<longleftrightarrow> map_of gs k = None"
      using \<open>dom (map_of fs) = dom (map_of gs)\<close> by (metis domIff)
    then show "rel_option R (map_of fs k) (map_of gs k)"
      using mem [of k] by (cases "map_of fs k"; cases "map_of gs k") auto
  qed
next
  assume R: ?R
  have "map_of fs k = None \<longleftrightarrow> map_of gs k = None" for k
    using R [rule_format, of k] by (auto simp: option_rel_Some1)
  then have "dom (map_of fs) = dom (map_of gs)" by (auto simp: dom_def)
  then have "set (map fst fs) = set (map fst gs)"
    by (simp add: dom_map_of_conv_image_fst)
  then have "length fs = length gs"
    using assms by (metis distinct_card length_map)
  moreover have "case map_of gs k of None \<Rightarrow> False | Some w \<Rightarrow> R v w" if "(k, v) \<in> set fs" for k v
    using R [rule_format, of k] map_of_is_SomeI [OF assms(1) that] by (auto simp: option_rel_Some1)
  ultimately show ?L by auto
qed

lemma list_all2_map_eq_iff:
  assumes "\<And>v w. v \<in> set vs \<Longrightarrow> w \<in> set ws \<Longrightarrow> R v w \<longleftrightarrow> f v = f w"
  shows "list_all2 R vs ws \<longleftrightarrow> map f vs = map f ws"
  using assms
proof (induction vs arbitrary: ws)
  case Nil
  then show ?case by (cases ws) simp_all
next
  case (Cons v vs)
  then show ?case by (cases ws) auto
qed

lemma canon_atoms [simp]:
  "canon v = JNull \<longleftrightarrow> v = JNull" "JNull = canon v \<longleftrightarrow> v = JNull"
  "canon v = JBool b \<longleftrightarrow> v = JBool b" "JBool b = canon v \<longleftrightarrow> v = JBool b"
  "canon v = JNum n \<longleftrightarrow> v = JNum n" "JNum n = canon v \<longleftrightarrow> v = JNum n"
  "canon v = JStr s \<longleftrightarrow> v = JStr s" "JStr s = canon v \<longleftrightarrow> v = JStr s"
  by (cases v; auto)+

lemma json_eq_canon: "keys_wf v \<Longrightarrow> keys_wf w \<Longrightarrow> json_eq v w \<longleftrightarrow> canon v = canon w"
proof (induction v w rule: json_eq.induct)
  case (1 vs ws)
  have "list_all2 json_eq vs ws \<longleftrightarrow> map canon vs = map canon ws"
    by (rule list_all2_map_eq_iff) (use 1 in \<open>auto simp: list_all_iff\<close>)
  then show ?case by simp
next
  case (2 fs gs)
  have dist: "distinct (map fst fs)" "distinct (map fst gs)" using "2.prems" by auto
  have IH: "json_eq v w \<longleftrightarrow> canon v = canon w" if "map_of fs k = Some v" "map_of gs k = Some w" for k v w
  proof -
    have "(k, v) \<in> set fs" "(k, w) \<in> set gs" using that by (auto dest: map_of_SomeD)
    then have "keys_wf v" "keys_wf w" using "2.prems" by (auto simp: list_all_iff)
    then show ?thesis using "2.IH" that \<open>(k, v) \<in> set fs\<close> by blast
  qed
  have "json_eq (JObj fs) (JObj gs) \<longleftrightarrow> (\<forall>k. rel_option json_eq (map_of fs k) (map_of gs k))"
    using alist_rel_iff [OF dist, of json_eq] by simp
  also have "\<dots> \<longleftrightarrow> (\<forall>k. map_option canon (map_of fs k) = map_option canon (map_of gs k))"
  proof (intro all_cong1)
    fix k
    show "rel_option json_eq (map_of fs k) (map_of gs k) \<longleftrightarrow>
        map_option canon (map_of fs k) = map_option canon (map_of gs k)"
      using IH [of k] by (cases "map_of fs k"; cases "map_of gs k") auto
  qed
  also have "\<dots> \<longleftrightarrow> canon (JObj fs) = canon (JObj gs)"
    by (rule canon_obj_eq_iff [OF dist, symmetric])
  finally show ?case .
qed auto

text \<open>The canonical texts agree exactly when the values do, up to the order of members.\<close>

lemma canonicalJson_iff_json_eq:
  "nums_wf v \<Longrightarrow> nums_wf w \<Longrightarrow> keys_wf v \<Longrightarrow> keys_wf w \<Longrightarrow>
    canonicalJson v = canonicalJson w \<longleftrightarrow> json_eq v w"
  by (simp add: canonicalJson_eq_iff json_eq_canon)

end
