(* ===== verification/ContinuationService.thy ===== *)
theory ContinuationService
  imports Program CanonicalJson
begin

text \<open>
  \<open>src/application/continuation-service.ts\<close>: every public operation of the service, and the private
  methods they are composed of, as programs over the ports.
\<close>

record create_input =
  ci_continuationId :: "jstr option"
  ci_correlationId :: "jstr option"
  ci_expiresAt :: "jsdate option"
  ci_metadata :: "json_object option"
  ci_payload :: json

record created_continuation =
  cc_continuation :: envelope
  cc_resumeToken :: jstr

record resume_input =
  ri_continuationId :: jstr
  ri_idempotencyKey :: jstr
  ri_resumePayload :: json
  ri_resumeToken :: jstr

record cancel_input =
  xi_continuationId :: jstr
  xi_expectedVersion :: "int option"
  xi_reason :: "jstr option"

record resume_context =
  rc_continuation :: envelope
  rc_resumeTokenHash :: jstr

section \<open>Helpers\<close>

text \<open>
  \<open>Buffer.from(s, "hex")\<close> of 64 hex digits of either case: the values of the digit pairs. Two such
  buffers have the same length, so \<open>timingSafeEqual\<close> compares their bytes.
\<close>

definition hex_nibble :: "cu \<Rightarrow> nat" where
  "hex_nibble c =
     (if is_digit c then unat (c - ch CHR ''0'')
      else if ch CHR ''a'' \<le> c then unat (c - ch CHR ''a'') + 10 else unat (c - ch CHR ''A'') + 10)"

fun hex_bytes :: "jstr \<Rightarrow> nat list" where
  "hex_bytes (h # l # s) = (16 * hex_nibble h + hex_nibble l) # hex_bytes s"
| "hex_bytes _ = []"

definition tokenHashesEqual :: "jstr \<Rightarrow> jstr \<Rightarrow> bool" where
  "tokenHashesEqual left right =
     (if \<not> hex64_i left \<or> \<not> hex64_i right then False
      else length (hex_bytes left) = length (hex_bytes right) \<and> hex_bytes left = hex_bytes right)"

definition iso :: "jsdate \<Rightarrow> (failure, jstr) result" where
  "iso d = (case toISOString d of None \<Rightarrow> Inl (RangeError (js ''Invalid time value'')) | Some s \<Rightarrow> Inr s)"

text \<open>The constructor: the time to live in milliseconds, or a \<open>RangeError\<close>.\<close>

definition tokenTtlMilliseconds :: "int \<Rightarrow> (failure, int) result" where
  "tokenTtlMilliseconds tokenTtlSeconds =
     (let ms = tokenTtlSeconds * 1000
      in if \<not> safe_int ms \<or> ms \<le> 0 then Inl (RangeError (js ''tokenTtlSeconds must be a positive safe integer''))
         else Inr ms)"

definition append_events :: "jstr \<Rightarrow> int \<Rightarrow> event list \<Rightarrow> unit prog" where
  "append_events continuationId expectedVersion events = Append continuationId expectedVersion events liftP"

definition observeSafely :: "observation \<Rightarrow> unit prog" where
  "observeSafely event = catchP (Observe event liftP) (\<lambda>_. Ret ())"

definition loadRequired :: "jstr \<Rightarrow> envelope prog" where
  "loadRequired continuationId =
     bindP (Load continuationId liftP) (\<lambda>events.
     bindP (domainP (replayContinuation events)) (\<lambda>state.
       (case state of
          None \<Rightarrow> Fail (PauseMeshError (ContinuationNotFoundError continuationId))
        | Some s \<Rightarrow> Ret s)))"

definition loadResumeContext :: "jstr \<Rightarrow> resume_context prog" where
  "loadResumeContext continuationId =
     bindP (Load continuationId liftP) (\<lambda>events.
     bindP (domainP (replayContinuation events)) (\<lambda>continuation.
       (case continuation of
          None \<Rightarrow> Fail (PauseMeshError (ContinuationNotFoundError continuationId))
        | Some s \<Rightarrow>
            (case events of
               created # _ \<Rightarrow>
                 (case ev_body created of
                    Created _ _ _ _ hash \<Rightarrow> Ret \<lparr>rc_continuation = s, rc_resumeTokenHash = hash\<rparr>
                  | _ \<Rightarrow> Fail (PlainError (js ''Continuation history does not begin with a creation event'')))
             | [] \<Rightarrow> Fail (PlainError (js ''Continuation history does not begin with a creation event''))))))"

definition reject :: "jstr \<Rightarrow> pausemesh_error_code \<Rightarrow> unit prog" where
  "reject continuationId code =
     Now (\<lambda>now. bindP (liftP (iso now)) (\<lambda>observedAt.
       observeSafely (ObsRejected continuationId observedAt code)))"

definition requireMatchingToken :: "jstr \<Rightarrow> jstr \<Rightarrow> jstr \<Rightarrow> unit prog" where
  "requireMatchingToken continuationId expectedTokenHash token =
     bindP (Hash token liftP) (\<lambda>actualTokenHash.
       if tokenHashesEqual expectedTokenHash actualTokenHash then Ret ()
       else bindP (reject continuationId TOKEN_MISMATCH) (\<lambda>_.
         Fail (PauseMeshError (TokenMismatchError continuationId))))"

definition resolveCompletedResume :: "envelope \<Rightarrow> resume_input \<Rightarrow> (pausemesh_error, envelope option) result" where
  "resolveCompletedResume continuation input =
     (case env_state continuation of
        ResumedState _ key p \<Rightarrow>
          bindR (guardR (key = ri_idempotencyKey input) (TokenAlreadyUsedError (ri_continuationId input))) (\<lambda>_.
          bindR (guardR (canonicalJson p = canonicalJson (ri_resumePayload input))
            (IdempotencyConflictError (ri_continuationId input))) (\<lambda>_.
          Inr (Some continuation)))
      | _ \<Rightarrow> Inr None)"

definition resolveCompletedCancellation :: "envelope \<Rightarrow> cancel_input \<Rightarrow> (pausemesh_error, envelope) result" where
  "resolveCompletedCancellation continuation input =
     bindR (guardR (state_reason (env_state continuation) = xi_reason input)
       (InvalidTransitionError (xi_continuationId input) (Some (env_status continuation))
         (js ''continuation.cancelled''))) (\<lambda>_.
     bindR (guardR (case xi_expectedVersion input of None \<Rightarrow> True | Some v \<Rightarrow> env_version continuation = v + 1)
       (VersionConflictError (xi_continuationId input) (the (xi_expectedVersion input)) (env_version continuation))) (\<lambda>_.
     Inr continuation))"

text \<open>
  \<open>#expireIfDue(continuation, now)\<close>; the default argument \<open>now = this.#clock.now()\<close> is read by
  \<open>expireIfDue_now\<close>.
\<close>

definition expireIfDue :: "envelope \<Rightarrow> jsdate \<Rightarrow> envelope prog" where
  "expireIfDue continuation now =
     (if env_status continuation \<noteq> StPending \<or> js_lt (getTime now) (date_parse (env_expiresAt continuation))
      then Ret continuation
      else
        bindP (liftP (iso now)) (\<lambda>occurredAt.
        let event = \<lparr>ev_schemaVersion = CONTINUATION_SCHEMA_VERSION,
                     ev_continuationId = env_continuationId continuation,
                     ev_version = env_version continuation + 1,
                     ev_occurredAt = occurredAt,
                     ev_body = Expired\<rparr>
        in catchP
             (bindP (append_events (env_continuationId continuation) (env_version continuation) [event]) (\<lambda>_.
              bindP (domainP (reduceContinuation (Some continuation) event)) (\<lambda>expired.
              bindP (observeSafely (ObsTransitioned (env_continuationId expired) occurredAt (env_version expired) StExpired)) (\<lambda>_.
              Ret expired))))
             (\<lambda>error. if is_version_conflict error then loadRequired (env_continuationId continuation)
                      else Fail error)))"

definition expireIfDue_now :: "envelope \<Rightarrow> envelope prog" where
  "expireIfDue_now continuation = Now (expireIfDue continuation)"

definition requireResumable :: "envelope \<Rightarrow> envelope prog" where
  "requireResumable continuation =
     bindP (expireIfDue_now continuation) (\<lambda>current.
       (case env_status current of
          StPending \<Rightarrow> Ret current
        | StExpired \<Rightarrow> Fail (PauseMeshError (ContinuationExpiredError (env_continuationId current)))
        | StCancelled \<Rightarrow> Fail (PauseMeshError (ContinuationCancelledError (env_continuationId current)))
        | StResumed \<Rightarrow> Fail (PauseMeshError (TokenAlreadyUsedError (env_continuationId current)))))"

section \<open>Operations\<close>

text \<open>\<open>create\<close> once the clock is read and the ids are chosen.\<close>

definition create_with :: "int \<Rightarrow> create_input \<Rightarrow> jsdate \<Rightarrow> jstr \<Rightarrow> jstr \<Rightarrow> created_continuation prog" where
  "create_with ttl input now continuationId correlationId =
     (let expiresAt = (case ci_expiresAt input of
           Some d \<Rightarrow> d
         | None \<Rightarrow> new_date (map_option (\<lambda>t. t + ttl) (getTime now)))
      in if js_le (getTime expiresAt) (getTime now)
         then Fail (RangeError (js ''expiresAt must be later than the creation time''))
         else
           bindP (Issue liftP) (\<lambda>issuedToken.
           bindP (liftP (iso now)) (\<lambda>occurredAt.
           bindP (liftP (iso expiresAt)) (\<lambda>expiry.
           let event = \<lparr>ev_schemaVersion = CONTINUATION_SCHEMA_VERSION,
                        ev_continuationId = continuationId,
                        ev_version = 1,
                        ev_occurredAt = occurredAt,
                        ev_body = Created correlationId expiry (ci_payload input)
                          (case ci_metadata input of None \<Rightarrow> [] | Some m \<Rightarrow> m) (it_tokenHash issuedToken)\<rparr>
           in bindP (append_events continuationId 0 [event]) (\<lambda>_.
              bindP (domainP (reduceContinuation None event)) (\<lambda>continuation.
              if env_status continuation \<noteq> StPending
              then Fail (PlainError (js ''Creation did not produce a pending continuation''))
              else
                bindP (observeSafely
                  (ObsCreated continuationId correlationId occurredAt (env_version continuation))) (\<lambda>_.
                Ret \<lparr>cc_continuation = continuation, cc_resumeToken = it_token issuedToken\<rparr>)))))))"

definition create :: "int \<Rightarrow> create_input \<Rightarrow> created_continuation prog" where
  "create ttl input =
     Now (\<lambda>now.
     bindP (case ci_continuationId input of Some c \<Rightarrow> Ret c | None \<Rightarrow> GenerateId Ret) (\<lambda>continuationId.
     bindP (case ci_correlationId input of Some c \<Rightarrow> Ret c | None \<Rightarrow> GenerateId Ret) (\<lambda>correlationId.
     create_with ttl input now continuationId correlationId)))"

definition inspect :: "jstr \<Rightarrow> envelope prog" where
  "inspect continuationId = bindP (loadRequired continuationId) expireIfDue_now"

definition history :: "jstr \<Rightarrow> event list prog" where
  "history continuationId =
     bindP (Load continuationId liftP) (\<lambda>events.
       if events = [] then Fail (PauseMeshError (ContinuationNotFoundError continuationId)) else Ret events)"

text \<open>The handler of a failed append: another operation may have completed the same resume.\<close>

definition resume_lost :: "resume_input \<Rightarrow> failure \<Rightarrow> envelope option prog" where
  "resume_lost input error =
     (if \<not> is_version_conflict error then Fail error
      else
        bindP (loadResumeContext (ri_continuationId input)) (\<lambda>current.
        bindP (requireMatchingToken (ri_continuationId input) (rc_resumeTokenHash current)
          (ri_resumeToken input)) (\<lambda>_.
        bindP (domainP (resolveCompletedResume (rc_continuation current) input)) (\<lambda>resolved.
          (case resolved of Some r \<Rightarrow> Ret (Some r) | None \<Rightarrow> Fail error)))))"

text \<open>
  \<open>resume\<close> once the clock is read: the append, the resolution of a lost race, and the observation.
\<close>

definition resume_commit :: "resume_input \<Rightarrow> envelope \<Rightarrow> jsdate \<Rightarrow> envelope prog" where
  "resume_commit input pending now =
     bindP (liftP (iso now)) (\<lambda>occurredAt.
     let event = \<lparr>ev_schemaVersion = CONTINUATION_SCHEMA_VERSION,
                  ev_continuationId = ri_continuationId input,
                  ev_version = env_version pending + 1,
                  ev_occurredAt = occurredAt,
                  ev_body = Resumed (ri_idempotencyKey input) (ri_resumePayload input)\<rparr>
     in bindP
          (catchP
            (bindP (append_events (ri_continuationId input) (env_version pending) [event]) (\<lambda>_. Ret None))
            (resume_lost input))
          (\<lambda>resolved.
             (case resolved of
                Some r \<Rightarrow> Ret r
              | None \<Rightarrow>
                  bindP (domainP (reduceContinuation (Some pending) event)) (\<lambda>resumed.
                  bindP (observeSafely (ObsTransitioned (env_continuationId resumed) occurredAt
                    (env_version resumed) StResumed)) (\<lambda>_.
                  Ret resumed)))))"

definition resume :: "resume_input \<Rightarrow> envelope prog" where
  "resume input =
     bindP (loadResumeContext (ri_continuationId input)) (\<lambda>context.
     bindP (requireMatchingToken (ri_continuationId input) (rc_resumeTokenHash context) (ri_resumeToken input)) (\<lambda>_.
     bindP (domainP (resolveCompletedResume (rc_continuation context) input)) (\<lambda>replayed.
       (case replayed of
          Some r \<Rightarrow> Ret r
        | None \<Rightarrow> bindP (requireResumable (rc_continuation context)) (\<lambda>pending. Now (resume_commit input pending))))))"

definition cancel_lost :: "cancel_input \<Rightarrow> failure \<Rightarrow> envelope option prog" where
  "cancel_lost input error =
     (if \<not> is_version_conflict error then Fail error
      else
        bindP (loadRequired (xi_continuationId input)) (\<lambda>current.
        if env_status current = StCancelled
        then bindP (domainP (resolveCompletedCancellation current input)) (\<lambda>r. Ret (Some r))
        else if env_status current = StExpired
        then Fail (PauseMeshError (ContinuationExpiredError (xi_continuationId input)))
        else Fail error))"

text \<open>\<open>cancel\<close> from the check of the status on.\<close>

definition cancel_commit :: "cancel_input \<Rightarrow> jsdate \<Rightarrow> envelope \<Rightarrow> envelope prog" where
  "cancel_commit input now continuation =
     (if env_status continuation = StCancelled then domainP (resolveCompletedCancellation continuation input)
      else if env_status continuation = StExpired
      then Fail (PauseMeshError (ContinuationExpiredError (xi_continuationId input)))
      else if env_status continuation \<noteq> StPending
      then Fail (PauseMeshError (InvalidTransitionError (xi_continuationId input) (Some (env_status continuation))
        (js ''continuation.cancelled'')))
      else if \<not> (case xi_expectedVersion input of None \<Rightarrow> True | Some v \<Rightarrow> env_version continuation = v)
      then Fail (PauseMeshError (VersionConflictError (xi_continuationId input) (the (xi_expectedVersion input))
        (env_version continuation)))
      else
        bindP (liftP (iso now)) (\<lambda>occurredAt.
        let event = \<lparr>ev_schemaVersion = CONTINUATION_SCHEMA_VERSION,
                     ev_continuationId = xi_continuationId input,
                     ev_version = env_version continuation + 1,
                     ev_occurredAt = occurredAt,
                     ev_body = Cancelled (xi_reason input)\<rparr>
        in bindP
             (catchP
               (bindP (append_events (xi_continuationId input) (env_version continuation) [event]) (\<lambda>_. Ret None))
               (cancel_lost input))
             (\<lambda>resolved.
                (case resolved of
                   Some r \<Rightarrow> Ret r
                 | None \<Rightarrow>
                     bindP (domainP (reduceContinuation (Some continuation) event)) (\<lambda>cancelled.
                     bindP (observeSafely (ObsTransitioned (env_continuationId cancelled) occurredAt
                       (env_version cancelled) StCancelled)) (\<lambda>_.
                     Ret cancelled))))))"

definition cancel :: "cancel_input \<Rightarrow> envelope prog" where
  "cancel input =
     bindP (loadRequired (xi_continuationId input)) (\<lambda>loaded.
     if env_status loaded = StCancelled then domainP (resolveCompletedCancellation loaded input)
     else Now (\<lambda>now. bindP (expireIfDue loaded now) (cancel_commit input now)))"

end
