(* ===== verification/ServiceContract.thy ===== *)
theory ServiceContract
  imports Knowledge ContinuationService
begin

text \<open>
  What each operation of the service guarantees whatever other operations do between its calls: the
  result it returns is backed by a committed stream, and so is every domain error it reports.
\<close>

section \<open>The helpers\<close>

lemma sat_observeSafely [simp]: "sat h Q E (observeSafely ob) H \<longleftrightarrow> Q H ()"
  by (auto simp: observeSafely_def split: sum.split)

lemma sat_append_events:
  "sat h Q E (append_events c v es) H \<longleftrightarrow>
    events_ok es \<and> numbered c v es \<and>
    (\<forall>old. fits H c old \<longrightarrow>
      (v = int (length old) \<longrightarrow> lifecycle_stream (old @ es) \<and> Q (insert (c, old @ es) H) ()) \<and>
      (\<forall>e. store_failure e \<and> (is_version_conflict e \<longrightarrow> v \<noteq> int (length old)) \<longrightarrow>
        E (insert (c, old) H) e))"
  by (simp add: append_events_def)

lemma proper_replay:
  assumes "proper c es"
  obtains "es = []" "replayContinuation es = Inr None"
  | s where "es \<noteq> []" "replayContinuation es = Inr (Some s)"
proof -
  obtain r where "replayContinuation es = Inr r"
    using assms replay_succeeds_iff by (auto simp: proper_def)
  then show ?thesis using that replay_None_iff by (cases r) auto
qed

lemma sat_loadRequired:
  assumes "\<And>es s. fits H c es \<Longrightarrow> snap (insert (c, es) H) c s \<Longrightarrow>
      replayContinuation es = Inr (Some s) \<Longrightarrow> Q (insert (c, es) H) s"
    and "fits H c [] \<Longrightarrow> E (insert (c, []) H) (PauseMeshError (ContinuationNotFoundError c))"
    and "\<And>e. host_failure e \<Longrightarrow> E H e"
  shows "sat h Q E (loadRequired c) H"
proof -
  have "sat h Q E (bindP (domainP (replayContinuation es)) (\<lambda>state.
      (case state of
         None \<Rightarrow> Fail (PauseMeshError (ContinuationNotFoundError c))
       | Some s \<Rightarrow> Ret s))) (insert (c, es) H)" if "fits H c es" for es
  proof -
    have p: "proper c es" using that by (simp add: fits_def)
    then show ?thesis
    proof (cases rule: proper_replay)
      case 1
      then show ?thesis using assms(2) that by simp
    next
      case (2 s)
      then show ?thesis using assms(1) that snapI [OF p] by simp
    qed
  qed
  then show ?thesis using assms(3) by (simp add: loadRequired_def)
qed

text \<open>The creation event at the start of a proper stream.\<close>

lemma proper_created:
  assumes "proper c es" "es \<noteq> []"
  obtains e es' corr exp p md hash where "es = e # es'" "ev_body e = Created corr exp p md hash"
proof -
  obtain e es' where es: "es = e # es'" using assms(2) by (cases es) auto
  have "is_creation e"
    using assms(1) es by (cases es rule: lifecycle_stream.cases) (auto simp: proper_def)
  then show ?thesis using that es by (auto simp: is_creation_def split: event_body.splits)
qed

text \<open>The token hash recorded when a continuation was created, as far as is known.\<close>

definition known_hash :: "know \<Rightarrow> jstr \<Rightarrow> jstr \<Rightarrow> bool" where
  "known_hash H c hash \<longleftrightarrow>
     (\<exists>e es corr exp p md. (c, e # es) \<in> H \<and> ev_body e = Created corr exp p md hash)"

lemma known_hash_mono: "known_hash H c hash \<Longrightarrow> H \<subseteq> H' \<Longrightarrow> known_hash H' c hash"
  unfolding known_hash_def by blast

lemma sat_loadResumeContext:
  assumes "\<And>es s hash. fits H c es \<Longrightarrow> snap (insert (c, es) H) c s \<Longrightarrow> known_hash (insert (c, es) H) c hash \<Longrightarrow>
      replayContinuation es = Inr (Some s) \<Longrightarrow>
      Q (insert (c, es) H) \<lparr>rc_continuation = s, rc_resumeTokenHash = hash\<rparr>"
    and "fits H c [] \<Longrightarrow> E (insert (c, []) H) (PauseMeshError (ContinuationNotFoundError c))"
    and "\<And>e. host_failure e \<Longrightarrow> E H e"
  shows "sat h Q E (loadResumeContext c) H"
proof -
  have "sat h Q E (bindP (liftP (Inr es)) (\<lambda>events.
      bindP (domainP (replayContinuation events)) (\<lambda>continuation.
       (case continuation of
          None \<Rightarrow> Fail (PauseMeshError (ContinuationNotFoundError c))
        | Some s \<Rightarrow>
            (case events of
               created # _ \<Rightarrow>
                 (case ev_body created of
                    Created _ _ _ _ hash \<Rightarrow> Ret \<lparr>rc_continuation = s, rc_resumeTokenHash = hash\<rparr>
                  | _ \<Rightarrow> Fail (PlainError (js ''Continuation history does not begin with a creation event'')))
             | [] \<Rightarrow> Fail (PlainError (js ''Continuation history does not begin with a creation event''))))))) (insert (c, es) H)"
    if fits: "fits H c es" for es
  proof -
    have p: "proper c es" using fits by (simp add: fits_def)
    then show ?thesis
    proof (cases rule: proper_replay)
      case 1
      then show ?thesis using assms(2) fits by simp
    next
      case (2 s)
      with p obtain e es' corr exp q md hash where es: "es = e # es'" "ev_body e = Created corr exp q md hash"
        by (blast elim: proper_created)
      then have "known_hash (insert (c, es) H) c hash" by (auto simp: known_hash_def)
      moreover have "snap (insert (c, es) H) c s" using p 2 by (blast intro: snapI)
      ultimately have "Q (insert (c, es) H) \<lparr>rc_continuation = s, rc_resumeTokenHash = hash\<rparr>"
        using assms(1) fits 2 by blast
      then show ?thesis using 2 es by simp
    qed
  qed
  then show ?thesis using assms(3) unfolding loadResumeContext_def by simp
qed

lemma sat_reject:
  "(\<And>e. e = RangeError (js ''Invalid time value'') \<Longrightarrow> E H e) \<Longrightarrow> Q H () \<Longrightarrow> sat h Q E (reject c code) H"
  by (auto simp: reject_def iso_def split: sum.splits option.splits)

lemma sat_requireMatchingToken:
  assumes "tokenHashesEqual hash (h token) \<Longrightarrow> Q H ()"
    and "\<not> tokenHashesEqual hash (h token) \<Longrightarrow> E H (PauseMeshError (TokenMismatchError c))"
    and "\<And>e. host_failure e \<Longrightarrow> E H e" "E H (RangeError (js ''Invalid time value''))"
  shows "sat h Q E (requireMatchingToken c hash token) H"
  using assms by (auto simp: requireMatchingToken_def intro!: sat_reject)

text \<open>
  Expiry returns the continuation as it was read if it is not due, the expired one it wrote, or,
  when another operation closed the continuation first, what that operation made of it.
\<close>

lemma reduce_closing:
  "env_status s = StPending \<Longrightarrow> (case b of Created _ _ _ _ _ \<Rightarrow> False | _ \<Rightarrow> True) \<Longrightarrow>
    ev_continuationId e = env_continuationId s \<Longrightarrow> ev_version e = env_version s + 1 \<Longrightarrow>
    ev_schemaVersion e = 1 \<Longrightarrow> ev_body e = b \<Longrightarrow>
    reduceContinuation (Some s) e = Inr (apply_body (Some s) e b)"
  by (simp add: reduce_Some_iff)

lemma pending_not_stale:
  assumes "snap H c s" "env_status s = StPending" "fits H c old" "env_version s \<noteq> int (length old)"
    and "fits (insert (c, old) H) c es" "replayContinuation es = Inr (Some t)"
  shows "env_status t \<noteq> StPending"
proof -
  obtain hs where hs: "(c, hs) \<in> H" "replayContinuation hs = Inr (Some s)"
    using assms(1) by (auto simp: snap_def)
  have "length hs = 1" "env_version s = int (length hs)"
    using replay_version [OF hs(2)] assms(2) by simp_all
  moreover have "prefix hs old" "prefix old es"
    using assms(3,5) hs(1) by (auto simp: fits_def)
  ultimately have "1 < length es"
    using assms(4) prefix_length_le [of hs old] prefix_length_le [of old es] by linarith
  then show ?thesis using replay_version(3) [OF assms(6)] by simp
qed

lemma known_not_missing: "snap H c s \<Longrightarrow> fits H c [] \<Longrightarrow> False"
proof -
  assume "snap H c s" "fits H c []"
  then obtain hs where "prefix hs []" "replayContinuation hs = Inr (Some s)"
    by (auto simp: snap_def fits_def)
  then show False by (simp add: replayContinuation_def)
qed

text \<open>What the ports may fail with that no rule of the domain explains.\<close>

definition other_failure :: "failure \<Rightarrow> bool" where
  "other_failure e \<longleftrightarrow> store_failure e \<and> \<not> is_version_conflict e"

lemma other_failure_simps [simp]:
  "other_failure (RangeError m)" "other_failure (TypeError m)" "other_failure (HostError j)"
  "host_failure e \<Longrightarrow> other_failure e"
  by (cases e; simp add: other_failure_def)+

lemma iso_cases:
  obtains "iso d = Inl (RangeError (js ''Invalid time value''))" | s where "iso d = Inr s"
  by (cases "toISOString d") (auto simp: iso_def)

lemma sat_expireIfDue:
  assumes s: "snap H c s"
    and Q: "\<And>H' t. H \<subseteq> H' \<Longrightarrow> snap H' c t \<Longrightarrow>
      (env_status t = StPending \<Longrightarrow> t = s \<and> js_lt (getTime now) (date_parse (env_expiresAt s))) \<Longrightarrow> Q H' t"
    and E: "\<And>H' e. H \<subseteq> H' \<Longrightarrow> other_failure e \<Longrightarrow> E H' e"
  shows "sat h Q E (expireIfDue s now) H"
proof (cases "env_status s \<noteq> StPending \<or> js_lt (getTime now) (date_parse (env_expiresAt s))")
  case True
  then show ?thesis using s Q [of H s] by (auto simp: expireIfDue_def)
next
  case False
  then have pend: "env_status s = StPending" by simp
  show ?thesis
  proof (cases rule: iso_cases [of now])
    case 1
    then show ?thesis using False E [of H] by (simp add: expireIfDue_def)
  next
    case (2 occurredAt)
    let ?e = "\<lparr>ev_schemaVersion = CONTINUATION_SCHEMA_VERSION, ev_continuationId = env_continuationId s,
      ev_version = env_version s + 1, ev_occurredAt = occurredAt, ev_body = Expired\<rparr>"
    define t where "t = apply_body (Some s) ?e Expired"
    have red: "reduceContinuation (Some s) ?e = Inr t"
      unfolding t_def by (rule reduce_closing) (simp_all add: pend CONTINUATION_SCHEMA_VERSION_def)
    have st: "env_status t \<noteq> StPending" using red by (rule reduce_closes)
    have cid: "env_continuationId s = c" using s by (rule snap_cid)
    have app: "lifecycle_stream (old @ [?e]) \<and> Q (insert (c, old @ [?e]) H) t"
      if "fits H c old" "env_version s = int (length old)" for old
      using closing_append [OF s red _ that] st by (auto intro!: Q)
    have conflict: "sat h Q E (loadRequired c) (insert (c, old) H)"
      if "fits H c old" "env_version s \<noteq> int (length old)" for old
    proof (rule sat_loadRequired)
      fix es u
      assume "fits (insert (c, old) H) c es" "snap (insert (c, es) (insert (c, old) H)) c u"
        "replayContinuation es = Inr (Some u)"
      then show "Q (insert (c, es) (insert (c, old) H)) u"
        using pending_not_stale [OF s pend that] by (intro Q) auto
    next
      assume "fits (insert (c, old) H) c []"
      then show "E (insert (c, []) (insert (c, old) H)) (PauseMeshError (ContinuationNotFoundError c))"
        using known_not_missing [of "insert (c, old) H" c s] s by simp
    qed (auto intro: E)
    show ?thesis
      using False 2 app conflict E red unfolding cid
      by (auto simp: expireIfDue_def cid sat_append_events Let_def other_failure_def intro!: E)
  qed
qed

lemma sat_requireResumable:
  assumes s: "snap H c s"
    and Q: "\<And>H'. H \<subseteq> H' \<Longrightarrow> env_status s = StPending \<Longrightarrow> Q H' s"
    and E: "\<And>H' e. H \<subseteq> H' \<Longrightarrow> other_failure e \<Longrightarrow> E H' e"
      "\<And>H' t. H \<subseteq> H' \<Longrightarrow> snap H' c t \<Longrightarrow> env_status t = StExpired \<Longrightarrow>
        E H' (PauseMeshError (ContinuationExpiredError c))"
      "\<And>H' t. H \<subseteq> H' \<Longrightarrow> snap H' c t \<Longrightarrow> env_status t = StCancelled \<Longrightarrow>
        E H' (PauseMeshError (ContinuationCancelledError c))"
      "\<And>H' t. H \<subseteq> H' \<Longrightarrow> snap H' c t \<Longrightarrow> env_status t = StResumed \<Longrightarrow>
        E H' (PauseMeshError (TokenAlreadyUsedError c))"
  shows "sat h Q E (requireResumable s) H"
proof -
  have "sat h (\<lambda>H x. sat h Q E (case env_status x of
          StPending \<Rightarrow> Ret x
        | StExpired \<Rightarrow> Fail (PauseMeshError (ContinuationExpiredError (env_continuationId x)))
        | StCancelled \<Rightarrow> Fail (PauseMeshError (ContinuationCancelledError (env_continuationId x)))
        | StResumed \<Rightarrow> Fail (PauseMeshError (TokenAlreadyUsedError (env_continuationId x)))) H)
      E (expireIfDue s now) H" for now
  proof (rule sat_expireIfDue [OF s])
    fix H' t
    assume t: "H \<subseteq> H'" "snap H' c t"
      and pend: "env_status t = StPending \<Longrightarrow> t = s \<and> js_lt (getTime now) (date_parse (env_expiresAt s))"
    then show "sat h Q E (case env_status t of
          StPending \<Rightarrow> Ret t
        | StExpired \<Rightarrow> Fail (PauseMeshError (ContinuationExpiredError (env_continuationId t)))
        | StCancelled \<Rightarrow> Fail (PauseMeshError (ContinuationCancelledError (env_continuationId t)))
        | StResumed \<Rightarrow> Fail (PauseMeshError (TokenAlreadyUsedError (env_continuationId t)))) H'"
      using snap_cid [OF t(2)] Q E by (cases "env_status t") auto
  qed (use E(1) in simp)
  then show ?thesis by (simp add: requireResumable_def expireIfDue_now_def)
qed

lemma known_hash_insert [simp]: "known_hash H c hash \<Longrightarrow> known_hash (insert x H) c hash"
  by (erule known_hash_mono) auto

section \<open>Resume\<close>

text \<open>What a successful resume returns, and what each domain error of a resume says.\<close>

definition resume_result :: "(jstr \<Rightarrow> jstr) \<Rightarrow> resume_input \<Rightarrow> know \<Rightarrow> envelope \<Rightarrow> bool" where
  "resume_result h i H s \<longleftrightarrow>
     snap H (ri_continuationId i) s \<and>
     (\<exists>at p. env_state s = ResumedState at (ri_idempotencyKey i) p \<and>
       canonicalJson p = canonicalJson (ri_resumePayload i)) \<and>
     (\<exists>hash. known_hash H (ri_continuationId i) hash \<and> tokenHashesEqual hash (h (ri_resumeToken i)))"

fun resume_error :: "(jstr \<Rightarrow> jstr) \<Rightarrow> resume_input \<Rightarrow> know \<Rightarrow> failure \<Rightarrow> bool" where
  "resume_error h i H (PauseMeshError e) =
     (let c = ri_continuationId i
      in case e of
           ContinuationNotFoundError d \<Rightarrow> d = c \<and> (c, []) \<in> H
         | TokenMismatchError d \<Rightarrow> d = c \<and>
             (\<exists>hash. known_hash H c hash \<and> \<not> tokenHashesEqual hash (h (ri_resumeToken i)))
         | ContinuationExpiredError d \<Rightarrow> d = c \<and> (\<exists>s. snap H c s \<and> env_status s = StExpired)
         | ContinuationCancelledError d \<Rightarrow> d = c \<and> (\<exists>s. snap H c s \<and> env_status s = StCancelled)
         | TokenAlreadyUsedError d \<Rightarrow> d = c \<and> (\<exists>s. snap H c s \<and> env_status s = StResumed)
         | IdempotencyConflictError d \<Rightarrow> d = c \<and>
             (\<exists>s at p. snap H c s \<and> env_state s = ResumedState at (ri_idempotencyKey i) p \<and>
               canonicalJson p \<noteq> canonicalJson (ri_resumePayload i))
         | VersionConflictError _ _ _ \<Rightarrow>
             (\<exists>s. snap H c s \<and> (env_status s = StCancelled \<or> env_status s = StExpired))
         | ContinuationIdMismatchError _ _ \<Rightarrow> True
         | _ \<Rightarrow> False)"
| "resume_error h i H (PlainError m) = False"
| "resume_error h i H e = True"

lemma resume_error_other: "other_failure e \<Longrightarrow> resume_error h i H e"
  by (cases e rule: store_failure.cases) (auto simp: other_failure_def)

lemma resume_error_mismatch:
  "known_hash H (ri_continuationId i) hash \<Longrightarrow> \<not> tokenHashesEqual hash (h (ri_resumeToken i)) \<Longrightarrow>
    resume_error h i H (PauseMeshError (TokenMismatchError (ri_continuationId i)))"
  by (auto simp: Let_def)

lemma resume_error_status:
  assumes "snap H (ri_continuationId i) s"
  shows "env_status s = StExpired \<Longrightarrow> resume_error h i H (PauseMeshError (ContinuationExpiredError (ri_continuationId i)))"
    "env_status s = StCancelled \<Longrightarrow> resume_error h i H (PauseMeshError (ContinuationCancelledError (ri_continuationId i)))"
    "env_status s = StResumed \<Longrightarrow> resume_error h i H (PauseMeshError (TokenAlreadyUsedError (ri_continuationId i)))"
    "env_status s = StCancelled \<or> env_status s = StExpired \<Longrightarrow> is_version_conflict e \<Longrightarrow> resume_error h i H e"
  using assms by (cases e rule: is_version_conflict.cases; auto simp: Let_def)+

lemma resolveCompletedResume_iff:
  "resolveCompletedResume s i = Inr None \<longleftrightarrow> env_status s \<noteq> StResumed"
  "resolveCompletedResume s i = Inr (Some r) \<longleftrightarrow> r = s \<and>
    (\<exists>at p. env_state s = ResumedState at (ri_idempotencyKey i) p \<and>
      canonicalJson p = canonicalJson (ri_resumePayload i))"
  "resolveCompletedResume s i = Inl e \<longleftrightarrow>
    (\<exists>at key p. env_state s = ResumedState at key p \<and>
      (key \<noteq> ri_idempotencyKey i \<and> e = TokenAlreadyUsedError (ri_continuationId i) \<or>
       key = ri_idempotencyKey i \<and> canonicalJson p \<noteq> canonicalJson (ri_resumePayload i) \<and>
       e = IdempotencyConflictError (ri_continuationId i)))"
  by (cases "env_state s"; auto simp: resolveCompletedResume_def env_status_def bindR_guardR)+

text \<open>The common end of a resume: the outcome of a completed one, or what comes next.\<close>

lemma sat_resolve:
  assumes "snap H (ri_continuationId i) s" "known_hash H (ri_continuationId i) hash"
    "tokenHashesEqual hash (h (ri_resumeToken i))"
    and "\<And>r. resume_result h i H r \<Longrightarrow> Q H (Some r)"
    and "env_status s \<noteq> StResumed \<Longrightarrow> Q H None"
    and "\<And>e. resume_error h i H e \<Longrightarrow> E H e"
  shows "sat h Q E (domainP (resolveCompletedResume s i)) H"
proof (cases "resolveCompletedResume s i")
  case (Inl e)
  then obtain at key p where st: "env_state s = ResumedState at key p"
    and e: "key \<noteq> ri_idempotencyKey i \<and> e = TokenAlreadyUsedError (ri_continuationId i) \<or>
       key = ri_idempotencyKey i \<and> canonicalJson p \<noteq> canonicalJson (ri_resumePayload i) \<and>
       e = IdempotencyConflictError (ri_continuationId i)"
    by (auto simp: resolveCompletedResume_iff)
  have "env_status s = StResumed" using st by (simp add: env_status_def)
  with e st assms(1) have "resume_error h i H (PauseMeshError e)"
    by (elim disjE conjE) (blast intro: resume_error_status, simp add: Let_def, blast)
  then show ?thesis using Inl assms(6) by simp
next
  case (Inr r)
  then show ?thesis
  proof (cases r)
    case None
    with Inr have eq: "resolveCompletedResume s i = Inr None" by simp
    then have "env_status s \<noteq> StResumed" using resolveCompletedResume_iff(1) by blast
    then show ?thesis using assms(5) by (simp add: eq)
  next
    case (Some r')
    then have "resume_result h i H r'"
      using Inr assms(1-3) by (auto simp: resolveCompletedResume_iff resume_result_def)
    then show ?thesis using Inr Some assms(4) by simp
  qed
qed

lemma sat_resume_lost:
  assumes s: "snap H c s" "env_status s = StPending" and c: "c = ri_continuationId i"
    and old: "fits H c old" "is_version_conflict error \<Longrightarrow> env_version s \<noteq> int (length old)"
    and Q: "\<And>H t. resume_result h i H t \<Longrightarrow> Q H (Some t)"
    and E: "\<And>H e. resume_error h i H e \<Longrightarrow> E H e" and error: "store_failure error"
  shows "sat h Q E (resume_lost i error) (insert (c, old) H)"
proof (cases "is_version_conflict error")
  case False
  then show ?thesis using E [OF resume_error_other] error by (simp add: resume_lost_def other_failure_def)
next
  case True
  have step: "sat h Q E
      (bindP (requireMatchingToken c hash (ri_resumeToken i)) (\<lambda>_.
       bindP (domainP (resolveCompletedResume t i)) (\<lambda>resolved.
         (case resolved of Some r \<Rightarrow> Ret (Some r) | None \<Rightarrow> Fail error)))) H'"
    if es: "fits (insert (c, old) H) c es" "replayContinuation es = Inr (Some t)"
      and t: "snap H' c t" and hash: "known_hash H' c hash" for es t hash H'
  proof -
    have "env_status t \<noteq> StPending" using pending_not_stale [OF s old(1) old(2) [OF True] es] .
    then have "env_status t \<noteq> StResumed \<Longrightarrow> env_status t = StCancelled \<or> env_status t = StExpired"
      by (cases "env_status t") auto
    then have lost: "env_status t \<noteq> StResumed \<Longrightarrow> E H' error"
      using E t True c resume_error_status(4) by blast
    show ?thesis
      using t hash lost Q E unfolding c sat_bindP
      apply (intro sat_requireMatchingToken)
      subgoal by (rule sat_resolve [where hash = hash]) auto
      subgoal by (blast intro: resume_error_mismatch)
      subgoal by (simp add: resume_error_other)
      subgoal by simp
      done
  qed
  have missing: "E H' (PauseMeshError (ContinuationNotFoundError c))" if "(c, []) \<in> H'" for H'
    using that by (intro E) (simp add: c Let_def)
  have "E H' e" if "host_failure e" for H' e
    using that by (intro E resume_error_other) simp
  then show ?thesis
    unfolding resume_lost_def c [symmetric] using True step missing
    by (auto intro!: sat_loadResumeContext)
qed

lemma sat_resume_commit:
  assumes s: "snap H (ri_continuationId i) s" "env_status s = StPending"
    and hash: "known_hash H (ri_continuationId i) hash" "tokenHashesEqual hash (h (ri_resumeToken i))"
    and payload: "json_ok (ri_resumePayload i)"
  shows "sat h (resume_result h i) (resume_error h i) (resume_commit i s now) H"
proof (cases rule: iso_cases [of now])
  case 1
  then show ?thesis by (simp add: resume_commit_def)
next
  case (2 at)
  let ?c = "ri_continuationId i"
  let ?e = "\<lparr>ev_schemaVersion = CONTINUATION_SCHEMA_VERSION, ev_continuationId = ?c,
    ev_version = env_version s + 1, ev_occurredAt = at,
    ev_body = Resumed (ri_idempotencyKey i) (ri_resumePayload i)\<rparr>"
  define t where "t = apply_body (Some s) ?e (Resumed (ri_idempotencyKey i) (ri_resumePayload i))"
  have red: "reduceContinuation (Some s) ?e = Inr t"
    unfolding t_def using snap_cid [OF s(1)]
    by (intro reduce_closing) (simp_all add: s CONTINUATION_SCHEMA_VERSION_def)
  have app: "lifecycle_stream (old @ [?e]) \<and> resume_result h i (insert (?c, old @ [?e]) H) t"
    if "fits H ?c old" "env_version s = int (length old)" for old
    using closing_append [OF s(1) red _ that] payload known_hash_insert [OF hash(1)] hash(2)
    by (simp add: resume_result_def t_def) blast
  show ?thesis
    using 2 app red payload unfolding resume_commit_def
    by (auto simp: sat_append_events intro!: sat_resume_lost [OF s refl])
qed

text \<open>The contract of \<open>resume\<close>.\<close>

lemma sat_resume:
  assumes "json_ok (ri_resumePayload i)"
  shows "sat h (resume_result h i) (resume_error h i) (resume i) H"
proof -
  let ?c = "ri_continuationId i"
  have after: "sat h (resume_result h i) (resume_error h i)
      (bindP (requireMatchingToken ?c (rc_resumeTokenHash ctx) (ri_resumeToken i)) (\<lambda>_.
       bindP (domainP (resolveCompletedResume (rc_continuation ctx) i)) (\<lambda>replayed.
         (case replayed of
            Some r \<Rightarrow> Ret r
          | None \<Rightarrow> bindP (requireResumable (rc_continuation ctx)) (\<lambda>pending. Now (resume_commit i pending)))))) H"
    if s: "snap H ?c (rc_continuation ctx)" and hash: "known_hash H ?c (rc_resumeTokenHash ctx)" for H ctx
  proof -
    have "sat h (resume_result h i) (resume_error h i)
        (bindP (requireResumable (rc_continuation ctx)) (\<lambda>pending. Now (resume_commit i pending))) H"
      if "tokenHashesEqual (rc_resumeTokenHash ctx) (h (ri_resumeToken i))"
      unfolding sat_bindP
    proof (rule sat_requireResumable [OF s])
      fix H'
      assume "H \<subseteq> H'" "env_status (rc_continuation ctx) = StPending"
      then show "sat h (resume_result h i) (resume_error h i) (Now (resume_commit i (rc_continuation ctx))) H'"
        using s hash that assms snap_mono known_hash_mono by (auto intro!: sat_resume_commit)
    qed (auto intro: resume_error_other resume_error_status)
    then show ?thesis
      using s hash unfolding sat_bindP
      apply (intro sat_requireMatchingToken)
      subgoal by (rule sat_resolve) auto
      subgoal by (rule resume_error_mismatch) auto
      subgoal by (rule resume_error_other) simp
      subgoal by (rule resume_error_other) simp
      done
  qed
  show ?thesis
    unfolding resume_def sat_bindP
    apply (rule sat_loadResumeContext)
    subgoal by (rule after [unfolded sat_bindP]) simp_all
    subgoal by (simp add: Let_def)
    subgoal by (simp add: resume_error_other)
    done
qed

section \<open>Inspect and history\<close>

definition read_error :: "jstr \<Rightarrow> know \<Rightarrow> failure \<Rightarrow> bool" where
  "read_error c H e \<longleftrightarrow>
     e = PauseMeshError (ContinuationNotFoundError c) \<and> (c, []) \<in> H \<or> other_failure e"

lemma sat_inspect: "sat h (\<lambda>H s. snap H c s) (read_error c) (inspect c) H"
  unfolding inspect_def sat_bindP
proof (rule sat_loadRequired)
  fix es s
  assume "snap (insert (c, es) H) c s"
  then show "sat h (\<lambda>H s. snap H c s) (read_error c) (expireIfDue_now s) (insert (c, es) H)"
    by (auto simp: expireIfDue_now_def read_error_def intro!: sat_expireIfDue)
qed (simp_all add: read_error_def)

lemma sat_history:
  "sat h (\<lambda>H es. (c, es) \<in> H \<and> proper c es \<and> es \<noteq> []) (read_error c) (history c) H"
  by (auto simp: history_def read_error_def fits_def)

section \<open>Cancel\<close>

definition cancel_result :: "cancel_input \<Rightarrow> know \<Rightarrow> envelope \<Rightarrow> bool" where
  "cancel_result i H s \<longleftrightarrow>
     snap H (xi_continuationId i) s \<and> (\<exists>at. env_state s = CancelledState at (xi_reason i)) \<and>
     (case xi_expectedVersion i of None \<Rightarrow> True | Some v \<Rightarrow> env_version s = v + 1)"

fun cancel_error :: "cancel_input \<Rightarrow> know \<Rightarrow> failure \<Rightarrow> bool" where
  "cancel_error i H (PauseMeshError e) =
     (let c = xi_continuationId i
      in case e of
           ContinuationNotFoundError d \<Rightarrow> d = c \<and> (c, []) \<in> H
         | ContinuationExpiredError d \<Rightarrow> d = c \<and> (\<exists>s. snap H c s \<and> env_status s = StExpired)
         | InvalidTransitionError d st ty \<Rightarrow> d = c \<and> ty = js ''continuation.cancelled'' \<and>
             (\<exists>s. snap H c s \<and> st = Some (env_status s) \<and>
               (env_status s = StResumed \<or> env_status s = StCancelled \<and> state_reason (env_state s) \<noteq> xi_reason i))
         | VersionConflictError d expected actual \<Rightarrow>
             (\<exists>s. snap H c s \<and>
               (env_status s = StResumed \<or>
                d = c \<and> xi_expectedVersion i = Some expected \<and> actual = env_version s \<and>
                actual \<noteq> expected + (if env_status s = StCancelled then 1 else 0)))
         | ContinuationIdMismatchError _ _ \<Rightarrow> True
         | _ \<Rightarrow> False)"
| "cancel_error i H (PlainError m) = False"
| "cancel_error i H e = True"

lemma cancel_error_other: "other_failure e \<Longrightarrow> cancel_error i H e"
  by (cases e rule: store_failure.cases) (auto simp: other_failure_def)

lemma cancel_error_missing:
  "(xi_continuationId i, []) \<in> H \<Longrightarrow>
    cancel_error i H (PauseMeshError (ContinuationNotFoundError (xi_continuationId i)))"
  by (simp add: Let_def)

lemma cancel_error_status:
  assumes "snap H (xi_continuationId i) s"
  shows "env_status s = StExpired \<Longrightarrow> cancel_error i H (PauseMeshError (ContinuationExpiredError (xi_continuationId i)))"
    "env_status s = StResumed \<Longrightarrow> cancel_error i H (PauseMeshError (InvalidTransitionError (xi_continuationId i)
      (Some (env_status s)) (js ''continuation.cancelled'')))"
    "env_status s = StResumed \<Longrightarrow> is_version_conflict e \<Longrightarrow> cancel_error i H e"
  using assms by (cases e rule: is_version_conflict.cases; auto simp: Let_def)+

lemma resolveCompletedCancellation_cases:
  assumes "snap H (xi_continuationId i) s" "env_status s = StCancelled"
  obtains "resolveCompletedCancellation s i = Inr s" "cancel_result i H s"
  | e where "resolveCompletedCancellation s i = Inl e" "cancel_error i H (PauseMeshError e)"
proof -
  obtain at r where st: "env_state s = CancelledState at r"
    using assms(2) by (cases "env_state s") (auto simp: env_status_def)
  consider "r \<noteq> xi_reason i" | "r = xi_reason i" "xi_expectedVersion i = None"
    | v where "r = xi_reason i" "xi_expectedVersion i = Some v"
    by (cases "xi_expectedVersion i") auto
  then show ?thesis
  proof cases
    case 1
    then show ?thesis using that(2) assms st
      by (force simp: resolveCompletedCancellation_def bindR_guardR Let_def)
  next
    case 2
    then show ?thesis using that(1) assms st
      by (simp add: resolveCompletedCancellation_def bindR_guardR cancel_result_def)
  next
    case (3 v)
    show ?thesis
    proof (cases "env_version s = v + 1")
      case True
      with 3 show ?thesis using that(1) assms st
        by (simp add: resolveCompletedCancellation_def bindR_guardR cancel_result_def)
    next
      case False
      with 3 show ?thesis using that(2) assms st
        by (force simp: resolveCompletedCancellation_def bindR_guardR Let_def)
    qed
  qed
qed

lemma sat_resolveCompletedCancellation:
  assumes "snap H (xi_continuationId i) s" "env_status s = StCancelled"
    and "cancel_result i H s \<Longrightarrow> Q H s" "\<And>e. cancel_error i H e \<Longrightarrow> E H e"
  shows "sat h Q E (domainP (resolveCompletedCancellation s i)) H"
  by (cases rule: resolveCompletedCancellation_cases [OF assms(1,2)]) (use assms(3,4) in auto)

lemma sat_cancel_lost:
  assumes s: "snap H c s" "env_status s = StPending" and c: "c = xi_continuationId i"
    and old: "fits H c old" "is_version_conflict error \<Longrightarrow> env_version s \<noteq> int (length old)"
    and Q: "\<And>H t. cancel_result i H t \<Longrightarrow> Q H (Some t)"
    and E: "\<And>H e. cancel_error i H e \<Longrightarrow> E H e" and error: "store_failure error"
  shows "sat h Q E (cancel_lost i error) (insert (c, old) H)"
proof (cases "is_version_conflict error")
  case False
  then show ?thesis using E [OF cancel_error_other] error by (simp add: cancel_lost_def other_failure_def)
next
  case True
  have step: "sat h Q E
      (if env_status t = StCancelled
       then bindP (domainP (resolveCompletedCancellation t i)) (\<lambda>r. Ret (Some r))
       else if env_status t = StExpired then Fail (PauseMeshError (ContinuationExpiredError c))
       else Fail error) H'"
    if es: "fits (insert (c, old) H) c es" "replayContinuation es = Inr (Some t)"
      and t: "snap H' c t" for es t H'
  proof -
    have "env_status t \<noteq> StPending" using pending_not_stale [OF s old(1) old(2) [OF True] es] .
    then consider "env_status t = StCancelled" | "env_status t = StExpired" | "env_status t = StResumed"
      by (cases "env_status t") auto
    then show ?thesis
    proof cases
      case 1
      have "sat h (\<lambda>H x. Q H (Some x)) E (domainP (resolveCompletedCancellation t i)) H'"
        by (rule sat_resolveCompletedCancellation) (use t 1 c Q E in auto)
      with 1 show ?thesis by simp
    qed (use t c E True cancel_error_status in auto)
  qed
  have missing: "E H' (PauseMeshError (ContinuationNotFoundError c))" if "(c, []) \<in> H'" for H'
    using that c E cancel_error_missing by blast
  show ?thesis
    apply (simp only: cancel_lost_def True not_True_eq_False if_False flip: c)
    apply (subst sat_bindP)
    apply (rule sat_loadRequired)
    apply (rule step; assumption)
    apply (rule missing; simp)
    apply (simp add: E cancel_error_other)
    done
qed

lemma sat_cancel_commit:
  assumes s: "snap H (xi_continuationId i) s"
  shows "sat h (cancel_result i) (cancel_error i) (cancel_commit i now s) H"
proof -
  let ?c = "xi_continuationId i"
  consider "env_status s = StCancelled" | "env_status s = StExpired" | "env_status s = StResumed"
    | (stale) "env_status s = StPending" "\<not> (case xi_expectedVersion i of None \<Rightarrow> True | Some v \<Rightarrow> env_version s = v)"
    | (pending) "env_status s = StPending" "case xi_expectedVersion i of None \<Rightarrow> True | Some v \<Rightarrow> env_version s = v"
    by (cases "env_status s") auto
  then show ?thesis
  proof cases
    case 1
    then show ?thesis
      using s by (simp add: cancel_commit_def sat_resolveCompletedCancellation del: sat_domainP)
  next
    case stale
    then obtain v where "xi_expectedVersion i = Some v" "env_version s \<noteq> v"
      by (auto split: option.splits)
    with s stale have "cancel_error i H (PauseMeshError (VersionConflictError ?c v (env_version s)))"
      by (auto simp: Let_def)
    with stale \<open>xi_expectedVersion i = Some v\<close> show ?thesis by (simp add: cancel_commit_def)
  next
    case pending
    show ?thesis
    proof (cases rule: iso_cases [of now])
      case 1
      then show ?thesis using pending by (simp add: cancel_commit_def)
    next
      case (2 at)
      let ?e = "\<lparr>ev_schemaVersion = CONTINUATION_SCHEMA_VERSION, ev_continuationId = ?c,
        ev_version = env_version s + 1, ev_occurredAt = at, ev_body = Cancelled (xi_reason i)\<rparr>"
      define t where "t = apply_body (Some s) ?e (Cancelled (xi_reason i))"
      have red: "reduceContinuation (Some s) ?e = Inr t"
        unfolding t_def using snap_cid [OF s]
        by (intro reduce_closing) (simp_all add: pending CONTINUATION_SCHEMA_VERSION_def)
      have app: "lifecycle_stream (old @ [?e]) \<and> cancel_result i (insert (?c, old @ [?e]) H) t"
        if "fits H ?c old" "env_version s = int (length old)" for old
        using closing_append [OF s red _ that] pending
        by (auto simp: cancel_result_def t_def split: option.splits)
      show ?thesis
        using 2 app red pending unfolding cancel_commit_def
        by (auto simp: sat_append_events intro!: sat_cancel_lost [OF s pending(1) refl])
    qed
  qed (use s cancel_error_status in \<open>auto simp: cancel_commit_def simp del: cancel_error.simps\<close>)
qed

text \<open>The contract of \<open>cancel\<close>.\<close>

lemma sat_cancel: "sat h (cancel_result i) (cancel_error i) (cancel i) H"
proof -
  let ?c = "xi_continuationId i"
  have step: "sat h (cancel_result i) (cancel_error i)
      (if env_status s = StCancelled then domainP (resolveCompletedCancellation s i)
       else Now (\<lambda>now. bindP (expireIfDue s now) (cancel_commit i now))) H"
    if s: "snap H ?c s" for H s
  proof (cases "env_status s = StCancelled")
    case True
    then show ?thesis
      using s by (simp add: sat_resolveCompletedCancellation del: sat_domainP)
  next
    case False
    have "sat h (\<lambda>H s. sat h (cancel_result i) (cancel_error i) (cancel_commit i now s) H) (cancel_error i)
        (expireIfDue s now) H" for now
      by (rule sat_expireIfDue [OF s]) (auto intro: sat_cancel_commit cancel_error_other)
    with False show ?thesis by simp
  qed
  show ?thesis
    unfolding cancel_def
    apply (subst sat_bindP)
    apply (rule sat_loadRequired)
    apply (rule step; assumption)
    apply (rule cancel_error_missing; simp)
    apply (simp add: cancel_error_other)
    done
qed

section \<open>Create\<close>

text \<open>
  The continuation is pending, holds what the caller asked for, and its stream records the hash of
  the token that is handed out, never the token.
\<close>

definition create_result :: "(jstr \<Rightarrow> jstr) \<Rightarrow> create_input \<Rightarrow> know \<Rightarrow> created_continuation \<Rightarrow> bool" where
  "create_result h i H r \<longleftrightarrow>
     (let s = cc_continuation r
      in snap H (env_continuationId s) s \<and> env_state s = PendingState (h (cc_resumeToken r)) \<and>
         known_hash H (env_continuationId s) (h (cc_resumeToken r)) \<and>
         env_payload s = ci_payload i \<and>
         env_metadata s = (case ci_metadata i of None \<Rightarrow> [] | Some m \<Rightarrow> m) \<and>
         (\<forall>c. ci_continuationId i = Some c \<longrightarrow> env_continuationId s = c) \<and>
         (\<forall>c. ci_correlationId i = Some c \<longrightarrow> env_correlationId s = c))"

fun create_error :: "create_input \<Rightarrow> know \<Rightarrow> failure \<Rightarrow> bool" where
  "create_error i H (PauseMeshError e) =
     (case e of
        VersionConflictError _ _ _ \<Rightarrow> (\<exists>c es. (c, es) \<in> H \<and> es \<noteq> [] \<and>
          (\<forall>d. ci_continuationId i = Some d \<longrightarrow> c = d))
      | ContinuationIdMismatchError _ _ \<Rightarrow> True
      | _ \<Rightarrow> False)"
| "create_error i H (PlainError m) = False"
| "create_error i H e = True"

lemma create_error_other: "other_failure e \<Longrightarrow> create_error i H e"
  by (cases e rule: store_failure.cases) (auto simp: other_failure_def)

lemma create_error_exists:
  "is_version_conflict e \<Longrightarrow> (c, es) \<in> H \<Longrightarrow> es \<noteq> [] \<Longrightarrow> (\<forall>d. ci_continuationId i = Some d \<longrightarrow> c = d) \<Longrightarrow>
    create_error i H e"
  by (cases e rule: is_version_conflict.cases) auto

text \<open>The append of a creation event, and what the service answers.\<close>

lemma sat_create_append:
  assumes ok: "json_ok (ci_payload i)" "json_ok (JObj (case ci_metadata i of None \<Rightarrow> [] | Some m \<Rightarrow> m))"
    and ids: "\<forall>d. ci_continuationId i = Some d \<longrightarrow> c = d" "\<forall>d. ci_correlationId i = Some d \<longrightarrow> corr = d"
    and e: "e = \<lparr>ev_schemaVersion = CONTINUATION_SCHEMA_VERSION, ev_continuationId = c, ev_version = 1,
      ev_occurredAt = at, ev_body = Created corr expiry (ci_payload i)
        (case ci_metadata i of None \<Rightarrow> [] | Some m \<Rightarrow> m) (h token)\<rparr>"
  shows "sat h (create_result h i) (create_error i)
    (bindP (append_events c 0 [e]) (\<lambda>_.
     bindP (domainP (reduceContinuation None e)) (\<lambda>continuation.
     if env_status continuation \<noteq> StPending
     then Fail (PlainError (js ''Creation did not produce a pending continuation''))
     else bindP (observeSafely (ObsCreated c corr at (env_version continuation))) (\<lambda>_.
       Ret \<lparr>cc_continuation = continuation, cc_resumeToken = token\<rparr>)))) H"
proof -
  define s where "s = created_envelope e corr expiry (ci_payload i)
    (case ci_metadata i of None \<Rightarrow> [] | Some m \<Rightarrow> m) (h token)"
  have red: "reduceContinuation None e = Inr s"
    by (simp add: reduce_None_iff e s_def CONTINUATION_SCHEMA_VERSION_def)
  have pend: "env_status s = StPending" by (simp add: s_def)
  have life: "lifecycle_stream [e]"
    by (simp add: is_creation_def e CONTINUATION_SCHEMA_VERSION_def)
  have body: "events_ok [e]" "numbered c 0 [e]" using ok by (simp_all add: e)
  have "snap (insert (c, [e]) H) c s"
    by (rule snapI) (use body life red in \<open>simp_all add: proper_def replayContinuation_def\<close>)
  moreover have "known_hash (insert (c, [e]) H) c (h token)"
    unfolding known_hash_def by (force simp: e)
  ultimately have res: "create_result h i (insert (c, [e]) H) \<lparr>cc_continuation = s, cc_resumeToken = token\<rparr>"
    using ids by (simp add: create_result_def s_def created_envelope_def e)
  have "create_error i (insert (c, old) H) x"
    if "store_failure x" "is_version_conflict x \<longrightarrow> old \<noteq> []" for old x
    using that create_error_other create_error_exists [of x c old _ i] ids(1)
    by (cases "is_version_conflict x") (auto simp: other_failure_def)
  then show ?thesis
    using body life red pend res by (simp add: sat_append_events)
qed

lemma sat_create_with:
  assumes ok: "json_ok (ci_payload i)" "json_ok (JObj (case ci_metadata i of None \<Rightarrow> [] | Some m \<Rightarrow> m))"
    and ids: "\<forall>d. ci_continuationId i = Some d \<longrightarrow> c = d" "\<forall>d. ci_correlationId i = Some d \<longrightarrow> corr = d"
  shows "sat h (create_result h i) (create_error i) (create_with ttl i now c corr) H"
proof -
  define expiresAt where "expiresAt = (case ci_expiresAt i of
      Some d \<Rightarrow> d | None \<Rightarrow> new_date (map_option (\<lambda>t. t + ttl) (getTime now)))"
  show ?thesis
  proof (cases "js_le (getTime expiresAt) (getTime now)")
    case True
    then show ?thesis by (simp add: create_with_def Let_def flip: expiresAt_def)
  next
    case False
    note append = sat_create_append [OF ok ids refl]
    show ?thesis
    proof (cases rule: iso_cases [of now]; cases rule: iso_cases [of expiresAt])
      fix at expiry
      assume "iso now = Inr at" "iso expiresAt = Inr expiry"
      with False show ?thesis
        using append [where at = at and expiry = expiry and h = h] unfolding create_with_def expiresAt_def [symmetric] Let_def
        by (simp add: create_error_other cong: sum.case_cong if_cong)
    qed (use False in \<open>simp_all add: create_with_def Let_def create_error_other flip: expiresAt_def\<close>)
  qed
qed

text \<open>The contract of \<open>create\<close>.\<close>

lemma sat_create:
  assumes "json_ok (ci_payload i)" "json_ok (JObj (case ci_metadata i of None \<Rightarrow> [] | Some m \<Rightarrow> m))"
  shows "sat h (create_result h i) (create_error i) (create ttl i) H"
  using sat_create_with [OF assms] by (simp add: create_def split: option.split)

end
