(* ===== verification/InMemoryEventStore.thy ===== *)
theory InMemoryEventStore
  imports EventStore
begin

text \<open>
  \<open>src/adapters/storage/in-memory-event-store.ts\<close>: a map from continuation ids to the serialized
  events of their streams. The interpretation at the end discharges the laws of the store
  contract for it.
\<close>

type_synonym in_memory = "jstr \<rightharpoonup> jstr list"

definition texts :: "in_memory \<Rightarrow> jstr \<Rightarrow> jstr list" where
  "texts streams continuationId = (case streams continuationId of None \<Rightarrow> [] | Some ts \<Rightarrow> ts)"

definition in_memory_load :: "(schema \<Rightarrow> zparser) \<Rightarrow> in_memory \<Rightarrow> jstr \<Rightarrow> (failure, event list) result" where
  "in_memory_load sp streams continuationId = mapR (deserializeEvent sp) (texts streams continuationId)"

definition in_memory_append ::
    "(schema \<Rightarrow> zparser) \<Rightarrow> in_memory \<Rightarrow> jstr \<Rightarrow> int \<Rightarrow> event list \<Rightarrow> (failure, unit) result \<times> in_memory" where
  "in_memory_append sp streams continuationId expectedVersion events =
     (let stream = texts streams continuationId;
          actualVersion = int (length stream)
      in if actualVersion \<noteq> expectedVersion then
           (Inl (PauseMeshError (VersionConflictError continuationId expectedVersion actualVersion)), streams)
         else
           (case serializeAppendBatch sp continuationId expectedVersion events of
              Inl e \<Rightarrow> (Inl e, streams)
            | Inr serializedEvents \<Rightarrow>
                (Inr (), if 0 < length serializedEvents
                         then streams(continuationId \<mapsto> stream @ serializedEvents) else streams)))"

text \<open>\<open>checkReadiness() {}\<close>\<close>

definition in_memory_checkReadiness :: "in_memory \<Rightarrow> (failure, unit) result" where
  "in_memory_checkReadiness streams = Inr ()"

text \<open>Every stream holds the texts of storable events, numbered from one.\<close>

definition stored :: "(schema \<Rightarrow> zparser) \<Rightarrow> jstr \<Rightarrow> event list \<Rightarrow> bool" where
  "stored sp c es \<longleftrightarrow> events_ok es \<and> list_all (storable sp) es \<and> numbered c 0 es"

text \<open>The rows a database keeps for events: the version and the text of each.\<close>

definition event_row :: "event \<Rightarrow> int \<times> jstr" where
  "event_row e = (ev_version e, stringify (event_json e))"

definition batch_rows :: "int \<Rightarrow> jstr list \<Rightarrow> (int \<times> jstr) list" where
  "batch_rows v ts = map (\<lambda>(t, i). (v + int i + 1, t)) (indexed ts)"

lemma batch_event_rows: "numbered c v es \<Longrightarrow> batch_rows v (map (stringify \<circ> event_json) es) = map event_row es"
  by (intro nth_equalityI) (auto simp: batch_rows_def indexed_nth event_row_def numbered_def)

definition in_memory_good :: "(schema \<Rightarrow> zparser) \<Rightarrow> in_memory \<Rightarrow> bool" where
  "in_memory_good sp streams \<longleftrightarrow>
     (\<forall>c. \<exists>es. texts streams c = map (stringify \<circ> event_json) es \<and> stored sp c es)"

lemma texts_simps [simp]:
  "texts (streams(c \<mapsto> ts)) d = (if d = c then ts else texts streams d)"
  "texts Map.empty c = []"
  by (simp_all add: texts_def)

lemma in_memory_empty [simp]: "in_memory_good sp Map.empty"
  by (auto simp: in_memory_good_def stored_def)

lemma serialize_no_conflict:
  "numbered c v es \<Longrightarrow> serializeAppendBatch sp c v es = Inl e \<Longrightarrow> \<not> is_version_conflict e"
  unfolding serializeAppendBatch_def
  by (drule mapR_Inl)
    (auto simp: serialize_one_def set_indexed numbered_def bindR_guardR bindR_eq_Inl parseEvent_def
      split: option.splits)

lemma serialize_errors: "serializeAppendBatch sp c v es = Inl e \<Longrightarrow> store_failure e"
  unfolding serializeAppendBatch_def
  by (drule mapR_Inl)
    (auto simp: serialize_one_def Let_def bindR_guardR bindR_eq_Inl parseEvent_def split: if_splits option.splits)

lemma in_memory_errors: "fst (in_memory_append sp s c v es) = Inl e \<Longrightarrow> store_failure e"
  using serialize_errors by (auto simp: in_memory_append_def Let_def split: if_splits sum.splits)

context zod
begin

lemma load_texts:
  "texts s c = map (stringify \<circ> event_json) es \<Longrightarrow> stored sp c es \<Longrightarrow> in_memory_load sp s c = Inr es"
  by (simp add: in_memory_load_def stored_def deserialize_texts)

lemma in_memory_good_load:
  assumes "in_memory_good sp s" "in_memory_load sp s c = Inr es"
  shows "texts s c = map (stringify \<circ> event_json) es" "stored sp c es" "length (texts s c) = length es"
proof -
  obtain fs where fs: "texts s c = map (stringify \<circ> event_json) fs" "stored sp c fs"
    using assms(1) by (auto simp: in_memory_good_def)
  with assms(2) have "es = fs" by (simp add: load_texts)
  with fs show "texts s c = map (stringify \<circ> event_json) es" "stored sp c es" "length (texts s c) = length es"
    by simp_all
qed

text \<open>What a successful append does to the texts.\<close>

lemma append_texts:
  assumes "events_ok es" "in_memory_append sp s c v es = (Inr u, s')"
  shows "v = int (length (texts s c))" "numbered c v es" "list_all (storable sp) es"
    "texts s' d = (if d = c then texts s c @ map (stringify \<circ> event_json) es else texts s d)"
proof -
  from assms(2) obtain ts where v: "v = int (length (texts s c))"
    and ts: "serializeAppendBatch sp c v es = Inr ts"
    and s': "s' = (if 0 < length ts then s(c \<mapsto> texts s c @ ts) else s)"
    by (auto simp: in_memory_append_def Let_def split: if_splits sum.splits)
  note ser = ts [unfolded serialize_iff [OF assms(1)]]
  show "v = int (length (texts s c))" "numbered c v es" "list_all (storable sp) es"
    using v ser by simp_all
  show "texts s' d = (if d = c then texts s c @ map (stringify \<circ> event_json) es else texts s d)"
    using ser by (cases es) (simp_all add: s')
qed

lemma append_failed_same: "in_memory_append sp s c v es = (Inl e, s') \<Longrightarrow> s' = s"
  by (auto simp: in_memory_append_def Let_def split: if_splits sum.splits)

lemma append_stored:
  assumes "in_memory_good sp s" "events_ok es" "in_memory_append sp s c v es = (Inr u, s')"
  shows "in_memory_good sp s'"
  unfolding in_memory_good_def
proof
  fix d
  note a = append_texts [OF assms(2,3)]
  obtain old where old: "texts s c = map (stringify \<circ> event_json) old" "stored sp c old"
    using assms(1) by (auto simp: in_memory_good_def)
  show "\<exists>es. texts s' d = map (stringify \<circ> event_json) es \<and> stored sp d es"
  proof (cases "d = c")
    case True
    then have "texts s' d = map (stringify \<circ> event_json) (old @ es)" using a(4) [of d] old(1) by simp
    moreover have "stored sp d (old @ es)"
      using old a(1-3) assms(2) True by (simp add: stored_def numbered_append)
    ultimately show ?thesis by blast
  next
    case False
    then show ?thesis using assms(1) a(4) [of d] by (simp add: in_memory_good_def)
  qed
qed

end

sublocale zod < in_memory: reliable_event_store "in_memory_load sp" "in_memory_append sp" "in_memory_good sp" "storable sp"
proof
  fix s c
  assume "in_memory_good sp s"
  then obtain es where "texts s c = map (stringify \<circ> event_json) es" "stored sp c es"
    by (auto simp: in_memory_good_def)
  then show "\<exists>es. in_memory_load sp s c = Inr es \<and> numbered c 0 es \<and> events_ok es"
    using load_texts by (auto simp: stored_def)
next
  fix s es c v u s' old
  assume good: "in_memory_good sp s" "events_ok es" "in_memory_append sp s c v es = (Inr u, s')"
    and old: "in_memory_load sp s c = Inr old"
  note a = append_texts [OF good(2,3)] and o = in_memory_good_load [OF good(1) old]
  have "texts s' c = map (stringify \<circ> event_json) (old @ es)"
    using a(4) [of c] o(1) by simp
  moreover have "stored sp c (old @ es)"
    using a(1-3) o good(2) by (simp add: stored_def numbered_append)
  ultimately show "v = int (length old) \<and> numbered c v es \<and> in_memory_load sp s' c = Inr (old @ es)"
    using load_texts a(1,2) o(3) by simp
next
  fix s es c v e s' old
  assume "in_memory_append sp s c v es = (Inl e, s')" "in_memory_load sp s c = Inr old"
  then show "in_memory_load sp s' c = Inr old \<or>
      host_failure e \<and> v = int (length old) \<and> numbered c v es \<and> in_memory_load sp s' c = Inr (old @ es)"
    by (metis append_failed_same)
next
  fix s es v and d c :: jstr
  assume "in_memory_good sp s" "events_ok es" "d \<noteq> c"
  then show "in_memory_load sp (snd (in_memory_append sp s c v es)) d = in_memory_load sp s d"
    using append_texts(4) [of es s c v "()" "snd (in_memory_append sp s c v es)" d]
    by (cases "in_memory_append sp s c v es"; cases "fst (in_memory_append sp s c v es)")
      (auto simp: in_memory_load_def dest: append_failed_same)
next
  fix s es v and c :: jstr
  assume "in_memory_good sp s" "events_ok es"
  then show "in_memory_good sp (snd (in_memory_append sp s c v es))"
    using append_stored [of s es c v "()" "snd (in_memory_append sp s c v es)"]
    by (cases "in_memory_append sp s c v es"; cases "fst (in_memory_append sp s c v es)")
      (auto dest: append_failed_same)
next
  fix s old v es and c :: jstr
  assume "in_memory_good sp s" "in_memory_load sp s c = Inr old" "v \<noteq> int (length old)"
  then show "\<exists>e. fst (in_memory_append sp s c v es) = Inl e"
    using in_memory_good_load(3) by (auto simp: in_memory_append_def)
next
  fix s c old v es e
  assume "in_memory_good sp s" "in_memory_load sp s c = Inr old" "numbered c v es"
    "fst (in_memory_append sp s c v es) = Inl e" "is_version_conflict e"
  then show "v \<noteq> int (length old)"
    using in_memory_good_load(3) serialize_no_conflict
    by (fastforce simp: in_memory_append_def Let_def split: if_splits sum.splits)
next
  fix s es c old v
  assume "in_memory_good sp s" "events_ok es" "in_memory_load sp s c = Inr old" "v = int (length old)"
    "numbered c v es" "list_all (storable sp) es"
  then show "fst (in_memory_append sp s c v es) = Inr ()"
    using in_memory_good_load(3) serialize_iff [of es c v "map (stringify \<circ> event_json) es"]
    by (auto simp: in_memory_append_def Let_def)
qed (rule in_memory_errors)

end
