(* ===== verification/Concurrency.thy ===== *)
theory Concurrency
  imports ServiceContract InMemoryEventStore
begin

text \<open>
  Any number of requests served at once over one store. A request runs the operation of the service
  it names; the requests take turns at the calls of the ports, in any order, and the ports other
  than the store answer as they like (the clock may even run backwards). The invariant ties each
  running request to what it knows of the streams; the theorems at the end say what every
  interleaving guarantees. A load may fail at any time because the host of the store does.
\<close>

datatype request =
    CreateReq create_input
  | InspectReq jstr
  | HistoryReq jstr
  | ResumeReq resume_input
  | CancelReq cancel_input

datatype response =
    CreatedResp created_continuation
  | EnvelopeResp envelope
  | HistoryResp "event list"

fun serve :: "int \<Rightarrow> request \<Rightarrow> response prog" where
  "serve ttl (CreateReq i) = bindP (create ttl i) (\<lambda>r. Ret (CreatedResp r))"
| "serve ttl (InspectReq c) = bindP (inspect c) (\<lambda>r. Ret (EnvelopeResp r))"
| "serve ttl (HistoryReq c) = bindP (history c) (\<lambda>r. Ret (HistoryResp r))"
| "serve ttl (ResumeReq i) = bindP (resume i) (\<lambda>r. Ret (EnvelopeResp r))"
| "serve ttl (CancelReq i) = bindP (cancel i) (\<lambda>r. Ret (EnvelopeResp r))"

text \<open>The JSON a request carries is plain JSON.\<close>

fun request_ok :: "request \<Rightarrow> bool" where
  "request_ok (CreateReq i) =
     (json_ok (ci_payload i) \<and> json_ok (JObj (case ci_metadata i of None \<Rightarrow> [] | Some m \<Rightarrow> m)))"
| "request_ok (ResumeReq i) = json_ok (ri_resumePayload i)"
| "request_ok _ = True"

type_synonym task = "request \<times> response prog"

record 's system =
  sys_store :: 's
  sys_tasks :: "task list"

inductive sys_step ::
    "('s \<Rightarrow> jstr \<Rightarrow> (failure, event list) result) \<Rightarrow>
     ('s \<Rightarrow> jstr \<Rightarrow> int \<Rightarrow> event list \<Rightarrow> (failure, unit) result \<times> 's) \<Rightarrow>
     (jstr \<Rightarrow> jstr) \<Rightarrow> int \<Rightarrow> 's system \<Rightarrow> 's system \<Rightarrow> bool"
  for ld ap h ttl where
  arrive: "request_ok req \<Longrightarrow>
    sys_step ld ap h ttl S (S\<lparr>sys_tasks := sys_tasks S @ [(req, serve ttl req)]\<rparr>)"
| now: "i < length (sys_tasks S) \<Longrightarrow> sys_tasks S ! i = (req, Now k) \<Longrightarrow>
    sys_step ld ap h ttl S (S\<lparr>sys_tasks := (sys_tasks S)[i := (req, k d)]\<rparr>)"
| generateId: "i < length (sys_tasks S) \<Longrightarrow> sys_tasks S ! i = (req, GenerateId k) \<Longrightarrow>
    sys_step ld ap h ttl S (S\<lparr>sys_tasks := (sys_tasks S)[i := (req, k name)]\<rparr>)"
| issue: "i < length (sys_tasks S) \<Longrightarrow> sys_tasks S ! i = (req, Issue k) \<Longrightarrow>
    r = Inr \<lparr>it_token = t, it_tokenHash = h t\<rparr> \<or> r = Inl e \<and> host_failure e \<Longrightarrow>
    sys_step ld ap h ttl S (S\<lparr>sys_tasks := (sys_tasks S)[i := (req, k r)]\<rparr>)"
| hash: "i < length (sys_tasks S) \<Longrightarrow> sys_tasks S ! i = (req, Hash t k) \<Longrightarrow>
    r = Inr (h t) \<or> r = Inl e \<and> host_failure e \<Longrightarrow>
    sys_step ld ap h ttl S (S\<lparr>sys_tasks := (sys_tasks S)[i := (req, k r)]\<rparr>)"
| load: "i < length (sys_tasks S) \<Longrightarrow> sys_tasks S ! i = (req, Load c k) \<Longrightarrow>
    r = ld (sys_store S) c \<or> r = Inl e \<and> host_failure e \<Longrightarrow>
    sys_step ld ap h ttl S (S\<lparr>sys_tasks := (sys_tasks S)[i := (req, k r)]\<rparr>)"
| append: "i < length (sys_tasks S) \<Longrightarrow> sys_tasks S ! i = (req, Append c v es k) \<Longrightarrow>
    ap (sys_store S) c v es = (r, s') \<Longrightarrow>
    sys_step ld ap h ttl S (S\<lparr>sys_store := s', sys_tasks := (sys_tasks S)[i := (req, k r)]\<rparr>)"
| observe: "i < length (sys_tasks S) \<Longrightarrow> sys_tasks S ! i = (req, Observe ob k) \<Longrightarrow>
    sys_step ld ap h ttl S (S\<lparr>sys_tasks := (sys_tasks S)[i := (req, k r)]\<rparr>)"

inductive reachable ::
    "('s \<Rightarrow> jstr \<Rightarrow> (failure, event list) result) \<Rightarrow>
     ('s \<Rightarrow> jstr \<Rightarrow> int \<Rightarrow> event list \<Rightarrow> (failure, unit) result \<times> 's) \<Rightarrow>
     (jstr \<Rightarrow> jstr) \<Rightarrow> int \<Rightarrow> 's \<Rightarrow> 's system \<Rightarrow> bool"
  for ld ap h ttl s0 where
  start: "reachable ld ap h ttl s0 \<lparr>sys_store = s0, sys_tasks = []\<rparr>"
| step: "reachable ld ap h ttl s0 S \<Longrightarrow> sys_step ld ap h ttl S T \<Longrightarrow> reachable ld ap h ttl s0 T"

text \<open>A store whose loads are those of another one, or fail, allows no more than that one does.\<close>

lemma sys_step_loads:
  assumes "sys_step ld ap h ttl S T" "\<And>s c. ld s c = ld' s c \<or> (\<exists>e. ld s c = Inl e \<and> host_failure e)"
  shows "sys_step ld' ap h ttl S T"
  using assms(1)
proof cases
  case (load i req c k r e)
  then have "r = ld' (sys_store S) c \<or> (\<exists>e. r = Inl e \<and> host_failure e)" using assms(2) by blast
  then show ?thesis using sys_step.load [OF load(2,3)] load(1) by blast
qed (auto intro: sys_step.intros)

section \<open>What a request promises\<close>

fun response_ok :: "(jstr \<Rightarrow> jstr) \<Rightarrow> request \<Rightarrow> know \<Rightarrow> response \<Rightarrow> bool" where
  "response_ok h (CreateReq i) H (CreatedResp r) = create_result h i H r"
| "response_ok h (InspectReq c) H (EnvelopeResp s) = snap H c s"
| "response_ok h (HistoryReq c) H (HistoryResp es) = ((c, es) \<in> H \<and> proper c es \<and> es \<noteq> [])"
| "response_ok h (ResumeReq i) H (EnvelopeResp s) = resume_result h i H s"
| "response_ok h (CancelReq i) H (EnvelopeResp s) = cancel_result i H s"
| "response_ok h _ H _ = False"

fun error_ok :: "(jstr \<Rightarrow> jstr) \<Rightarrow> request \<Rightarrow> know \<Rightarrow> failure \<Rightarrow> bool" where
  "error_ok h (CreateReq i) H e = create_error i H e"
| "error_ok h (InspectReq c) H e = read_error c H e"
| "error_ok h (HistoryReq c) H e = read_error c H e"
| "error_ok h (ResumeReq i) H e = resume_error h i H e"
| "error_ok h (CancelReq i) H e = cancel_error i H e"

lemma error_ok_eta:
  "error_ok h (CreateReq i) = create_error i" "error_ok h (InspectReq c) = read_error c"
  "error_ok h (HistoryReq c) = read_error c" "error_ok h (ResumeReq r) = resume_error h r"
  "error_ok h (CancelReq x) = cancel_error x"
  by (simp_all add: fun_eq_iff)

lemma sat_serve: "request_ok req \<Longrightarrow> sat h (response_ok h req) (error_ok h req) (serve ttl req) H"
  using sat_create sat_inspect sat_history sat_resume sat_cancel
  by (cases req) (simp_all add: error_ok_eta)

context event_store
begin

definition knows :: "'s \<Rightarrow> know \<Rightarrow> bool" where
  "knows s H \<longleftrightarrow> (\<forall>(c, hs) \<in> H. prefix hs (stream s c))"

definition task_inv :: "(jstr \<Rightarrow> jstr) \<Rightarrow> 's \<Rightarrow> task \<Rightarrow> bool" where
  "task_inv h s t \<longleftrightarrow>
     (\<exists>H. knows s H \<and> sat h (response_ok h (fst t)) (error_ok h (fst t)) (snd t) H)"

definition sys_inv :: "(jstr \<Rightarrow> jstr) \<Rightarrow> 's system \<Rightarrow> bool" where
  "sys_inv h S \<longleftrightarrow>
     good (sys_store S) \<and> (\<forall>c. lifecycle_stream (stream (sys_store S) c)) \<and>
     (\<forall>t \<in> set (sys_tasks S). task_inv h (sys_store S) t)"

lemma stream_proper:
  "good s \<Longrightarrow> lifecycle_stream (stream s c) \<Longrightarrow> proper c (stream s c)"
  by (simp add: proper_def stream_numbered stream_ok)

lemma stream_fits:
  "good s \<Longrightarrow> lifecycle_stream (stream s c) \<Longrightarrow> knows s H \<Longrightarrow> fits H c (stream s c)"
  by (auto simp: fits_def stream_proper knows_def)

lemma knows_insert: "knows s H \<Longrightarrow> prefix hs (stream s c) \<Longrightarrow> knows s (insert (c, hs) H)"
  by (simp add: knows_def)

lemma knows_grows:
  "knows s H \<Longrightarrow> (\<And>c. prefix (stream s c) (stream s' c)) \<Longrightarrow> knows s' H"
  unfolding knows_def by (blast intro: prefix_order.trans)

lemma task_inv_grows:
  "task_inv h s t \<Longrightarrow> (\<And>c. prefix (stream s c) (stream s' c)) \<Longrightarrow> task_inv h s' t"
  unfolding task_inv_def by (blast intro: knows_grows)

text \<open>A step that leaves the store alone: only the task that moved has to be looked at.\<close>

lemma sys_inv_update:
  assumes "sys_inv h S" "task_inv h (sys_store S) t"
  shows "sys_inv h (S\<lparr>sys_tasks := (sys_tasks S)[i := t]\<rparr>)"
  using assms set_update_subset_insert [of "sys_tasks S" i t] by (auto simp: sys_inv_def)

lemma task_known:
  assumes "sys_inv h S" "i < length (sys_tasks S)" "sys_tasks S ! i = (req, p)"
  obtains H where "knows (sys_store S) H" "sat h (response_ok h req) (error_ok h req) p H"
proof -
  have "(req, p) \<in> set (sys_tasks S)" using assms(2,3) by (metis nth_mem)
  then show ?thesis using assms(1) that by (auto simp: sys_inv_def task_inv_def)
qed

lemma task_invI:
  "knows s H \<Longrightarrow> sat h (response_ok h req) (error_ok h req) p H \<Longrightarrow> task_inv h s (req, p)"
  by (auto simp: task_inv_def)

lemma append_inv:
  assumes inv: "sys_inv h S" and i: "i < length (sys_tasks S)" "sys_tasks S ! i = (req, Append c v es k)"
    and ap: "append (sys_store S) c v es = (r, s')"
  shows "sys_inv h (S\<lparr>sys_store := s', sys_tasks := (sys_tasks S)[i := (req, k r)]\<rparr>)"
proof -
  let ?s = "sys_store S"
  obtain H where H: "knows ?s H" "sat h (response_ok h req) (error_ok h req) (Append c v es k) H"
    using task_known [OF inv i] .
  have good: "good ?s" "\<And>d. lifecycle_stream (stream ?s d)" using inv by (auto simp: sys_inv_def)
  have es: "events_ok es" "numbered c v es" using H(2) by simp_all
  have fits: "fits H c (stream ?s c)" using stream_fits good H(1) by blast
  have grows: "prefix (stream ?s d) (stream s' d)" for d
    using stream_grows [OF good(1) es(1), of d c v] ap by simp
  have good': "good s'" using append_good [OF good(1) es(1), of c v] ap by simp
  have "(\<forall>d. lifecycle_stream (stream s' d)) \<and> task_inv h s' (req, k r)"
  proof (cases r)
    case (Inl e)
    have now: "stream s' = stream ?s \<or> v = int (length (stream ?s c)) \<and> stream s' = (stream ?s)(c := stream ?s c @ es)"
      using stream_failed [OF good(1) es(1), of c v e s'] ap Inl by (auto simp: fun_eq_iff)
    have "store_failure e" using append_errors [OF good(1), of c v es] ap Inl by simp
    moreover have "is_version_conflict e \<longrightarrow> v \<noteq> int (length (stream ?s c))"
      using append_conflict [OF good(1) load_stream [OF good(1)] es(2)] ap Inl by auto
    ultimately have "sat h (response_ok h req) (error_ok h req) (k (Inl e)) (insert (c, stream ?s c) H)"
      using H(2) fits by simp
    then have "task_inv h s' (req, k r)"
      using knows_insert [OF knows_grows [OF H(1) grows] grows] Inl by (auto intro: task_invI)
    moreover have "lifecycle_stream (stream s' d)" for d
      using now good(2) H(2) fits by auto
    ultimately show ?thesis by blast
  next
    case (Inr u)
    note a = stream_append [OF good(1) es(1) ap [unfolded Inr]]
    have "lifecycle_stream (stream ?s c @ es) \<and>
        sat h (response_ok h req) (error_ok h req) (k (Inr ())) (insert (c, stream ?s c @ es) H)"
      using H(2) fits a(2) by simp
    moreover have "knows s' (insert (c, stream ?s c @ es) H)"
      using knows_grows [OF H(1) grows] a(1) [of c] by (auto intro: knows_insert)
    ultimately show ?thesis using a(1) good(2) Inr by (auto intro: task_invI)
  qed
  moreover have "task_inv h s' t" if "t \<in> set (sys_tasks S)" for t
    using that inv grows by (auto simp: sys_inv_def intro: task_inv_grows)
  ultimately show ?thesis
    using good' set_update_subset_insert [of "sys_tasks S" i "(req, k r)"] by (auto simp: sys_inv_def)
qed

lemma local_move:
  assumes "sys_inv h S" "i < length (sys_tasks S)" "sys_tasks S ! i = (req, p)"
    and "\<And>H. sat h (response_ok h req) (error_ok h req) p H \<Longrightarrow>
      sat h (response_ok h req) (error_ok h req) q H"
  shows "sys_inv h (S\<lparr>sys_tasks := (sys_tasks S)[i := (req, q)]\<rparr>)"
  by (rule task_known [OF assms(1-3)]) (rule sys_inv_update [OF assms(1)], rule task_invI, auto intro: assms(4))

lemma step_inv: "sys_step load append h ttl S T \<Longrightarrow> sys_inv h S \<Longrightarrow> sys_inv h T"
proof (induction rule: sys_step.induct)
  case (arrive req S)
  then have "task_inv h (sys_store S) (req, serve ttl req)"
    using sat_serve by (auto intro!: task_invI [where H = "{}"] simp: knows_def)
  with arrive show ?case by (auto simp: sys_inv_def)
next
  case (load i S req c k r e)
  obtain H where H: "knows (sys_store S) H" "sat h (response_ok h req) (error_ok h req) (Load c k) H"
    using task_known [OF load(4,1,2)] .
  have good: "good (sys_store S)" "lifecycle_stream (stream (sys_store S) c)"
    using load(4) by (auto simp: sys_inv_def)
  have "sat h (response_ok h req) (error_ok h req) (k (Inr (stream (sys_store S) c)))
      (insert (c, stream (sys_store S) c) H)"
    using H(2) stream_fits [OF good H(1)] by simp
  then have "task_inv h (sys_store S) (req, k (load (sys_store S) c))"
    using H(1) load_stream [OF good(1)]
    by (auto intro!: task_invI [where H = "insert (c, stream (sys_store S) c) H"] knows_insert)
  moreover have "host_failure e \<Longrightarrow> task_inv h (sys_store S) (req, k (Inl e))"
    using H by (auto intro: task_invI)
  ultimately have "task_inv h (sys_store S) (req, k r)" using load(3) by blast
  then show ?case using load(4) by (rule sys_inv_update [rotated])
next
  case (append i S req c v es k r s')
  then show ?case by (blast intro: append_inv)
qed (rule local_move, assumption, assumption, assumption, fastforce)+

lemma reachable_inv:
  "reachable load append h ttl s0 S \<Longrightarrow> good s0 \<Longrightarrow> (\<And>c. lifecycle_stream (stream s0 c)) \<Longrightarrow> sys_inv h S"
proof (induction rule: reachable.induct)
  case start
  then show ?case by (simp add: sys_inv_def)
next
  case (step S T)
  then show ?case by (blast intro: step_inv)
qed

text \<open>What a finished request has returned, and what a failed one has reported.\<close>

lemma finished_known:
  assumes "sys_inv h S" "(req, Ret r) \<in> set (sys_tasks S)"
  obtains H where "knows (sys_store S) H" "response_ok h req H r"
  using assms by (auto simp: sys_inv_def task_inv_def)

lemma failed_known:
  assumes "sys_inv h S" "(req, Fail e) \<in> set (sys_tasks S)"
  obtains H where "knows (sys_store S) H" "error_ok h req H e"
  using assms by (auto simp: sys_inv_def task_inv_def)

text \<open>A terminal envelope some request knows of is what the stream of the continuation replays to.\<close>

lemma terminal_current:
  assumes inv: "sys_inv h S" and H: "knows (sys_store S) H"
    and s: "snap H c s" "env_status s \<noteq> StPending"
  shows "replayContinuation (stream (sys_store S) c) = Inr (Some s)"
proof -
  obtain hs where hs: "(c, hs) \<in> H" "replayContinuation hs = Inr (Some s)"
    using s(1) by (auto simp: snap_def)
  obtain fs where fs: "stream (sys_store S) c = hs @ fs"
    using H hs(1) unfolding knows_def prefix_def by blast
  have "lifecycle_stream (hs @ fs)" using inv fs by (metis sys_inv_def)
  then obtain r where "replayContinuation (hs @ fs) = Inr r" using replay_succeeds_iff by blast
  then have "replay_from (Some s) fs = Inr r"
    using hs(2) by (simp add: replayContinuation_def replay_append)
  then have "fs = []" using replay_from_terminal [OF s(2)] by blast
  then show ?thesis using fs hs(2) by simp
qed

text \<open>The recorded token hash is that of the creation event of the stream.\<close>

lemma known_hash_current:
  assumes "knows (sys_store S) H" "known_hash H c hash"
  shows "\<exists>e es corr exp p md. stream (sys_store S) c = e # es \<and> ev_body e = Created corr exp p md hash"
  using assms unfolding knows_def known_hash_def prefix_def by fastforce

end

end
