(* ===== verification/ServiceRuns.thy ===== *)
theory ServiceRuns
  imports Concurrency
begin

text \<open>
  What the operations do when they run alone, on every branch: the answer, the events they append
  and the observation they emit. Over any store that keeps the contract. A sequential run is one of
  the interleavings of theory Concurrency (\<open>run_reachable\<close>).
\<close>

section \<open>A run is an interleaving\<close>

text \<open>The token issuer hands out tokens with their hashes, or fails.\<close>

definition ports_ok :: "(jstr \<Rightarrow> jstr) \<Rightarrow> ports \<Rightarrow> bool" where
  "ports_ok h P \<longleftrightarrow>
     (\<forall>n. (\<exists>t. p_tokens P n = Inr \<lparr>it_token = t, it_tokenHash = h t\<rparr>) \<or>
          (\<exists>e. p_tokens P n = Inl e \<and> host_failure e)) \<and>
     (\<forall>t. p_hash P t = Inr (h t) \<or> (\<exists>e. p_hash P t = Inl e \<and> host_failure e))"

definition ended :: "(failure, 'r) result \<Rightarrow> 'r prog" where
  "ended r = (case r of Inl e \<Rightarrow> Fail e | Inr x \<Rightarrow> Ret x)"

definition set_task :: "'s system \<Rightarrow> nat \<Rightarrow> 's \<Rightarrow> task \<Rightarrow> 's system" where
  "set_task S i s t = S\<lparr>sys_store := s, sys_tasks := (sys_tasks S)[i := t]\<rparr>"

lemma set_task_simps [simp]:
  "sys_store (set_task S i s t) = s"
  "sys_tasks (set_task S i s t) = (sys_tasks S)[i := t]"
  "set_task S i s t\<lparr>sys_tasks := (sys_tasks S)[i := t']\<rparr> = set_task S i s t'"
  "set_task S i s t\<lparr>sys_store := s', sys_tasks := (sys_tasks S)[i := t']\<rparr> = set_task S i s' t'"
  by (simp_all add: set_task_def)

lemma set_task_nth: "i < length (sys_tasks S) \<Longrightarrow> sys_tasks (set_task S i s t) ! i = t"
  by simp

lemma set_task_steps:
  assumes i: "i < length (sys_tasks S)"
  shows "sys_step ld ap h ttl (set_task S i s (req, Now k1)) (set_task S i s (req, k1 d))"
    "sys_step ld ap h ttl (set_task S i s (req, GenerateId k2)) (set_task S i s (req, k2 name))"
    "r3 = Inr \<lparr>it_token = t, it_tokenHash = h t\<rparr> \<or> r3 = Inl e \<and> host_failure e \<Longrightarrow>
      sys_step ld ap h ttl (set_task S i s (req, Issue k3)) (set_task S i s (req, k3 r3))"
    "r4 = Inr (h t) \<or> r4 = Inl e \<and> host_failure e \<Longrightarrow>
      sys_step ld ap h ttl (set_task S i s (req, Hash t k4)) (set_task S i s (req, k4 r4))"
    "sys_step ld ap h ttl (set_task S i s (req, Load c k5)) (set_task S i s (req, k5 (ld s c)))"
    "ap s c v es = (r, s') \<Longrightarrow>
      sys_step ld ap h ttl (set_task S i s (req, Append c v es k6)) (set_task S i s' (req, k6 r))"
    "sys_step ld ap h ttl (set_task S i s (req, Observe ob k7)) (set_task S i s (req, k7 r7))"
proof -
  have len: "i < length (sys_tasks (set_task S i s u))" for u using i by simp
  note nth = set_task_nth [OF i]
  show "sys_step ld ap h ttl (set_task S i s (req, Now k1)) (set_task S i s (req, k1 d))"
    using sys_step.now [OF len nth] by simp
  show "sys_step ld ap h ttl (set_task S i s (req, GenerateId k2)) (set_task S i s (req, k2 name))"
    using sys_step.generateId [OF len nth] by simp
  show "r3 = Inr \<lparr>it_token = t, it_tokenHash = h t\<rparr> \<or> r3 = Inl e \<and> host_failure e \<Longrightarrow>
      sys_step ld ap h ttl (set_task S i s (req, Issue k3)) (set_task S i s (req, k3 r3))"
    by (drule sys_step.issue [OF len nth]) simp
  show "r4 = Inr (h t) \<or> r4 = Inl e \<and> host_failure e \<Longrightarrow>
      sys_step ld ap h ttl (set_task S i s (req, Hash t k4)) (set_task S i s (req, k4 r4))"
    by (drule sys_step.hash [OF len nth]) simp
  show "sys_step ld ap h ttl (set_task S i s (req, Load c k5)) (set_task S i s (req, k5 (ld s c)))"
    using sys_step.load [OF len nth disjI1 [OF refl]] by simp
  show "ap s c v es = (r, s') \<Longrightarrow>
      sys_step ld ap h ttl (set_task S i s (req, Append c v es k6)) (set_task S i s' (req, k6 r))"
    by (drule sys_step.append [OF len nth, simplified]) simp
  show "sys_step ld ap h ttl (set_task S i s (req, Observe ob k7)) (set_task S i s (req, k7 r7))"
    using sys_step.observe [OF len nth] by simp
qed

lemma run_moves:
  assumes "ports_ok h P" "i < length (sys_tasks S)"
  shows "reachable ld ap h ttl s0 (set_task S i (w_store w) (req, p)) \<Longrightarrow>
    run ld ap P p w = (r, w') \<Longrightarrow>
    reachable ld ap h ttl s0 (set_task S i (w_store w') (req, ended r))"
proof (induction p arbitrary: w)
  case (Issue k)
  have "(\<exists>t. p_tokens P (w_tokens w) = Inr \<lparr>it_token = t, it_tokenHash = h t\<rparr>) \<or>
      (\<exists>e. p_tokens P (w_tokens w) = Inl e \<and> host_failure e)"
    using assms(1) by (simp add: ports_ok_def)
  then have "reachable ld ap h ttl s0 (set_task S i (w_store w) (req, k (p_tokens P (w_tokens w))))"
    by (elim disjE exE) (rule reachable.step [OF Issue.prems(1) set_task_steps(3) [OF assms(2)]], blast)+
  then show ?case using Issue.IH [OF rangeI, of "w\<lparr>w_tokens := Suc (w_tokens w)\<rparr>"] Issue.prems(2) by simp
next
  case (Hash t k)
  have "p_hash P t = Inr (h t) \<or> (\<exists>e. p_hash P t = Inl e \<and> host_failure e)"
    using assms(1) by (simp add: ports_ok_def)
  then show ?case
    using Hash reachable.step [OF Hash.prems(1) set_task_steps(4) [OF assms(2)]] by auto
next
  case (Append c v es k)
  obtain q s' where ap: "ap (w_store w) c v es = (q, s')" by (cases "ap (w_store w) c v es")
  have "sys_step ld ap h ttl (set_task S i (w_store w) (req, Append c v es k)) (set_task S i s' (req, k q))"
    using ap by (rule set_task_steps(6) [where ap = ap, OF assms(2)])
  with Append.prems(1) have "reachable ld ap h ttl s0 (set_task S i s' (req, k q))" by (rule reachable.step)
  then show ?case
    using Append.IH [OF rangeI, of "w\<lparr>w_store := s'\<rparr>"] Append.prems(2) ap by simp
next
  case (Now k)
  note st = reachable.step [OF Now.prems(1) set_task_steps(1) [OF assms(2)]]
  show ?case
    by (rule Now.IH [OF rangeI [of k "p_clock P (w_ticks w)"], of "w\<lparr>w_ticks := Suc (w_ticks w)\<rparr>"])
      (use st Now.prems(2) in simp_all)
next
  case (GenerateId k)
  note st = reachable.step [OF GenerateId.prems(1) set_task_steps(2) [OF assms(2)]]
  show ?case
    by (rule GenerateId.IH [OF rangeI [of k "p_ids P (w_ids w)"], of "w\<lparr>w_ids := Suc (w_ids w)\<rparr>"])
      (use st GenerateId.prems(2) in simp_all)
next
  case (Load c k)
  note st = reachable.step [OF Load.prems(1) set_task_steps(5) [OF assms(2)]]
  show ?case
    by (rule Load.IH [OF rangeI [of k "ld (w_store w) c"], of w]) (use st Load.prems(2) in simp_all)
next
  case (Observe ob k)
  note st = reachable.step [OF Observe.prems(1) set_task_steps(7) [OF assms(2)]]
  show ?case
    by (rule Observe.IH [OF rangeI [of k "p_observe P ob"], of "w\<lparr>w_log := w_log w @ [ob]\<rparr>"])
      (use st Observe.prems(2) in simp_all)
qed (auto simp: ended_def)

text \<open>A request that arrives at a reachable system and runs undisturbed.\<close>

lemma run_reachable:
  assumes "reachable ld ap h ttl s0 S" "request_ok req" "ports_ok h P"
    and "run ld ap P (serve ttl req) w = (r, w')" "w_store w = sys_store S"
  shows "reachable ld ap h ttl s0
    (S\<lparr>sys_store := w_store w', sys_tasks := sys_tasks S @ [(req, ended r)]\<rparr>)"
proof -
  let ?T = "S\<lparr>sys_tasks := sys_tasks S @ [(req, serve ttl req)]\<rparr>"
  have "set_task ?T (length (sys_tasks S)) (w_store w) (req, serve ttl req) = ?T"
    using assms(5) by (simp add: set_task_def)
  then have "reachable ld ap h ttl s0 (set_task ?T (length (sys_tasks S)) (w_store w) (req, serve ttl req))"
    using reachable.step [OF assms(1) sys_step.arrive [OF assms(2)]] by simp
  then show ?thesis
    using run_moves [OF assms(3) _ _ assms(4), of "length (sys_tasks S)" ?T] by (simp add: set_task_def)
qed

section \<open>Branches of the operations\<close>

text \<open>The times at which a sequence of operations reads the clock, and the streams they find.\<close>

definition tick :: "'s world \<Rightarrow> 's world" where
  "tick w = w\<lparr>w_ticks := Suc (w_ticks w)\<rparr>"

definition log_obs :: "observation \<Rightarrow> 's world \<Rightarrow> 's world" where
  "log_obs ob w = w\<lparr>w_log := w_log w @ [ob]\<rparr>"

lemma tick_simps [simp]:
  "w_store (tick w) = w_store w" "w_ticks (tick w) = Suc (w_ticks w)" "w_log (tick w) = w_log w"
  "w_ids (tick w) = w_ids w" "w_tokens (tick w) = w_tokens w"
  by (simp_all add: tick_def)

lemma log_obs_simps [simp]:
  "w_store (log_obs ob w) = w_store w" "w_ticks (log_obs ob w) = w_ticks w"
  "w_log (log_obs ob w) = w_log w @ [ob]" "w_ids (log_obs ob w) = w_ids w"
  "w_tokens (log_obs ob w) = w_tokens w"
  by (simp_all add: log_obs_def)

lemma run_Now: "run ld ap P (Now k) w = run ld ap P (k (p_clock P (w_ticks w))) (tick w)"
  by (simp add: tick_def)

declare run.simps(3) [simp del]
declare run_Now [simp]

lemma run_observeSafely: "run ld ap P (observeSafely ob) w = (Inr (), log_obs ob w)"
  by (cases "p_observe P ob") (simp_all add: observeSafely_def run_catchP log_obs_def)

lemma run_liftP: "run ld ap P (liftP r) w = (r, w)"
  by (cases r) simp_all

lemma run_domainP:
  "run ld ap P (domainP r) w = (case r of Inl e \<Rightarrow> Inl (PauseMeshError e) | Inr x \<Rightarrow> Inr x, w)"
  by (cases r) simp_all

lemmas run_simps = run_bindP run_catchP run_Now run_observeSafely run_liftP run_domainP

text \<open>The event an expiry appends.\<close>

definition expiry_event :: "envelope \<Rightarrow> jstr \<Rightarrow> event" where
  "expiry_event s at = \<lparr>ev_schemaVersion = CONTINUATION_SCHEMA_VERSION, ev_continuationId = env_continuationId s,
     ev_version = env_version s + 1, ev_occurredAt = at, ev_body = Expired\<rparr>"

context reliable_event_store
begin

definition put :: "jstr \<Rightarrow> int \<Rightarrow> event list \<Rightarrow> 's world \<Rightarrow> 's world" where
  "put c v es w = w\<lparr>w_store := snd (append (w_store w) c v es)\<rparr>"

lemma put_simps [simp]:
  "w_ticks (put c v es w) = w_ticks w" "w_log (put c v es w) = w_log w" "w_ids (put c v es w) = w_ids w"
  "w_tokens (put c v es w) = w_tokens w"
  by (simp_all add: put_def)

text \<open>An append that the store accepts.\<close>

lemma run_append_events:
  assumes "good (w_store w)" "stream (w_store w) c = old" "v = int (length old)"
    and "events_ok es" "numbered c v es" "list_all accepts es"
  shows "run load append P (append_events c v es) w = (Inr (), put c v es w)"
    "good (w_store (put c v es w))"
    "stream (w_store (put c v es w)) d = (if d = c then old @ es else stream (w_store w) d)"
proof -
  obtain r s' where ap: "append (w_store w) c v es = (r, s')" by (cases "append (w_store w) c v es")
  have "fst (append (w_store w) c v es) = Inr ()"
    using append_accepted [OF assms(1,4) load_stream [OF assms(1)] _ assms(5,6)] assms(2,3) by simp
  then have r: "r = Inr ()" using ap by simp
  show "run load append P (append_events c v es) w = (Inr (), put c v es w)"
    using ap r by (simp add: append_events_def put_def)
  show "good (w_store (put c v es w))"
    using append_good [OF assms(1,4), of c v] by (simp add: put_def)
  show "stream (w_store (put c v es w)) d = (if d = c then old @ es else stream (w_store w) d)"
    using stream_append(1) [OF assms(1,4) ap [unfolded r]] assms(2) ap by (simp add: put_def)
qed

lemma run_loadRequired:
  assumes "good (w_store w)" "replayContinuation (stream (w_store w) c) = Inr r"
  shows "run load append P (loadRequired c) w =
    (case r of None \<Rightarrow> Inl (PauseMeshError (ContinuationNotFoundError c)) | Some s \<Rightarrow> Inr s, w)"
  using assms by (cases r) (simp_all add: loadRequired_def run_simps load_stream)

lemma run_loadResumeContext:
  assumes "good (w_store w)" "stream (w_store w) c = ce # es" "replayContinuation (ce # es) = Inr (Some s)"
    and "ev_body ce = Created corr exp p md hash"
  shows "run load append P (loadResumeContext c) w =
    (Inr \<lparr>rc_continuation = s, rc_resumeTokenHash = hash\<rparr>, w)"
  using assms by (simp add: loadResumeContext_def run_simps load_stream)

lemma run_requireMatchingToken:
  assumes "p_hash P token = Inr actual"
  shows "run load append P (requireMatchingToken c hash token) w =
    (if tokenHashesEqual hash actual then (Inr (), w)
     else (case iso (p_clock P (w_ticks w)) of
             Inl e \<Rightarrow> (Inl e, tick w)
           | Inr at \<Rightarrow> (Inl (PauseMeshError (TokenMismatchError c)), log_obs (ObsRejected c at TOKEN_MISMATCH) (tick w))))"
  using assms by (simp add: requireMatchingToken_def reject_def run_simps split: sum.split)

lemma run_expireIfDue_early:
  "env_status s \<noteq> StPending \<or> js_lt (getTime now) (date_parse (env_expiresAt s)) \<Longrightarrow>
    run load append P (expireIfDue s now) w = (Inr s, w)"
  by (simp add: expireIfDue_def)

lemma run_expireIfDue_due:
  assumes w: "good (w_store w)" "replayContinuation (stream (w_store w) c) = Inr (Some s)" "env_continuationId s = c"
    and due: "env_status s = StPending" "\<not> js_lt (getTime now) (date_parse (env_expiresAt s))"
    and at: "iso now = Inr at" and acc: "accepts (expiry_event s at)"
  shows "run load append P (expireIfDue s now) w =
    (Inr (apply_body (Some s) (expiry_event s at) Expired),
     log_obs (ObsTransitioned c at (env_version s + 1) StExpired) (put c (env_version s) [expiry_event s at] w))"
proof -
  have v: "env_version s = int (length (stream (w_store w) c))" using replay_version(1) [OF w(2)] .
  have red: "reduceContinuation (Some s) (expiry_event s at) = Inr (apply_body (Some s) (expiry_event s at) Expired)"
    using due by (intro reduce_closing) (simp_all add: expiry_event_def CONTINUATION_SCHEMA_VERSION_def)
  have "run load append P (append_events c (env_version s) [expiry_event s at]) w =
      (Inr (), put c (env_version s) [expiry_event s at] w)"
    by (rule run_append_events(1) [OF w(1) refl v]) (use acc w(3) in \<open>simp_all add: expiry_event_def\<close>)
  then show ?thesis
    using red due at w(3) by (simp add: expireIfDue_def run_simps expiry_event_def)
qed

text \<open>A continuation that has been created, with its history and current state.\<close>

definition holds :: "'s \<Rightarrow> jstr \<Rightarrow> event \<Rightarrow> event list \<Rightarrow> jstr \<Rightarrow> envelope \<Rightarrow> bool" where
  "holds s c ce es hash env \<longleftrightarrow>
     good s \<and> stream s c = ce # es \<and> replayContinuation (ce # es) = Inr (Some env) \<and>
     (\<exists>corr exp p md. ev_body ce = Created corr exp p md hash)"

lemma holds_cid: "holds s c ce es hash env \<Longrightarrow> env_continuationId env = c"
  using proper_cid [of c "ce # es" env] stream_numbered [of s c] stream_ok [of s c]
    replay_succeeds_iff [of "ce # es"]
  by (auto simp: holds_def proper_def)

lemma run_inspect:
  assumes "holds (w_store w) c ce es hash env"
    and "env_status env \<noteq> StPending \<or> js_lt (getTime (p_clock P (w_ticks w))) (date_parse (env_expiresAt env))"
  shows "run load append P (inspect c) w = (Inr env, tick w)"
  using assms run_expireIfDue_early [OF assms(2)]
  by (simp add: inspect_def run_simps holds_def run_loadRequired expireIfDue_now_def)

lemma run_inspect_missing:
  "good (w_store w) \<Longrightarrow> stream (w_store w) c = [] \<Longrightarrow>
    run load append P (inspect c) w = (Inl (PauseMeshError (ContinuationNotFoundError c)), w)"
  by (simp add: inspect_def run_simps run_loadRequired replayContinuation_def)

lemma run_inspect_due:
  assumes w: "holds (w_store w) c ce es hash env"
    and due: "env_status env = StPending" "\<not> js_lt (getTime (p_clock P (w_ticks w))) (date_parse (env_expiresAt env))"
    and at: "iso (p_clock P (w_ticks w)) = Inr at" and acc: "accepts (expiry_event env at)"
  shows "run load append P (inspect c) w =
    (Inr (apply_body (Some env) (expiry_event env at) Expired),
     log_obs (ObsTransitioned c at (env_version env + 1) StExpired)
       (put c (env_version env) [expiry_event env at] (tick w)))"
  using run_expireIfDue_due [of "tick w" c env _ at P, OF _ _ holds_cid [OF w] due at acc] w
  by (simp add: inspect_def run_simps holds_def run_loadRequired expireIfDue_now_def)

section \<open>Resume\<close>

lemma run_resume_start:
  assumes w: "holds (w_store w) (ri_continuationId i) ce es hash env"
    and "p_hash P (ri_resumeToken i) = Inr actual" "tokenHashesEqual hash actual"
  shows "run load append P (resume i) w =
    (case resolveCompletedResume env i of
       Inl e \<Rightarrow> (Inl (PauseMeshError e), w)
     | Inr (Some r) \<Rightarrow> (Inr r, w)
     | Inr None \<Rightarrow>
         run load append P (bindP (requireResumable env) (\<lambda>pending. Now (resume_commit i pending))) w)"
proof -
  obtain corr exp p md where ce: "ev_body ce = Created corr exp p md hash"
    using w by (auto simp: holds_def)
  have "run load append P (loadResumeContext (ri_continuationId i)) w =
      (Inr \<lparr>rc_continuation = env, rc_resumeTokenHash = hash\<rparr>, w)"
    using run_loadResumeContext [OF _ _ _ ce] w by (simp add: holds_def)
  then show ?thesis
    using assms(2,3)
    by (simp add: resume_def run_bindP run_requireMatchingToken run_domainP split: sum.split option.split)
qed

text \<open>A wrong token: a rejection is observed, and the store is left alone.\<close>

lemma run_resume_mismatch:
  assumes w: "holds (w_store w) (ri_continuationId i) ce es hash env"
    and "p_hash P (ri_resumeToken i) = Inr actual" "\<not> tokenHashesEqual hash actual"
    and "iso (p_clock P (w_ticks w)) = Inr at"
  shows "run load append P (resume i) w =
    (Inl (PauseMeshError (TokenMismatchError (ri_continuationId i))),
     log_obs (ObsRejected (ri_continuationId i) at TOKEN_MISMATCH) (tick w))"
proof -
  obtain corr exp p md where ce: "ev_body ce = Created corr exp p md hash"
    using w by (auto simp: holds_def)
  have "run load append P (loadResumeContext (ri_continuationId i)) w =
      (Inr \<lparr>rc_continuation = env, rc_resumeTokenHash = hash\<rparr>, w)"
    using run_loadResumeContext [OF _ _ _ ce] w by (simp add: holds_def)
  then show ?thesis
    using assms(2-4) by (simp add: resume_def run_bindP run_requireMatchingToken)
qed

text \<open>The event a resume appends, and the envelope it leads to.\<close>

lemma run_resume_commit:
  assumes w: "holds (w_store w) (ri_continuationId i) ce es hash env" and pend: "env_status env = StPending"
    and at: "iso now = Inr at"
    and e: "e = \<lparr>ev_schemaVersion = CONTINUATION_SCHEMA_VERSION, ev_continuationId = ri_continuationId i,
      ev_version = env_version env + 1, ev_occurredAt = at,
      ev_body = Resumed (ri_idempotencyKey i) (ri_resumePayload i)\<rparr>"
    and acc: "accepts e" "json_ok (ri_resumePayload i)"
  shows "run load append P (resume_commit i env now) w =
    (Inr (apply_body (Some env) e (ev_body e)),
     log_obs (ObsTransitioned (ri_continuationId i) at (env_version env + 1) StResumed)
       (put (ri_continuationId i) (env_version env) [e] w))"
proof -
  have v: "env_version env = int (length (stream (w_store w) (ri_continuationId i)))"
    using w replay_version(1) by (auto simp: holds_def)
  have red: "reduceContinuation (Some env) e = Inr (apply_body (Some env) e (ev_body e))"
    using pend holds_cid [OF w] by (intro reduce_closing) (simp_all add: e CONTINUATION_SCHEMA_VERSION_def)
  have "run load append P (append_events (ri_continuationId i) (env_version env) [e]) w =
      (Inr (), put (ri_continuationId i) (env_version env) [e] w)"
    by (rule run_append_events(1) [OF _ refl v]) (use acc w in \<open>simp_all add: holds_def e\<close>)
  then show ?thesis
    using red at holds_cid [OF w] unfolding e resume_commit_def by (simp add: run_simps)
qed

text \<open>A due continuation expires instead.\<close>

lemma run_requireResumable_due:
  assumes w: "holds (w_store w) c ce es hash env"
    and due: "env_status env = StPending" "\<not> js_lt (getTime (p_clock P (w_ticks w))) (date_parse (env_expiresAt env))"
    and at: "iso (p_clock P (w_ticks w)) = Inr at" and acc: "accepts (expiry_event env at)"
  shows "run load append P (requireResumable env) w =
    (Inl (PauseMeshError (ContinuationExpiredError c)),
     log_obs (ObsTransitioned c at (env_version env + 1) StExpired)
       (put c (env_version env) [expiry_event env at] (tick w)))"
  using run_expireIfDue_due [of "tick w" c env _ at P, OF _ _ holds_cid [OF w] due at acc] w holds_cid [OF w]
  by (simp add: requireResumable_def run_simps holds_def expireIfDue_now_def env_status_def)

lemma run_requireResumable_early:
  "env_status env = StPending \<Longrightarrow>
    js_lt (getTime (p_clock P (w_ticks w))) (date_parse (env_expiresAt env)) \<Longrightarrow>
    run load append P (requireResumable env) w = (Inr env, tick w)"
  by (simp add: requireResumable_def run_simps expireIfDue_now_def run_expireIfDue_early)

lemma run_requireResumable_closed:
  assumes "env_status env \<noteq> StPending"
  shows "run load append P (requireResumable env) w =
    (Inl (PauseMeshError
      (case env_status env of
         StExpired \<Rightarrow> ContinuationExpiredError (env_continuationId env)
       | StCancelled \<Rightarrow> ContinuationCancelledError (env_continuationId env)
       | _ \<Rightarrow> TokenAlreadyUsedError (env_continuationId env))), tick w)"
  using assms
  by (cases "env_status env")
    (simp_all add: requireResumable_def run_simps expireIfDue_now_def run_expireIfDue_early)

section \<open>Create and cancel\<close>

lemma run_create_with:
  assumes w: "good (w_store w)" "stream (w_store w) c = []"
    and exp: "expiresAt = (case ci_expiresAt i of Some d \<Rightarrow> d | None \<Rightarrow> new_date (map_option (\<lambda>t. t + ttl) (getTime now)))"
      "\<not> js_le (getTime expiresAt) (getTime now)" "iso expiresAt = Inr expiry"
    and at: "iso now = Inr at" and tok: "p_tokens P (w_tokens w) = Inr tok"
    and e: "e = \<lparr>ev_schemaVersion = CONTINUATION_SCHEMA_VERSION, ev_continuationId = c, ev_version = 1,
      ev_occurredAt = at, ev_body = Created corr expiry (ci_payload i)
        (case ci_metadata i of None \<Rightarrow> [] | Some m \<Rightarrow> m) (it_tokenHash tok)\<rparr>"
    and ok: "body_ok (ev_body e)" "accepts e"
  shows "run load append P (create_with ttl i now c corr) w =
    (Inr \<lparr>cc_continuation = apply_body None e (ev_body e), cc_resumeToken = it_token tok\<rparr>,
     log_obs (ObsCreated c corr at 1) (put c 0 [e] (w\<lparr>w_tokens := Suc (w_tokens w)\<rparr>)))"
proof -
  have red: "reduceContinuation None e = Inr (apply_body None e (ev_body e))"
    by (simp add: reduce_None_iff e CONTINUATION_SCHEMA_VERSION_def)
  have "run load append P (append_events c 0 [e]) (w\<lparr>w_tokens := Suc (w_tokens w)\<rparr>) =
      (Inr (), put c 0 [e] (w\<lparr>w_tokens := Suc (w_tokens w)\<rparr>))"
    by (rule run_append_events(1) [where old = "[]"]) (use w ok in \<open>simp_all add: e\<close>)
  then show ?thesis
    using red exp(2,3) at tok unfolding create_with_def exp(1) [symmetric] e Let_def
    by (simp add: run_simps)
qed

text \<open>The event a cancellation appends.\<close>

lemma run_cancel_commit:
  assumes w: "holds (w_store w) (xi_continuationId i) ce es hash env" and pend: "env_status env = StPending"
    and v: "xi_expectedVersion i = None \<or> xi_expectedVersion i = Some (env_version env)"
    and at: "iso now = Inr at"
    and e: "e = \<lparr>ev_schemaVersion = CONTINUATION_SCHEMA_VERSION, ev_continuationId = xi_continuationId i,
      ev_version = env_version env + 1, ev_occurredAt = at, ev_body = Cancelled (xi_reason i)\<rparr>"
    and acc: "accepts e"
  shows "run load append P (cancel_commit i now env) w =
    (Inr (apply_body (Some env) e (ev_body e)),
     log_obs (ObsTransitioned (xi_continuationId i) at (env_version env + 1) StCancelled)
       (put (xi_continuationId i) (env_version env) [e] w))"
proof -
  have len: "env_version env = int (length (stream (w_store w) (xi_continuationId i)))"
    using w replay_version(1) by (auto simp: holds_def)
  have red: "reduceContinuation (Some env) e = Inr (apply_body (Some env) e (ev_body e))"
    using pend holds_cid [OF w] by (intro reduce_closing) (simp_all add: e CONTINUATION_SCHEMA_VERSION_def)
  have app: "run load append P (append_events (xi_continuationId i) (env_version env) [e]) w =
      (Inr (), put (xi_continuationId i) (env_version env) [e] w)"
    by (rule run_append_events(1) [OF _ refl len]) (use acc w in \<open>simp_all add: holds_def e\<close>)
  have "(case xi_expectedVersion i of None \<Rightarrow> True | Some v \<Rightarrow> env_version env = v)"
    using v by auto
  then show ?thesis
    using red app at pend holds_cid [OF w] unfolding e cancel_commit_def by (simp add: run_simps)
qed

lemma run_cancel:
  assumes w: "holds (w_store w) (xi_continuationId i) ce es hash env"
  shows "run load append P (cancel i) w =
    (if env_status env = StCancelled
     then (case resolveCompletedCancellation env i of Inl e \<Rightarrow> Inl (PauseMeshError e) | Inr r \<Rightarrow> Inr r, w)
     else run load append P (bindP (expireIfDue env (p_clock P (w_ticks w)))
       (cancel_commit i (p_clock P (w_ticks w)))) (tick w))"
  using w by (simp add: cancel_def run_simps holds_def run_loadRequired)

section \<open>The state after an operation\<close>

lemma holds_created:
  assumes w: "good (w_store w)" "stream (w_store w) c = []"
    and e: "ev_continuationId e = c" "ev_version e = 1" "ev_schemaVersion e = 1"
      "ev_body e = Created corr exp p md hash"
    and ok: "body_ok (ev_body e)" "accepts e"
  shows "holds (w_store (put c 0 [e] w)) c e [] hash (apply_body None e (ev_body e))"
proof -
  have "numbered c 0 [e]" using e by simp
  note app = run_append_events(2,3) [OF w(1,2) _ _ this]
  have "reduceContinuation None e = Inr (apply_body None e (ev_body e))"
    using e by (simp add: reduce_None_iff)
  then show ?thesis using app ok e(4) by (simp add: holds_def replayContinuation_def)
qed

lemma holds_closed:
  assumes w: "holds (w_store w) c ce [] hash env" and pend: "env_status env = StPending"
    and e: "ev_continuationId e = c" "ev_version e = env_version env + 1" "ev_schemaVersion e = 1"
      "case ev_body e of Created _ _ _ _ _ \<Rightarrow> False | _ \<Rightarrow> True"
    and ok: "body_ok (ev_body e)" "accepts e"
  shows "holds (w_store (put c (env_version env) [e] w)) c ce [e] hash (apply_body (Some env) e (ev_body e))"
proof -
  have s: "good (w_store w)" "stream (w_store w) c = [ce]" "replayContinuation [ce] = Inr (Some env)"
    using w by (simp_all add: holds_def)
  have v: "env_version env = int (length [ce])" using replay_version(1) [OF s(3)] .
  have "numbered c (env_version env) [e]" using e by simp
  note app = run_append_events(2,3) [OF s(1,2) v _ this]
  have "reduceContinuation (Some env) e = Inr (apply_body (Some env) e (ev_body e))"
    using e pend holds_cid [OF w] by (intro reduce_closing) simp_all
  then have "replayContinuation [ce, e] = Inr (Some (apply_body (Some env) e (ev_body e)))"
    using replay_snoc [OF s(3), of e] by simp
  then show ?thesis using app ok w by (simp add: holds_def)
qed

end

end
