(* ===== verification/Scenario.thy ===== *)
theory Scenario
  imports ServiceRuns
begin

text \<open>
  A concrete service: an empty in-memory store, the reference parser, a clock that advances by one
  second at each reading, one token and its hash. The scenarios below (a continuation is created,
  resumed, resumed again, ...) are runs of the model on it; they witness that the hypotheses of the
  properties can hold.
\<close>

definition sample_hash :: "jstr \<Rightarrow> jstr" where
  "sample_hash t = replicate 64 (if t = js ''secret'' then ch CHR ''a'' else ch CHR ''b'')"

definition sample_ports :: ports where
  "sample_ports =
     \<lparr>p_clock = \<lambda>n. Date (1000 * int n),
      p_ids = dec,
      p_tokens = \<lambda>n. Inr \<lparr>it_token = js ''secret'', it_tokenHash = sample_hash (js ''secret'')\<rparr>,
      p_hash = \<lambda>t. Inr (sample_hash t),
      p_observe = \<lambda>ob. Inr ()\<rparr>"

definition sample_payload :: json where
  "sample_payload = JObj [(js ''message'', JStr (js ''question''))]"

definition sample_create :: create_input where
  "sample_create =
     \<lparr>ci_continuationId = Some (js ''c1''), ci_correlationId = Some (js ''thread''),
      ci_expiresAt = Some (Date 60000), ci_metadata = None, ci_payload = sample_payload\<rparr>"

definition sample_resume :: resume_input where
  "sample_resume =
     \<lparr>ri_continuationId = js ''c1'', ri_idempotencyKey = js ''key'',
      ri_resumePayload = JStr (js ''answer''), ri_resumeToken = js ''secret''\<rparr>"

definition created_event :: event where
  "created_event =
     \<lparr>ev_schemaVersion = CONTINUATION_SCHEMA_VERSION, ev_continuationId = js ''c1'', ev_version = 1,
      ev_occurredAt = iso_string 0,
      ev_body = Created (js ''thread'') (iso_string 60000) sample_payload []
        (sample_hash (js ''secret''))\<rparr>"

definition created_env :: envelope where
  "created_env = apply_body None created_event (ev_body created_event)"

lemma sample_year: "0 \<le> t \<Longrightarrow> t < 86400000 \<Longrightarrow> fst (date_of_day (t div MS_PER_DAY)) = 1970"
proof -
  assume "0 \<le> t" "t < 86400000"
  then have "t div MS_PER_DAY = 0" by (simp add: MS_PER_DAY_def)
  then show ?thesis by (simp add: date_of_day_def year_of_day_def day_from_year_def split: prod.split)
qed

lemma sample_datetime [simp]: "0 \<le> t \<Longrightarrow> t < 86400000 \<Longrightarrow> is_datetime zod_ref (iso_string t)"
  using zod_reference.iso_datetime [of 1970 t False] sample_year by (simp add: is_datetime_def)

lemma sample_hash_hex [simp]: "hex64_i (sample_hash t)"
  by (simp add: hex64_i_def sample_hash_def is_hex_any_def is_hex_lower_def is_digit_def list_all_iff
      word_le_nat_alt unat_ch)

lemma iso_Date [simp]: "iso (Date t) = Inr (iso_string t)"
  by (simp add: iso_def)

lemma json_ok_empty [simp]: "json_ok (JObj [])"
  by (simp add: json_ok_obj js_obj_def)

lemma sample_payload_ok [simp]: "json_ok sample_payload"
  by (simp add: sample_payload_def json_ok_obj js_obj_id)

lemma created_storable: "storable zod_ref created_event"
  by (simp add: storable_def created_event_def CONTINUATION_SCHEMA_VERSION_def safe_int_def MAX_SAFE_INTEGER_def)

lemma created_env_simps [simp]:
  "env_status created_env = StPending" "env_version created_env = 1"
  "env_continuationId created_env = js ''c1''" "env_expiresAt created_env = iso_string 60000"
  by (simp_all add: created_env_def created_event_def created_envelope_def env_status_def)

section \<open>Resumed in time\<close>

definition resumed_event :: event where
  "resumed_event =
     \<lparr>ev_schemaVersion = CONTINUATION_SCHEMA_VERSION, ev_continuationId = js ''c1'', ev_version = 2,
      ev_occurredAt = iso_string 2000, ev_body = Resumed (js ''key'') (JStr (js ''answer''))\<rparr>"

definition resumed_env :: envelope where
  "resumed_env = apply_body (Some created_env) resumed_event (ev_body resumed_event)"

lemma resumed_storable: "storable zod_ref resumed_event"
  by (simp add: storable_def resumed_event_def CONTINUATION_SCHEMA_VERSION_def safe_int_def MAX_SAFE_INTEGER_def)

lemma tokenHashesEqual_refl: "hex64_i s \<Longrightarrow> tokenHashesEqual s s"
  by (simp add: tokenHashesEqual_def)

lemma sample_ports_ok: "ports_ok sample_hash sample_ports"
  by (simp add: ports_ok_def sample_ports_def)

lemma sample_requests_ok: "request_ok (CreateReq sample_create)" "request_ok (ResumeReq sample_resume)"
  by (simp_all add: sample_create_def sample_resume_def)

section \<open>The runs, on any store\<close>

text \<open>An empty store that accepts what the reference parser does.\<close>

locale scenario = reliable_event_store load append good accepts
  for load :: "'s \<Rightarrow> jstr \<Rightarrow> (failure, event list) result"
    and append :: "'s \<Rightarrow> jstr \<Rightarrow> int \<Rightarrow> event list \<Rightarrow> (failure, unit) result \<times> 's"
    and good :: "'s \<Rightarrow> bool"
    and accepts :: "event \<Rightarrow> bool" +
  fixes s0 :: 's
  assumes s0_good: "good s0"
    and s0_empty: "load s0 c = Inr []"
    and storable_accepted: "storable zod_ref e \<Longrightarrow> accepts e"
begin

lemma s0_stream [simp]: "stream s0 c = []"
  by (simp add: stream_def s0_empty)

lemmas sample_accepted = storable_accepted [OF created_storable] storable_accepted [OF resumed_storable]

definition sample_world :: "'s world" where
  "sample_world = \<lparr>w_store = s0, w_ticks = 0, w_ids = 0, w_tokens = 0, w_log = []\<rparr>"

definition created_world :: "'s world" where
  "created_world =
     log_obs (ObsCreated (js ''c1'') (js ''thread'') (iso_string 0) 1)
       (put (js ''c1'') 0 [created_event] ((tick sample_world)\<lparr>w_tokens := 1\<rparr>))"

lemma run_created:
  "run load append sample_ports (create 900000 sample_create) sample_world =
    (Inr \<lparr>cc_continuation = created_env, cc_resumeToken = js ''secret''\<rparr>, created_world)"
proof -
  have "run load append sample_ports
      (create_with 900000 sample_create (Date 0) (js ''c1'') (js ''thread'')) (tick sample_world) =
    (Inr \<lparr>cc_continuation = apply_body None created_event (ev_body created_event),
      cc_resumeToken = it_token \<lparr>it_token = js ''secret'', it_tokenHash = sample_hash (js ''secret'')\<rparr>\<rparr>,
     log_obs (ObsCreated (js ''c1'') (js ''thread'') (iso_string 0) 1)
      (put (js ''c1'') 0 [created_event]
        ((tick sample_world)\<lparr>w_tokens := Suc (w_tokens (tick sample_world))\<rparr>)))"
    by (rule run_create_with [where expiresAt = "Date 60000" and expiry = "iso_string 60000"])
      (use sample_accepted s0_good in \<open>simp_all add: sample_create_def sample_ports_def sample_world_def
        created_event_def\<close>)
  then show ?thesis
    by (simp add: create_def sample_create_def created_env_def created_world_def sample_ports_def sample_world_def)
qed

lemma created_holds:
  "holds (w_store created_world) (js ''c1'') created_event []
    (sample_hash (js ''secret'')) created_env"
proof -
  have "holds
      (w_store (put (js ''c1'') 0 [created_event] ((tick sample_world)\<lparr>w_tokens := 1\<rparr>)))
      (js ''c1'') created_event [] (sample_hash (js ''secret'')) (apply_body None created_event (ev_body created_event))"
    by (rule holds_created)
      (use sample_accepted s0_good in \<open>simp_all add: created_event_def sample_world_def CONTINUATION_SCHEMA_VERSION_def\<close>)
  then show ?thesis by (simp add: created_world_def created_env_def)
qed

lemma created_world_ticks [simp]: "w_ticks created_world = 1"
  by (simp add: created_world_def sample_world_def)

subsection \<open>Resumed in time, twice\<close>

definition resumed_world :: "'s world" where
  "resumed_world =
     log_obs (ObsTransitioned (js ''c1'') (iso_string 2000) 2 StResumed)
       (put (js ''c1'') 1 [resumed_event] (tick (tick created_world)))"

lemma run_resumed:
  "run load append sample_ports (resume sample_resume) created_world =
    (Inr resumed_env, resumed_world)"
proof -
  have "date_parse (iso_string 60000) = Some 60000"
    by (rule date_parse_iso_string) (simp add: MAX_TIME_def)
  then have early: "run load append sample_ports
      (requireResumable created_env) created_world = (Inr created_env, tick created_world)"
    by (intro run_requireResumable_early) (simp_all add: sample_ports_def)
  have "run load append sample_ports
      (resume_commit sample_resume created_env (Date 2000)) (tick (tick created_world)) =
    (Inr (apply_body (Some created_env) resumed_event (ev_body resumed_event)),
     log_obs (ObsTransitioned (ri_continuationId sample_resume) (iso_string 2000) (env_version created_env + 1) StResumed)
      (put (ri_continuationId sample_resume) (env_version created_env) [resumed_event]
        (tick (tick created_world))))"
    by (rule run_resume_commit)
      (use created_holds sample_accepted in \<open>simp_all add: sample_resume_def resumed_event_def\<close>)
  moreover have "run load append sample_ports (resume sample_resume) created_world =
      run load append sample_ports
        (bindP (requireResumable created_env) (\<lambda>pending. Now (resume_commit sample_resume pending))) created_world"
    using run_resume_start [of created_world sample_resume created_event "[]"
        "sample_hash (js ''secret'')" created_env sample_ports "sample_hash (js ''secret'')"] created_holds
    by (simp add: sample_resume_def sample_ports_def tokenHashesEqual_refl resolveCompletedResume_def
        created_env_def created_event_def created_envelope_def)
  ultimately show ?thesis
    using early by (simp add: run_bindP sample_ports_def resumed_world_def resumed_env_def sample_resume_def)
qed

lemma resumed_holds:
  "holds (w_store resumed_world) (js ''c1'') created_event [resumed_event]
    (sample_hash (js ''secret'')) resumed_env"
proof -
  have "holds
      (w_store (put (js ''c1'') (env_version created_env) [resumed_event]
        (tick (tick created_world))))
      (js ''c1'') created_event [resumed_event] (sample_hash (js ''secret''))
      (apply_body (Some created_env) resumed_event (ev_body resumed_event))"
    by (rule holds_closed)
      (use created_holds sample_accepted in \<open>simp_all add: resumed_event_def CONTINUATION_SCHEMA_VERSION_def\<close>)
  then show ?thesis by (simp add: resumed_world_def resumed_env_def)
qed

text \<open>The same request again: the same answer, and nothing changes.\<close>

lemma run_resumed_again:
  "run load append sample_ports (resume sample_resume) resumed_world =
    (Inr resumed_env, resumed_world)"
  using run_resume_start [of resumed_world sample_resume created_event "[resumed_event]"
      "sample_hash (js ''secret'')" resumed_env sample_ports "sample_hash (js ''secret'')"] resumed_holds
  by (simp add: sample_resume_def sample_ports_def tokenHashesEqual_refl resolveCompletedResume_def
      resumed_env_def resumed_event_def)

text \<open>The system these runs lead to.\<close>

definition sample_system :: "'s system" where
  "sample_system =
     \<lparr>sys_store = w_store resumed_world,
      sys_tasks =
        [(CreateReq sample_create,
          Ret (CreatedResp \<lparr>cc_continuation = created_env, cc_resumeToken = js ''secret''\<rparr>)),
         (ResumeReq sample_resume, Ret (EnvelopeResp resumed_env)),
         (ResumeReq sample_resume, Ret (EnvelopeResp resumed_env))]\<rparr>"

lemma sample_serves:
  "run load append sample_ports (serve 900000 (CreateReq sample_create))
    sample_world = (Inr (CreatedResp \<lparr>cc_continuation = created_env, cc_resumeToken = js ''secret''\<rparr>), created_world)"
  "run load append sample_ports (serve 900000 (ResumeReq sample_resume))
    created_world = (Inr (EnvelopeResp resumed_env), resumed_world)"
  "run load append sample_ports (serve 900000 (ResumeReq sample_resume))
    resumed_world = (Inr (EnvelopeResp resumed_env), resumed_world)"
  by (simp_all add: run_bindP run_created run_resumed run_resumed_again)

lemma sample_reachable:
  "reachable load append sample_hash 900000 s0 sample_system"
proof -
  let ?S0 = "\<lparr>sys_store = s0, sys_tasks = []\<rparr> :: 's system"
  have 0: "w_store sample_world = sys_store ?S0" by (simp add: sample_world_def)
  note s1 = run_reachable [OF reachable.start sample_requests_ok(1) sample_ports_ok sample_serves(1) 0]
  note s2 = run_reachable [OF s1 sample_requests_ok(2) sample_ports_ok sample_serves(2)]
  note s3 = run_reachable [OF s2 sample_requests_ok(2) sample_ports_ok sample_serves(3)]
  show ?thesis using s3 by (simp add: sample_system_def ended_def)
qed

end

interpretation in_memory_run: scenario "in_memory_load zod_ref" "in_memory_append zod_ref" "in_memory_good zod_ref"
  "storable zod_ref" Map.empty
  by unfold_locales (simp_all add: in_memory_load_def)

end
