(* ===== verification/Outcomes.thy ===== *)
theory Outcomes
  imports ServiceRuns
begin

text \<open>
  What the outcomes of concurrent requests say about each other and about the store, for every store
  that satisfies the contract: successful resumes agree, all closed envelopes of a continuation are
  one envelope, and it is what the store holds. And what the service answers when a resume or a
  cancellation that was executed is asked for again.
\<close>

definition finished :: "'s system \<Rightarrow> request \<Rightarrow> response \<Rightarrow> bool" where
  "finished S req r \<longleftrightarrow> (req, Ret r) \<in> set (sys_tasks S)"

definition failed :: "'s system \<Rightarrow> request \<Rightarrow> failure \<Rightarrow> bool" where
  "failed S req e \<longleftrightarrow> (req, Fail e) \<in> set (sys_tasks S)"

text \<open>The current state of a continuation in a store.\<close>

definition stored_state ::
    "('s \<Rightarrow> jstr \<Rightarrow> (failure, event list) result) \<Rightarrow> 's \<Rightarrow> jstr \<Rightarrow> envelope \<Rightarrow> bool" where
  "stored_state ld s c env \<longleftrightarrow> (\<exists>es. ld s c = Inr es \<and> replayContinuation es = Inr (Some env))"

text \<open>The creation event of a continuation in a store records this token hash.\<close>

definition created_hash ::
    "('s \<Rightarrow> jstr \<Rightarrow> (failure, event list) result) \<Rightarrow> 's \<Rightarrow> jstr \<Rightarrow> jstr \<Rightarrow> bool" where
  "created_hash ld s c hash \<longleftrightarrow>
     (\<exists>ce es corr exp p md. ld s c = Inr (ce # es) \<and> ev_body ce = Created corr exp p md hash)"

text \<open>What a successful resume says of the request and of the store.\<close>

definition resumed_by ::
    "('s \<Rightarrow> jstr \<Rightarrow> (failure, event list) result) \<Rightarrow> (jstr \<Rightarrow> jstr) \<Rightarrow> 's \<Rightarrow> resume_input \<Rightarrow> envelope \<Rightarrow> bool" where
  "resumed_by ld h s i env \<longleftrightarrow>
     stored_state ld s (ri_continuationId i) env \<and>
     (\<exists>at p. env_state env = ResumedState at (ri_idempotencyKey i) p \<and>
        canonicalJson p = canonicalJson (ri_resumePayload i)) \<and>
     (\<exists>hash. created_hash ld s (ri_continuationId i) hash \<and> tokenHashesEqual hash (h (ri_resumeToken i)))"

lemma response_snap:
  "response_ok h req H (EnvelopeResp s) \<Longrightarrow> snap H (env_continuationId s) s"
  using snap_cid by (cases req) (auto simp: resume_result_def cancel_result_def)

lemma stored_unique: "stored_state ld s c env \<Longrightarrow> stored_state ld s c env' \<Longrightarrow> env = env'"
  by (auto simp: stored_state_def)

lemma resumed_by_agree:
  assumes "resumed_by ld h s i env" "resumed_by ld h s j env'" "ri_continuationId i = ri_continuationId j"
  shows "env = env' \<and> ri_idempotencyKey i = ri_idempotencyKey j \<and>
    canonicalJson (ri_resumePayload i) = canonicalJson (ri_resumePayload j)"
proof -
  have "env = env'" using assms stored_unique by (fastforce simp: resumed_by_def)
  then show ?thesis using assms(1,2) by (auto simp: resumed_by_def)
qed

context event_store
begin

lemma streams_alive:
  assumes "sys_inv h S"
  shows "\<exists>es. load (sys_store S) c = Inr es \<and> lifecycle_stream es \<and> numbered c 0 es"
proof -
  have "good (sys_store S)" "lifecycle_stream (stream (sys_store S) c)"
    using assms by (simp_all add: sys_inv_def)
  then show ?thesis using load_stream stream_numbered by blast
qed

lemma stored_terminal:
  assumes "sys_inv h S" "knows (sys_store S) H" "snap H c s" "env_status s \<noteq> StPending"
  shows "stored_state load (sys_store S) c s"
proof -
  have "good (sys_store S)" using assms(1) by (simp add: sys_inv_def)
  then show ?thesis
    using terminal_current [OF assms] load_stream by (auto simp: stored_state_def)
qed

lemma finished_terminal:
  assumes "sys_inv h S" "finished S req (EnvelopeResp s)" "env_status s \<noteq> StPending"
  shows "stored_state load (sys_store S) (env_continuationId s) s"
proof -
  obtain H where H: "knows (sys_store S) H" "response_ok h req H (EnvelopeResp s)"
    by (rule finished_known [OF assms(1) assms(2) [unfolded finished_def]])
  show ?thesis by (rule stored_terminal [OF assms(1) H(1) response_snap [OF H(2)] assms(3)])
qed

lemma finished_resume:
  assumes "sys_inv h S" "finished S (ResumeReq i) (EnvelopeResp s)"
  shows "resumed_by load h (sys_store S) i s"
proof -
  have good: "good (sys_store S)" using assms(1) by (simp add: sys_inv_def)
  obtain H where H: "knows (sys_store S) H" "response_ok h (ResumeReq i) H (EnvelopeResp s)"
    by (rule finished_known [OF assms(1) assms(2) [unfolded finished_def]])
  then have res: "resume_result h i H s" by simp
  then have st: "env_status s \<noteq> StPending" by (auto simp: resume_result_def env_status_def)
  have "stored_state load (sys_store S) (ri_continuationId i) s"
    using stored_terminal [OF assms(1) H(1) _ st] res by (simp add: resume_result_def)
  moreover have "\<exists>hash. created_hash load (sys_store S) (ri_continuationId i) hash \<and>
      tokenHashesEqual hash (h (ri_resumeToken i))"
    using res known_hash_current [OF H(1)] load_stream [OF good]
    unfolding resume_result_def created_hash_def by metis
  ultimately show ?thesis using res by (simp add: resumed_by_def resume_result_def)
qed

end

section \<open>Asked for again\<close>

lemma created_hash_unique: "created_hash ld s c hash \<Longrightarrow> created_hash ld s c hash' \<Longrightarrow> hash = hash'"
  by (auto simp: created_hash_def)

context reliable_event_store
begin

lemma stored_holds:
  assumes "good s" "stored_state load s c env"
  obtains ce es hash where "holds s c ce es hash env" "created_hash load s c hash"
proof -
  obtain es where es: "load s c = Inr es" "replayContinuation es = Inr (Some env)"
    using assms(2) by (auto simp: stored_state_def)
  have stream: "stream s c = es" using es(1) by (simp add: stream_def)
  have "lifecycle_stream es" using es(2) replay_succeeds_iff by blast
  then have proper: "proper c es"
    using stream_numbered [OF assms(1), of c] stream_ok [OF assms(1), of c] stream by (simp add: proper_def)
  have "es \<noteq> []" using es(2) by (auto simp: replayContinuation_def)
  from proper_created [OF proper this] obtain e es' corr exp p md hash
    where e: "es = e # es'" "ev_body e = Created corr exp p md hash" .
  show thesis
    by (rule that [of e es' hash]) (use assms(1) stream es e in \<open>auto simp: holds_def created_hash_def\<close>)
qed

text \<open>A resume of a continuation that was resumed with its key and payload: the token decides.\<close>

lemma resume_replayed:
  assumes "good (w_store w)" "stored_state load (w_store w) (ri_continuationId i) env"
    and "created_hash load (w_store w) (ri_continuationId i) hash" "p_hash P (ri_resumeToken i) = Inr actual"
    and answered: "resolveCompletedResume env i = Inr (Some env)"
  shows "run load append P (resume i) w =
    (if tokenHashesEqual hash actual then (Inr env, w)
     else (case iso (p_clock P (w_ticks w)) of
             Inl e \<Rightarrow> (Inl e, tick w)
           | Inr at \<Rightarrow> (Inl (PauseMeshError (TokenMismatchError (ri_continuationId i))),
               log_obs (ObsRejected (ri_continuationId i) at TOKEN_MISMATCH) (tick w))))"
proof -
  obtain ce es hash' where h: "holds (w_store w) (ri_continuationId i) ce es hash' env"
      "created_hash load (w_store w) (ri_continuationId i) hash'"
    by (rule stored_holds [OF assms(1,2)])
  have "hash' = hash" by (rule created_hash_unique [OF h(2) assms(3)])
  with h(1) have w: "holds (w_store w) (ri_continuationId i) ce es hash env" by simp
  then obtain corr exp p md where ce: "ev_body ce = Created corr exp p md hash"
    by (auto simp: holds_def)
  have "run load append P (loadResumeContext (ri_continuationId i)) w =
      (Inr \<lparr>rc_continuation = env, rc_resumeTokenHash = hash\<rparr>, w)"
    using run_loadResumeContext [OF _ _ _ ce] w by (simp add: holds_def)
  then show ?thesis
    using run_resume_start [OF w assms(4)] answered assms(4)
    by (auto simp: resume_def run_bindP run_requireMatchingToken split: sum.split)
qed

lemma cancel_replayed:
  assumes "good (w_store w)" "stored_state load (w_store w) (xi_continuationId i) env"
    and "env_status env = StCancelled" "resolveCompletedCancellation env i = Inr env"
  shows "run load append P (cancel i) w = (Inr env, w)"
proof -
  obtain ce es hash where "holds (w_store w) (xi_continuationId i) ce es hash env"
    by (rule stored_holds [OF assms(1,2)])
  from run_cancel [OF this] show ?thesis using assms(3,4) by simp
qed

end

end
