(* ===== verification/ServiceProperties.thy ===== *)
theory ServiceProperties
  imports Scenario Outcomes
begin

text \<open>
  The properties of the continuation service over the in-memory event store: what every interleaving
  of requests guarantees, and what each operation does when it runs alone. They are the lemmas of the
  store contract, read at its interpretation, with the statements written out over the code's model.
\<close>

text \<open>Everything a service over an empty in-memory store can come to.\<close>

definition service_reachable :: "(schema \<Rightarrow> zparser) \<Rightarrow> (jstr \<Rightarrow> jstr) \<Rightarrow> int \<Rightarrow> in_memory system \<Rightarrow> bool" where
  "service_reachable sp h ttl S \<longleftrightarrow>
     reachable (in_memory_load sp) (in_memory_append sp) h ttl Map.empty S"

context zod
begin

lemma service_inv:
  assumes "service_reachable sp h ttl S"
  shows "in_memory.sys_inv h S"
proof (rule in_memory.reachable_inv [OF assms [unfolded service_reachable_def]])
  show "in_memory_good sp Map.empty" by simp
  show "lifecycle_stream (in_memory.stream Map.empty c)" for c
    by (simp add: in_memory.stream_def in_memory_load_def)
qed

lemmas service_streams = in_memory.streams_alive [OF service_inv]
lemmas service_terminal = in_memory.finished_terminal [OF service_inv]
lemmas service_resume = in_memory.finished_resume [OF service_inv]

end

text \<open>The concrete service of theory Scenario, as an instance.\<close>

lemma sample_zod: "zod zod_ref"
  by (rule zod_reference.zod_axioms)

lemma sample_service: "service_reachable zod_ref sample_hash 900000 in_memory_run.sample_system"
  using in_memory_run.sample_reachable by (simp add: service_reachable_def)

lemma sample_finished: "finished in_memory_run.sample_system (ResumeReq sample_resume) (EnvelopeResp resumed_env)"
  by (simp add: finished_def in_memory_run.sample_system_def)

lemma resumed_env_status [simp]: "env_status resumed_env = StResumed"
  by (simp add: resumed_env_def resumed_event_def env_status_def)

section \<open>Every interleaving\<close>

text \<open>
  C3 In every interleaving of requests, the stream of every continuation stays readable and is the
  life of that continuation: nothing, a creation, or a creation and one closing event, numbered from
  one and all under its id.
\<close>

theorem streams_are_lives:
  assumes "zod sp" "service_reachable sp h ttl S"
  shows "\<exists>es. in_memory_load sp (sys_store S) c = Inr es \<and> lifecycle_stream es \<and> numbered c 0 es"
  using assms by (rule zod.service_streams)

theorem streams_are_lives_witness:
  "\<exists>es. in_memory_load zod_ref (sys_store in_memory_run.sample_system) (js ''c1'') = Inr es \<and> lifecycle_stream es \<and>
    numbered (js ''c1'') 0 es"
  using streams_are_lives [OF sample_zod sample_service] .

text \<open>
  C1 Exactly once: two resumes of a continuation that succeed, however they interleave with each
  other and with anything else, return the same envelope, carry the same idempotency key and
  canonically equal payloads, and that envelope is what the store holds.
\<close>

theorem resume_exactly_once:
  assumes "zod sp" "service_reachable sp h ttl S"
    and "finished S (ResumeReq i) (EnvelopeResp s)" "finished S (ResumeReq j) (EnvelopeResp t)"
    and "ri_continuationId i = ri_continuationId j"
  shows "s = t \<and> ri_idempotencyKey i = ri_idempotencyKey j \<and>
    canonicalJson (ri_resumePayload i) = canonicalJson (ri_resumePayload j) \<and>
    stored_state (in_memory_load sp) (sys_store S) (ri_continuationId i) s"
  using resumed_by_agree [OF zod.service_resume [OF assms(1,2,3)] zod.service_resume [OF assms(1,2,4)] assms(5)]
    zod.service_resume [OF assms(1,2,3)] by (simp add: resumed_by_def)

theorem resume_exactly_once_witness:
  "stored_state (in_memory_load zod_ref) (sys_store in_memory_run.sample_system) (js ''c1'') resumed_env"
  using resume_exactly_once [OF sample_zod sample_service sample_finished sample_finished refl]
  by (simp add: sample_resume_def)

text \<open>
  C2 One outcome: all requests that report a continuation as resumed, cancelled or expired report
  the same envelope, and the store keeps it; so a resume and a cancellation never both succeed.
\<close>

theorem one_outcome:
  assumes "zod sp" "service_reachable sp h ttl S"
    and "finished S req1 (EnvelopeResp s)" "env_status s \<noteq> StPending"
    and "finished S req2 (EnvelopeResp t)" "env_status t \<noteq> StPending"
    and "env_continuationId s = env_continuationId t"
  shows "s = t \<and> stored_state (in_memory_load sp) (sys_store S) (env_continuationId s) s"
  using zod.service_terminal [OF assms(1,2,3,4)] zod.service_terminal [OF assms(1,2,5,6)]
    stored_unique assms(7) by metis

theorem one_outcome_witness:
  "stored_state (in_memory_load zod_ref) (sys_store in_memory_run.sample_system) (env_continuationId resumed_env) resumed_env"
  using one_outcome [OF sample_zod sample_service sample_finished _ sample_finished _ refl] by simp

text \<open>
  C4 A resume succeeds only with the right token: its hash equals the hash the creation event of the
  continuation records.
\<close>

theorem resume_needs_token:
  assumes "zod sp" "service_reachable sp h ttl S" "finished S (ResumeReq i) (EnvelopeResp s)"
  shows "\<exists>hash. created_hash (in_memory_load sp) (sys_store S) (ri_continuationId i) hash \<and>
    tokenHashesEqual hash (h (ri_resumeToken i))"
  using zod.service_resume [OF assms] by (simp add: resumed_by_def)

theorem resume_needs_token_witness:
  "\<exists>hash. created_hash (in_memory_load zod_ref) (sys_store in_memory_run.sample_system) (js ''c1'') hash \<and>
    tokenHashesEqual hash (sample_hash (js ''secret''))"
  using resume_needs_token [OF sample_zod sample_service sample_finished] by (simp add: sample_resume_def)

end
