(* ===== verification/DomainProperties.thy ===== *)
theory DomainProperties
  imports Scenario
begin

text \<open>
  The properties of the domain (reducer, replay, canonical JSON), of the persisted representation
  (JSON text, timestamps, event batches) and of the in-memory event store.
\<close>

section \<open>Reducer and replay\<close>

text \<open>
  C5 The reducer implements the lifecycle: an event is accepted exactly when its schema version is 1,
  it belongs to the continuation and has the next version, and the lifecycle allows it in the
  current status; the result is then the current envelope with what the event records.
\<close>

theorem reducer_implements_lifecycle:
  "reduceContinuation state e = Inr s' \<longleftrightarrow>
    event_fits state e \<and> lifecycle (map_option env_status state) (ev_body e) (env_status s') \<and>
    s' = apply_body state e (ev_body e)"
  by (rule reduce_eq_Inr_iff)

text \<open>
  C6 A rejected event is reported with the first violated rule, in the order of the code: schema
  version, identity, version, lifecycle.
\<close>

theorem reducer_reports_first_violation:
  "reduceContinuation state e = Inl err \<longleftrightarrow>
    (if ev_schemaVersion e \<noteq> 1 then err = UnsupportedSchemaVersionError (ev_schemaVersion e)
     else if (case state of None \<Rightarrow> False | Some s \<Rightarrow> env_continuationId s \<noteq> ev_continuationId e)
     then err = ContinuationIdMismatchError (env_continuationId (the state)) (ev_continuationId e)
     else if ev_version e \<noteq> (case state of None \<Rightarrow> 0 | Some s \<Rightarrow> env_version s) + 1
     then err = VersionConflictError (ev_continuationId e)
       ((case state of None \<Rightarrow> 0 | Some s \<Rightarrow> env_version s) + 1) (ev_version e)
     else \<not> (\<exists>t. lifecycle (map_option env_status state) (ev_body e) t) \<and>
       err = InvalidTransitionError (ev_continuationId e) (map_option env_status state) (ev_type e))"
  by (cases state; cases "ev_body e")
    (auto simp: reduceContinuation_def bindR_guardR assertEventIdentity_def assertVersion_def
      assertPending_def CONTINUATION_SCHEMA_VERSION_def Let_def)

text \<open>
  C7 A history replays exactly when it is empty, a creation, or a creation followed by one closing
  event of the same continuation: nothing follows a terminal event, and no version is skipped.
\<close>

theorem replay_accepts_lives:
  "(\<exists>r. replayContinuation es = Inr r) \<longleftrightarrow> lifecycle_stream es"
  by (rule replay_succeeds_iff)

text \<open>
  The envelope a history replays to counts its events, is pending exactly when only the creation
  has happened, and bears the id every event of the history bears.
\<close>

theorem replay_accounts_for_history:
  assumes "replayContinuation es = Inr (Some s)"
  shows "env_version s = int (length es) \<and> env_schemaVersion s = 1 \<and>
    (env_status s = StPending \<longleftrightarrow> length es = 1) \<and> (\<forall>e \<in> set es. ev_continuationId e = env_continuationId s)"
  using replay_version [OF assms] replay_ids [OF assms] by blast

lemma sample_replay: "replayContinuation [created_event, resumed_event] = Inr (Some resumed_env)"
  using in_memory_run.resumed_holds by (simp add: zod_reference.in_memory.holds_def)

theorem replay_accounts_for_history_witness:
  "env_version resumed_env = 2 \<and> env_status resumed_env \<noteq> StPending"
  using replay_accounts_for_history [OF sample_replay] by simp

text \<open>
  What a continuation was created with stays: an accepted event changes neither its id, nor its
  correlation id, creation and expiry times, payload and metadata, and advances the version by one.
\<close>

theorem events_keep_origin:
  assumes "reduceContinuation (Some s) e = Inr s'"
  shows "same_origin s s' \<and> env_version s' = env_version s + 1 \<and> env_status s' \<noteq> StPending"
  using reduce_keeps_origin [OF assms] reduce_closes [OF assms] by simp

theorem events_keep_origin_witness: "same_origin created_env resumed_env"
proof -
  have "reduceContinuation (Some created_env) resumed_event = Inr resumed_env"
    by (simp add: reduce_Some_iff resumed_env_def) (simp add: resumed_event_def CONTINUATION_SCHEMA_VERSION_def)
  from events_keep_origin [OF this] show ?thesis by simp
qed

section \<open>JSON and time\<close>

text \<open>
  C8 Canonical JSON decides equality of JSON values up to the order of object members: two values
  whose objects have no repeated member have the same canonical text exactly when they are equal
  member by member.
\<close>

theorem canonical_json_decides:
  assumes "keys_wf v" "keys_wf w" "nums_wf v" "nums_wf w"
  shows "canonicalJson v = canonicalJson w \<longleftrightarrow> json_eq v w"
  by (rule canonicalJson_iff_json_eq [OF assms(3,4,1,2)])

theorem canonical_json_decides_witness:
  "canonicalJson (JObj [(js ''a'', JNull), (js ''b'', JBool True)]) =
   canonicalJson (JObj [(js ''b'', JBool True), (js ''a'', JNull)])"
  by (subst canonical_json_decides) simp_all

text \<open>\<open>JSON.parse\<close> reads back every JSON value \<open>JSON.stringify\<close> has written.\<close>

theorem json_text_round_trip:
  assumes "json_wf v"
  shows "json_parse (stringify v) = Some v"
  using assms by (rule json_parse_stringify)

theorem json_text_round_trip_witness:
  "json_parse (stringify (JArr [JStr (js ''x''), JInt 7])) = Some (JArr [JStr (js ''x''), JInt 7])"
  by (rule json_text_round_trip) simp

text \<open>\<open>Date.parse\<close> reads back the time of every date \<open>toISOString\<close> has printed.\<close>

theorem timestamp_round_trip:
  assumes "date_wf d" "toISOString d = Some s"
  shows "date_parse s = getTime d"
  using assms by (rule date_parse_toISOString)

theorem timestamp_round_trip_witness: "date_parse (iso_string 60000) = Some 60000"
  using timestamp_round_trip [of "Date 60000" "iso_string 60000"] by (simp add: date_wf_def MAX_TIME_def)

section \<open>Events and streams\<close>

text \<open>
  C9 A batch that an append serializes belongs to the stream, is numbered from the expected version
  on, and deserializes to the very events that were appended.
\<close>

theorem event_batch_round_trip:
  assumes "zod sp" "events_ok es" "serializeAppendBatch sp c v es = Inr ts"
  shows "numbered c v es \<and> mapR (deserializeEvent sp) ts = Inr es"
  using zod.serialize_iff [OF assms(1,2), of c v ts] zod.deserialize_texts [OF assms(1,2)] assms(3) by simp

theorem event_batch_round_trip_witness:
  "\<exists>ts. serializeAppendBatch zod_ref (js ''c1'') 0 [created_event] = Inr ts \<and>
    mapR (deserializeEvent zod_ref) ts = Inr [created_event]"
proof -
  have id: "ev_continuationId created_event = js ''c1''" "ev_version created_event = 1"
    and ok: "events_ok [created_event]"
    by (simp_all add: created_event_def)
  have "serializeAppendBatch zod_ref (js ''c1'') 0 [created_event] =
      Inr (map (stringify \<circ> event_json) [created_event])"
    using created_storable by (subst zod_reference.serialize_iff [OF ok]) (simp add: id)
  then show ?thesis
    using event_batch_round_trip [OF zod_reference.zod_axioms ok] by blast
qed

context zod
begin

lemma in_memory_append_cases:
  assumes "in_memory_good sp s" "events_ok es" "in_memory_load sp s c = Inr old"
  shows "case in_memory_append sp s c v es of
      (Inr _, s') \<Rightarrow> v = int (length old) \<and> in_memory_load sp s' c = Inr (old @ es) \<and> in_memory_good sp s' \<and>
        (\<forall>d. d \<noteq> c \<longrightarrow> in_memory_load sp s' d = in_memory_load sp s d)
    | (Inl _, s') \<Rightarrow> s' = s"
proof (cases "in_memory_append sp s c v es")
  case (Pair r s')
  show ?thesis
  proof (cases r)
    case (Inl e)
    then show ?thesis using Pair append_failed_same by simp
  next
    case (Inr u)
    note ap = Pair [unfolded Inr]
    have "in_memory_load sp s' d = in_memory_load sp s d" if "d \<noteq> c" for d
      using in_memory.append_other [OF assms(1,2) that, of v] ap by simp
    then show ?thesis
      using in_memory.append_done [OF assms(1,2) ap assms(3)] in_memory.append_good [OF assms(1,2), of c v] ap Inr
      by simp
  qed
qed

end

text \<open>
  C10 An append to the in-memory store is atomic and compare-and-swap: it succeeds only at the
  version of the stream and then adds exactly the batch, leaving every other stream alone; when it
  fails, the store is unchanged.
\<close>

theorem in_memory_append_atomic:
  assumes "zod sp" "in_memory_good sp s" "events_ok es" "in_memory_load sp s c = Inr old"
  shows "case in_memory_append sp s c v es of
      (Inr _, s') \<Rightarrow> v = int (length old) \<and> in_memory_load sp s' c = Inr (old @ es) \<and> in_memory_good sp s' \<and>
        (\<forall>d. d \<noteq> c \<longrightarrow> in_memory_load sp s' d = in_memory_load sp s d)
    | (Inl _, s') \<Rightarrow> s' = s"
  by (rule zod.in_memory_append_cases [OF assms])

theorem in_memory_append_atomic_witness:
  "in_memory_append zod_ref Map.empty (js ''c1'') 3 [created_event] =
    (Inl (PauseMeshError (VersionConflictError (js ''c1'') 3 0)), Map.empty)"
proof -
  have "in_memory_load zod_ref Map.empty (js ''c1'') = Inr []" by (simp add: in_memory_load_def)
  moreover have "events_ok [created_event]" by (simp add: created_event_def)
  ultimately show ?thesis
    using in_memory_append_atomic [OF zod_reference.zod_axioms in_memory_empty, of "[created_event]" "js ''c1''" "[]" 3]
    by (simp add: in_memory_append_def)
qed

end
