(* ===== verification/SqliteEventStore.thy ===== *)
theory SqliteEventStore
  imports InMemoryEventStore
begin

text \<open>
  \<open>src/adapters/storage/sqlite-event-store.ts\<close>: the durable event store. The driver \<open>node:sqlite\<close> and
  the engine below it are a parameter: a record of the statements the store executes. The locale
  \<open>sqlite_driver\<close> states what the program relies on (the table the statements act on, and that a
  transaction is applied as a whole or not at all); any statement may fail, the reads and the \<open>ROLLBACK\<close>
  too. \<open>sqlite_ref\<close> is a table that satisfies it.

  It never returns a stream with a gap or a foreign event whatever the table holds, its appends are
  atomic, and it agrees with the in-memory store. Where the \<open>ROLLBACK\<close> of an open transaction works it is an
  \<open>event_store\<close>; where it fails, the connection keeps the transaction, and its loads show what was never
  committed. The locale \<open>sqlite_disk\<close> says what a connection finds in a file that another one left.
\<close>

section \<open>The statements\<close>

text \<open>
  \<open>'d\<close> is the state of the database as one connection sees it, \<open>'f\<close> a file. \<open>sq_select\<close> reads the rows of
  a continuation (version, event text) in ascending order of the version, \<open>sq_max\<close> is
  \<open>SELECT COALESCE(MAX(version), 0)\<close> inside a transaction, which it may end when it fails, \<open>sq_insert\<close> the
  insertion of a row. The last five are the life of the connection: opening the database of a path in the
  file system as it is, with its timeout, the pragmas, the creation of the table and its triggers, and
  closing it.
\<close>

record ('d, 'f) sqlite =
  sq_select :: "'d \<Rightarrow> jstr \<Rightarrow> (failure, (int \<times> jstr) list) result"
  sq_begin :: "'d \<Rightarrow> (failure, unit) result \<times> 'd"
  sq_max :: "'d \<Rightarrow> jstr \<Rightarrow> (failure, int option) result \<times> 'd"
  sq_insert :: "'d \<Rightarrow> jstr \<Rightarrow> int \<Rightarrow> jstr \<Rightarrow> (failure, unit) result \<times> 'd"
  sq_commit :: "'d \<Rightarrow> (failure, unit) result \<times> 'd"
  sq_rollback :: "'d \<Rightarrow> (failure, unit) result \<times> 'd"
  sq_isTransaction :: "'d \<Rightarrow> bool"
  sq_ping :: "'d \<Rightarrow> (failure, unit) result"
  sq_open :: "(jstr \<Rightarrow> 'f) \<Rightarrow> jstr \<Rightarrow> int \<Rightarrow> (failure, 'd) result"
  sq_pragma :: "'d \<Rightarrow> int \<Rightarrow> (failure, unit) result \<times> 'd"
  sq_schema :: "'d \<Rightarrow> (failure, unit) result \<times> 'd"
  sq_isOpen :: "'d \<Rightarrow> bool"
  sq_close :: "'d \<Rightarrow> 'd"

section \<open>The store\<close>

definition DEFAULT_BUSY_TIMEOUT_MS :: int where
  "DEFAULT_BUSY_TIMEOUT_MS = 5000"

text \<open>The constructor's check of its option.\<close>

definition sqlite_busyTimeout :: "int option \<Rightarrow> (failure, int) result" where
  "sqlite_busyTimeout option =
     (let busyTimeoutMs = (case option of Some n \<Rightarrow> n | None \<Rightarrow> DEFAULT_BUSY_TIMEOUT_MS)
      in if \<not> safe_int busyTimeoutMs \<or> busyTimeoutMs < 0
         then Inl (RangeError (js ''busyTimeoutMs must be a non-negative safe integer''))
         else Inr busyTimeoutMs)"

text \<open>
  The constructor, with the connection it closed, if any: one whose set-up throws is closed before the
  error is passed on.
\<close>

definition sqlite_open ::
    "('d, 'f) sqlite \<Rightarrow> (jstr \<Rightarrow> 'f) \<Rightarrow> jstr \<Rightarrow> int option \<Rightarrow> (failure, 'd) result \<times> 'd option" where
  "sqlite_open db files databasePath option =
     (case sqlite_busyTimeout option of
        Inl e \<Rightarrow> (Inl e, None)
      | Inr busyTimeoutMs \<Rightarrow>
          (case sq_open db files databasePath busyTimeoutMs of
             Inl e \<Rightarrow> (Inl e, None)
           | Inr d \<Rightarrow>
               (case sq_pragma db d busyTimeoutMs of
                  (Inl e, d1) \<Rightarrow> (Inl e, Some (sq_close db d1))
                | (Inr _, d1) \<Rightarrow>
                    (case sq_schema db d1 of
                       (Inl e, d2) \<Rightarrow> (Inl e, Some (sq_close db d2))
                     | (Inr _, d2) \<Rightarrow> (Inr d2, None)))))"

definition sqlite_close :: "('d, 'f) sqlite \<Rightarrow> 'd \<Rightarrow> 'd" where
  "sqlite_close db d = (if sq_isOpen db d then sq_close db d else d)"

definition sqlite_row :: "(schema \<Rightarrow> zparser) \<Rightarrow> jstr \<Rightarrow> (int \<times> jstr) \<times> nat \<Rightarrow> (failure, event) result" where
  "sqlite_row sp continuationId = (\<lambda>((version, eventJson), index).
     let expectedVersion = int index + 1
     in bindR (guardR (version = expectedVersion)
          (PauseMeshError (VersionConflictError continuationId expectedVersion version))) (\<lambda>_.
        bindR (deserializeEvent sp eventJson) (\<lambda>event.
        bindR (guardR (ev_continuationId event = continuationId)
          (PauseMeshError (ContinuationIdMismatchError continuationId (ev_continuationId event)))) (\<lambda>_.
        bindR (guardR (ev_version event = version)
          (PauseMeshError (VersionConflictError continuationId version (ev_version event)))) (\<lambda>_.
        Inr event)))))"

definition sqlite_load ::
    "(schema \<Rightarrow> zparser) \<Rightarrow> ('d, 'f) sqlite \<Rightarrow> 'd \<Rightarrow> jstr \<Rightarrow> (failure, event list) result" where
  "sqlite_load sp db d continuationId =
     bindR (sq_select db d continuationId) (\<lambda>rows. mapR (sqlite_row sp continuationId) (indexed rows))"

text \<open>\<open>for (const [index, serializedEvent] of serializedEvents.entries())\<close>\<close>

fun sqlite_inserts ::
    "('d, 'f) sqlite \<Rightarrow> jstr \<Rightarrow> int \<Rightarrow> (jstr \<times> nat) list \<Rightarrow> 'd \<Rightarrow> (failure, unit) result \<times> 'd" where
  "sqlite_inserts db continuationId expectedVersion [] d = (Inr (), d)"
| "sqlite_inserts db continuationId expectedVersion ((serializedEvent, index) # entries) d =
     (case sq_insert db d continuationId (expectedVersion + int index + 1) serializedEvent of
        (Inl e, d') \<Rightarrow> (Inl e, d')
      | (Inr _, d') \<Rightarrow> sqlite_inserts db continuationId expectedVersion entries d')"

text \<open>The body of the \<open>try\<close> block.\<close>

definition sqlite_try ::
    "(schema \<Rightarrow> zparser) \<Rightarrow> ('d, 'f) sqlite \<Rightarrow> jstr \<Rightarrow> int \<Rightarrow> event list \<Rightarrow> 'd \<Rightarrow> (failure, unit) result \<times> 'd" where
  "sqlite_try sp db continuationId expectedVersion events d =
     (case sq_max db d continuationId of
        (Inl e, d1) \<Rightarrow> (Inl e, d1)
      | (Inr currentVersion, d1) \<Rightarrow>
          (let actualVersion = (case currentVersion of Some v \<Rightarrow> v | None \<Rightarrow> 0)
           in if actualVersion \<noteq> expectedVersion then
                (Inl (PauseMeshError (VersionConflictError continuationId expectedVersion actualVersion)), d1)
              else
                (case serializeAppendBatch sp continuationId expectedVersion events of
                   Inl e \<Rightarrow> (Inl e, d1)
                 | Inr serializedEvents \<Rightarrow>
                     (case sqlite_inserts db continuationId expectedVersion (indexed serializedEvents) d1 of
                        (Inl e, d2) \<Rightarrow> (Inl e, d2)
                      | (Inr _, d2) \<Rightarrow> sq_commit db d2))))"

definition sqlite_append ::
    "(schema \<Rightarrow> zparser) \<Rightarrow> ('d, 'f) sqlite \<Rightarrow> 'd \<Rightarrow> jstr \<Rightarrow> int \<Rightarrow> event list \<Rightarrow> (failure, unit) result \<times> 'd" where
  "sqlite_append sp db d continuationId expectedVersion events =
     (case sq_begin db d of
        (Inl e, d1) \<Rightarrow> (Inl e, d1)
      | (Inr _, d1) \<Rightarrow>
          (case sqlite_try sp db continuationId expectedVersion events d1 of
             (Inr _, d2) \<Rightarrow> (Inr (), d2)
           | (Inl error, d2) \<Rightarrow>
               if sq_isTransaction db d2 then
                 (case sq_rollback db d2 of
                    (Inl e, d3) \<Rightarrow> (Inl e, d3)
                  | (Inr _, d3) \<Rightarrow> (Inl error, d3))
               else (Inl error, d2)))"

definition sqlite_checkReadiness :: "('d, 'f) sqlite \<Rightarrow> 'd \<Rightarrow> (failure, unit) result" where
  "sqlite_checkReadiness db d = sq_ping db d"

section \<open>What a load returns, whatever the table holds\<close>

lemma sqlite_row_Inr:
  "sqlite_row sp c ((v, t), i) = Inr e \<longleftrightarrow>
    v = int i + 1 \<and> deserializeEvent sp t = Inr e \<and> ev_continuationId e = c \<and> ev_version e = v"
  by (auto simp: sqlite_row_def bindR_guardR bindR_eq_Inr Let_def split: if_splits)

lemma sqlite_load_numbered:
  assumes "sqlite_load sp db d c = Inr es"
  shows "numbered c 0 es"
proof -
  obtain rows where "mapR (sqlite_row sp c) (indexed rows) = Inr es"
    using assms by (auto simp: sqlite_load_def bindR_eq_Inr)
  then have "list_all2 (\<lambda>r e. sqlite_row sp c r = Inr e) (indexed rows) es" by (simp add: mapR_Inr_iff)
  then have "length rows = length es" "\<forall>i < length es. sqlite_row sp c (rows ! i, i) = Inr (es ! i)"
    by (simp_all add: list_all2_conv_all_nth indexed_nth)
  then show ?thesis
    unfolding numbered_def by (metis add_0 prod.collapse sqlite_row_Inr)
qed

text \<open>What a load answers when the driver does: the stream that the rows hold.\<close>

definition table_load ::
    "(schema \<Rightarrow> zparser) \<Rightarrow> ('d \<Rightarrow> jstr \<Rightarrow> (int \<times> jstr) list) \<Rightarrow> 'd \<Rightarrow> jstr \<Rightarrow> (failure, event list) result" where
  "table_load sp rows d c = mapR (sqlite_row sp c) (indexed (rows d c))"

lemma table_load_same: "rows d' = rows d \<Longrightarrow> table_load sp rows d' = table_load sp rows d"
  by (simp add: table_load_def fun_eq_iff)

text \<open>What the database holds for every other connection, and after this one is gone.\<close>

definition committed_rows ::
    "('d, 'f) sqlite \<Rightarrow> ('d \<Rightarrow> jstr \<Rightarrow> (int \<times> jstr) list) \<Rightarrow> ('d \<Rightarrow> jstr \<Rightarrow> (int \<times> jstr) list) \<Rightarrow> 'd \<Rightarrow>
     jstr \<Rightarrow> (int \<times> jstr) list" where
  "committed_rows db rows saved d = (if sq_isTransaction db d then saved d else rows d)"

section \<open>The driver\<close>

text \<open>
  The laws of the statements, as SQLite documents them: \<open>rows\<close> is what the connection sees, and \<open>saved\<close> what
  the database held when the transaction that is open began. A statement that fails inside a transaction
  leaves it open or has rolled it back; \<open>BEGIN\<close> inside a transaction is an error.
\<close>

locale sqlite_driver =
  fixes db :: "('d, 'f) sqlite"
    and rows :: "'d \<Rightarrow> jstr \<Rightarrow> (int \<times> jstr) list"
    and saved :: "'d \<Rightarrow> jstr \<Rightarrow> (int \<times> jstr) list"
  assumes select: "sq_select db d c = Inr xs \<Longrightarrow> xs = rows d c"
    and select_failed: "sq_select db d c = Inl e \<Longrightarrow> host_failure e"
    and max_done: "sq_max db d c = (Inr m, d') \<Longrightarrow> d' = d \<and> m = Some (foldr (max \<circ> fst) (rows d c) 0)"
    and max_failed: "sq_isTransaction db d \<Longrightarrow> sq_max db d c = (Inl e, d') \<Longrightarrow>
      host_failure e \<and> saved d' = saved d \<and> (\<not> sq_isTransaction db d' \<longrightarrow> rows d' = saved d)"
    and begin_rows: "\<not> sq_isTransaction db d \<Longrightarrow> sq_begin db d = (r, d') \<Longrightarrow> rows d' = rows d"
    and begin_done: "\<not> sq_isTransaction db d \<Longrightarrow> sq_begin db d = (Inr u, d') \<Longrightarrow>
      sq_isTransaction db d' \<and> saved d' = rows d"
    and begin_failed: "\<not> sq_isTransaction db d \<Longrightarrow> sq_begin db d = (Inl e, d') \<Longrightarrow>
      \<not> sq_isTransaction db d' \<and> host_failure e"
    and begin_within: "sq_isTransaction db d \<Longrightarrow> \<exists>e. sq_begin db d = (Inl e, d) \<and> host_failure e"
    and insert_done: "sq_isTransaction db d \<Longrightarrow> sq_insert db d c v t = (Inr u, d') \<Longrightarrow>
      \<forall>(w, t) \<in> set (rows d c). w < v \<Longrightarrow>
      sq_isTransaction db d' \<and> saved d' = saved d \<and> rows d' = (rows d)(c := rows d c @ [(v, t)])"
    and insert_failed: "sq_isTransaction db d \<Longrightarrow> sq_insert db d c v t = (Inl e, d') \<Longrightarrow>
      host_failure e \<and> saved d' = saved d \<and> (\<not> sq_isTransaction db d' \<longrightarrow> rows d' = saved d)"
    and commit_done: "sq_isTransaction db d \<Longrightarrow> sq_commit db d = (Inr u, d') \<Longrightarrow>
      \<not> sq_isTransaction db d' \<and> rows d' = rows d"
    and commit_failed: "sq_isTransaction db d \<Longrightarrow> sq_commit db d = (Inl e, d') \<Longrightarrow>
      host_failure e \<and> saved d' = saved d \<and> (\<not> sq_isTransaction db d' \<longrightarrow> rows d' = saved d)"
    and rollback_done: "sq_isTransaction db d \<Longrightarrow> sq_rollback db d = (Inr u, d') \<Longrightarrow>
      \<not> sq_isTransaction db d' \<and> rows d' = saved d"
    and rollback_failed: "sq_isTransaction db d \<Longrightarrow> sq_rollback db d = (Inl e, d') \<Longrightarrow>
      host_failure e \<and> saved d' = saved d \<and> (\<not> sq_isTransaction db d' \<longrightarrow> rows d' = saved d)"
begin

text \<open>A batch of rows after the last one.\<close>

lemma inserts_done:
  assumes "sqlite_inserts db c v (map (\<lambda>(t, i). (t, k + i)) (indexed ts)) d = (Inr u, d')"
    and "sq_isTransaction db d" "\<forall>(w, t) \<in> set (rows d c). w \<le> v + int k"
  shows "sq_isTransaction db d' \<and> saved d' = saved d \<and>
    rows d' = (rows d)(c := rows d c @ map (\<lambda>(t, i). (v + int (k + i) + 1, t)) (indexed ts))"
  using assms
proof (induction ts arbitrary: k d)
  case (Cons t ts)
  have ix: "map (\<lambda>(t, i). (t, k + i)) (indexed (t # ts)) = (t, k) # map (\<lambda>(t, i). (t, Suc k + i)) (indexed ts)"
    by (simp add: indexed_Cons case_prod_unfold)
  obtain d1 where ins: "sq_insert db d c (v + int k + 1) t = (Inr (), d1)"
    and rest: "sqlite_inserts db c v (map (\<lambda>(t, i). (t, Suc k + i)) (indexed ts)) d1 = (Inr u, d')"
    using Cons.prems(1) unfolding ix by (auto split: prod.splits sum.splits)
  have step: "sq_isTransaction db d1 \<and> saved d1 = saved d \<and>
      rows d1 = (rows d)(c := rows d c @ [(v + int k + 1, t)])"
    by (rule insert_done [OF Cons.prems(2) ins]) (use Cons.prems(3) in auto)
  have "\<forall>(w, t) \<in> set (rows d1 c). w \<le> v + int (Suc k)"
    using step Cons.prems(3) by auto
  from Cons.IH [OF rest _ this] step show ?case
    by (auto simp: indexed_Cons case_prod_unfold comp_def fun_eq_iff algebra_simps)
qed simp

lemma inserts_failed:
  assumes "sqlite_inserts db c v (map (\<lambda>(t, i). (t, k + i)) (indexed ts)) d = (Inl e, d')"
    and "sq_isTransaction db d" "\<forall>(w, t) \<in> set (rows d c). w \<le> v + int k"
  shows "host_failure e \<and> saved d' = saved d \<and> (\<not> sq_isTransaction db d' \<longrightarrow> rows d' = saved d)"
  using assms
proof (induction ts arbitrary: k d)
  case (Cons t ts)
  have ix: "map (\<lambda>(t, i). (t, k + i)) (indexed (t # ts)) = (t, k) # map (\<lambda>(t, i). (t, Suc k + i)) (indexed ts)"
    by (simp add: indexed_Cons case_prod_unfold)
  obtain r d1 where ins: "sq_insert db d c (v + int k + 1) t = (r, d1)" by (cases "sq_insert db d c (v + int k + 1) t")
  show ?case
  proof (cases r)
    case (Inl e')
    then show ?thesis
      using Cons.prems(1) ins insert_failed [OF Cons.prems(2), of c "v + int k + 1" t e' d1] unfolding ix by simp
  next
    case (Inr u)
    have step: "sq_isTransaction db d1 \<and> saved d1 = saved d \<and>
        rows d1 = (rows d)(c := rows d c @ [(v + int k + 1, t)])"
      by (rule insert_done [OF Cons.prems(2) ins [unfolded Inr]]) (use Cons.prems(3) in auto)
    have "\<forall>(w, t) \<in> set (rows d1 c). w \<le> v + int (Suc k)"
      using step Cons.prems(3) by auto
    moreover have "sqlite_inserts db c v (map (\<lambda>(t, i). (t, Suc k + i)) (indexed ts)) d1 = (Inl e, d')"
      using Cons.prems(1) ins Inr unfolding ix by simp
    ultimately show ?thesis using Cons.IH [of "Suc k" d1] step by simp
  qed
qed simp

end

section \<open>The store over such a driver\<close>

lemma foldr_max: "foldr (max \<circ> fst) xs (0::int) = Max (insert 0 (fst ` set xs))"
proof (induction xs)
  case (Cons x xs)
  have "insert 0 (insert (fst x) (fst ` set xs)) = insert (fst x) (insert 0 (fst ` set xs))" by blast
  then show ?case using Cons by simp
qed simp

lemma max_event_rows: "numbered c 0 es \<Longrightarrow> foldr (max \<circ> fst) (map event_row es) 0 = int (length es)"
proof (cases "es = []")
  case False
  assume n: "numbered c 0 es"
  then have le: "\<forall>x \<in> set es. ev_version x \<le> int (length es)"
    by (fastforce simp: numbered_def in_set_conv_nth)
  have "ev_version (es ! (length es - 1)) = int (length es)"
    using n False unfolding numbered_def by (metis Suc_pred' add.commute add_0 diff_less length_greater_0_conv
      of_nat_Suc zero_less_one)
  moreover have "es ! (length es - 1) \<in> set es" using False by simp
  ultimately have "int (length es) \<in> ev_version ` set es" by (metis image_eqI)
  then show ?thesis
    unfolding foldr_max using le by (intro Max_eqI) (auto simp: event_row_def image_comp)
qed simp

locale sqlite_store = zod sp + sqlite_driver db rows saved
  for sp :: "schema \<Rightarrow> zparser"
    and db :: "('d, 'f) sqlite"
    and rows saved :: "'d \<Rightarrow> jstr \<Rightarrow> (int \<times> jstr) list"
begin

definition sqlite_good :: "'d \<Rightarrow> bool" where
  "sqlite_good d \<longleftrightarrow> \<not> sq_isTransaction db d \<and> (\<forall>c. \<exists>es. rows d c = map event_row es \<and> stored sp c es)"

lemma load_answer: "sqlite_load sp db d c = table_load sp rows d c \<or> (\<exists>e. sqlite_load sp db d c = Inl e \<and> host_failure e)"
  using select [of d c] select_failed [of d c]
  by (cases "sq_select db d c") (auto simp: sqlite_load_def table_load_def)

lemma load_rows:
  assumes "rows d c = map event_row es" "stored sp c es"
  shows "table_load sp rows d c = Inr es"
proof -
  have "sqlite_row sp c (event_row (es ! i), i) = Inr (es ! i)" if "i < length es" for i
    using assms(2) that
    by (auto simp: stored_def event_row_def sqlite_row_Inr numbered_def events_ok_def list_all_length
      deserialize_text)
  then have "mapR (sqlite_row sp c) (indexed (map event_row es)) = Inr es"
    by (simp add: mapR_Inr_iff list_all2_conv_all_nth indexed_nth)
  then show ?thesis by (simp add: table_load_def assms(1))
qed

lemma good_rows:
  assumes "sqlite_good d" "table_load sp rows d c = Inr es"
  shows "rows d c = map event_row es" "stored sp c es" "foldr (max \<circ> fst) (rows d c) 0 = int (length es)"
proof -
  obtain fs where fs: "rows d c = map event_row fs" "stored sp c fs"
    using assms(1) by (auto simp: sqlite_good_def)
  with assms(2) have "es = fs" by (simp add: load_rows)
  with fs show *: "rows d c = map event_row es" "stored sp c es" by simp_all
  then show "foldr (max \<circ> fst) (rows d c) 0 = int (length es)"
    unfolding *(1) by (intro max_event_rows [of c]) (simp add: stored_def)
qed

text \<open>What the errors of an append can be: of the driver, of a stale version, of an event the schema refuses.\<close>

definition refused :: "'d \<Rightarrow> jstr \<Rightarrow> int \<Rightarrow> event list \<Rightarrow> failure \<Rightarrow> bool" where
  "refused d c v es e \<longleftrightarrow>
     (let actual = int (length (rows d c))
      in if v \<noteq> actual then e = PauseMeshError (VersionConflictError c v actual)
         else serializeAppendBatch sp c v es = Inl e)"

lemma try_outcome:
  assumes good: "sqlite_good d" and tx: "sq_isTransaction db d1"
    and same: "rows d1 = rows d" "saved d1 = rows d" and run: "sqlite_try sp db c v es d1 = (r, d2)"
  shows "case r of
      Inr _ \<Rightarrow> \<not> sq_isTransaction db d2 \<and> v = int (length (rows d c)) \<and>
        (\<exists>ts. serializeAppendBatch sp c v es = Inr ts \<and> rows d2 = (rows d)(c := rows d c @ batch_rows v ts))
    | Inl e \<Rightarrow> (host_failure e \<or> refused d c v es e) \<and> saved d2 = rows d \<and>
        (\<not> sq_isTransaction db d2 \<longrightarrow> rows d2 = rows d)"
proof -
  obtain old where old: "rows d c = map event_row old" "stored sp c old"
    using good by (auto simp: sqlite_good_def)
  have actual: "foldr (max \<circ> fst) (rows d1 c) 0 = int (length (rows d c))"
    using good_rows(3) [OF good load_rows [OF old]] old(1) same(1) by simp
  obtain m d3 where max: "sq_max db d1 c = (m, d3)" by (cases "sq_max db d1 c")
  show ?thesis
  proof (cases m)
    case (Inl e)
    then have "r = Inl e" "d2 = d3" using run max by (simp_all add: sqlite_try_def)
    then show ?thesis using max_failed [OF tx, of c e d3] max Inl same by simp
  next
    case (Inr w)
    then have answer: "sq_max db d1 c = (Inr (Some (int (length (rows d c)))), d1)"
      using max_done [of d1 c w d3] max actual by simp
    show ?thesis
    proof (cases "v = int (length (rows d c)) \<and> (\<exists>ts. serializeAppendBatch sp c v es = Inr ts)")
      case False
      then have "\<exists>e. r = Inl e \<and> refused d c v es e \<and> d2 = d1"
        using run answer
        by (cases "serializeAppendBatch sp c v es") (auto simp: sqlite_try_def refused_def Let_def split: if_splits)
      then show ?thesis using same tx by auto
    next
      case True
      then obtain ts where v: "v = int (length (rows d c))" and ts: "serializeAppendBatch sp c v es = Inr ts" by blast
      have below: "\<forall>(w, t) \<in> set (rows d1 c). w \<le> v + int 0"
        using old v same(1) by (auto simp: stored_def numbered_def event_row_def in_set_conv_nth)
      obtain q d' where ins: "sqlite_inserts db c v (map (\<lambda>(t, i). (t, 0 + i)) (indexed ts)) d1 = (q, d')"
        by (cases "sqlite_inserts db c v (map (\<lambda>(t, i). (t, 0 + i)) (indexed ts)) d1")
      then have run': "(case q of Inl e \<Rightarrow> (Inl e, d') | Inr _ \<Rightarrow> sq_commit db d') = (r, d2)"
        using run answer v ts by (simp add: sqlite_try_def split: sum.splits)
      show ?thesis
      proof (cases q)
        case (Inl e)
        then show ?thesis
          using inserts_failed [OF ins [unfolded Inl] tx below] run' same by auto
      next
        case (Inr u)
        note done' = inserts_done [OF ins [unfolded Inr] tx below]
        have rows': "rows d' = (rows d)(c := rows d c @ batch_rows v ts)" "saved d' = rows d"
            "sq_isTransaction db d'"
          using done' same by (simp_all add: batch_rows_def)
        have "sq_commit db d' = (r, d2)" using run' Inr by simp
        then show ?thesis
          using commit_done [OF rows'(3), of _ d2] commit_failed [OF rows'(3), of _ d2] rows' v ts
          by (cases r) auto
      qed
    qed
  qed
qed

text \<open>
  An append, on every branch. Only a \<open>ROLLBACK\<close> that fails can leave the transaction open; then the error is
  the one of the \<open>ROLLBACK\<close>.
\<close>

definition rollback_lost :: "'d \<Rightarrow> failure \<Rightarrow> bool" where
  "rollback_lost d' e \<longleftrightarrow> sq_isTransaction db d' \<and> host_failure e \<and>
     (\<exists>d. sq_isTransaction db d \<and> sq_rollback db d = (Inl e, d'))"

lemma append_outcome:
  assumes "sqlite_good d" "sqlite_append sp db d c v es = (r, d')"
  shows "case r of
      Inr _ \<Rightarrow> \<not> sq_isTransaction db d' \<and> v = int (length (rows d c)) \<and>
        (\<exists>ts. serializeAppendBatch sp c v es = Inr ts \<and> rows d' = (rows d)(c := rows d c @ batch_rows v ts))
    | Inl e \<Rightarrow> committed_rows db rows saved d' = rows d \<and>
        (\<not> sq_isTransaction db d' \<and> (host_failure e \<or> refused d c v es e) \<or> rollback_lost d' e)"
proof -
  have idle: "\<not> sq_isTransaction db d" using assms(1) by (simp add: sqlite_good_def)
  obtain b d1 where beg: "sq_begin db d = (b, d1)" by (cases "sq_begin db d")
  note same = begin_rows [OF idle beg]
  show ?thesis
  proof (cases b)
    case (Inl e)
    then show ?thesis
      using assms(2) beg begin_failed [OF idle, of e d1] same by (auto simp: sqlite_append_def committed_rows_def)
  next
    case (Inr u)
    note tx = begin_done [OF idle beg [unfolded Inr]]
    obtain q d2 where tr: "sqlite_try sp db c v es d1 = (q, d2)" by (cases "sqlite_try sp db c v es d1")
    note out = try_outcome [OF assms(1) _ same _ tr] tx
    have run: "sqlite_append sp db d c v es = (case q of Inr _ \<Rightarrow> (Inr (), d2)
      | Inl error \<Rightarrow> if sq_isTransaction db d2 then
          (case sq_rollback db d2 of (Inl e, d3) \<Rightarrow> (Inl e, d3) | (Inr _, d3) \<Rightarrow> (Inl error, d3))
        else (Inl error, d2))"
      using beg Inr tr by (simp add: sqlite_append_def split: sum.split)
    show ?thesis
    proof (cases q)
      case (Inr w)
      then show ?thesis using assms(2) run out by auto
    next
      case (Inl e)
      obtain rb d3 where rb: "sq_rollback db d2 = (rb, d3)" by (cases "sq_rollback db d2")
      show ?thesis
        using assms(2) run out Inl rb rollback_done [of d2 _ d3] rollback_failed [of d2 _ d3]
        by (cases "sq_isTransaction db d2"; cases rb) (auto simp: committed_rows_def rollback_lost_def)
    qed
  qed
qed

text \<open>On a connection that kept its transaction every append fails, and changes nothing.\<close>

lemma append_within:
  assumes "sq_isTransaction db d"
  shows "\<exists>e. sqlite_append sp db d c v es = (Inl e, d) \<and> host_failure e"
  using begin_within [OF assms] by (auto simp: sqlite_append_def)

lemma append_rows:
  assumes "sqlite_good d" "events_ok es" "sqlite_append sp db d c v es = (Inr u, d')"
  shows "v = int (length (rows d c))" "numbered c v es" "list_all (storable sp) es"
    "rows d' e = (if e = c then rows d c @ map event_row es else rows d e)" "sqlite_good d'"
proof -
  obtain ts where ts: "serializeAppendBatch sp c v es = Inr ts"
    and out: "v = int (length (rows d c))" "\<not> sq_isTransaction db d'"
      "rows d' = (rows d)(c := rows d c @ batch_rows v ts)"
    using append_outcome [OF assms(1,3)] by auto
  note ser = ts [unfolded serialize_iff [OF assms(2)]]
  show v: "v = int (length (rows d c))" and n: "numbered c v es" and st: "list_all (storable sp) es"
    using out(1) ser by simp_all
  have rows': "rows d' e = (if e = c then rows d c @ map event_row es else rows d e)" for e
    using out(3) ser batch_event_rows [of c v es] by simp
  then show "rows d' e = (if e = c then rows d c @ map event_row es else rows d e)" .
  have "\<exists>fs. rows d' e = map event_row fs \<and> stored sp e fs" for e
  proof (cases "e = c")
    case True
    obtain old where old: "rows d c = map event_row old" "stored sp c old"
      using assms(1) by (auto simp: sqlite_good_def)
    have "stored sp c (old @ es)"
      using old v n st assms(2) by (simp add: stored_def numbered_append)
    moreover have "rows d' c = map event_row (old @ es)" using rows' old(1) by simp
    ultimately show ?thesis using True by blast
  next
    case False
    then show ?thesis using rows' assms(1) by (simp add: sqlite_good_def)
  qed
  then show "sqlite_good d'" using out(2) by (simp add: sqlite_good_def)
qed

lemma append_unchanged:
  assumes "sqlite_good d" "sqlite_append sp db d c v es = (Inl e, d')" "\<not> sq_isTransaction db d'"
  shows "rows d' = rows d" "sqlite_good d'" "table_load sp rows d' = table_load sp rows d"
    "host_failure e \<or> refused d c v es e"
  using append_outcome [OF assms(1,2)] assms(1,3) table_load_same [of rows d' d]
  by (auto simp: sqlite_good_def committed_rows_def rollback_lost_def)

end

lemma host_store_failure: "host_failure e \<Longrightarrow> store_failure e"
  by (cases e) simp_all

section \<open>A driver whose rollbacks work\<close>

text \<open>
  SQLite documents that \<open>ROLLBACK\<close> fails where the transaction was rolled back already; the store issues it
  only while one is open. Such a driver makes the store an \<open>event_store\<close>.
\<close>

locale settling_sqlite_driver = sqlite_driver db rows saved
  for db :: "('d, 'f) sqlite"
    and rows saved :: "'d \<Rightarrow> jstr \<Rightarrow> (int \<times> jstr) list" +
  assumes rollback_works: "sq_isTransaction db d \<Longrightarrow> fst (sq_rollback db d) = Inr ()"

locale settling_sqlite_store = sqlite_store sp db rows saved + settling_sqlite_driver db rows saved
  for sp :: "schema \<Rightarrow> zparser"
    and db :: "('d, 'f) sqlite"
    and rows saved :: "'d \<Rightarrow> jstr \<Rightarrow> (int \<times> jstr) list"
begin

lemma rollback_kept: "\<not> rollback_lost d' e"
  unfolding rollback_lost_def using rollback_works by (metis Inl_Inr_False fst_conv)

lemma append_settled: "sqlite_good d \<Longrightarrow> sqlite_append sp db d c v es = (r, d') \<Longrightarrow> \<not> sq_isTransaction db d'"
  using append_outcome [of d c v es r d'] rollback_kept by (cases r) auto

lemmas append_kept = append_unchanged [OF _ _ append_settled]

end

sublocale settling_sqlite_store < sqlite: event_store "table_load sp rows" "sqlite_append sp db" sqlite_good
proof
  fix d c
  assume "sqlite_good d"
  then obtain es where "rows d c = map event_row es" "stored sp c es" by (auto simp: sqlite_good_def)
  then show "\<exists>es. table_load sp rows d c = Inr es \<and> numbered c 0 es \<and> events_ok es"
    using load_rows by (auto simp: stored_def)
next
  fix d es c v u d' old
  assume good: "sqlite_good d" "events_ok es" "sqlite_append sp db d c v es = (Inr u, d')"
    and old: "table_load sp rows d c = Inr old"
  note a = append_rows [OF good] and o = good_rows [OF good(1) old]
  have "rows d' c = map event_row (old @ es)" using a(4) [of c] o(1) by simp
  moreover have "stored sp c (old @ es)"
    using a(1-3) o good(2) by (simp add: stored_def numbered_append)
  ultimately show "v = int (length old) \<and> numbered c v es \<and> table_load sp rows d' c = Inr (old @ es)"
    using load_rows a(1,2) o(1) by simp
next
  fix d c v es e d' old
  assume "sqlite_good d" "sqlite_append sp db d c v es = (Inl e, d')" "table_load sp rows d c = Inr old"
  then show "table_load sp rows d' c = Inr old \<or>
      host_failure e \<and> v = int (length old) \<and> numbered c v es \<and> table_load sp rows d' c = Inr (old @ es)"
    by (simp add: append_kept(3))
next
  fix d es v and x c :: jstr
  assume "sqlite_good d" "events_ok es" "x \<noteq> c"
  then show "table_load sp rows (snd (sqlite_append sp db d c v es)) x = table_load sp rows d x"
    using append_rows(4) [of d es c v "()" "snd (sqlite_append sp db d c v es)" x]
      append_kept(3) [of d c v es _ "snd (sqlite_append sp db d c v es)"]
    by (cases "sqlite_append sp db d c v es"; cases "fst (sqlite_append sp db d c v es)")
      (auto simp: table_load_def)
next
  fix d es v and c :: jstr
  assume "sqlite_good d" "events_ok es"
  then show "sqlite_good (snd (sqlite_append sp db d c v es))"
    by (cases "sqlite_append sp db d c v es"; cases "fst (sqlite_append sp db d c v es)")
      (auto dest: append_rows(5) append_kept(2))
next
  fix d old v es and c :: jstr
  assume good: "sqlite_good d" and old: "table_load sp rows d c = Inr old" and v: "v \<noteq> int (length old)"
  then show "\<exists>e. fst (sqlite_append sp db d c v es) = Inl e"
    using append_outcome [OF good, of c v es] good_rows(1) [OF good old]
    by (cases "sqlite_append sp db d c v es"; cases "fst (sqlite_append sp db d c v es)") auto
next
  fix d c old v es e
  assume good: "sqlite_good d" and old: "table_load sp rows d c = Inr old" and n: "numbered c v es"
    and e: "fst (sqlite_append sp db d c v es) = Inl e" "is_version_conflict e"
  obtain d' where "sqlite_append sp db d c v es = (Inl e, d')" using e(1) by (metis prod.collapse)
  from append_kept(4) [OF good this good this] have "refused d c v es e"
    using e(2) by (cases e) auto
  then show "v \<noteq> int (length old)"
    using good_rows(1) [OF good old] serialize_no_conflict [OF n] e(2)
    by (auto simp: refused_def Let_def split: if_splits)
next
  fix d c v es e
  assume good: "sqlite_good d" and e: "fst (sqlite_append sp db d c v es) = Inl e"
  obtain d' where "sqlite_append sp db d c v es = (Inl e, d')" using e by (metis prod.collapse)
  from append_kept(4) [OF good this good this] show "store_failure e"
    by (auto simp: refused_def Let_def host_store_failure dest: serialize_errors split: if_splits)
qed

text \<open>A driver whose statements never fail, as long as they violate no constraint of the table.\<close>

locale reliable_sqlite_driver = settling_sqlite_driver db rows saved
  for db :: "('d, 'f) sqlite"
    and rows saved :: "'d \<Rightarrow> jstr \<Rightarrow> (int \<times> jstr) list" +
  assumes begin_ok: "\<not> sq_isTransaction db d \<Longrightarrow> fst (sq_begin db d) = Inr ()"
    and max_ok: "\<exists>v. fst (sq_max db d c) = Inr v"
    and insert_ok: "sq_isTransaction db d \<Longrightarrow> 0 < v \<Longrightarrow> \<forall>(w, t) \<in> set (rows d c). w < v \<Longrightarrow>
      fst (sq_insert db d c v t) = Inr ()"
    and commit_ok: "sq_isTransaction db d \<Longrightarrow> fst (sq_commit db d) = Inr ()"
begin

lemma max_answer: "sq_max db d c = (Inr (Some (foldr (max \<circ> fst) (rows d c) 0)), d)"
  using max_ok [of d c] max_done [of d c] by (metis prod.collapse)

lemma inserts_ok:
  assumes "sq_isTransaction db d" "\<forall>(w, t) \<in> set (rows d c). w \<le> v + int k" "0 \<le> v"
  shows "fst (sqlite_inserts db c v (map (\<lambda>(t, i). (t, k + i)) (indexed ts)) d) = Inr ()"
  using assms
proof (induction ts arbitrary: k d)
  case (Cons t ts)
  have ix: "map (\<lambda>(t, i). (t, k + i)) (indexed (t # ts)) = (t, k) # map (\<lambda>(t, i). (t, Suc k + i)) (indexed ts)"
    by (simp add: indexed_Cons case_prod_unfold)
  have below: "\<forall>(w, t) \<in> set (rows d c). w < v + int k + 1" using Cons.prems(2) by auto
  have "fst (sq_insert db d c (v + int k + 1) t) = Inr ()"
    by (rule insert_ok [OF Cons.prems(1) _ below]) (use Cons.prems(3) in simp)
  then obtain d1 where ins: "sq_insert db d c (v + int k + 1) t = (Inr (), d1)" by (metis prod.collapse)
  note step = insert_done [OF Cons.prems(1) ins below]
  have "\<forall>(w, t) \<in> set (rows d1 c). w \<le> v + int (Suc k)"
    using step Cons.prems(2) by auto
  then show ?case unfolding ix using Cons.IH [of d1 "Suc k"] step ins Cons.prems(3) by simp
qed simp

end

locale reliable_sqlite_store = settling_sqlite_store sp db rows saved + reliable_sqlite_driver db rows saved
  for sp :: "schema \<Rightarrow> zparser"
    and db :: "('d, 'f) sqlite"
    and rows saved :: "'d \<Rightarrow> jstr \<Rightarrow> (int \<times> jstr) list"
begin

lemma append_ok:
  assumes good: "sqlite_good d" and ok: "events_ok es" and old: "table_load sp rows d c = Inr old"
    and v: "v = int (length old)" and n: "numbered c v es" and st: "list_all (storable sp) es"
  shows "fst (sqlite_append sp db d c v es) = Inr ()"
proof -
  have idle: "\<not> sq_isTransaction db d" using good by (simp add: sqlite_good_def)
  obtain d1 where beg: "sq_begin db d = (Inr (), d1)" using begin_ok [OF idle] by (metis prod.collapse)
  note same = begin_rows [OF idle beg] and tx = begin_done [OF idle beg]
  note o = good_rows [OF good old]
  have ser: "serializeAppendBatch sp c v es = Inr (map (stringify \<circ> event_json) es)"
    using serialize_iff [OF ok] n st by simp
  have "\<forall>(w, t) \<in> set (rows d1 c). w \<le> v + int 0"
    using o v same by (auto simp: stored_def numbered_def event_row_def in_set_conv_nth)
  note below = conjunct1 [OF tx] this
  let ?ts = "map (stringify \<circ> event_json) es"
  obtain d2 where ins: "sqlite_inserts db c v (map (\<lambda>(t, i). (t, 0 + i)) (indexed ?ts)) d1 = (Inr (), d2)"
    using inserts_ok [OF below, of ?ts] v by (metis of_nat_0_le_iff prod.collapse)
  have "sq_isTransaction db d2" using inserts_done [OF ins below] by simp
  then obtain d3 where "sq_commit db d2 = (Inr (), d3)" using commit_ok [of d2] by (metis prod.collapse)
  then have "sqlite_try sp db c v es d1 = (Inr (), d3)"
    using ins ser o(3) same v by (simp add: sqlite_try_def max_answer)
  then show ?thesis using beg by (simp add: sqlite_append_def)
qed

end

sublocale reliable_sqlite_store < reliable: reliable_event_store "table_load sp rows" "sqlite_append sp db"
    sqlite_good "storable sp"
  by unfold_locales (rule append_ok)

section \<open>What is left in a file\<close>

text \<open>
  \<open>file_of d\<close> is the file that the connection leaves if its process ends now, and \<open>content\<close> the rows of a file.
  A connection that is opened on the path of a file finds its rows, which are those the last one committed,
  whether that one was closed or not; not so where the path is no file, as \<open>:memory:\<close>.
\<close>

locale sqlite_disk = sqlite_driver db rows saved
  for db :: "('d, 'f) sqlite"
    and rows saved :: "'d \<Rightarrow> jstr \<Rightarrow> (int \<times> jstr) list" +
  fixes file_of :: "'d \<Rightarrow> 'f"
    and content :: "'f \<Rightarrow> jstr \<Rightarrow> (int \<times> jstr) list"
    and on_disk :: "jstr \<Rightarrow> bool"
  assumes file_content: "content (file_of d) = committed_rows db rows saved d"
    and close_file: "content (file_of (sq_close db d)) = content (file_of d)"
    and open_file: "on_disk path \<Longrightarrow> sq_open db files path ms = Inr d \<Longrightarrow>
      rows d = content (files path) \<and> \<not> sq_isTransaction db d"
    and pragma_keeps: "\<not> sq_isTransaction db d \<Longrightarrow> sq_pragma db d ms = (Inr u, d') \<Longrightarrow>
      rows d' = rows d \<and> \<not> sq_isTransaction db d'"
    and schema_keeps: "\<not> sq_isTransaction db d \<Longrightarrow> sq_schema db d = (Inr u, d') \<Longrightarrow>
      rows d' = rows d \<and> \<not> sq_isTransaction db d'"
begin

text \<open>What the constructor finds, and what is found of a connection that is gone, or was closed before.\<close>

lemma opened:
  assumes "fst (sqlite_open db files path option) = Inr d" "on_disk path"
  shows "rows d = content (files path) \<and> \<not> sq_isTransaction db d"
proof -
  obtain ms d0 d1 where "sq_open db files path ms = Inr d0" "sq_pragma db d0 ms = (Inr (), d1)" "sq_schema db d1 = (Inr (), d)"
    using assms(1) by (auto simp: sqlite_open_def split: sum.splits prod.splits)
  then show ?thesis using open_file [OF assms(2)] pragma_keeps schema_keeps by metis
qed

lemma left_behind:
  "content (file_of d) = committed_rows db rows saved d" "content (file_of (sqlite_close db d)) = committed_rows db rows saved d"
  by (rule file_content) (simp add: sqlite_close_def close_file, simp add: file_content)

end

section \<open>A table that is such a driver\<close>

text \<open>
  The table as this connection sees it, and what a rollback restores while a transaction is open; a file is
  a table.
  An insertion is refused at a version that is taken or not positive, as the constraints of the
  schema say.
\<close>

type_synonym table = "jstr \<Rightarrow> (int \<times> jstr) list"
type_synonym sqlite_table = "table \<times> table option"

definition sqlite_ref :: "(sqlite_table, table) sqlite" where
  "sqlite_ref =
     \<lparr>sq_select = \<lambda>(t, s) c. Inr (t c),
      sq_begin = \<lambda>(t, s). if s = None then (Inr (), (t, Some t)) else (Inl (HostError JNull), (t, s)),
      sq_max = \<lambda>(t, s) c. (Inr (Some (foldr (max \<circ> fst) (t c) 0)), (t, s)),
      sq_insert = \<lambda>(t, s) c v e.
        if v \<le> 0 \<or> v \<in> fst ` set (t c) then (Inl (HostError JNull), (t, s))
        else (Inr (), (t(c := insort_key fst (v, e) (t c)), s)),
      sq_commit = \<lambda>(t, s). (Inr (), (t, None)),
      sq_rollback = \<lambda>(t, s). (Inr (), (case s of Some u \<Rightarrow> u | None \<Rightarrow> t, None)),
      sq_isTransaction = \<lambda>(t, s). s \<noteq> None,
      sq_ping = \<lambda>_. Inr (),
      sq_open = \<lambda>files path ms. Inr (if path = js '':memory:'' then \<lambda>_. [] else files path, None),
      sq_pragma = \<lambda>d ms. (Inr (), d),
      sq_schema = \<lambda>d. (Inr (), d),
      sq_isOpen = \<lambda>_. True,
      sq_close = \<lambda>(t, s). (case s of Some u \<Rightarrow> u | None \<Rightarrow> t, None)\<rparr>"

definition table_saved :: "sqlite_table \<Rightarrow> table" where
  "table_saved = (\<lambda>(t, s). case s of Some u \<Rightarrow> u | None \<Rightarrow> t)"

lemma insort_key_last: "\<forall>(w, t) \<in> set xs. w < v \<Longrightarrow> insort_key fst (v, e) xs = xs @ [(v, e)]"
  by (induction xs) auto

lemma reference_driver: "reliable_sqlite_driver sqlite_ref fst table_saved"
  by unfold_locales
    (auto simp: sqlite_ref_def table_saved_def insort_key_last split: if_splits option.splits, fastforce)

interpretation sqlite_reference: reliable_sqlite_store zod_ref sqlite_ref fst table_saved
  using reference_driver zod_reference.zod_axioms
  by (simp add: reliable_sqlite_store_def settling_sqlite_store_def sqlite_store_def reliable_sqlite_driver_def
    settling_sqlite_driver_def)

interpretation sqlite_reference: sqlite_disk sqlite_ref fst table_saved table_saved "\<lambda>t. t" "\<lambda>path. path \<noteq> js '':memory:''"
  by unfold_locales
    (auto simp: sqlite_ref_def table_saved_def committed_rows_def split: option.splits simp del: js_simps)

lemma reference_load: "sqlite_load sp sqlite_ref = table_load sp fst"
  by (simp add: fun_eq_iff sqlite_load_def table_load_def sqlite_ref_def case_prod_unfold)

end
