(* ===== verification/StoreProperties.thy ===== *)
theory StoreProperties
  imports Scenario Outcomes SqliteEventStore
begin

text \<open>
  The properties of the durable event store over SQLite, for every driver that behaves as documented:
  an append is atomic whichever statement fails, the reads and the \<open>ROLLBACK\<close> included, a load never returns a
  damaged stream, and the store agrees with the in-memory store. Where rollbacks work, the service on top of
  it keeps its guarantees (theory ServerProperties).
\<close>

context sqlite_store
begin

lemma append_cases:
  assumes "sqlite_good d" "events_ok es" "table_load sp rows d c = Inr old"
  shows "case sqlite_append sp db d c v es of
      (Inr _, d') \<Rightarrow> v = int (length old) \<and> table_load sp rows d' c = Inr (old @ es) \<and> sqlite_good d' \<and>
        (\<forall>x. x \<noteq> c \<longrightarrow> table_load sp rows d' x = table_load sp rows d x)
    | (Inl e, d') \<Rightarrow> committed_rows db rows saved d' = rows d \<and>
        (sqlite_good d' \<and> (host_failure e \<or> refused d c v es e) \<or>
         rollback_lost d' e \<and> (\<forall>x w fs. \<exists>e'. sqlite_append sp db d' x w fs = (Inl e', d') \<and> host_failure e'))"
proof (cases "sqlite_append sp db d c v es")
  case (Pair r d')
  show ?thesis
  proof (cases r)
    case (Inl e)
    have "sqlite_good d'" if "\<not> sq_isTransaction db d'"
      by (rule append_unchanged(2) [OF assms(1) Pair [unfolded Inl] that])
    then show ?thesis
      using append_outcome [OF assms(1) Pair] Inl Pair append_within by (auto simp: rollback_lost_def)
  next
    case (Inr u)
    note new = append_rows [OF assms(1,2) Pair [unfolded Inr]] and old = good_rows [OF assms(1,3)]
    have "stored sp c (old @ es)" "rows d' c = map event_row (old @ es)"
      using new(1-3) new(4) [of c] old assms(2) by (simp_all add: stored_def numbered_append)
    then have "table_load sp rows d' c = Inr (old @ es)" by (rule load_rows [rotated])
    moreover have "table_load sp rows d' x = table_load sp rows d x" if "x \<noteq> c" for x
      using new(4) [of x] that by (simp add: table_load_def)
    moreover have "v = int (length old)" using new(1) old(1) by simp
    ultimately show ?thesis using new(5) Pair Inr by simp
  qed
qed

lemma batch_rows_Nil [simp]: "batch_rows v [] = []"
  by (simp add: batch_rows_def)

text \<open>The in-memory streams are the texts of the table.\<close>

definition agrees :: "in_memory \<Rightarrow> (jstr \<Rightarrow> (int \<times> jstr) list) \<Rightarrow> bool" where
  "agrees m t \<longleftrightarrow> (\<forall>c. texts m c = map snd (t c))"

lemma batch_texts: "map snd (batch_rows v ts) = ts"
  by (simp add: batch_rows_def case_prod_unfold comp_def)

lemma append_agrees:
  assumes good: "sqlite_good d" and agree: "agrees m (rows d)"
    and sq: "sqlite_append sp db d c v es = (r, d')" and im: "in_memory_append sp m c v es = (q, m')"
  shows "(r = q \<and> agrees m' (committed_rows db rows saved d')) \<or>
    (\<exists>e. r = Inl e \<and> host_failure e \<and> agrees m (committed_rows db rows saved d'))"
proof -
  have len: "length (texts m c) = length (rows d c)" using agree by (simp add: agrees_def)
  note out = append_outcome [OF good sq]
  show ?thesis
  proof (cases r)
    case (Inl e)
    then have "committed_rows db rows saved d' = rows d" "host_failure e \<or> refused d c v es e"
      using out by (auto simp: rollback_lost_def)
    then show ?thesis
      using agree im len Inl
      by (auto simp: refused_def in_memory_append_def agrees_def Let_def split: if_splits)
  next
    case (Inr u)
    then obtain ts where "serializeAppendBatch sp c v es = Inr ts" "v = int (length (rows d c))"
        "rows d' = (rows d)(c := rows d c @ batch_rows v ts)" "\<not> sq_isTransaction db d'"
      using out by auto
    then show ?thesis
      using agree im len Inr
      by (cases ts) (auto simp: in_memory_append_def agrees_def batch_texts committed_rows_def)
  qed
qed

lemma load_agrees:
  assumes good: "sqlite_good d" and agree: "agrees m (rows d)"
  shows "sqlite_load sp db d c = in_memory_load sp m c \<or> (\<exists>e. sqlite_load sp db d c = Inl e \<and> host_failure e)"
proof -
  obtain es where es: "rows d c = map event_row es" "stored sp c es"
    using good by (auto simp: sqlite_good_def)
  then have "texts m c = map (stringify \<circ> event_json) es"
    using agree by (simp add: agrees_def event_row_def)
  then show ?thesis using load_answer [of d c] load_rows [OF es] load_texts es(2) by simp
qed

end

section \<open>The scenario on the reference table\<close>

abbreviation empty_table :: sqlite_table where
  "empty_table \<equiv> (\<lambda>_. [], None)"

lemma empty_table_good: "sqlite_reference.sqlite_good empty_table"
proof -
  have "\<not> sq_isTransaction sqlite_ref empty_table" by (simp add: sqlite_ref_def)
  then show ?thesis by (auto simp: sqlite_reference.sqlite_good_def stored_def)
qed

lemma empty_table_load:
  "table_load zod_ref fst empty_table c = Inr []" "sqlite_load zod_ref sqlite_ref empty_table c = Inr []"
  by (simp_all add: table_load_def sqlite_load_def sqlite_ref_def)

interpretation sqlite_run: scenario "table_load zod_ref fst" "sqlite_append zod_ref sqlite_ref"
  "sqlite_reference.sqlite_good" "storable zod_ref" empty_table
  by unfold_locales (simp_all add: empty_table_good empty_table_load)

lemma reference_store: "sqlite_store zod_ref sqlite_ref fst table_saved"
  by (rule sqlite_reference.sqlite_store_axioms)

text \<open>A driver for which neither the reads nor the rollback work.\<close>

definition broken_ref :: "(sqlite_table, table) sqlite" where
  "broken_ref = sqlite_ref\<lparr>sq_select := (\<lambda>d c. Inl (HostError JNull)), sq_max := (\<lambda>d c. (Inl (HostError JNull), d)),
     sq_rollback := (\<lambda>d. (Inl (HostError JNull), d))\<rparr>"

lemma broken_driver: "sqlite_driver broken_ref fst table_saved"
  by unfold_locales
    (auto simp: broken_ref_def sqlite_ref_def table_saved_def insort_key_last split: if_splits option.splits)

lemma broken_store: "sqlite_store zod_ref broken_ref fst table_saved"
  using broken_driver zod_reference.zod_axioms by (simp add: sqlite_store_def)

section \<open>Properties\<close>

text \<open>
  Whatever rows a database holds, a load that succeeds returns a gapless stream: the events are
  numbered from one and all belong to the continuation; a damaged table is an error.
\<close>

theorem sqlite_load_never_damaged:
  assumes "sqlite_load sp db d c = Inr es"
  shows "numbered c 0 es"
  by (rule sqlite_load_numbered [OF assms])

theorem sqlite_load_never_damaged_witness: "numbered (js ''c1'') 0 []"
  by (rule sqlite_load_never_damaged [OF empty_table_load(2)])

text \<open>
  C11 An append to the SQLite store is atomic and compare-and-swap, whichever statement of its
  transaction fails, \<open>SELECT\<close> and \<open>ROLLBACK\<close> included: it succeeds only at the version of the stream and then
  adds exactly the batch; otherwise the database holds what it held before, and the error is the driver's,
  the version conflict, or the refusal of the batch. A transaction stays open only if the \<open>ROLLBACK\<close> failed,
  whose error is reported then, and every later append on that connection fails and changes nothing.
\<close>

theorem sqlite_append_atomic:
  assumes "sqlite_store sp db rows saved" "sqlite_store.sqlite_good sp db rows d" "events_ok es"
    and "table_load sp rows d c = Inr old"
  shows "case sqlite_append sp db d c v es of
      (Inr _, d') \<Rightarrow> v = int (length old) \<and> table_load sp rows d' c = Inr (old @ es) \<and>
        sqlite_store.sqlite_good sp db rows d' \<and>
        (\<forall>x. x \<noteq> c \<longrightarrow> table_load sp rows d' x = table_load sp rows d x)
    | (Inl e, d') \<Rightarrow> committed_rows db rows saved d' = rows d \<and>
        (sqlite_store.sqlite_good sp db rows d' \<and> (host_failure e \<or> sqlite_store.refused sp rows d c v es e) \<or>
         sqlite_store.rollback_lost db d' e \<and>
           (\<forall>x w fs. \<exists>e'. sqlite_append sp db d' x w fs = (Inl e', d') \<and> host_failure e'))"
  by (rule sqlite_store.append_cases [OF assms])

text \<open>The append fails at its first read, and so does its rollback: nothing is added, and the connection is stuck.\<close>

theorem sqlite_append_atomic_witness:
  "committed_rows broken_ref fst table_saved (snd (sqlite_append zod_ref broken_ref empty_table (js ''c1'') 0 [])) = (\<lambda>_. []) \<and>
    sq_isTransaction broken_ref (snd (sqlite_append zod_ref broken_ref empty_table (js ''c1'') 0 []))"
proof -
  have "sqlite_store.sqlite_good zod_ref broken_ref fst empty_table"
    unfolding sqlite_store.sqlite_good_def [OF broken_store]
    by (auto simp: broken_ref_def sqlite_ref_def stored_def)
  from sqlite_append_atomic [OF broken_store this _ empty_table_load(1), of "[]" "js ''c1''" 0]
  show ?thesis
    by (simp add: broken_ref_def sqlite_ref_def sqlite_append_def sqlite_try_def)
qed

text \<open>
  C12 The two event stores agree: over equal streams an append has the same result, error included,
  on the SQLite store as on the in-memory store, and leaves equal streams in the database; the only
  difference is a failure of the driver, of any statement, which leaves the database as it was. Loads agree
  as well, unless the driver fails.
\<close>

theorem stores_agree:
  assumes "sqlite_store sp db rows saved" "sqlite_store.sqlite_good sp db rows d"
    and "\<forall>c. texts m c = map snd (rows d c)"
    and "sqlite_append sp db d c v es = (r, d')" "in_memory_append sp m c v es = (q, m')"
  shows "(sqlite_load sp db d x = in_memory_load sp m x \<or> (\<exists>e. sqlite_load sp db d x = Inl e \<and> host_failure e)) \<and>
    ((r = q \<and> (\<forall>c. texts m' c = map snd (committed_rows db rows saved d' c))) \<or>
     (\<exists>e. r = Inl e \<and> host_failure e \<and> (\<forall>c. texts m c = map snd (committed_rows db rows saved d' c))))"
proof -
  note agrees_def = sqlite_store.agrees_def [OF assms(1)]
  have agree: "sqlite_store.agrees m (rows d)" using assms(3) by (simp add: agrees_def)
  show ?thesis
    using sqlite_store.load_agrees [OF assms(1,2) agree, of x]
      sqlite_store.append_agrees [OF assms(1,2) agree assms(4,5)]
    by (simp add: agrees_def)
qed

theorem stores_agree_witness:
  "fst (sqlite_append zod_ref sqlite_ref empty_table (js ''c1'') 0 [created_event]) =
    fst (in_memory_append zod_ref Map.empty (js ''c1'') 0 [created_event])"
proof -
  obtain r d' q m' where ap: "sqlite_append zod_ref sqlite_ref empty_table (js ''c1'') 0 [created_event] = (r, d')"
      "in_memory_append zod_ref Map.empty (js ''c1'') 0 [created_event] = (q, m')"
    by (metis prod.collapse)
  have "r = Inr ()"
    using sqlite_reference.reliable.append_accepted [OF empty_table_good _ empty_table_load(1), of "[created_event]" 0 "js ''c1''"]
      created_storable ap(1) by (simp add: created_event_def)
  then show ?thesis
    using stores_agree [OF reference_store empty_table_good _ ap] ap by simp
qed

end
