(* ===== verification/Protocol.thy ===== *)
theory Protocol
  imports EventSerialization
begin

text \<open>
  What the protocol adapters share: the error they throw (\<open>src/adapters/protocol-error.ts\<close>), the
  schema of opaque protocol ids, which every adapter declares, and object literals.

  A value from outside is a \<open>zvalue\<close>: a JSON value, or \<open>None\<close> for \<open>undefined\<close>. What \<open>safeParse\<close>
  makes of it is the parameter \<open>sp\<close> of theory Zod.
\<close>

datatype protocol_error_code =
    INVALID_PROTOCOL_BINDING
  | INVALID_PROTOCOL_MESSAGE
  | INVALID_PROTOCOL_TRANSITION
  | UNSUPPORTED_PROTOCOL_CAPABILITY

datatype protocol_error = ProtocolAdapterError (pe_code: protocol_error_code) (pe_message: jstr)

text \<open>An object literal, and the members of a literal that are not \<open>undefined\<close>.\<close>

definition obj :: "(string \<times> json) list \<Rightarrow> json" where
  "obj fs = JObj (map (\<lambda>(k, v). (js k, v)) fs)"

fun present :: "(string \<times> json option) list \<Rightarrow> (string \<times> json) list" where
  "present [] = []"
| "present ((k, None) # fs) = present fs"
| "present ((k, Some v) # fs) = (k, v) # present fs"

lemma present_keys: "fst ` set (present fs) \<subseteq> fst ` set fs"
  by (induction fs rule: present.induct) auto

lemma Some_map_option: "Some x = map_option f y \<longleftrightarrow> (\<exists>z. y = Some z \<and> x = f z)"
  by (cases y) auto

lemma present_mem: "(k, v) \<in> set (present fs) \<Longrightarrow> (k, Some v) \<in> set fs"
  by (induction fs rule: present.induct) auto

lemma distinct_present: "distinct (map fst fs) \<Longrightarrow> distinct (map fst (present fs))"
proof (induction fs rule: present.induct)
  case (3 k v fs)
  then show ?case using subsetD [OF present_keys, of k fs] by auto
qed simp_all

lemma map_of_present:
  "distinct (map fst fs) \<Longrightarrow> map_of (present fs) k = (case map_of fs k of Some v \<Rightarrow> v | None \<Rightarrow> None)"
proof (induction fs rule: present.induct)
  case (2 l fs)
  then have "map_of fs l = None" by (simp add: map_of_eq_None_iff)
  then show ?case using 2 by auto
qed auto

text \<open>\<open>schema.safeParse(value)\<close>: the data, or the error the caller throws instead.\<close>

definition parse_or :: "(schema \<Rightarrow> zparser) \<Rightarrow> schema \<Rightarrow> zvalue \<Rightarrow> 'e \<Rightarrow> ('e, json) result" where
  "parse_or sp s v e = (case sp s v of Some (Some d) \<Rightarrow> Inr d | _ \<Rightarrow> Inl e)"

definition accepts :: "(schema \<Rightarrow> zparser) \<Rightarrow> schema \<Rightarrow> zvalue \<Rightarrow> bool" where
  "accepts sp s v \<longleftrightarrow> sp s v \<noteq> None"

text \<open>The check every adapter refines its ids with.\<close>

definition no_edge_space :: "jstr \<Rightarrow> bool" where
  "no_edge_space value \<longleftrightarrow> 0 < length (trim value) \<and> value = trim value"

definition OpaqueProtocolIdSchema :: schema where
  "OpaqueProtocolIdSchema = ZString [MinLength 1, StrCheck no_edge_space]"

text \<open>What the schema accepts: strings that are neither empty nor begin or end with white space.\<close>

definition opaque_id :: "jstr \<Rightarrow> bool" where
  "opaque_id s \<longleftrightarrow> s \<noteq> [] \<and> \<not> is_space (hd s) \<and> \<not> is_space (last s)"

lemma no_edge_space_iff: "s \<noteq> [] \<Longrightarrow> no_edge_space s \<longleftrightarrow> opaque_id s"
  by (metis length_greater_0_conv no_edge_space_def opaque_id_def trim_id_iff)

lemma opaque_id_Nil [simp]: "\<not> opaque_id []"
  by (simp add: opaque_id_def)

lemma map_of_js [simp]: "map_of (map (\<lambda>(k, v). (js k, v)) fs) (js k) = map_of fs k"
  by (induction fs) (auto simp: js_inject)

lemma get_obj [simp]: "get k (obj fs) = map_of fs k"
  by (simp add: obj_def)

lemma obj_inject [simp]: "obj fs = obj gs \<longleftrightarrow> fs = gs"
proof -
  have "inj (\<lambda>(k, v). (js k, v :: json))" by (auto simp: inj_def js_inject)
  then show ?thesis by (simp add: obj_def inj_map_eq_map)
qed

lemma parse_or_eq:
  "parse_or sp s v e = Inr d \<longleftrightarrow> sp s v = Some (Some d)"
  "parse_or sp s v e = Inl e' \<longleftrightarrow> e' = e \<and> (\<nexists>d. sp s v = Some (Some d))"
  by (auto simp: parse_or_def split: option.splits)

lemma obj_fields [simp]:
  "str_field k (obj fs) = (case map_of fs k of Some (JStr s) \<Rightarrow> s | _ \<Rightarrow> [])"
  "opt_str_field k (obj fs) = (case map_of fs k of Some (JStr s) \<Rightarrow> Some s | _ \<Rightarrow> None)"
  by (simp_all add: str_field_def opt_str_field_def)

lemma plain_json_ok: "json_ok v \<Longrightarrow> plain_object (Some v)"
proof (cases v)
  case (JObj fs)
  assume "json_ok v"
  then have fs: "js_obj fs = fs" "\<forall>(k, v) \<in> set fs. k \<noteq> js ''__proto__''"
    using JObj by (auto simp: json_ok_obj list_all_iff)
  have "distinct (map fst fs)" using distinct_js_obj [of fs] fs(1) by simp
  then show ?thesis using JObj fs(2) by (auto simp: plain_object_def)
qed (simp_all add: plain_object_def)

text \<open>A JSON object with exactly these members, all of them opaque ids, in any order.\<close>

definition id_members :: "string list \<Rightarrow> json \<Rightarrow> bool" where
  "id_members ks v \<longleftrightarrow> (\<exists>fs. v = JObj fs \<and> fst ` set fs = js ` set ks \<and>
     (\<forall>k \<in> set ks. \<exists>s. get k v = Some (JStr s) \<and> opaque_id s))"

section \<open>The fields of a parsed object\<close>

lemma key_mem: "(k, v) \<in> set fs \<Longrightarrow> k \<in> fst ` set fs"
  by force

lemma fields_parse_ConsD:
  assumes "fields_parse ((k, p) # shape) fs = Some gs"
  obtains w hs where "p (map_of fs k) = Some w" "fields_parse shape fs = Some hs"
    "gs = (case w of None \<Rightarrow> hs | Some v \<Rightarrow> (k, v) # hs)"
proof (cases "p (map_of fs k)")
  case (Some w)
  then show thesis using assms that by (cases w) auto
qed (use assms in simp)

lemma fields_parse_keys:
  "fields_parse shape fs = Some gs \<Longrightarrow> fst ` set gs \<subseteq> fst ` set shape"
proof (induction shape arbitrary: gs)
  case (Cons f shape)
  obtain k p where f: "f = (k, p)" by (cases f)
  obtain w hs where "fields_parse shape fs = Some hs" "gs = (case w of None \<Rightarrow> hs | Some v \<Rightarrow> (k, v) # hs)"
    by (rule fields_parse_ConsD [OF Cons.prems [unfolded f]])
  then show ?case using Cons.IH [of hs] f by (cases w) auto
qed simp

lemma fields_parse_distinct:
  "fields_parse shape fs = Some gs \<Longrightarrow> distinct (map fst shape) \<Longrightarrow> distinct (map fst gs)"
proof (induction shape arbitrary: gs)
  case (Cons f shape)
  obtain k p where f: "f = (k, p)" by (cases f)
  obtain w hs where hs: "fields_parse shape fs = Some hs"
    and gs: "gs = (case w of None \<Rightarrow> hs | Some v \<Rightarrow> (k, v) # hs)"
    by (rule fields_parse_ConsD [OF Cons.prems(1) [unfolded f]])
  have "distinct (map fst hs)" "k \<notin> fst ` set hs"
    using Cons.IH [OF hs] Cons.prems(2) fields_parse_keys [OF hs] f by auto
  then show ?case using gs by (cases w) simp_all
qed simp

lemma fields_parse_field:
  "fields_parse shape fs = Some gs \<Longrightarrow> distinct (map fst shape) \<Longrightarrow> map_of shape k = Some p \<Longrightarrow>
    p (map_of fs k) = Some (map_of gs k)"
proof (induction shape arbitrary: gs)
  case (Cons f shape)
  obtain l q where f: "f = (l, q)" by (cases f)
  obtain w hs where w: "q (map_of fs l) = Some w" and hs: "fields_parse shape fs = Some hs"
    and gs: "gs = (case w of None \<Rightarrow> hs | Some v \<Rightarrow> (l, v) # hs)"
    by (rule fields_parse_ConsD [OF Cons.prems(1) [unfolded f]])
  have fresh: "l \<notin> fst ` set shape" "distinct (map fst shape)" using Cons.prems(2) f by auto
  have "l \<notin> fst ` set hs" using fields_parse_keys [OF hs] fresh(1) by blast
  then have l: "map_of gs l = w" using gs by (cases w) (simp_all add: map_of_eq_None_iff)
  have other: "map_of gs k' = map_of hs k'" if "k' \<noteq> l" for k'
    using gs that by (cases w) simp_all
  show ?case
  proof (cases "k = l")
    case True
    then show ?thesis using Cons.prems(3) f w l by simp
  next
    case False
    then show ?thesis using Cons.IH [OF hs fresh(2)] Cons.prems(3) f other by simp
  qed
qed simp

lemma fields_parse_None: "fields_parse shape fs = None \<longleftrightarrow> (\<exists>(k, p) \<in> set shape. p (map_of fs k) = None)"
  by (induction shape) (auto split: option.splits)

lemma extra_fields_Nil: "extra_fields shape fs = [] \<longleftrightarrow> fst ` set fs \<subseteq> set (map fst shape)"
  by (force simp: extra_fields_def filter_empty_conv)

lemma map_of_extra_fields: "k \<in> fst ` set shape \<Longrightarrow> map_of (extra_fields shape fs) k = None"
  by (auto simp: extra_fields_def map_of_eq_None_iff dest: key_mem)

lemma distinct_extra_fields:
  assumes "distinct (map fst fs)" "distinct (map fst gs)" "fst ` set gs \<subseteq> fst ` set shape"
  shows "distinct (map fst (gs @ extra_fields shape fs))"
proof -
  have "fst ` set (extra_fields shape fs) \<inter> fst ` set shape = {}"
    by (force simp: extra_fields_def)
  then have "fst ` set gs \<inter> fst ` set (extra_fields shape fs) = {}" using assms(3) by blast
  moreover have "distinct (map fst (extra_fields shape fs))"
    unfolding extra_fields_def by (rule distinct_map_filter [OF assms(1)])
  ultimately show ?thesis using assms(2) by simp
qed

context zod
begin

lemma shape_keys: "map fst (map (map_prod id sp) shape) = map fst shape"
  by simp

text \<open>A parsed object holds, under each declared name, what the schema of that name makes of the input.\<close>

lemma parsed_field:
  assumes "plain_object (Some w)" "distinct (map fst shape)"
    and parse: "sp (ZObject m shape) (Some w) = Some (Some d)"
    and field: "map_of shape (js k) = Some s"
  shows "sp s (get k w) = Some (get k d)"
proof -
  define ps where "ps = map (map_prod id sp) shape"
  have ps: "map_of ps (js k) = Some (sp s)" "map fst ps = map fst shape"
    using field map_of_map [of sp shape] by (simp_all add: ps_def map_prod_def case_prod_unfold)
  obtain fs where fs: "w = JObj fs"
    using parse object [OF assms(1), of m shape] by (cases w) (simp_all add: object_parse_def)
  obtain gs where gs: "fields_parse ps fs = Some gs"
    and d: "d = JObj (if m = Passthrough then js_obj (gs @ extra_fields ps fs) else gs)"
    using parse fs object [OF assms(1), of m shape]
    by (cases "fields_parse ps fs") (simp_all add: object_parse_def ps_def split: if_splits)
  have dist: "distinct (map fst fs)" using assms(1) fs by (simp add: plain_object_def)
  have "distinct (map fst gs)" using fields_parse_distinct [OF gs] ps(2) assms(2) by simp
  then have all: "distinct (map fst (gs @ extra_fields ps fs))"
    using distinct_extra_fields dist fields_parse_keys [OF gs] by blast
  have "js k \<in> fst ` set ps" using map_of_SomeD [OF ps(1)] by force
  then have "map_of (gs @ extra_fields ps fs) (js k) = map_of gs (js k)"
    by (simp add: map_add_def map_of_extra_fields split: option.split)
  then have "get k d = map_of gs (js k)"
    using d map_of_js_obj [OF all] by simp
  then show ?thesis
    using fields_parse_field [OF gs _ ps(1)] ps(2) assms(2) fs by simp
qed

lemma object_accepts:
  assumes "plain_object (Some v)"
  shows "(\<exists>d. sp (ZObject m shape) (Some v) = Some (Some d)) \<longleftrightarrow>
    (\<exists>fs. v = JObj fs \<and> (\<forall>(k, s) \<in> set shape. sp s (map_of fs k) \<noteq> None) \<and>
      (m = Strict \<longrightarrow> fst ` set fs \<subseteq> set (map fst shape)))"
proof (cases v)
  case (JObj fs)
  define ps where "ps = map (map_prod id sp) shape"
  have "fields_parse ps fs = None \<longleftrightarrow> (\<exists>(k, s) \<in> set shape. sp s (map_of fs k) = None)"
    by (simp add: fields_parse_None ps_def case_prod_unfold)
  then have none: "(\<exists>gs. fields_parse ps fs = Some gs) \<longleftrightarrow> (\<forall>(k, s) \<in> set shape. sp s (map_of fs k) \<noteq> None)"
    by (cases "fields_parse ps fs") (auto simp: case_prod_unfold)
  have extra: "extra_fields ps fs = [] \<longleftrightarrow> fst ` set fs \<subseteq> set (map fst shape)"
    by (simp only: extra_fields_Nil ps_def shape_keys)
  have "sp (ZObject m shape) (Some v) = object_parse m ps (Some (JObj fs))"
    using object [OF assms] JObj ps_def by simp
  also have "(\<exists>d. object_parse m ps (Some (JObj fs)) = Some (Some d)) \<longleftrightarrow>
      (m = Strict \<longrightarrow> extra_fields ps fs = []) \<and> (\<exists>gs. fields_parse ps fs = Some gs)"
    by (cases "fields_parse ps fs") (simp_all add: object_parse_def)
  finally show ?thesis unfolding none extra JObj by (simp add: conj_commute)
qed (use object [OF assms, of m shape] in \<open>simp_all add: object_parse_def\<close>)

lemma object_data: "plain_object v \<Longrightarrow> sp (ZObject m shape) v = Some r \<Longrightarrow> \<exists>d. r = Some d"
  using object [of v m shape] by (auto simp: object_parse_def split: option.splits json.splits if_splits)

end

context zod
begin

lemma opaque_parse [simp]:
  "sp OpaqueProtocolIdSchema (Some (JStr s)) = (if opaque_id s then Some (Some (JStr s)) else None)"
  "sp OpaqueProtocolIdSchema v = Some r \<longleftrightarrow> (\<exists>s. v = Some (JStr s) \<and> opaque_id s \<and> r = v)"
  by (cases "s = []"; simp add: OpaqueProtocolIdSchema_def string string_parse_def no_edge_space_iff)
    (auto simp: OpaqueProtocolIdSchema_def string string_parse_def no_edge_space_iff Suc_le_eq
      split: option.splits json.splits if_splits)

lemma opaque_accepts [simp]: "accepts sp OpaqueProtocolIdSchema (Some (JStr s)) \<longleftrightarrow> opaque_id s"
  by (simp add: accepts_def del: opaque_parse(2))

end

end
