(* ===== verification/A2A.thy ===== *)
theory A2A
  imports Protocol
begin

text \<open>
  \<open>src/adapters/a2a/task.ts\<close>: the projection of a pending continuation to an interrupted A2A task,
  and of an answer to a message for that task. The lemmas characterise when each projection
  succeeds and what it then contains.
\<close>

section \<open>Schemas\<close>

definition ContinuationPayloadSchema :: schema where
  "ContinuationPayloadSchema = ZObject Passthrough
     [(js ''kind'', ZDefault (ZEnum [js ''input'', js ''authorization'']) (JStr (js ''input''))),
      (js ''message'', ZString [MinLength 1])]"

definition A2AServerTaskBindingSchema :: schema where
  "A2AServerTaskBindingSchema = ZObject Strict
     [(js ''contextId'', OpaqueProtocolIdSchema), (js ''taskId'', OpaqueProtocolIdSchema)]"

section \<open>Guards\<close>

definition requirePending :: "(schema \<Rightarrow> zparser) \<Rightarrow> envelope \<Rightarrow> (protocol_error, unit) result" where
  "requirePending sp continuation =
     bindR (guardR (env_status continuation = StPending)
       (ProtocolAdapterError INVALID_PROTOCOL_TRANSITION
         (js ''Cannot use a '' @ status_str (env_status continuation) @
          js '' continuation for an A2A interruption''))) (\<lambda>_.
     guardR (\<not> (\<not> accepts sp OpaqueProtocolIdSchema (Some (JStr (env_continuationId continuation))) \<or>
         \<not> accepts sp (ZIsoDatetime True) (Some (JStr (env_createdAt continuation))) \<or>
         \<not> accepts sp (ZIsoDatetime True) (Some (JStr (env_expiresAt continuation)))))
       (ProtocolAdapterError INVALID_PROTOCOL_MESSAGE
         (js ''Continuation identifiers or timestamps cannot be projected to A2A'')))"

definition requireBinding :: "(schema \<Rightarrow> zparser) \<Rightarrow> envelope \<Rightarrow> zvalue \<Rightarrow> (protocol_error, json) result" where
  "requireBinding sp continuation rawBinding =
     bindR (parse_or sp A2AServerTaskBindingSchema rawBinding
       (ProtocolAdapterError INVALID_PROTOCOL_BINDING (js ''A2A task binding is not protocol-valid''))) (\<lambda>binding.
     bindR (guardR (str_field ''contextId'' binding = env_correlationId continuation)
       (ProtocolAdapterError INVALID_PROTOCOL_BINDING
         (js ''A2A task binding context does not match the continuation correlation ID''))) (\<lambda>_.
     Inr binding))"

section \<open>Projections\<close>

definition toA2AInterruptedTask ::
    "(schema \<Rightarrow> zparser) \<Rightarrow> envelope \<Rightarrow> zvalue \<Rightarrow> (protocol_error, json) result" where
  "toA2AInterruptedTask sp continuation rawBinding =
     bindR (requirePending sp continuation) (\<lambda>_.
     bindR (parse_or sp ContinuationPayloadSchema (Some (env_payload continuation))
       (ProtocolAdapterError INVALID_PROTOCOL_MESSAGE
         (js ''Continuation payload cannot be projected as an A2A task status''))) (\<lambda>payload.
     bindR (requireBinding sp continuation rawBinding) (\<lambda>binding.
     Inr (obj [(''task'', obj
       [(''id'', json_field ''taskId'' binding),
        (''contextId'', json_field ''contextId'' binding),
        (''status'', obj
          [(''state'', JStr (if get ''kind'' payload = Some (JStr (js ''authorization''))
              then js ''TASK_STATE_AUTH_REQUIRED'' else js ''TASK_STATE_INPUT_REQUIRED'')),
           (''message'', obj
             [(''role'', JStr (js ''ROLE_AGENT'')),
              (''messageId'', JStr (env_continuationId continuation)),
              (''contextId'', json_field ''contextId'' binding),
              (''taskId'', json_field ''taskId'' binding),
              (''parts'', JArr [obj [(''text'', json_field ''message'' payload)]])]),
           (''timestamp'', JStr (env_createdAt continuation))]),
        (''metadata'', obj
          [(''pausemesh'', obj
             [(''continuationId'', JStr (env_continuationId continuation)),
              (''expiresAt'', JStr (env_expiresAt continuation)),
              (''schemaVersion'', JInt 1)])])])]))))"

text \<open>The message both answers send, with the data of its only part.\<close>

definition a2a_message :: "envelope \<Rightarrow> json \<Rightarrow> json \<Rightarrow> json \<Rightarrow> json" where
  "a2a_message continuation binding messageId data = obj [(''message'', obj
     [(''taskId'', json_field ''taskId'' binding),
      (''contextId'', json_field ''contextId'' binding),
      (''role'', JStr (js ''ROLE_USER'')),
      (''messageId'', messageId),
      (''parts'', JArr [obj [(''data'', data)]]),
      (''metadata'', obj
        [(''pausemesh'', obj
           [(''continuationId'', JStr (env_continuationId continuation)),
            (''schemaVersion'', JInt 1)])])])]"

definition toA2AInputMessage ::
    "(schema \<Rightarrow> zparser) \<Rightarrow> envelope \<Rightarrow> zvalue \<Rightarrow> zvalue \<Rightarrow> zvalue \<Rightarrow> (protocol_error, json) result" where
  "toA2AInputMessage sp continuation rawBinding response rawMessageId =
     bindR (requirePending sp continuation) (\<lambda>_.
     bindR (parse_or sp ContinuationPayloadSchema (Some (env_payload continuation))
       (ProtocolAdapterError INVALID_PROTOCOL_MESSAGE
         (js ''Continuation payload cannot be projected as an A2A message''))) (\<lambda>payload.
     bindR (guardR (get ''kind'' payload \<noteq> Some (JStr (js ''authorization'')))
       (ProtocolAdapterError INVALID_PROTOCOL_TRANSITION
         (js ''A2A authorization credentials must be delivered out of band''))) (\<lambda>_.
     bindR (requireBinding sp continuation rawBinding) (\<lambda>binding.
     let invalid = ProtocolAdapterError INVALID_PROTOCOL_MESSAGE (js ''A2A input message is not protocol-valid'')
     in bindR (parse_or sp OpaqueProtocolIdSchema rawMessageId invalid) (\<lambda>messageId.
        bindR (parse_or sp ZJson response invalid) (\<lambda>parsedResponse.
        Inr (a2a_message continuation binding messageId parsedResponse)))))))"

definition toA2AAuthorizationControlMessage ::
    "(schema \<Rightarrow> zparser) \<Rightarrow> envelope \<Rightarrow> zvalue \<Rightarrow> zvalue \<Rightarrow> zvalue \<Rightarrow> (protocol_error, json) result" where
  "toA2AAuthorizationControlMessage sp continuation rawBinding action rawMessageId =
     bindR (requirePending sp continuation) (\<lambda>_.
     let invalid = ProtocolAdapterError INVALID_PROTOCOL_TRANSITION
           (js ''A2A authorization control requires an authorization continuation'')
     in
     bindR (parse_or sp ContinuationPayloadSchema (Some (env_payload continuation)) invalid) (\<lambda>payload.
     bindR (guardR (get ''kind'' payload = Some (JStr (js ''authorization''))) invalid) (\<lambda>_.
     let invalid = ProtocolAdapterError INVALID_PROTOCOL_MESSAGE
           (js ''A2A authorization control message is not protocol-valid'')
     in
     bindR (parse_or sp (ZEnum [js ''reject'', js ''retry'']) action invalid) (\<lambda>parsedAction.
     bindR (parse_or sp OpaqueProtocolIdSchema rawMessageId invalid) (\<lambda>messageId.
     bindR (requireBinding sp continuation rawBinding) (\<lambda>binding.
     Inr (a2a_message continuation binding messageId (obj [(''action'', parsedAction)]))))))))"

section \<open>What the projections accept\<close>

text \<open>The kind and the message of a payload the adapter can project.\<close>

definition payload_message :: "json \<Rightarrow> jstr \<Rightarrow> jstr \<Rightarrow> bool" where
  "payload_message p kind message \<longleftrightarrow>
     (\<exists>fs. p = JObj fs) \<and> get ''message'' p = Some (JStr message) \<and> message \<noteq> [] \<and>
     (get ''kind'' p = Some (JStr kind) \<and> kind \<in> {js ''input'', js ''authorization''} \<or>
      get ''kind'' p = None \<and> kind = js ''input'')"

text \<open>The binding of a task: the two ids, and nothing else.\<close>

definition task_binding :: "json \<Rightarrow> jstr \<Rightarrow> jstr \<Rightarrow> bool" where
  "task_binding b contextId taskId \<longleftrightarrow>
     id_members [''contextId'', ''taskId''] b \<and>
     get ''contextId'' b = Some (JStr contextId) \<and> get ''taskId'' b = Some (JStr taskId)"

definition projectable :: "(schema \<Rightarrow> zparser) \<Rightarrow> envelope \<Rightarrow> bool" where
  "projectable sp c \<longleftrightarrow>
     env_status c = StPending \<and> opaque_id (env_continuationId c) \<and>
     accepts sp (ZIsoDatetime True) (Some (JStr (env_createdAt c))) \<and>
     accepts sp (ZIsoDatetime True) (Some (JStr (env_expiresAt c)))"

text \<open>The task and the answer, from what they are built of.\<close>

definition a2a_task :: "envelope \<Rightarrow> jstr \<Rightarrow> jstr \<Rightarrow> jstr \<Rightarrow> json" where
  "a2a_task c taskId kind message =
     obj [(''task'', obj
       [(''id'', JStr taskId),
        (''contextId'', JStr (env_correlationId c)),
        (''status'', obj
          [(''state'', JStr (if kind = js ''authorization'' then js ''TASK_STATE_AUTH_REQUIRED''
              else js ''TASK_STATE_INPUT_REQUIRED'')),
           (''message'', obj
             [(''role'', JStr (js ''ROLE_AGENT'')), (''messageId'', JStr (env_continuationId c)),
              (''contextId'', JStr (env_correlationId c)), (''taskId'', JStr taskId),
              (''parts'', JArr [obj [(''text'', JStr message)]])]),
           (''timestamp'', JStr (env_createdAt c))]),
        (''metadata'', obj [(''pausemesh'', obj
           [(''continuationId'', JStr (env_continuationId c)), (''expiresAt'', JStr (env_expiresAt c)),
            (''schemaVersion'', JInt 1)])])])]"

definition a2a_answer :: "envelope \<Rightarrow> jstr \<Rightarrow> jstr \<Rightarrow> json \<Rightarrow> json" where
  "a2a_answer c taskId messageId data =
     obj [(''message'', obj
       [(''taskId'', JStr taskId), (''contextId'', JStr (env_correlationId c)),
        (''role'', JStr (js ''ROLE_USER'')), (''messageId'', JStr messageId),
        (''parts'', JArr [obj [(''data'', data)]]),
        (''metadata'', obj [(''pausemesh'', obj
           [(''continuationId'', JStr (env_continuationId c)), (''schemaVersion'', JInt 1)])])])]"

context zod
begin

lemma payload_parsed:
  assumes "json_ok p" "sp ContinuationPayloadSchema (Some p) = Some (Some d)"
  obtains kind message where "payload_message p kind message" "get ''kind'' d = Some (JStr kind)"
    "get ''message'' d = Some (JStr message)"
proof -
  note plain = plain_json_ok [OF assms(1)]
  note field = parsed_field [OF plain _ assms(2) [unfolded ContinuationPayloadSchema_def]]
  obtain fs where fs: "p = JObj fs"
    using assms(2) object [OF plain] by (cases p) (simp_all add: ContinuationPayloadSchema_def object_parse_def)
  have "sp (ZString [MinLength 1]) (get ''message'' p) = Some (get ''message'' d)"
    by (rule field) simp_all
  then obtain message where m: "get ''message'' p = Some (JStr message)"
      "get ''message'' d = Some (JStr message)" "message \<noteq> []"
    by (auto simp: string string_parse_def Suc_le_eq split: option.splits json.splits if_splits)
  have "sp (ZDefault (ZEnum [js ''input'', js ''authorization'']) (JStr (js ''input''))) (get ''kind'' p) =
      Some (get ''kind'' d)"
    by (rule field) simp_all
  then consider kind where "get ''kind'' p = Some (JStr kind)" "kind \<in> {js ''input'', js ''authorization''}"
      "get ''kind'' d = Some (JStr kind)"
    | "get ''kind'' p = None" "get ''kind'' d = Some (JStr (js ''input''))"
    by (auto simp: default default_parse_def enum enum_parse_def split: option.splits json.splits if_splits)
  then show thesis
    using that m fs by cases (auto simp: payload_message_def)
qed

lemma payload_parses:
  assumes "json_ok p" "payload_message p kind message"
  shows "\<exists>d. sp ContinuationPayloadSchema (Some p) = Some (Some d)"
proof -
  obtain fs where fs: "p = JObj fs" using assms(2) by (auto simp: payload_message_def)
  show ?thesis
    using assms(2) fs unfolding ContinuationPayloadSchema_def
    by (subst object_accepts [OF plain_json_ok [OF assms(1)]])
      (auto simp: payload_message_def string string_parse_def default default_parse_def enum enum_parse_def
        Suc_le_eq)
qed

lemma payload_message_unique:
  "payload_message p k m \<Longrightarrow> payload_message p k' m' \<Longrightarrow> k = k' \<and> m = m'"
  by (auto simp: payload_message_def)

lemma binding_parsed:
  assumes "json_ok b"
  shows "sp A2AServerTaskBindingSchema (Some b) = Some (Some d) \<Longrightarrow>
      \<exists>c t. task_binding b c t \<and> get ''contextId'' d = Some (JStr c) \<and> get ''taskId'' d = Some (JStr t)"
    "task_binding b c t \<Longrightarrow> \<exists>d. sp A2AServerTaskBindingSchema (Some b) = Some (Some d)"
proof -
  note plain = plain_json_ok [OF assms]
  note acc = object_accepts [OF plain, of Strict "[(js ''contextId'', OpaqueProtocolIdSchema),
    (js ''taskId'', OpaqueProtocolIdSchema)]", folded A2AServerTaskBindingSchema_def]
  {
    assume parse: "sp A2AServerTaskBindingSchema (Some b) = Some (Some d)"
    note field = parsed_field [OF plain _ parse [unfolded A2AServerTaskBindingSchema_def]]
    obtain fs where fs: "b = JObj fs" "fst ` set fs \<subseteq> js ` {''contextId'', ''taskId''}"
      using iffD1 [OF acc] parse by auto
    have "sp OpaqueProtocolIdSchema (get ''contextId'' b) = Some (get ''contextId'' d)"
      "sp OpaqueProtocolIdSchema (get ''taskId'' b) = Some (get ''taskId'' d)"
      by (rule field; simp)+
    then obtain c t where ct: "get ''contextId'' b = Some (JStr c)" "get ''contextId'' d = Some (JStr c)"
      "get ''taskId'' b = Some (JStr t)" "get ''taskId'' d = Some (JStr t)" "opaque_id c" "opaque_id t"
      by auto
    then have "js ''contextId'' \<in> fst ` set fs" "js ''taskId'' \<in> fst ` set fs"
      using fs(1) by (force dest: map_of_SomeD)+
    then show "\<exists>c t. task_binding b c t \<and> get ''contextId'' d = Some (JStr c) \<and> get ''taskId'' d = Some (JStr t)"
      using ct fs by (auto simp: task_binding_def id_members_def)
  }
  show "\<exists>d. sp A2AServerTaskBindingSchema (Some b) = Some (Some d)" if "task_binding b c t"
    using that unfolding acc by (auto simp: task_binding_def id_members_def)
qed

lemma requirePending_iff: "requirePending sp c = Inr u \<longleftrightarrow> projectable sp c"
  by (auto simp: requirePending_def projectable_def bindR_guardR)

lemma requireBinding_iff:
  assumes "json_ok b"
  shows "(\<exists>d. requireBinding sp c (Some b) = Inr d \<and> get ''contextId'' d = Some (JStr x) \<and>
      get ''taskId'' d = Some (JStr t)) \<longleftrightarrow> task_binding b x t \<and> x = env_correlationId c"
    (is "?lhs \<longleftrightarrow> ?rhs")
proof
  assume ?lhs
  then obtain d where d: "sp A2AServerTaskBindingSchema (Some b) = Some (Some d)"
      "str_field ''contextId'' d = env_correlationId c"
      "get ''contextId'' d = Some (JStr x)" "get ''taskId'' d = Some (JStr t)"
    by (auto simp: requireBinding_def bindR_eq_Inr parse_or_eq)
  then show ?rhs using binding_parsed(1) [OF assms d(1)] by (auto simp: str_field_def)
next
  assume rhs: ?rhs
  then obtain d where d: "sp A2AServerTaskBindingSchema (Some b) = Some (Some d)"
    using binding_parsed(2) [OF assms] by blast
  then have "get ''contextId'' d = Some (JStr x)" "get ''taskId'' d = Some (JStr t)"
    using binding_parsed(1) [OF assms d] rhs by (auto simp: task_binding_def)
  then show ?lhs
    using d rhs by (auto simp: requireBinding_def bindR_eq_Inr parse_or_eq str_field_def)
qed

lemma requireBinding_ids:
  assumes "json_ok b" "requireBinding sp c (Some b) = Inr d"
  obtains t where "task_binding b (env_correlationId c) t" "get ''contextId'' d = Some (JStr (env_correlationId c))"
    "get ''taskId'' d = Some (JStr t)"
proof -
  have d: "sp A2AServerTaskBindingSchema (Some b) = Some (Some d)"
      "str_field ''contextId'' d = env_correlationId c"
    using assms(2) by (auto simp: requireBinding_def bindR_eq_Inr parse_or_eq)
  then show thesis using that binding_parsed(1) [OF assms(1) d(1)] by (auto simp: str_field_def)
qed

lemma payload_kind_cases:
  assumes "json_ok p"
  shows "(\<nexists>d. sp ContinuationPayloadSchema (Some p) = Some (Some d)) \<and> (\<nexists>k m. payload_message p k m) \<or>
    (\<exists>d k m. sp ContinuationPayloadSchema (Some p) = Some (Some d) \<and> payload_message p k m \<and>
      get ''kind'' d = Some (JStr k) \<and> get ''message'' d = Some (JStr m))"
proof (cases "\<exists>d. sp ContinuationPayloadSchema (Some p) = Some (Some d)")
  case True
  then obtain d where d: "sp ContinuationPayloadSchema (Some p) = Some (Some d)" ..
  show ?thesis by (rule payload_parsed [OF assms d]) (use d in blast)
next
  case False
  then show ?thesis using payload_parses [OF assms] by blast
qed

lemma project_task:
  assumes "projectable sp c" "sp ContinuationPayloadSchema (Some (env_payload c)) = Some (Some d)"
    and "requireBinding sp c b = Inr e" "get ''kind'' d = Some (JStr kind)"
    and "get ''message'' d = Some (JStr message)" "get ''contextId'' e = Some (JStr (env_correlationId c))"
    and "get ''taskId'' e = Some (JStr task)"
  shows "toA2AInterruptedTask sp c b = Inr (a2a_task c task kind message)"
proof -
  have "requirePending sp c = Inr ()" using assms(1) by (simp add: requirePending_iff)
  then show ?thesis
    using assms(2-) by (simp add: toA2AInterruptedTask_def parse_or_def a2a_task_def json_field_def)
qed

text \<open>The task an interruption is projected to, from the ids, the kind and the message alone.\<close>

lemma interrupted_task:
  assumes "json_ok (env_payload c)" "json_ok b"
  shows "toA2AInterruptedTask sp c (Some b) = Inr t \<longleftrightarrow>
    projectable sp c \<and>
    (\<exists>kind message taskId. payload_message (env_payload c) kind message \<and>
      task_binding b (env_correlationId c) taskId \<and> t = a2a_task c taskId kind message)"
    (is "?lhs \<longleftrightarrow> ?rhs")
proof
  assume ?lhs
  then obtain d e where d: "sp ContinuationPayloadSchema (Some (env_payload c)) = Some (Some d)"
    and e: "requireBinding sp c (Some b) = Inr e" and ok: "projectable sp c"
    by (auto simp: toA2AInterruptedTask_def bindR_eq_Inr requirePending_iff parse_or_eq)
  obtain kind message where p: "payload_message (env_payload c) kind message"
      "get ''kind'' d = Some (JStr kind)" "get ''message'' d = Some (JStr message)"
    by (rule payload_parsed [OF assms(1) d])
  obtain task where b: "task_binding b (env_correlationId c) task"
      "get ''contextId'' e = Some (JStr (env_correlationId c))" "get ''taskId'' e = Some (JStr task)"
    by (rule requireBinding_ids [OF assms(2) e])
  have "t = a2a_task c task kind message"
    using \<open>?lhs\<close> project_task [OF ok d e p(2,3) b(2,3)] by simp
  then show ?rhs using ok p b by blast
next
  assume ?rhs
  then obtain kind message task where p: "payload_message (env_payload c) kind message"
    and b: "task_binding b (env_correlationId c) task" and t: "t = a2a_task c task kind message"
    and ok: "projectable sp c" by blast
  obtain d where d: "sp ContinuationPayloadSchema (Some (env_payload c)) = Some (Some d)"
    using payload_parses [OF assms(1) p] ..
  obtain k m where "payload_message (env_payload c) k m" "get ''kind'' d = Some (JStr k)"
      "get ''message'' d = Some (JStr m)"
    by (rule payload_parsed [OF assms(1) d])
  then have km: "get ''kind'' d = Some (JStr kind)" "get ''message'' d = Some (JStr message)"
    using payload_message_unique [OF p] by simp_all
  obtain e where e: "requireBinding sp c (Some b) = Inr e"
      "get ''contextId'' e = Some (JStr (env_correlationId c))" "get ''taskId'' e = Some (JStr task)"
    using iffD2 [OF requireBinding_iff [OF assms(2)], of "env_correlationId c" task c] b by blast
  show ?lhs using project_task [OF ok d e(1) km e(2,3)] t by simp
qed

text \<open>What the two answers carry.\<close>

lemma input_message:
  assumes "json_ok (env_payload c)" "json_ok b" "json_ok response"
    and "toA2AInputMessage sp c (Some b) (Some response) rawId = Inr msg"
  shows "projectable sp c \<and> (\<exists>message taskId messageId.
    payload_message (env_payload c) (js ''input'') message \<and>
    task_binding b (env_correlationId c) taskId \<and> rawId = Some (JStr messageId) \<and> opaque_id messageId \<and>
    msg = a2a_answer c taskId messageId response)"
proof -
  obtain d e w where d: "sp ContinuationPayloadSchema (Some (env_payload c)) = Some (Some d)"
    and e: "requireBinding sp c (Some b) = Inr e" and ok: "projectable sp c"
    and k: "get ''kind'' d \<noteq> Some (JStr (js ''authorization''))"
    and i: "sp OpaqueProtocolIdSchema rawId = Some (Some w)" and m: "msg = a2a_message c e w response"
    using assms(3,4)
    by (auto simp: toA2AInputMessage_def bindR_eq_Inr requirePending_iff parse_or_eq Let_def json_value
      simp del: opaque_parse)
  obtain kind message where p: "payload_message (env_payload c) kind message"
      "get ''kind'' d = Some (JStr kind)" "get ''message'' d = Some (JStr message)"
    by (rule payload_parsed [OF assms(1) d])
  obtain task where b: "task_binding b (env_correlationId c) task"
      "get ''contextId'' e = Some (JStr (env_correlationId c))" "get ''taskId'' e = Some (JStr task)"
    by (rule requireBinding_ids [OF assms(2) e])
  have "kind = js ''input''" using p k by (auto simp: payload_message_def)
  then show ?thesis using ok p(1) b i m by (auto simp: a2a_message_def a2a_answer_def json_field_def)
qed

lemma control_message:
  assumes "json_ok (env_payload c)" "json_ok b"
    and "toA2AAuthorizationControlMessage sp c (Some b) action rawId = Inr msg"
  shows "projectable sp c \<and> (\<exists>message taskId messageId word.
    payload_message (env_payload c) (js ''authorization'') message \<and>
    task_binding b (env_correlationId c) taskId \<and> rawId = Some (JStr messageId) \<and> opaque_id messageId \<and>
    action = Some (JStr word) \<and> word \<in> {js ''reject'', js ''retry''} \<and>
    msg = a2a_answer c taskId messageId (obj [(''action'', JStr word)]))"
proof -
  obtain d e w a where d: "sp ContinuationPayloadSchema (Some (env_payload c)) = Some (Some d)"
    and e: "requireBinding sp c (Some b) = Inr e" and ok: "projectable sp c"
    and k: "get ''kind'' d = Some (JStr (js ''authorization''))"
    and a: "sp (ZEnum [js ''reject'', js ''retry'']) action = Some (Some a)"
    and i: "sp OpaqueProtocolIdSchema rawId = Some (Some w)" and m: "msg = a2a_message c e w (obj [(''action'', a)])"
    using assms(3)
    by (auto simp: toA2AAuthorizationControlMessage_def bindR_eq_Inr requirePending_iff parse_or_eq Let_def
      simp del: opaque_parse)
  obtain kind message where p: "payload_message (env_payload c) kind message"
      "get ''kind'' d = Some (JStr kind)" "get ''message'' d = Some (JStr message)"
    by (rule payload_parsed [OF assms(1) d])
  obtain task where b: "task_binding b (env_correlationId c) task"
      "get ''contextId'' e = Some (JStr (env_correlationId c))" "get ''taskId'' e = Some (JStr task)"
    by (rule requireBinding_ids [OF assms(2) e])
  obtain word where w: "action = Some (JStr word)" "word \<in> {js ''reject'', js ''retry''}" "a = JStr word"
    using a by (auto simp: enum enum_parse_def split: option.splits json.splits if_splits)
  have "payload_message (env_payload c) (js ''authorization'') message"
    using p k by simp
  then show ?thesis using ok b i m w by (auto simp: a2a_message_def a2a_answer_def json_field_def)
qed

end

end
