(* ===== verification/AdapterProperties.thy ===== *)
theory AdapterProperties
  imports Scenario A2A
begin

text \<open>
  The properties of the protocol adapters: what each projects a continuation to, and which answers
  of a protocol peer it turns into commands of the service.
\<close>

section \<open>A2A\<close>

lemma sample_datetime_offset [simp]:
  "0 \<le> t \<Longrightarrow> t < 86400000 \<Longrightarrow> accepts zod_ref (ZIsoDatetime True) (Some (JStr (iso_string t)))"
  using zod_reference.iso_datetime [of 1970 t True] sample_year by (simp add: accepts_def)

lemma created_env_fields [simp]:
  "env_payload created_env = sample_payload" "env_correlationId created_env = js ''thread''"
  "env_createdAt created_env = iso_string 0"
  by (simp_all add: created_env_def created_event_def created_envelope_def)

lemma sample_ids: "opaque_id (js ''c1'')" "opaque_id (js ''thread'')" "opaque_id (js ''t1'')"
  by (simp_all add: opaque_id_def js_def is_space_def word_unat_eq_iff unat_ch word_le_nat_alt)

text \<open>
  C20 An A2A task is projected exactly for a pending continuation whose id is opaque and whose times
  are ISO date-times, with a payload of a known kind and a message, and a binding of exactly a task
  and the context the continuation correlates to; the task then holds these and nothing else of the
  payload, and never the token hash.
\<close>

theorem a2a_task_projection:
  assumes "zod sp" "json_ok (env_payload c)" "json_ok b"
  shows "toA2AInterruptedTask sp c (Some b) = Inr t \<longleftrightarrow>
    projectable sp c \<and>
    (\<exists>kind message taskId. payload_message (env_payload c) kind message \<and>
      task_binding b (env_correlationId c) taskId \<and> t = a2a_task c taskId kind message)"
  by (rule zod.interrupted_task [OF assms])

definition sample_binding :: json where
  "sample_binding = JObj [(js ''contextId'', JStr (js ''thread'')), (js ''taskId'', JStr (js ''t1''))]"

lemma sample_binding_ok [simp]: "json_ok sample_binding"
  by (simp add: sample_binding_def json_ok_obj js_obj_id)

theorem a2a_task_projection_witness:
  "toA2AInterruptedTask zod_ref created_env (Some sample_binding) =
    Inr (a2a_task created_env (js ''t1'') (js ''input'') (js ''question''))"
proof (rule iffD2 [OF a2a_task_projection [OF zod_reference.zod_axioms]])
  have "payload_message (env_payload created_env) (js ''input'') (js ''question'')"
    by (simp add: sample_payload_def payload_message_def)
  moreover have "task_binding sample_binding (env_correlationId created_env) (js ''t1'')"
    by (simp add: sample_binding_def task_binding_def id_members_def) (auto intro: sample_ids)
  ultimately show "projectable zod_ref created_env \<and> (\<exists>kind message taskId.
      payload_message (env_payload created_env) kind message \<and>
      task_binding sample_binding (env_correlationId created_env) taskId \<and>
      a2a_task created_env (js ''t1'') (js ''input'') (js ''question'') =
        a2a_task created_env taskId kind message)"
    using sample_ids(1) by (auto simp: projectable_def)
qed simp_all

text \<open>
  C21 An answer to an input task is a message for the bound task and context that carries the host's
  response unchanged; it is never produced for a continuation that asks for an authorization.
\<close>

theorem a2a_input_answer:
  assumes "zod sp" "json_ok (env_payload c)" "json_ok b" "json_ok response"
    and "toA2AInputMessage sp c (Some b) (Some response) rawId = Inr msg"
  shows "projectable sp c \<and> (\<exists>message taskId messageId.
    payload_message (env_payload c) (js ''input'') message \<and>
    task_binding b (env_correlationId c) taskId \<and> rawId = Some (JStr messageId) \<and> opaque_id messageId \<and>
    msg = a2a_answer c taskId messageId response)"
  by (rule zod.input_message [OF assms])

lemma sample_payload_parse:
  "zod_ref ContinuationPayloadSchema (Some sample_payload) =
    Some (Some (JObj [(js ''kind'', JStr (js ''input'')), (js ''message'', JStr (js ''question''))]))"
  by (simp add: ContinuationPayloadSchema_def object_parse_def default_parse_def string_parse_def
    extra_fields_def js_obj_id sample_payload_def)

lemma sample_binding_parse: "requireBinding zod_ref created_env (Some sample_binding) = Inr sample_binding"
  using sample_ids
  by (simp add: requireBinding_def parse_or_def A2AServerTaskBindingSchema_def object_parse_def extra_fields_def
    zod_reference.opaque_parse(1) sample_binding_def str_field_def)

lemma sample_pending: "requirePending zod_ref created_env = Inr ()"
  by (simp add: zod_reference.requirePending_iff projectable_def sample_ids)

theorem a2a_input_answer_witness:
  "\<exists>message. payload_message sample_payload (js ''input'') message"
proof -
  have "\<exists>msg. toA2AInputMessage zod_ref created_env (Some sample_binding) (Some (JBool True)) (Some (JStr (js ''t1''))) = Inr msg"
    by (simp add: toA2AInputMessage_def sample_pending parse_or_def sample_payload_parse sample_binding_parse
      Let_def zod_reference.opaque_parse(1) sample_ids)
  then obtain msg where
    "toA2AInputMessage zod_ref created_env (Some sample_binding) (Some (JBool True)) (Some (JStr (js ''t1''))) = Inr msg" ..
  from a2a_input_answer [OF zod_reference.zod_axioms _ _ _ this] show ?thesis by auto
qed

text \<open>
  C22 An answer to an authorization task carries one of the words reject and retry and nothing else:
  no value from the host reaches the data of the message.
\<close>

theorem a2a_control_answer:
  assumes "zod sp" "json_ok (env_payload c)" "json_ok b"
    and "toA2AAuthorizationControlMessage sp c (Some b) action rawId = Inr msg"
  shows "projectable sp c \<and> (\<exists>message taskId messageId word.
    payload_message (env_payload c) (js ''authorization'') message \<and>
    task_binding b (env_correlationId c) taskId \<and> rawId = Some (JStr messageId) \<and> opaque_id messageId \<and>
    action = Some (JStr word) \<and> word \<in> {js ''reject'', js ''retry''} \<and>
    msg = a2a_answer c taskId messageId (obj [(''action'', JStr word)]))"
  by (rule zod.control_message [OF assms])

definition sample_authorization :: envelope where
  "sample_authorization = created_env\<lparr>env_payload :=
     JObj [(js ''kind'', JStr (js ''authorization'')), (js ''message'', JStr (js ''sign in''))]\<rparr>"

theorem a2a_control_answer_witness:
  "\<exists>message. payload_message (env_payload sample_authorization) (js ''authorization'') message"
proof -
  let ?run = "toA2AAuthorizationControlMessage zod_ref sample_authorization (Some sample_binding)
    (Some (JStr (js ''retry''))) (Some (JStr (js ''t1'')))"
  have "requirePending zod_ref sample_authorization = Inr ()"
    using sample_pending by (simp add: requirePending_def sample_authorization_def env_status_def)
  moreover have "requireBinding zod_ref sample_authorization (Some sample_binding) = Inr sample_binding"
    using sample_binding_parse by (simp add: requireBinding_def sample_authorization_def)
  moreover have "zod_ref ContinuationPayloadSchema (Some (env_payload sample_authorization)) =
      Some (Some (env_payload sample_authorization))"
    by (simp add: ContinuationPayloadSchema_def object_parse_def default_parse_def enum_parse_def string_parse_def
      extra_fields_def js_obj_id sample_authorization_def)
  ultimately have "\<exists>msg. ?run = Inr msg"
    by (simp add: toA2AAuthorizationControlMessage_def parse_or_def Let_def enum_parse_def
      zod_reference.opaque_parse(1) sample_ids) (simp add: sample_authorization_def)
  then obtain msg where run: "?run = Inr msg" ..
  have "json_ok (env_payload sample_authorization)"
    by (simp add: sample_authorization_def json_ok_obj js_obj_id)
  from a2a_control_answer [OF zod_reference.zod_axioms this _ run] show ?thesis by auto
qed

end
