(* ===== verification/JsonRead.thy ===== *)
theory JsonRead
  imports Json
begin

text \<open>
  What \<open>JSON.parse\<close> yields is a well-formed value, whatever the text: numbers in normal form, no
  repeated member, members in property order. The components that read outside text (the event
  stores, the configuration, the HTTP adapter) rest on this. And the bound on the nesting of calls that \<open>parse_text\<close> sets is enough for
  every text.
\<close>

section \<open>The property order is a normal form\<close>

lemma sort_key_sorted: "sorted (map f xs) \<Longrightarrow> sort_key f xs = xs"
  by (induction xs) (simp_all add: insort_is_Cons)

lemma js_obj_idem [simp]: "js_obj (js_obj fs) = js_obj fs"
proof -
  let ?P = "\<lambda>(k, v). is_array_index k"
  define gs where "gs = js_obj fs"
  have split: "\<exists>ps qs. gs = ps @ qs \<and> sorted (map (\<lambda>(k, v). undec k) ps) \<and>
      (\<forall>x \<in> set ps. ?P x) \<and> (\<forall>x \<in> set qs. \<not> ?P x)"
    unfolding gs_def js_obj_def Let_def by (intro exI conjI) (rule refl, simp, auto)
  then obtain ps qs where gs: "gs = ps @ qs" and sorted: "sorted (map (\<lambda>(k, v). undec k) ps)"
    and ps: "\<forall>x \<in> set ps. ?P x" and qs: "\<forall>x \<in> set qs. \<not> ?P x" by blast
  have "distinct (map fst gs)" unfolding gs_def by (rule distinct_js_obj)
  then have "js_obj gs = sort_key (\<lambda>(k, v). undec k) (filter ?P gs) @ filter (\<lambda>(k, v). \<not> is_array_index k) gs"
    by (rule js_obj_distinct)
  moreover have "filter ?P gs = ps" using gs ps qs by (simp add: filter_id_conv filter_empty_conv)
  moreover have "filter (\<lambda>(k, v). \<not> is_array_index k) gs = qs"
    using gs ps qs by (simp add: filter_id_conv filter_empty_conv case_prod_unfold)
  ultimately have "js_obj gs = gs" using gs sort_key_sorted [OF sorted] by simp
  then show ?thesis by (simp add: gs_def)
qed

lemma set_foldl_update: "set (foldl (\<lambda>ps (k, v). AList.update k v ps) ps fs) \<subseteq> set ps \<union> set fs"
proof (induction fs arbitrary: ps)
  case (Cons f fs)
  obtain k v where f: "f = (k, v)" by (cases f)
  have "set (AList.update k v ps) \<subseteq> insert (k, v) (set ps)"
    by (induction ps) auto
  then show ?case using Cons.IH [of "AList.update k v ps"] f by auto
qed simp

lemma set_js_obj: "set (js_obj fs) \<subseteq> set fs"
  using set_foldl_update [of "[]" fs] by (auto simp: js_obj_def Let_def)

text \<open>Of a repeated member the last value counts.\<close>

lemma map_of_foldl_update:
  "map_of (foldl (\<lambda>ps (k, v). AList.update k v ps) ps fs) = map_of ps ++ map_of (rev fs)"
  by (induction fs arbitrary: ps) (auto simp: update_conv')

lemma map_of_js_obj_rev: "map_of (js_obj fs) = map_of (rev fs)"
proof -
  let ?ps = "foldl (\<lambda>ps (k, v). AList.update k v ps) [] fs"
  have ps: "distinct (map fst ?ps)" by (rule distinct_foldl_update) simp
  have "set (js_obj fs) = set ?ps" by (auto simp: js_obj_def Let_def)
  then have "map_of (js_obj fs) = map_of ?ps"
    using map_of_inject_set [OF distinct_js_obj ps] by blast
  then show ?thesis by (simp add: map_of_foldl_update)
qed

lemma json_wf_js_value: "nums_wf v \<Longrightarrow> json_wf (js_value v)"
proof (induction v)
  case (JObj fs)
  have "json_wf (snd f)" if "f \<in> set (map (\<lambda>(k, v). (k, js_value v)) fs)" for f
    using that JObj by (force simp: list_all_iff)
  then show ?case
    using set_js_obj by (fastforce simp: list_all_iff)
qed (auto simp: list_all_iff)

section \<open>What the parser builds\<close>

lemma parse_number_wf: "parse_number s = Some (n, r) \<Longrightarrow> num_wf n"
  by (auto simp: parse_number_def parse_unsigned_def Let_def norm_wf split: prod.splits option.splits)

lemma parse_nums_wf:
  shows "parse_value f s = Some (v, r) \<Longrightarrow> nums_wf v"
    and "parse_members f s = Some (fs, r) \<Longrightarrow> list_all (\<lambda>(k, v). nums_wf v) fs"
    and "parse_elems f s = Some (vs, r) \<Longrightarrow> list_all nums_wf vs"
proof (induction f s and f s and f s arbitrary: v r and fs r and vs r
    rule: parse_value_parse_members_parse_elems.induct)
  case (2 f s)
  then show ?case
    by (auto split: list.splits if_splits option.splits dest: parse_number_wf)
next
  case (4 f s)
  from "4.prems" obtain r1 k t u w w' where read: "expect quotation s = Some r1" "scan_string r1 = Some (k, t)"
      "expect (ch CHR '':'') t = Some u" "parse_value f u = Some (w, w')"
    and rest: "(case expect (ch CHR ''}'') w' of
        Some x \<Rightarrow> Some ([(k, w)], x)
      | None \<Rightarrow> do { x \<leftarrow> expect (ch CHR '','') w'; (fs, y) \<leftarrow> parse_members f x; Some ((k, w) # fs, y) }) =
      Some (fs, r)"
    by (auto simp: Option.bind_eq_Some_conv)
  have w: "nums_wf w" using "4.IH"(1) read by simp
  show ?case
  proof (cases "expect (ch CHR ''}'') w'")
    case None
    then obtain x gs where "expect (ch CHR '','') w' = Some x" "parse_members f x = Some (gs, r)" "fs = (k, w) # gs"
      using rest by (auto simp: Option.bind_eq_Some_conv)
    then show ?thesis using "4.IH"(2) read None w by simp
  qed (use rest w in auto)
next
  case (6 f s)
  from "6.prems" obtain w w' where read: "parse_value f s = Some (w, w')"
    and rest: "(case expect (ch CHR '']'') w' of
        Some x \<Rightarrow> Some ([w], x)
      | None \<Rightarrow> do { x \<leftarrow> expect (ch CHR '','') w'; (vs, y) \<leftarrow> parse_elems f x; Some (w # vs, y) }) =
      Some (vs, r)"
    by (auto simp: Option.bind_eq_Some_conv)
  have w: "nums_wf w" using "6.IH"(1) read by simp
  show ?case
  proof (cases "expect (ch CHR '']'') w'")
    case None
    then obtain x us where "expect (ch CHR '','') w' = Some x" "parse_elems f x = Some (us, r)" "vs = w # us"
      using rest by (auto simp: Option.bind_eq_Some_conv)
    then show ?thesis using "6.IH"(2) read None w by simp
  qed (use rest w in auto)
qed simp_all

lemma json_parse_wf: "json_parse s = Some v \<Longrightarrow> json_wf v"
  by (auto simp: json_parse_def parse_text_def Option.bind_eq_Some_conv
    intro!: json_wf_js_value dest: parse_nums_wf(1) split: if_splits simp del: parse_value.simps)

section \<open>The bound of the parser\<close>

lemma skip_ws_length: "length (skip_ws s) \<le> length s"
  by (simp add: skip_ws_def length_dropWhile_le)

lemma expect_length: "expect c s = Some r \<Longrightarrow> length r < length s"
  using skip_ws_length [of s] by (auto simp: expect_def split: list.splits if_splits)

lemma scan_string_length: "scan_string s = Some (k, t) \<Longrightarrow> length t < length s"
proof (induction s arbitrary: k t rule: scan_string.induct)
  case (1 s)
  then show ?case
    by (subst (asm) (2) scan_string.simps) (fastforce split: option.splits list.splits if_splits dest: scan_unit_length)
qed

lemma scan_exp_digits_length: "scan_exp_digits neg s = Some (e, r) \<Longrightarrow> length r \<le> length s"
  by (auto simp: scan_exp_digits_def Let_def length_dropWhile_le split: if_splits)

lemma scan_length:
  "scan_int s = Some (is, r) \<Longrightarrow> length r \<le> length s"
  "scan_frac s = Some (fs, r) \<Longrightarrow> length r \<le> length s"
  "scan_exp s = Some (e, r) \<Longrightarrow> length r \<le> length s"
  by (auto simp: scan_int_def scan_frac_def scan_exp_def length_dropWhile_le le_SucI split: list.splits if_splits
      dest: scan_exp_digits_length)

lemma parse_number_length:
  assumes "parse_number s = Some (n, r)"
  shows "length r \<le> length s"
proof -
  obtain neg t where sign: "scan_sign s = (neg, t)" by (cases "scan_sign s")
  then have "length t \<le> length s" by (auto simp: scan_sign_def split: list.splits if_splits)
  moreover have "length r \<le> length t"
    using assms sign
    by (auto simp: parse_number_def parse_unsigned_def Let_def split: option.splits prod.splits dest!: scan_length)
  ultimately show ?thesis by simp
qed

text \<open>What is left of a text is no longer than it.\<close>

lemma parse_length:
  shows "parse_value f s = Some (v, r) \<Longrightarrow> length r \<le> length s"
    and "parse_members f s = Some (fs, r) \<Longrightarrow> length r \<le> length s"
    and "parse_elems f s = Some (vs, r) \<Longrightarrow> length r \<le> length s"
proof (induction f s and f s and f s arbitrary: v r and fs r and vs r
    rule: parse_value_parse_members_parse_elems.induct)
  case (2 f s)
  show ?case
  proof (cases "skip_ws s")
    case (Cons c t)
    have "length q \<le> length t"
      if "parse_elems f t = Some (a, q)" "c = ch CHR ''[''" "expect (ch CHR '']'') t = None" for a q
      using "2.IH"(2) [OF Cons _ that(2,3,1)] that(2) by simp
    then have "length r \<le> Suc (length t)"
      using "2.prems" Cons
      by (auto split: if_splits option.splits
          dest!: expect_length scan_string_length parse_number_length "2.IH"(1) [OF Cons])
    then show ?thesis using skip_ws_length [of s] Cons by simp
  qed (use "2.prems" in simp)
next
  case (4 f s)
  from "4.prems" obtain r1 k t u w w' where read: "expect quotation s = Some r1" "scan_string r1 = Some (k, t)"
      "expect (ch CHR '':'') t = Some u" "parse_value f u = Some (w, w')"
    and rest: "(case expect (ch CHR ''}'') w' of
        Some x \<Rightarrow> Some ([(k, w)], x)
      | None \<Rightarrow> do { x \<leftarrow> expect (ch CHR '','') w'; (fs, y) \<leftarrow> parse_members f x; Some ((k, w) # fs, y) }) =
      Some (fs, r)"
    by (auto simp: Option.bind_eq_Some_conv)
  have "length w' \<le> length u" by (rule "4.IH"(1) [OF read(1,2) _ read(3,4)]) simp
  moreover have "length r \<le> length w'"
  proof (cases "expect (ch CHR ''}'') w'")
    case None
    then obtain x gs where "expect (ch CHR '','') w' = Some x" "parse_members f x = Some (gs, r)"
      using rest by (auto simp: Option.bind_eq_Some_conv)
    then show ?thesis using "4.IH"(2) read None expect_length by fastforce
  qed (use rest expect_length in fastforce)
  ultimately show ?case
    using expect_length [OF read(1)] scan_string_length [OF read(2)] expect_length [OF read(3)] by simp
next
  case (6 f s)
  from "6.prems" obtain w w' where read: "parse_value f s = Some (w, w')"
    and rest: "(case expect (ch CHR '']'') w' of
        Some x \<Rightarrow> Some ([w], x)
      | None \<Rightarrow> do { x \<leftarrow> expect (ch CHR '','') w'; (vs, y) \<leftarrow> parse_elems f x; Some (w # vs, y) }) =
      Some (vs, r)"
    by (auto simp: Option.bind_eq_Some_conv)
  have "length w' \<le> length s" by (rule "6.IH"(1) [OF read])
  moreover have "length r \<le> length w'"
  proof (cases "expect (ch CHR '']'') w'")
    case None
    then obtain x us where "expect (ch CHR '','') w' = Some x" "parse_elems f x = Some (us, r)"
      using rest by (auto simp: Option.bind_eq_Some_conv)
    then show ?thesis using "6.IH"(2) read None expect_length by fastforce
  qed (use rest expect_length in fastforce)
  ultimately show ?case by simp
qed simp_all

text \<open>A higher bound gives the same answer: the one \<open>parse_text\<close> sets is never what makes a text fail.\<close>

lemma parse_bound_step:
  "(2 * length s < f \<longrightarrow> parse_value (Suc f) s = parse_value f s) \<and>
    (Suc (2 * length s) < f \<longrightarrow> parse_members (Suc f) s = parse_members f s \<and> parse_elems (Suc f) s = parse_elems f s)"
proof (induction f arbitrary: s)
  case (Suc f)
  have "parse_value (Suc (Suc f)) s = parse_value (Suc f) s" if "2 * length s < Suc f"
  proof (cases "skip_ws s")
    case (Cons c t)
    then have "Suc (2 * length t) < f" using that skip_ws_length [of s] by simp
    then have same: "parse_members (Suc f) t = parse_members f t" "parse_elems (Suc f) t = parse_elems f t"
      using Suc.IH by blast+
    show ?thesis
      unfolding parse_value.simps(2) [of "Suc f"] parse_value.simps(2) [of f] Cons list.case same by (rule refl)
  next
    case Nil
    show ?thesis unfolding parse_value.simps(2) [of "Suc f"] parse_value.simps(2) [of f] Nil by simp
  qed
  moreover have "parse_members (Suc (Suc f)) s = parse_members (Suc f) s" if "Suc (2 * length s) < Suc f"
  proof -
    have first: "parse_value (Suc f) u = parse_value f u"
      if "expect quotation s = Some r" "scan_string r = Some (k, t)" "expect (ch CHR '':'') t = Some u" for r k t u
      using Suc.IH [of u] expect_length [OF that(1)] scan_string_length [OF that(2)] expect_length [OF that(3)]
        \<open>Suc (2 * length s) < Suc f\<close> by simp
    have members: "parse_members (Suc f) x = parse_members f x"
      if "expect quotation s = Some r" "scan_string r = Some (k, t)" "expect (ch CHR '':'') t = Some u"
        "parse_value f u = Some (v, w)" "expect (ch CHR '','') w = Some x" for r k t u v w x
      using Suc.IH [of x] expect_length [OF that(1)] scan_string_length [OF that(2)] expect_length [OF that(3)]
        parse_length(1) [OF that(4)] expect_length [OF that(5)] \<open>Suc (2 * length s) < Suc f\<close> by simp
    show ?thesis
      unfolding parse_members.simps(2) [of "Suc f" s] parse_members.simps(2) [of f s]
      by (intro Option.bind_cong refl) (auto simp del: parse_value.simps parse_members.simps simp: first members
        split: option.splits intro!: Option.bind_cong)
  qed
  moreover have "parse_elems (Suc (Suc f)) s = parse_elems (Suc f) s" if "Suc (2 * length s) < Suc f"
  proof -
    have first: "parse_value (Suc f) s = parse_value f s" using Suc.IH [of s] that by simp
    have elems: "parse_elems (Suc f) x = parse_elems f x"
      if "parse_value f s = Some (v, w)" "expect (ch CHR '','') w = Some x" for v w x
      using Suc.IH [of x] parse_length(1) [OF that(1)] expect_length [OF that(2)]
        \<open>Suc (2 * length s) < Suc f\<close> by simp
    show ?thesis
      unfolding parse_elems.simps(2) [of "Suc f" s] parse_elems.simps(2) [of f s] first
      by (intro Option.bind_cong refl) (auto simp del: parse_value.simps parse_elems.simps simp: elems
        split: option.splits intro!: Option.bind_cong)
  qed
  ultimately show ?case by blast
qed simp

lemma parse_bound_enough: "2 * length s < f \<Longrightarrow> parse_value f s = parse_value (Suc (2 * length s)) s"
proof (induction f)
  case (Suc f)
  then show ?case using parse_bound_step [of s f] by (cases "2 * length s < f") (auto simp: not_less less_Suc_eq)
qed simp

end
