(* ===== verification/Config.thy ===== *)
theory Config
  imports Protocol JsonRead
begin

text \<open>
  \<open>src/config/schema.ts\<close> and \<open>src/config/load.ts\<close>: the configuration of the reference server, from a
  JSON file and environment variables. The environment is a map from variable names to values;
  reading the file is a parameter. The lemmas say that a loaded configuration is within its
  bounds, that the environment takes precedence over the file, and how malformed input is refused.
\<close>

section \<open>The schema\<close>

definition log_levels :: "string list" where
  "log_levels = [''fatal'', ''error'', ''warn'', ''info'', ''debug'', ''trace'', ''silent'']"

definition PauseMeshConfigSchema :: schema where
  "PauseMeshConfigSchema = ZObject Strict
     [(js ''databasePath'', ZDefault (ZString [Trim, MinLength 1]) (JStr (js ''./data/pausemesh.db''))),
      (js ''host'', ZDefault (ZString [Trim, MinLength 1]) (JStr (js ''127.0.0.1''))),
      (js ''logLevel'', ZDefault (ZEnum (map js log_levels)) (JStr (js ''info''))),
      (js ''maxPayloadBytes'', ZDefault (ZNumber [IsInt, GreaterEq 1024, LessEq 10485760]) (JInt 65536)),
      (js ''port'', ZDefault (ZNumber [IsInt, GreaterEq 1, LessEq 65535]) (JInt 8787)),
      (js ''tokenTtlSeconds'', ZDefault (ZNumber [IsInt, GreaterEq 30, LessEq 604800]) (JInt 900))]"

record pausemesh_config =
  cfg_databasePath :: jstr
  cfg_host :: jstr
  cfg_logLevel :: jstr
  cfg_maxPayloadBytes :: int
  cfg_port :: int
  cfg_tokenTtlSeconds :: int

definition as_config :: "json \<Rightarrow> pausemesh_config" where
  "as_config d =
     \<lparr>cfg_databasePath = str_field ''databasePath'' d, cfg_host = str_field ''host'' d,
      cfg_logLevel = str_field ''logLevel'' d, cfg_maxPayloadBytes = int_field ''maxPayloadBytes'' d,
      cfg_port = int_field ''port'' d, cfg_tokenTtlSeconds = int_field ''tokenTtlSeconds'' d\<rparr>"

section \<open>Loading\<close>

text \<open>
  What loading throws: an \<open>Error\<close> with its message, the failure of reading the file, the
  \<open>SyntaxError\<close> of \<open>JSON.parse\<close>, or the \<open>ZodError\<close> of a value the schema refuses.
\<close>

datatype config_error = ConfigError jstr | ReadFailure failure | ConfigSyntaxError | ConfigZodError

text \<open>
  The regular expression \<open>/^-?\d+$/\<close>, and \<open>Number(text)\<close> of a text it accepts. \<open>Number\<close> rounds an
  integer beyond the safe range to another one beyond it; the schema refuses both.
\<close>

definition integer_text :: "jstr \<Rightarrow> bool" where
  "integer_text s =
     (let digits = (case s of c # r \<Rightarrow> if c = ch CHR ''-'' then r else s | [] \<Rightarrow> [])
      in digits \<noteq> [] \<and> list_all is_digit digits)"

definition integer_value :: "jstr \<Rightarrow> int" where
  "integer_value s =
     (case s of c # r \<Rightarrow> if c = ch CHR ''-'' then - int (undec r) else int (undec s) | [] \<Rightarrow> 0)"

definition optionalInteger :: "jstr option \<Rightarrow> string \<Rightarrow> (config_error, int option) result" where
  "optionalInteger value name =
     (case value of
        None \<Rightarrow> Inr None
      | Some text \<Rightarrow>
          bindR (guardR (integer_text (trim text)) (ConfigError (js name @ js '' must be an integer''))) (\<lambda>_.
          Inr (Some (integer_value (trim text)))))"

definition readJsonConfig ::
    "jstr option \<Rightarrow> (jstr \<Rightarrow> (failure, jstr) result) \<Rightarrow> (config_error, json_object) result" where
  "readJsonConfig path readTextFile =
     (case path of
        None \<Rightarrow> Inr []
      | Some p \<Rightarrow>
          (case readTextFile p of
             Inl e \<Rightarrow> Inl (ReadFailure e)
           | Inr text \<Rightarrow>
               (case json_parse text of
                  None \<Rightarrow> Inl ConfigSyntaxError
                | Some (JObj fs) \<Rightarrow> Inr fs
                | Some _ \<Rightarrow> Inl (ConfigError (js ''PAUSEMESH_CONFIG_PATH must point to a JSON object'')))))"

text \<open>The entries the environment sets, in the order of the literal, without the undefined ones.\<close>

definition environment_entries ::
    "(string \<rightharpoonup> jstr) \<Rightarrow> int option \<Rightarrow> int option \<Rightarrow> int option \<Rightarrow> json_object" where
  "environment_entries env maxPayloadBytes port tokenTtlSeconds = map (\<lambda>(k, v). (js k, v)) (present
       [(''databasePath'', map_option JStr (env ''PAUSEMESH_DATABASE_PATH'')),
        (''host'', map_option JStr (env ''PAUSEMESH_HOST'')),
        (''logLevel'', map_option JStr (env ''PAUSEMESH_LOG_LEVEL'')),
        (''maxPayloadBytes'', map_option JInt maxPayloadBytes),
        (''port'', map_option JInt port),
        (''tokenTtlSeconds'', map_option JInt tokenTtlSeconds)])"

definition loadConfig ::
    "(schema \<Rightarrow> zparser) \<Rightarrow> (string \<rightharpoonup> jstr) \<Rightarrow> (jstr \<Rightarrow> (failure, jstr) result) \<Rightarrow>
     (config_error, pausemesh_config) result" where
  "loadConfig sp env readTextFile =
     bindR (readJsonConfig (env ''PAUSEMESH_CONFIG_PATH'') readTextFile) (\<lambda>fileConfig.
     bindR (optionalInteger (env ''PAUSEMESH_MAX_PAYLOAD_BYTES'') ''PAUSEMESH_MAX_PAYLOAD_BYTES'') (\<lambda>maxPayloadBytes.
     bindR (optionalInteger (env ''PAUSEMESH_PORT'') ''PAUSEMESH_PORT'') (\<lambda>port.
     bindR (optionalInteger (env ''PAUSEMESH_TOKEN_TTL_SECONDS'') ''PAUSEMESH_TOKEN_TTL_SECONDS'') (\<lambda>tokenTtlSeconds.
     bindR (parse_or sp PauseMeshConfigSchema
         (Some (JObj (js_obj (fileConfig @ environment_entries env maxPayloadBytes port tokenTtlSeconds))))
         ConfigZodError) (\<lambda>d.
     Inr (as_config d))))))"

section \<open>Where each setting comes from\<close>

text \<open>The environment, then the file, then the default.\<close>

definition configured :: "json option \<Rightarrow> json_object \<Rightarrow> string \<Rightarrow> json \<Rightarrow> json" where
  "configured env_value fileConfig key default_value =
     (case env_value of
        Some v \<Rightarrow> v
      | None \<Rightarrow> (case map_of fileConfig (js key) of Some v \<Rightarrow> v | None \<Rightarrow> default_value))"

definition env_integer :: "jstr option \<Rightarrow> json option" where
  "env_integer = map_option (\<lambda>text. JInt (integer_value (trim text)))"

lemma optionalInteger_Inr:
  "optionalInteger value name = Inr n \<longleftrightarrow>
    (\<forall>text. value = Some text \<longrightarrow> integer_text (trim text)) \<and> map_option JInt n = env_integer value"
  by (cases "value"; cases n) (auto simp: optionalInteger_def env_integer_def bindR_guardR)

lemma map_of_merge:
  assumes "distinct (map fst es)"
  shows "map_of (js_obj (fs @ es)) k = (case map_of es k of Some v \<Rightarrow> Some v | None \<Rightarrow> map_of (js_obj fs) k)"
proof -
  have "map_of (rev es) = map_of es"
    using assms by (subst map_of_inject_set) (simp_all add: rev_map [symmetric])
  then show ?thesis by (simp add: map_of_js_obj_rev map_add_def split: option.splits)
qed

lemma environment_entries_distinct: "distinct (map fst (environment_entries env m p t))"
proof -
  have inj: "inj js" by (simp add: inj_def js_inject)
  have *: "distinct (map fst (map (\<lambda>(k, v). (js k, v)) (present fs)))" if "distinct (map fst fs)" for fs
    using distinct_present [OF that] inj
    by (simp add: distinct_map comp_def case_prod_unfold inj_on_def js_inject)
  show ?thesis unfolding environment_entries_def by (rule *) simp
qed

lemma map_of_environment:
  "map_of (environment_entries env m p t) (js ''databasePath'') = map_option JStr (env ''PAUSEMESH_DATABASE_PATH'')"
  "map_of (environment_entries env m p t) (js ''host'') = map_option JStr (env ''PAUSEMESH_HOST'')"
  "map_of (environment_entries env m p t) (js ''logLevel'') = map_option JStr (env ''PAUSEMESH_LOG_LEVEL'')"
  "map_of (environment_entries env m p t) (js ''maxPayloadBytes'') = map_option JInt m"
  "map_of (environment_entries env m p t) (js ''port'') = map_option JInt p"
  "map_of (environment_entries env m p t) (js ''tokenTtlSeconds'') = map_option JInt t"
  by (simp_all add: environment_entries_def map_of_present)

text \<open>A file the schema can read: no member is named \<open>__proto__\<close>.\<close>

definition plain_file :: "(jstr \<Rightarrow> (failure, jstr) result) \<Rightarrow> bool" where
  "plain_file readTextFile \<longleftrightarrow>
     (\<forall>p text fs. readTextFile p = Inr text \<longrightarrow> json_parse text = Some (JObj fs) \<longrightarrow>
       js ''__proto__'' \<notin> fst ` set fs)"

lemma readJsonConfig_wf:
  assumes "readJsonConfig path readTextFile = Inr fs"
  shows "js_obj fs = fs" "list_all (\<lambda>(k, v). json_wf v) fs"
    "plain_file readTextFile \<Longrightarrow> js ''__proto__'' \<notin> fst ` set fs"
proof -
  have "path = None \<and> fs = [] \<or>
      (\<exists>p text. path = Some p \<and> readTextFile p = Inr text \<and> json_parse text = Some (JObj fs))"
    using assms by (auto simp: readJsonConfig_def split: option.splits sum.splits json.splits)
  then show "js_obj fs = fs" "list_all (\<lambda>(k, v). json_wf v) fs"
    "plain_file readTextFile \<Longrightarrow> js ''__proto__'' \<notin> fst ` set fs"
    using json_parse_wf [of _ "JObj fs"] by (auto simp: plain_file_def js_obj_id)
qed

text \<open>Within the bounds of the schema.\<close>

definition config_ok :: "pausemesh_config \<Rightarrow> bool" where
  "config_ok cfg \<longleftrightarrow>
     cfg_databasePath cfg \<noteq> [] \<and> cfg_host cfg \<noteq> [] \<and> cfg_logLevel cfg \<in> js ` set log_levels \<and>
     1024 \<le> cfg_maxPayloadBytes cfg \<and> cfg_maxPayloadBytes cfg \<le> 10485760 \<and>
     1 \<le> cfg_port cfg \<and> cfg_port cfg \<le> 65535 \<and>
     30 \<le> cfg_tokenTtlSeconds cfg \<and> cfg_tokenTtlSeconds cfg \<le> 604800"

text \<open>Where every field of a configuration comes from.\<close>

definition config_from :: "(string \<rightharpoonup> jstr) \<Rightarrow> json_object \<Rightarrow> pausemesh_config \<Rightarrow> bool" where
  "config_from env fs cfg \<longleftrightarrow>
     (\<exists>s. configured (map_option JStr (env ''PAUSEMESH_DATABASE_PATH'')) fs ''databasePath''
        (JStr (js ''./data/pausemesh.db'')) = JStr s \<and> cfg_databasePath cfg = trim s) \<and>
     (\<exists>s. configured (map_option JStr (env ''PAUSEMESH_HOST'')) fs ''host'' (JStr (js ''127.0.0.1'')) = JStr s \<and>
        cfg_host cfg = trim s) \<and>
     configured (map_option JStr (env ''PAUSEMESH_LOG_LEVEL'')) fs ''logLevel'' (JStr (js ''info'')) =
       JStr (cfg_logLevel cfg) \<and>
     configured (env_integer (env ''PAUSEMESH_MAX_PAYLOAD_BYTES'')) fs ''maxPayloadBytes'' (JInt 65536) =
       JInt (cfg_maxPayloadBytes cfg) \<and>
     configured (env_integer (env ''PAUSEMESH_PORT'')) fs ''port'' (JInt 8787) = JInt (cfg_port cfg) \<and>
     configured (env_integer (env ''PAUSEMESH_TOKEN_TTL_SECONDS'')) fs ''tokenTtlSeconds'' (JInt 900) =
       JInt (cfg_tokenTtlSeconds cfg)"

lemma trim_literal:
  "s \<noteq> [] \<Longrightarrow> \<not> is_space (ch (hd s)) \<Longrightarrow> \<not> is_space (ch (last s)) \<Longrightarrow> trim (js s) = js s"
  by (simp add: trim_id_iff js_def hd_map last_map)

lemma trim_defaults [simp]:
  "trim (js ''./data/pausemesh.db'') = js ''./data/pausemesh.db''" "trim (js ''127.0.0.1'') = js ''127.0.0.1''"
  by (rule trim_literal; simp add: is_space_def word_unat_eq_iff unat_ch word_le_nat_alt)+

lemma num_less_one: "num_less (num_of_int 0) (num_of_int 1)"
  by (simp add: num_less_def num_le_ints)

context zod
begin

lemma trimmed_default:
  assumes "sp (ZDefault (ZString [Trim, MinLength 1]) (JStr d)) v = Some w" "trim d = d" "d \<noteq> []"
  obtains s where "w = Some (JStr (trim s))" "trim s \<noteq> []" "(case v of Some x \<Rightarrow> x | None \<Rightarrow> JStr d) = JStr s"
proof (cases v)
  case None
  then show thesis using assms that [of d] by (simp add: default default_parse_def)
next
  case (Some x)
  then show thesis
    using assms that
    by (auto simp: default default_parse_def string string_parse_def Suc_le_eq split: json.splits if_splits)
qed

lemma enum_default:
  assumes "sp (ZDefault (ZEnum ls) (JStr d)) v = Some w" "d \<in> set ls"
  obtains s where "w = Some (JStr s)" "s \<in> set ls" "(case v of Some x \<Rightarrow> x | None \<Rightarrow> JStr d) = JStr s"
  using assms
  by (cases v) (auto simp: default default_parse_def enum enum_parse_def split: json.splits if_splits)

lemma integer_default:
  assumes "sp (ZDefault (ZNumber [IsInt, GreaterEq a, LessEq b]) (JInt d)) v = Some w"
    and "\<And>x. v = Some x \<Longrightarrow> json_wf x" "a \<le> d" "d \<le> b"
  obtains n where "w = Some (JInt n)" "a \<le> n" "n \<le> b" "(case v of Some x \<Rightarrow> x | None \<Rightarrow> JInt d) = JInt n"
proof (cases v)
  case None
  then show thesis using assms that [of d] by (simp add: default default_parse_def)
next
  case (Some x)
  then obtain m where m: "x = JNum m" "w = Some (JNum m)" "is_safe_integer m" "num_le (num_of_int a) m"
      "num_le m (num_of_int b)"
    using assms(1)
    by (auto simp: default default_parse_def number number_parse_def split: json.splits if_splits)
  have m': "is_integer m" "num_wf m" using m(1,3) assms(2) Some by (auto simp: is_safe_integer_def)
  show thesis
    using that [of "int_of_num m"] m m' Some num_of_int_of_num [of m] by (simp add: num_le_ints)
qed

text \<open>What the schema makes of an object: every field, from the member or its default.\<close>

lemma parsed_config:
  assumes plain: "plain_object (Some v)" and wf: "\<And>k x. get k v = Some x \<Longrightarrow> json_wf x"
    and parse: "sp PauseMeshConfigSchema (Some v) = Some (Some d)"
    and member: "\<And>k dv. member k dv = (case get k v of Some x \<Rightarrow> x | None \<Rightarrow> dv)"
  shows "config_ok (as_config d)"
    and "\<exists>s. member ''databasePath'' (JStr (js ''./data/pausemesh.db'')) = JStr s \<and> cfg_databasePath (as_config d) = trim s"
    and "\<exists>s. member ''host'' (JStr (js ''127.0.0.1'')) = JStr s \<and> cfg_host (as_config d) = trim s"
    and "member ''logLevel'' (JStr (js ''info'')) = JStr (cfg_logLevel (as_config d))"
    and "member ''maxPayloadBytes'' (JInt 65536) = JInt (cfg_maxPayloadBytes (as_config d))"
    and "member ''port'' (JInt 8787) = JInt (cfg_port (as_config d))"
    and "member ''tokenTtlSeconds'' (JInt 900) = JInt (cfg_tokenTtlSeconds (as_config d))"
proof -
  note field = parsed_field [OF plain _ parse [unfolded PauseMeshConfigSchema_def]]
  have "sp (ZDefault (ZString [Trim, MinLength 1]) (JStr (js ''./data/pausemesh.db''))) (get ''databasePath'' v) = Some (get ''databasePath'' d)"
    "sp (ZDefault (ZString [Trim, MinLength 1]) (JStr (js ''127.0.0.1''))) (get ''host'' v) = Some (get ''host'' d)"
    "sp (ZDefault (ZEnum (map js log_levels)) (JStr (js ''info''))) (get ''logLevel'' v) = Some (get ''logLevel'' d)"
    "sp (ZDefault (ZNumber [IsInt, GreaterEq 1024, LessEq 10485760]) (JInt 65536)) (get ''maxPayloadBytes'' v) = Some (get ''maxPayloadBytes'' d)"
    "sp (ZDefault (ZNumber [IsInt, GreaterEq 1, LessEq 65535]) (JInt 8787)) (get ''port'' v) = Some (get ''port'' d)"
    "sp (ZDefault (ZNumber [IsInt, GreaterEq 30, LessEq 604800]) (JInt 900)) (get ''tokenTtlSeconds'' v) = Some (get ''tokenTtlSeconds'' d)"
    by (rule field; simp)+
  note parses = this
  obtain db where db: "get ''databasePath'' d = Some (JStr (trim db))" "trim db \<noteq> []"
      "member ''databasePath'' (JStr (js ''./data/pausemesh.db'')) = JStr db"
    unfolding member by (rule trimmed_default [OF parses(1)]) auto
  obtain host where host: "get ''host'' d = Some (JStr (trim host))" "trim host \<noteq> []"
      "member ''host'' (JStr (js ''127.0.0.1'')) = JStr host"
    unfolding member by (rule trimmed_default [OF parses(2)]) auto
  obtain level where level: "get ''logLevel'' d = Some (JStr level)" "level \<in> js ` set log_levels"
      "member ''logLevel'' (JStr (js ''info'')) = JStr level"
    unfolding member by (rule enum_default [OF parses(3)]) (auto simp: log_levels_def)
  obtain mx where mx: "get ''maxPayloadBytes'' d = Some (JInt mx)" "1024 \<le> mx" "mx \<le> 10485760"
      "member ''maxPayloadBytes'' (JInt 65536) = JInt mx"
    unfolding member by (rule integer_default [OF parses(4)]) (use wf in auto)
  obtain pt where pt: "get ''port'' d = Some (JInt pt)" "1 \<le> pt" "pt \<le> 65535"
      "member ''port'' (JInt 8787) = JInt pt"
    unfolding member by (rule integer_default [OF parses(5)]) (use wf in auto)
  obtain ttl where ttl: "get ''tokenTtlSeconds'' d = Some (JInt ttl)" "30 \<le> ttl" "ttl \<le> 604800"
      "member ''tokenTtlSeconds'' (JInt 900) = JInt ttl"
    unfolding member by (rule integer_default [OF parses(6)]) (use wf in auto)
  note fields = db host level mx pt ttl
  show "config_ok (as_config d)"
    using fields by (simp add: config_ok_def as_config_def str_field_def int_field_def)
  show "\<exists>s. member ''databasePath'' (JStr (js ''./data/pausemesh.db'')) = JStr s \<and> cfg_databasePath (as_config d) = trim s"
    "\<exists>s. member ''host'' (JStr (js ''127.0.0.1'')) = JStr s \<and> cfg_host (as_config d) = trim s"
    "member ''logLevel'' (JStr (js ''info'')) = JStr (cfg_logLevel (as_config d))"
    "member ''maxPayloadBytes'' (JInt 65536) = JInt (cfg_maxPayloadBytes (as_config d))"
    "member ''port'' (JInt 8787) = JInt (cfg_port (as_config d))"
    "member ''tokenTtlSeconds'' (JInt 900) = JInt (cfg_tokenTtlSeconds (as_config d))"
    using fields by (simp_all add: as_config_def str_field_def int_field_def)
qed

end

lemma environment_plain: "js ''__proto__'' \<notin> fst ` set (environment_entries env m p t)"
proof
  assume "js ''__proto__'' \<in> fst ` set (environment_entries env m p t)"
  then obtain k x where "(k, x) \<in> set (present
      [(''databasePath'', map_option JStr (env ''PAUSEMESH_DATABASE_PATH'')),
       (''host'', map_option JStr (env ''PAUSEMESH_HOST'')),
       (''logLevel'', map_option JStr (env ''PAUSEMESH_LOG_LEVEL'')),
       (''maxPayloadBytes'', map_option JInt m), (''port'', map_option JInt p),
       (''tokenTtlSeconds'', map_option JInt t)])" "js k = js ''__proto__''"
    unfolding environment_entries_def by auto
  then show False by (auto dest!: present_mem)
qed

lemma environment_wf: "(k, x) \<in> set (environment_entries env m p t) \<Longrightarrow> json_wf x"
  by (auto simp: environment_entries_def Some_map_option dest!: present_mem)

context zod
begin

lemma loaded_config:
  assumes plain: "plain_file readTextFile" and load: "loadConfig sp env readTextFile = Inr cfg"
  obtains fs where "readJsonConfig (env ''PAUSEMESH_CONFIG_PATH'') readTextFile = Inr fs"
    "config_ok cfg" "config_from env fs cfg"
proof -
  obtain fs m p t d where read: "readJsonConfig (env ''PAUSEMESH_CONFIG_PATH'') readTextFile = Inr fs"
    and ints: "map_option JInt m = env_integer (env ''PAUSEMESH_MAX_PAYLOAD_BYTES'')"
      "map_option JInt p = env_integer (env ''PAUSEMESH_PORT'')"
      "map_option JInt t = env_integer (env ''PAUSEMESH_TOKEN_TTL_SECONDS'')"
    and parse: "sp PauseMeshConfigSchema (Some (JObj (js_obj (fs @ environment_entries env m p t)))) = Some (Some d)"
    and cfg: "cfg = as_config d"
    using load by (auto simp: loadConfig_def bindR_eq_Inr optionalInteger_Inr parse_or_eq)
  define es where "es = environment_entries env m p t"
  note fs = readJsonConfig_wf [OF read]
  define v where "v = JObj (js_obj (fs @ es))"
  have "js ''__proto__'' \<notin> fst ` set (js_obj (fs @ es))"
    using set_js_obj [of "fs @ es"] fs(3) [OF plain] environment_plain [of env m p t, folded es_def] by force
  then have plain': "plain_object (Some v)" by (simp add: v_def plain_object_def distinct_js_obj)
  have gets: "get k v = (case map_of es (js k) of Some x \<Rightarrow> Some x | None \<Rightarrow> map_of fs (js k))" for k
    by (simp only: v_def get.simps es_def map_of_merge [OF environment_entries_distinct] fs(1))
  have wf: "json_wf x" if "get k v = Some x" for k x
    using that environment_wf [of _ _ env m p t, folded es_def] fs(2) unfolding gets
    by (auto simp: list_all_iff dest!: map_of_SomeD split: option.splits)
  have configured: "configured (map_of es (js k)) fs k dv = (case get k v of Some x \<Rightarrow> x | None \<Rightarrow> dv)" for k dv
    by (simp add: configured_def gets split: option.splits)
  note env = map_of_environment [of env m p t, folded es_def, unfolded ints]
  note parsed = parsed_config [of v d "\<lambda>k dv. configured (map_of es (js k)) fs k dv", OF plain' wf _ configured]
  have "sp PauseMeshConfigSchema (Some v) = Some (Some d)" using parse by (simp only: v_def es_def)
  note parsed = parsed [OF _ this]
  have "config_from env fs cfg" using parsed(2-7) by (simp add: config_from_def cfg env)
  moreover have "config_ok cfg" using parsed(1) cfg by simp
  ultimately show thesis using that read by blast
qed

end

end
