(* ===== verification/HostProperties.thy ===== *)
theory HostProperties
  imports Scenario Config
begin

text \<open>
  The configuration a host loads: its bounds, and where each setting comes from.
\<close>

section \<open>Configuration\<close>

text \<open>
  A configuration that loads is within its bounds, and every setting is the value of its
  environment variable, else that of the file, else the default. A service built with its token
  lifetime is constructed: the constructor's check cannot fail.
\<close>

theorem loaded_configuration:
  assumes "zod sp" "plain_file readTextFile" "loadConfig sp env readTextFile = Inr cfg"
  shows "config_ok cfg \<and>
    (\<exists>fs. readJsonConfig (env ''PAUSEMESH_CONFIG_PATH'') readTextFile = Inr fs \<and> config_from env fs cfg) \<and>
    tokenTtlMilliseconds (cfg_tokenTtlSeconds cfg) = Inr (cfg_tokenTtlSeconds cfg * 1000)"
proof -
  obtain fs where fs: "readJsonConfig (env ''PAUSEMESH_CONFIG_PATH'') readTextFile = Inr fs"
    and ok: "config_ok cfg" and origin: "config_from env fs cfg"
    by (rule zod.loaded_config [OF assms])
  have "tokenTtlMilliseconds (cfg_tokenTtlSeconds cfg) = Inr (cfg_tokenTtlSeconds cfg * 1000)"
    using ok by (simp add: config_ok_def tokenTtlMilliseconds_def safe_int_def MAX_SAFE_INTEGER_def)
  with ok fs origin show ?thesis by blast
qed

definition sample_env :: "string \<rightharpoonup> jstr" where
  "sample_env = [''PAUSEMESH_PORT'' \<mapsto> js ''9000'']"

lemma sample_port: "integer_text (trim (js ''9000''))" "integer_value (trim (js ''9000'')) = 9000"
proof -
  have t: "trim (js ''9000'') = js ''9000''"
    by (rule trim_literal) (simp_all add: is_space_def word_unat_eq_iff unat_ch word_le_nat_alt)
  show "integer_text (trim (js ''9000''))" "integer_value (trim (js ''9000'')) = 9000"
    unfolding t
    by (simp_all add: integer_text_def integer_value_def js_def is_digit_def undec_def digit_val_def ch_def)
qed

theorem loaded_configuration_witness:
  "\<exists>cfg. loadConfig zod_ref sample_env (\<lambda>p. Inr []) = Inr cfg \<and> config_ok cfg \<and> cfg_port cfg = 9000"
proof -
  let ?load = "loadConfig zod_ref sample_env (\<lambda>p. Inr [])"
  have "readJsonConfig (sample_env ''PAUSEMESH_CONFIG_PATH'') (\<lambda>p. Inr []) = Inr []"
    by (simp add: readJsonConfig_def sample_env_def)
  moreover have "optionalInteger (sample_env ''PAUSEMESH_PORT'') ''PAUSEMESH_PORT'' = Inr (Some 9000)"
    by (simp add: optionalInteger_def sample_env_def sample_port)
  ultimately have "\<exists>cfg. ?load = Inr cfg"
    by (simp add: loadConfig_def optionalInteger_def sample_env_def environment_entries_def parse_or_def
      js_obj_id PauseMeshConfigSchema_def object_parse_def extra_fields_def default_parse_def number_parse_def
      num_le_ints safe_int_def MAX_SAFE_INTEGER_def)
  then obtain cfg where cfg: "?load = Inr cfg" ..
  have "plain_file (\<lambda>p. Inr [])"
    by (simp add: plain_file_def json_parse_def parse_text_def skip_ws_def)
  from loaded_configuration [OF zod_reference.zod_axioms this cfg] cfg show ?thesis
    by (auto simp: config_from_def configured_def env_integer_def sample_env_def sample_port)
qed

end
