(* ===== verification/AguiPreflight.thy ===== *)
theory AguiPreflight
  imports JsNumber
begin

text \<open>
  The bounded traversal of untrusted values in \<open>src/adapters/agui/interrupt.ts\<close>
  (\<open>parseInputLimits\<close>, \<open>passesInputPreflight\<close>). The values are a graph: an object is an address of
  a heap, and may be shared, contain itself, or unfold without end. The loop is a recursive function
  that terminates whatever the graph, because it never visits more nodes than its limit. The main
  fact: a graph passes exactly when the values unfold to finite trees of at most that many nodes and
  at most the given depth.
\<close>

section \<open>Values\<close>

text \<open>
  A value is primitive (anything \<open>typeof\<close> does not call an object or a function, or \<open>null\<close>) or a
  reference. The heap gives the values under \<open>Object.keys\<close> of an object; \<open>None\<close> is a read that
  throws (a proxy, or a getter).
\<close>

datatype js_node = Primitive | Ref nat

type_synonym js_heap = "nat \<Rightarrow> js_node option list option"

section \<open>The limits\<close>

definition DEFAULT_MAX_INPUT_DEPTH :: int where
  "DEFAULT_MAX_INPUT_DEPTH = 64"

definition DEFAULT_MAX_INPUT_NODES :: int where
  "DEFAULT_MAX_INPUT_NODES = 50000"

record agui_limits =
  maxInputDepth :: int
  maxInputNodes :: int

definition parseInputLimits :: "jsnum option \<Rightarrow> jsnum option \<Rightarrow> agui_limits option" where
  "parseInputLimits depthOption nodesOption =
     (let depth = (case depthOption of Some n \<Rightarrow> n | None \<Rightarrow> num_of_int DEFAULT_MAX_INPUT_DEPTH);
          nodes = (case nodesOption of Some n \<Rightarrow> n | None \<Rightarrow> num_of_int DEFAULT_MAX_INPUT_NODES)
      in if \<not> is_safe_integer depth \<or> num_less depth (num_of_int 1) \<or>
            \<not> is_safe_integer nodes \<or> num_less nodes (num_of_int 1)
         then None
         else Some \<lparr>maxInputDepth = int_of_num depth, maxInputNodes = int_of_num nodes\<rparr>)"

section \<open>The traversal\<close>

datatype agui_frame = Visit js_node int | Leave nat

text \<open>The reads of the values under the keys of an object: \<open>None\<close> if one of them throws.\<close>

fun read_all :: "'a option list \<Rightarrow> 'a list option" where
  "read_all [] = Some []"
| "read_all (v # vs) = (case v of None \<Rightarrow> None | Some x \<Rightarrow> map_option (\<lambda>xs. x # xs) (read_all vs))"

text \<open>
  The loop. The stack has its top first, so the frames pushed last come first; \<open>None\<close> is a throw. In
  a \<open>visit\<close> the code counts the node and checks the limits, leaves primitive values alone, rejects an
  object on the active path, checks that the nodes still to visit fit the limit, and pushes the
  object's \<open>leave\<close> frame below its values.
\<close>

function preflight :: "js_heap \<Rightarrow> agui_limits \<Rightarrow> agui_frame list \<Rightarrow> nat set \<Rightarrow> int \<Rightarrow> int \<Rightarrow> bool option" where
  "preflight h limits [] activePath visitedNodes pendingNodes = Some True"
| "preflight h limits (Leave a # stack) activePath visitedNodes pendingNodes =
     preflight h limits stack (activePath - {a}) visitedNodes pendingNodes"
| "preflight h limits (Visit v depth # stack) activePath visitedNodes pendingNodes =
     (let pending = pendingNodes - 1; visited = visitedNodes + 1
      in if visited > maxInputNodes limits \<or> depth > maxInputDepth limits then Some False
         else (case v of
           Primitive \<Rightarrow> preflight h limits stack activePath visited pending
         | Ref a \<Rightarrow>
             if a \<in> activePath then Some False
             else (case h a of
               None \<Rightarrow> None
             | Some keys \<Rightarrow>
                 if visited + pending + int (length keys) > maxInputNodes limits then Some False
                 else (case read_all keys of
                   None \<Rightarrow> None
                 | Some vs \<Rightarrow>
                     preflight h limits (map (\<lambda>w. Visit w (depth + 1)) vs @ Leave a # stack)
                       (insert a activePath) visited (pending + int (length keys))))))"
  by pat_completeness auto

termination
  by (relation "measures [\<lambda>(h, limits, stack, A, n, p). nat (maxInputNodes limits + 1 - n),
        \<lambda>(h, limits, stack, A, n, p). length stack]") auto

definition passesInputPreflight :: "js_heap \<Rightarrow> agui_limits \<Rightarrow> js_node list \<Rightarrow> bool option" where
  "passesInputPreflight h limits vs =
     preflight h limits (map (\<lambda>v. Visit v 0) vs) {} 0 (int (length vs))"

section \<open>The trees the values unfold to\<close>

datatype js_tree = Node (branches: "js_tree list")

primrec nodes :: "js_tree \<Rightarrow> int" where
  "nodes (Node ts) = 1 + sum_list (map nodes ts)"

primrec height :: "js_tree \<Rightarrow> int" where
  "height (Node ts) = foldr max (map (\<lambda>t. 1 + height t) ts) 0"

text \<open>A heap without throwing reads, as a map from objects to their values.\<close>

definition readable :: "js_heap \<Rightarrow> (nat \<Rightarrow> js_node list) \<Rightarrow> bool" where
  "readable h kids \<longleftrightarrow> (\<forall>a. h a = Some (map Some (kids a)))"

inductive unfolds :: "(nat \<Rightarrow> js_node list) \<Rightarrow> js_node \<Rightarrow> js_tree \<Rightarrow> bool" for kids where
  primitive: "unfolds kids Primitive (Node [])"
| object: "list_all2 (unfolds kids) (kids a) ts \<Longrightarrow> unfolds kids (Ref a) (Node ts)"

inductive_cases unfolds_RefE: "unfolds kids (Ref a) t"
inductive_cases unfolds_PrimitiveE: "unfolds kids Primitive t"

lemma unfolds_simps:
  "unfolds kids Primitive t \<longleftrightarrow> t = Node []"
  "unfolds kids (Ref a) t \<longleftrightarrow> (\<exists>ts. t = Node ts \<and> list_all2 (unfolds kids) (kids a) ts)"
  by (auto elim: unfolds_RefE unfolds_PrimitiveE intro: unfolds.intros)

lemma nodes_pos: "1 \<le> nodes t"
  by (induction t) (auto intro!: sum_list_nonneg simp: order.trans [of 0 1])

lemma nodes_length: "int (length ts) \<le> sum_list (map nodes ts)"
  by (induction ts) (use nodes_pos in \<open>auto simp: add_mono\<close>)

lemma foldr_max_le: "0 \<le> k \<Longrightarrow> foldr max xs (0::int) \<le> k \<longleftrightarrow> (\<forall>x \<in> set xs. x \<le> k)"
  by (induction xs) auto

lemma foldr_max_nonneg: "0 \<le> foldr max xs (0::int)"
  by (induction xs) auto

lemma height_nonneg: "0 \<le> height t"
  by (cases t) (simp add: foldr_max_nonneg)

text \<open>The tree of a value is unique.\<close>

lemma unfolds_unique: "unfolds kids v t \<Longrightarrow> unfolds kids v u \<Longrightarrow> t = u"
proof (induction arbitrary: u rule: unfolds.induct)
  case primitive
  then show ?case by (simp add: unfolds_simps)
next
  case (object a ts)
  then obtain us where u: "u = Node us" "list_all2 (unfolds kids) (kids a) us"
    by (auto simp: unfolds_simps)
  have "ts = us"
    using object.IH u(2) by (auto simp: list_all2_conv_all_nth intro!: nth_equalityI)
  with u show ?case by simp
qed

section \<open>Cycles do not unfold\<close>

inductive reaches :: "(nat \<Rightarrow> js_node list) \<Rightarrow> nat \<Rightarrow> js_node \<Rightarrow> bool" for kids a where
  child: "v \<in> set (kids a) \<Longrightarrow> reaches kids a v"
| deeper: "reaches kids a (Ref b) \<Longrightarrow> v \<in> set (kids b) \<Longrightarrow> reaches kids a v"

lemma branch_nodes: "u \<in> set ts \<Longrightarrow> nodes u < nodes (Node ts)"
proof (induction ts)
  case (Cons t ts)
  have "0 \<le> sum_list (map nodes ts)" using nodes_length [of ts] by linarith
  then show ?case using Cons nodes_pos [of t] by auto
qed simp

lemma unfolds_child:
  assumes "unfolds kids (Ref a) t" "v \<in> set (kids a)"
  obtains u where "unfolds kids v u" "nodes u < nodes t"
proof -
  obtain ts where t: "t = Node ts" "list_all2 (unfolds kids) (kids a) ts"
    using assms(1) by (auto simp: unfolds_simps)
  obtain i where "i < length (kids a)" "kids a ! i = v" using assms(2) by (auto simp: in_set_conv_nth)
  then have "unfolds kids v (ts ! i)" "ts ! i \<in> set ts"
    using t(2) by (auto simp: list_all2_conv_all_nth)
  then show thesis using that branch_nodes t(1) by blast
qed

lemma unfolds_reached:
  assumes "reaches kids a v" "unfolds kids (Ref a) t"
  shows "\<exists>u. unfolds kids v u \<and> nodes u < nodes t"
  using assms(1)
proof induction
  case (child v)
  then show ?case by (rule unfolds_child [OF assms(2)]) blast
next
  case (deeper b v)
  then obtain u where u: "unfolds kids (Ref b) u" "nodes u < nodes t" by blast
  obtain w where "unfolds kids v w" "nodes w < nodes u" by (rule unfolds_child [OF u(1) deeper(2)])
  with u(2) show ?case by (intro exI [of _ w]) simp
qed

lemma cycle_unfolds: "reaches kids a (Ref a) \<Longrightarrow> \<not> unfolds kids (Ref a) t"
  using unfolds_reached unfolds_unique by blast

section \<open>The traversal decides\<close>

text \<open>The objects on the active path and the values still to visit, from the stack.\<close>

fun leaves :: "agui_frame list \<Rightarrow> nat list" where
  "leaves [] = []"
| "leaves (Leave a # stack) = a # leaves stack"
| "leaves (Visit v d # stack) = leaves stack"

fun visits :: "agui_frame list \<Rightarrow> (js_node \<times> int) list" where
  "visits [] = []"
| "visits (Leave a # stack) = visits stack"
| "visits (Visit v d # stack) = (v, d) # visits stack"

text \<open>Every frame above the \<open>leave\<close> frame of an object is within that object.\<close>

fun linked :: "(nat \<Rightarrow> js_node list) \<Rightarrow> agui_frame list \<Rightarrow> bool" where
  "linked kids [] = True"
| "linked kids (Leave b # stack) =
     (linked kids stack \<and> (\<forall>a \<in> set (leaves stack). a \<noteq> b \<and> reaches kids a (Ref b)))"
| "linked kids (Visit v d # stack) = (linked kids stack \<and> (\<forall>a \<in> set (leaves stack). reaches kids a v))"

lemma stack_append [simp]:
  "leaves (map (\<lambda>w. Visit w d) vs @ stack) = leaves stack"
  "visits (map (\<lambda>w. Visit w d) vs @ stack) = map (\<lambda>w. (w, d)) vs @ visits stack"
  by (induction vs) simp_all

lemma linked_append:
  "linked kids (map (\<lambda>w. Visit w d) vs @ stack) \<longleftrightarrow>
    linked kids stack \<and> (\<forall>w \<in> set vs. \<forall>a \<in> set (leaves stack). reaches kids a w)"
  by (induction vs) auto

lemma linked_push:
  assumes "linked kids (Visit (Ref a) d # stack)" "a \<notin> set (leaves stack)"
  shows "linked kids (map (\<lambda>w. Visit w (d + 1)) (kids a) @ Leave a # stack)"
  using assms by (auto simp: linked_append intro: reaches.intros)

text \<open>The values still to visit unfold to trees within the limits.\<close>

definition within :: "(nat \<Rightarrow> js_node list) \<Rightarrow> agui_limits \<Rightarrow> (js_node \<times> int) list \<Rightarrow> int \<Rightarrow> bool" where
  "within kids limits vs n \<longleftrightarrow>
     (\<exists>ts. list_all2 (\<lambda>(v, d) t. unfolds kids v t \<and> d + height t \<le> maxInputDepth limits) vs ts \<and>
       n + sum_list (map nodes ts) \<le> maxInputNodes limits)"

lemma within_Nil [simp]: "within kids limits [] n \<longleftrightarrow> n \<le> maxInputNodes limits"
  by (simp add: within_def)

lemma within_Cons:
  "within kids limits ((v, d) # vs) n \<longleftrightarrow>
    (\<exists>t. unfolds kids v t \<and> d + height t \<le> maxInputDepth limits \<and> within kids limits vs (n + nodes t))"
  unfolding within_def by (force simp: list_all2_Cons1 add.assoc)

lemma within_mono: "within kids limits vs n \<Longrightarrow> m \<le> n \<Longrightarrow> within kids limits vs m"
  by (fastforce simp: within_def)

lemma within_count: "within kids limits vs n \<Longrightarrow> n + int (length vs) \<le> maxInputNodes limits"
proof -
  assume "within kids limits vs n"
  then obtain ts where ts: "list_all2 (\<lambda>(v, d) t. unfolds kids v t \<and> d + height t \<le> maxInputDepth limits) vs ts"
      "n + sum_list (map nodes ts) \<le> maxInputNodes limits"
    by (auto simp: within_def)
  then have "length vs = length ts" by (simp add: list_all2_lengthD)
  then show ?thesis using ts(2) nodes_length [of ts] by linarith
qed

lemma within_append:
  "within kids limits (us @ vs) n \<longleftrightarrow>
    (\<exists>ts. list_all2 (\<lambda>(v, d) t. unfolds kids v t \<and> d + height t \<le> maxInputDepth limits) us ts \<and>
      within kids limits vs (n + sum_list (map nodes ts)))" (is "_ \<longleftrightarrow> (\<exists>ts. list_all2 ?P us ts \<and> _)")
proof (induction us arbitrary: n)
  case (Cons u us)
  obtain v d where u: "u = (v, d)" by (cases u)
  have "within kids limits ((u # us) @ vs) n \<longleftrightarrow>
      (\<exists>t ts. ?P u t \<and> list_all2 ?P us ts \<and> within kids limits vs (n + nodes t + sum_list (map nodes ts)))"
    by (auto simp: u within_Cons Cons.IH)
  also have "\<dots> \<longleftrightarrow> (\<exists>ts. list_all2 ?P (u # us) ts \<and> within kids limits vs (n + sum_list (map nodes ts)))"
    unfolding list_all2_Cons1 by (metis (no_types, lifting) add.assoc list.simps(9) sum_list.Cons)
  finally show ?case .
qed simp

lemma height_Node: "0 \<le> k \<Longrightarrow> height (Node ts) \<le> k \<longleftrightarrow> (\<forall>t \<in> set ts. 1 + height t \<le> k)"
  by (simp add: foldr_max_le)

lemma within_object:
  assumes "d \<le> maxInputDepth limits"
  shows "within kids limits ((Ref a, d) # vs) n \<longleftrightarrow>
    within kids limits (map (\<lambda>w. (w, d + 1)) (kids a) @ vs) (n + 1)"
proof -
  have deep: "d + height (Node ts) \<le> maxInputDepth limits \<longleftrightarrow>
      (\<forall>t \<in> set ts. d + 1 + height t \<le> maxInputDepth limits)" for ts
    using height_Node [of "maxInputDepth limits - d" ts] assms by (auto simp: algebra_simps simp del: height.simps)
  have trees: "list_all2 (\<lambda>(v, e) t. unfolds kids v t \<and> e + height t \<le> maxInputDepth limits)
        (map (\<lambda>w. (w, d + 1)) (kids a)) ts \<longleftrightarrow>
      list_all2 (unfolds kids) (kids a) ts \<and> (\<forall>t \<in> set ts. d + 1 + height t \<le> maxInputDepth limits)" for ts
    by (auto simp: list_all2_conv_all_nth all_set_conv_all_nth)
  show ?thesis
    unfolding within_Cons within_append trees unfolds_simps deep [symmetric]
    by (auto simp: algebra_simps simp del: height.simps)
qed

lemma read_all_Some [simp]: "read_all (map Some vs) = Some vs"
  by (induction vs) simp_all

lemma preflight_decides:
  assumes "readable h kids" "linked kids stack" "A = set (leaves stack)" "p = int (length (visits stack))"
    and "n \<le> maxInputNodes limits"
  shows "preflight h limits stack A n p = Some (within kids limits (visits stack) n)"
  using assms
proof (induction h limits stack A n p rule: preflight.induct)
  case (2 h limits a stack A n p)
  then have "a \<notin> set (leaves stack)" by auto
  then have "A - {a} = set (leaves stack)" using 2 by auto
  then show ?case using 2 by simp
next
  case (3 h limits v d stack A n p)
  note N = within_count [of kids limits "visits (Visit v d # stack)" n]
  show ?case
  proof (cases "n + 1 > maxInputNodes limits \<or> d > maxInputDepth limits")
    case True
    have "\<not> within kids limits ((v, d) # visits stack) n"
    proof
      assume within: "within kids limits ((v, d) # visits stack) n"
      then obtain t where "d + height t \<le> maxInputDepth limits" by (auto simp: within_Cons)
      then show False using True N within height_nonneg [of t] by simp
    qed
    then show ?thesis using True by simp
  next
    case ok: False
    show ?thesis
    proof (cases v)
      case Primitive
      then show ?thesis using 3 ok by (simp add: within_Cons unfolds_simps)
    next
      case (Ref a)
      note h = "3.prems"(1) [unfolded readable_def, rule_format, of a]
      show ?thesis
      proof (cases "a \<in> A")
        case True
        then have "reaches kids a (Ref a)" using 3 Ref by auto
        then have "\<not> within kids limits ((Ref a, d) # visits stack) n"
          using cycle_unfolds by (auto simp: within_Cons)
        then show ?thesis using ok True Ref by simp
      next
        case False
        have eq: "within kids limits ((Ref a, d) # visits stack) n \<longleftrightarrow>
            within kids limits (map (\<lambda>w. (w, d + 1)) (kids a) @ visits stack) (n + 1)"
          using within_object ok by simp
        show ?thesis
        proof (cases "n + 1 + (p - 1) + int (length (kids a)) > maxInputNodes limits")
          case True
          then have "\<not> within kids limits (map (\<lambda>w. (w, d + 1)) (kids a) @ visits stack) (n + 1)"
            using within_count [of kids limits "map (\<lambda>w. (w, d + 1)) (kids a) @ visits stack" "n + 1"] "3.prems"(4)
            by auto
          then show ?thesis using ok False True Ref h eq by simp
        next
          case fit: False
          have "linked kids (map (\<lambda>w. Visit w (d + 1)) (kids a) @ Leave a # stack)"
            using linked_push [of kids a d stack] "3.prems"(2,3) Ref False by simp
          then have "preflight h limits (map (\<lambda>w. Visit w (d + 1)) (kids a) @ Leave a # stack) (insert a A) (n + 1)
              (p - 1 + int (length (kids a))) =
            Some (within kids limits (visits (map (\<lambda>w. Visit w (d + 1)) (kids a) @ Leave a # stack)) (n + 1))"
            using "3.IH"(2) [of "p - 1" "n + 1" a "map Some (kids a)" "kids a"] ok Ref False h fit "3.prems" by simp
          then show ?thesis using ok False Ref h fit eq by simp
        qed
      qed
    qed
  qed
qed simp_all

text \<open>What a value must unfold to.\<close>

definition small_tree :: "(nat \<Rightarrow> js_node list) \<Rightarrow> agui_limits \<Rightarrow> js_node list \<Rightarrow> bool" where
  "small_tree kids limits vs \<longleftrightarrow>
     (\<exists>ts. list_all2 (unfolds kids) vs ts \<and> (\<forall>t \<in> set ts. height t \<le> maxInputDepth limits) \<and>
       sum_list (map nodes ts) \<le> maxInputNodes limits)"

lemma passes_iff:
  assumes "readable h kids" "0 \<le> maxInputNodes limits"
  shows "passesInputPreflight h limits vs = Some (small_tree kids limits vs)"
proof -
  note stack = stack_append [of 0 vs "[]", simplified] linked_append [of kids 0 vs "[]", simplified]
  have "preflight h limits (map (\<lambda>v. Visit v 0) vs) {} 0 (int (length vs)) =
      Some (within kids limits (map (\<lambda>v. (v, 0)) vs) 0)"
    by (subst preflight_decides [OF assms(1)]) (simp_all add: stack assms(2))
  moreover have "within kids limits (map (\<lambda>v. (v, 0)) vs) 0 \<longleftrightarrow> small_tree kids limits vs"
  proof -
    have "list_all2 (\<lambda>(v, d) t. unfolds kids v t \<and> d + height t \<le> maxInputDepth limits) (map (\<lambda>v. (v, 0)) vs) ts \<longleftrightarrow>
        list_all2 (unfolds kids) vs ts \<and> (\<forall>t \<in> set ts. height t \<le> maxInputDepth limits)" for ts
      by (auto simp: list_all2_conv_all_nth all_set_conv_all_nth)
    then show ?thesis unfolding within_def small_tree_def by simp
  qed
  ultimately show ?thesis by (simp add: passesInputPreflight_def)
qed

lemma parseInputLimits_Some:
  "parseInputLimits dep nod = Some limits \<Longrightarrow> 1 \<le> maxInputDepth limits \<and> 1 \<le> maxInputNodes limits"
  by (auto simp: parseInputLimits_def Let_def num_less_def is_safe_integer_def num_le_ints split: if_splits)

end
