(* ===== verification/Agui.thy ===== *)
theory Agui
  imports Protocol AguiPreflight CanonicalJson
begin

text \<open>
  \<open>src/adapters/agui/interrupt.ts\<close>: the interrupts a cohort of pending continuations is projected to,
  the receipt the host keeps of them, and the commands a later run input is turned into once it
  has been checked against the receipt and the current continuations.

  Parameters: the zod parser \<open>sp\<close>; \<open>sha\<close>, the hex digest of \<open>createHash("sha256")\<close> of a text;
  \<open>RunAgentInputSchema.safeParse\<close> of \<open>@ag-ui/core\<close>; the host's payload validator.
\<close>

section \<open>Schemas\<close>

definition AguiContinuationPayloadSchema :: schema where
  "AguiContinuationPayloadSchema = ZObject Passthrough
     [(js ''kind'', ZDefault (ZEnum [js ''input'', js ''authorization'']) (JStr (js ''input''))),
      (js ''message'', ZString [MinLength 1]),
      (js ''responseSchema'', ZOptional (ZRecord ZUnknown))]"

definition AguiRunBindingSchema :: schema where
  "AguiRunBindingSchema = ZObject Strict
     [(js ''runId'', OpaqueProtocolIdSchema), (js ''threadId'', OpaqueProtocolIdSchema)]"

definition AguiReceiptInterruptSchema :: schema where
  "AguiReceiptInterruptSchema = ZObject Strict
     [(js ''continuationId'', OpaqueProtocolIdSchema),
      (js ''expiresAt'', ZIsoDatetime True),
      (js ''issuedVersion'', ZNumber [IsInt, Positive, Safe]),
      (js ''payloadHash'', ZString [StrCheck hex64])]"

text \<open>The regular expression \<open>/^agui-cohort:[a-f\d]{64}$/\<close>.\<close>

definition cohort_id_ok :: "jstr \<Rightarrow> bool" where
  "cohort_id_ok s \<longleftrightarrow> prefix (js ''agui-cohort:'') s \<and> hex64 (drop 12 s)"

definition AguiInterruptReceiptSchema :: schema where
  "AguiInterruptReceiptSchema = ZObject Strict
     [(js ''schemaVersion'', ZLiteral (JInt 1)),
      (js ''cohortId'', ZString [StrCheck cohort_id_ok]),
      (js ''threadId'', OpaqueProtocolIdSchema),
      (js ''runId'', OpaqueProtocolIdSchema),
      (js ''interrupts'', ZArray AguiReceiptInterruptSchema 1)]"

section \<open>Receipts\<close>

record agui_receipt_interrupt =
  ri_continuation :: jstr
  ri_expiresAt :: jstr
  ri_issuedVersion :: int
  ri_payloadHash :: jstr

text \<open>The schema version of a receipt is the literal 1.\<close>

record agui_descriptor =
  rd_threadId :: jstr
  rd_runId :: jstr
  rd_interrupts :: "agui_receipt_interrupt list"

record agui_receipt = agui_descriptor +
  rd_cohortId :: jstr

definition receipt_interrupt_json :: "agui_receipt_interrupt \<Rightarrow> json" where
  "receipt_interrupt_json i = obj
     [(''continuationId'', JStr (ri_continuation i)), (''expiresAt'', JStr (ri_expiresAt i)),
      (''issuedVersion'', JInt (ri_issuedVersion i)), (''payloadHash'', JStr (ri_payloadHash i))]"

definition receiptDescriptor :: "'a agui_descriptor_scheme \<Rightarrow> json" where
  "receiptDescriptor receipt = obj
     [(''schemaVersion'', JInt 1), (''threadId'', JStr (rd_threadId receipt)),
      (''runId'', JStr (rd_runId receipt)),
      (''interrupts'', JArr (map receipt_interrupt_json (rd_interrupts receipt)))]"

definition hashJson :: "(jstr \<Rightarrow> jstr) \<Rightarrow> json \<Rightarrow> jstr" where
  "hashJson sha v = sha (canonicalJson v)"

definition cohortId :: "(jstr \<Rightarrow> jstr) \<Rightarrow> 'a agui_descriptor_scheme \<Rightarrow> jstr" where
  "cohortId sha receipt =
     js ''agui-cohort:'' @ hashJson sha (JArr [JStr (js ''agui-cohort-v1''), receiptDescriptor receipt])"

definition resumeIdempotencyKey :: "(jstr \<Rightarrow> jstr) \<Rightarrow> jstr \<Rightarrow> jstr \<Rightarrow> jstr \<Rightarrow> json \<Rightarrow> jstr" where
  "resumeIdempotencyKey sha threadId interruptId status p =
     js ''agui:'' @ hashJson sha
       (JArr [JStr (js ''agui-v1''), JStr threadId, JStr interruptId, JStr status, JBool True, p])"

text \<open>The object \<open>{...descriptor, cohortId}\<close>, and the reading of one the schema has accepted.\<close>

definition receipt_json :: "agui_receipt \<Rightarrow> json" where
  "receipt_json r = obj
     [(''schemaVersion'', JInt 1), (''threadId'', JStr (rd_threadId r)), (''runId'', JStr (rd_runId r)),
      (''interrupts'', JArr (map receipt_interrupt_json (rd_interrupts r))),
      (''cohortId'', JStr (rd_cohortId r))]"

definition as_receipt_interrupt :: "json \<Rightarrow> agui_receipt_interrupt" where
  "as_receipt_interrupt d =
     \<lparr>ri_continuation = str_field ''continuationId'' d, ri_expiresAt = str_field ''expiresAt'' d,
      ri_issuedVersion = int_field ''issuedVersion'' d, ri_payloadHash = str_field ''payloadHash'' d\<rparr>"

definition as_receipt :: "json \<Rightarrow> agui_receipt" where
  "as_receipt d =
     \<lparr>rd_threadId = str_field ''threadId'' d, rd_runId = str_field ''runId'' d,
      rd_interrupts = (case get ''interrupts'' d of Some (JArr vs) \<Rightarrow> map as_receipt_interrupt vs | _ \<Rightarrow> []),
      rd_cohortId = str_field ''cohortId'' d\<rparr>"

section \<open>Issuing\<close>

text \<open>
  \<open>withOutboundAdapterBoundary\<close>: a protocol error is passed on, any other exception (\<open>None\<close>) becomes
  one with the given message.
\<close>

definition withOutboundAdapterBoundary ::
    "jstr \<Rightarrow> (protocol_error option, 'a) result \<Rightarrow> (protocol_error, 'a) result" where
  "withOutboundAdapterBoundary message operation =
     (case operation of
        Inr x \<Rightarrow> Inr x
      | Inl (Some e) \<Rightarrow> Inl e
      | Inl None \<Rightarrow> Inl (ProtocolAdapterError INVALID_PROTOCOL_MESSAGE message))"

definition agui_requirePending :: "envelope \<Rightarrow> (protocol_error option, unit) result" where
  "agui_requirePending continuation =
     guardR (env_status continuation = StPending)
       (Some (ProtocolAdapterError INVALID_PROTOCOL_TRANSITION
         (js ''Cannot project a '' @ status_str (env_status continuation) @
          js '' continuation as an AG-UI interrupt'')))"

definition parseBinding :: "(schema \<Rightarrow> zparser) \<Rightarrow> zvalue \<Rightarrow> (protocol_error option, json) result" where
  "parseBinding sp rawBinding =
     parse_or sp AguiRunBindingSchema rawBinding
       (Some (ProtocolAdapterError INVALID_PROTOCOL_BINDING (js ''AG-UI run binding is not protocol-valid'')))"

definition parseContinuationPayload ::
    "(schema \<Rightarrow> zparser) \<Rightarrow> envelope \<Rightarrow> (protocol_error option, json) result" where
  "parseContinuationPayload sp continuation =
     (let invalid = Some (ProtocolAdapterError INVALID_PROTOCOL_MESSAGE
            (js ''Continuation payload cannot be projected as an AG-UI interrupt''))
      in bindR (parse_or sp AguiContinuationPayloadSchema (Some (env_payload continuation)) invalid) (\<lambda>data.
         bindR (guardR (accepts sp ZJson (Some (env_payload continuation))) invalid) (\<lambda>_.
         Inr data)))"

text \<open>The callback over the continuations, with the ids seen so far.\<close>

fun agui_project ::
    "(schema \<Rightarrow> zparser) \<Rightarrow> jstr \<Rightarrow> jstr set \<Rightarrow> envelope list \<Rightarrow> (protocol_error option, (envelope \<times> json) list) result" where
  "agui_project sp threadId ids [] = Inr []"
| "agui_project sp threadId ids (continuation # continuations) =
     bindR (agui_requirePending continuation) (\<lambda>_.
     bindR (guardR (env_correlationId continuation = threadId)
       (Some (ProtocolAdapterError INVALID_PROTOCOL_BINDING
         (js ''AG-UI run binding thread does not match the continuation correlation ID'')))) (\<lambda>_.
     bindR (guardR (accepts sp OpaqueProtocolIdSchema (Some (JStr (env_continuationId continuation))) \<and>
         env_continuationId continuation \<notin> ids)
       (Some (ProtocolAdapterError INVALID_PROTOCOL_BINDING
         (js ''AG-UI interrupt cohort contains an invalid or duplicate continuation ID'')))) (\<lambda>_.
     bindR (parseContinuationPayload sp continuation) (\<lambda>payload.
     bindR (agui_project sp threadId (insert (env_continuationId continuation) ids) continuations) (\<lambda>rest.
     Inr ((continuation, payload) # rest))))))"

definition issued_interrupt :: "(jstr \<Rightarrow> jstr) \<Rightarrow> envelope \<Rightarrow> agui_receipt_interrupt" where
  "issued_interrupt sha continuation =
     \<lparr>ri_continuation = env_continuationId continuation, ri_expiresAt = env_expiresAt continuation,
      ri_issuedVersion = env_version continuation, ri_payloadHash = hashJson sha (env_payload continuation)\<rparr>"

definition interrupt_json :: "envelope \<times> json \<Rightarrow> json" where
  "interrupt_json = (\<lambda>(continuation, payload). obj
     ([(''id'', JStr (env_continuationId continuation)),
       (''reason'', JStr (if get ''kind'' payload = Some (JStr (js ''authorization''))
          then js ''pausemesh:authorization_required'' else js ''input_required'')),
       (''message'', json_field ''message'' payload),
       (''expiresAt'', JStr (env_expiresAt continuation))] @
      present [(''responseSchema'', get ''responseSchema'' payload)] @
      [(''metadata'', obj [(''pausemesh'', obj
         [(''continuationId'', JStr (env_continuationId continuation)), (''schemaVersion'', JInt 1)])])]))"

record agui_issuance =
  ai_event :: json
  ai_receipt :: agui_receipt

definition issueAguiInterrupts ::
    "(schema \<Rightarrow> zparser) \<Rightarrow> (jstr \<Rightarrow> jstr) \<Rightarrow> envelope list \<Rightarrow> zvalue \<Rightarrow> (protocol_error, agui_issuance) result" where
  "issueAguiInterrupts sp sha continuations rawBinding =
     withOutboundAdapterBoundary (js ''AG-UI interrupt projection failed'')
       (bindR (parseBinding sp rawBinding) (\<lambda>binding.
        bindR (guardR (continuations \<noteq> [])
          (Some (ProtocolAdapterError INVALID_PROTOCOL_BINDING
            (js ''AG-UI interrupt projection requires at least one continuation'')))) (\<lambda>_.
        bindR (agui_project sp (str_field ''threadId'' binding) {} continuations) (\<lambda>projected.
        let descriptor =
              \<lparr>rd_threadId = str_field ''threadId'' binding, rd_runId = str_field ''runId'' binding,
               rd_interrupts = map (issued_interrupt sha \<circ> fst) projected\<rparr>;
            receipt = agui_descriptor.extend descriptor \<lparr>rd_cohortId = cohortId sha descriptor\<rparr>
        in
        bindR (guardR (accepts sp AguiInterruptReceiptSchema (Some (receipt_json receipt)))
          (Some (ProtocolAdapterError INVALID_PROTOCOL_MESSAGE
            (js ''Continuation cohort cannot be represented by an AG-UI issuance receipt'')))) (\<lambda>_.
        Inr \<lparr>ai_event = obj
               [(''type'', JStr (js ''RUN_FINISHED'')),
                (''threadId'', json_field ''threadId'' binding),
                (''runId'', json_field ''runId'' binding),
                (''outcome'', obj
                   [(''type'', JStr (js ''interrupt'')), (''interrupts'', JArr (map interrupt_json projected))])],
             ai_receipt = receipt\<rparr>)))))"

text \<open>The answer of a client to one interrupt: a payload, or \<open>None\<close> for a cancellation.\<close>

definition toAguiResumeEntry ::
    "(schema \<Rightarrow> zparser) \<Rightarrow> zvalue \<Rightarrow> zvalue option \<Rightarrow> (protocol_error, json) result" where
  "toAguiResumeEntry sp interruptId decision =
     withOutboundAdapterBoundary (js ''AG-UI resume entry projection failed'')
       (bindR (parse_or sp OpaqueProtocolIdSchema interruptId
          (Some (ProtocolAdapterError INVALID_PROTOCOL_MESSAGE (js ''AG-UI interrupt ID is not protocol-valid'')))) (\<lambda>parsedId.
        (case decision of
           None \<Rightarrow> Inr (obj [(''interruptId'', parsedId), (''status'', JStr (js ''cancelled''))])
         | Some rawPayload \<Rightarrow>
             bindR (parse_or sp ZJson rawPayload
               (Some (ProtocolAdapterError INVALID_PROTOCOL_MESSAGE (js ''AG-UI resume payload must be valid JSON'')))) (\<lambda>payload.
             Inr (obj [(''interruptId'', parsedId), (''status'', JStr (js ''resolved'')), (''payload'', payload)])))))"

end
