(* ===== verification/AguiResume.thy ===== *)
theory AguiResume
  imports Agui
begin

text \<open>
  The other half of \<open>src/adapters/agui/interrupt.ts\<close>: \<open>fromAguiRunAgentInput\<close>, which checks a run
  input against the receipt of an interrupt cohort and the current continuations, and turns it
  into resume and cancel commands, or into one run error.
\<close>

section \<open>Errors and commands\<close>

datatype agui_error_code =
    PAUSEMESH_AGUI_INVALID_INPUT
  | PAUSEMESH_AGUI_RESUME_REQUIRED
  | PAUSEMESH_AGUI_THREAD_MISMATCH
  | PAUSEMESH_AGUI_DUPLICATE_INTERRUPT
  | PAUSEMESH_AGUI_RESUME_SET_MISMATCH
  | PAUSEMESH_AGUI_RESUME_EXPIRED
  | PAUSEMESH_AGUI_INVALID_ENTRY
  | PAUSEMESH_AGUI_INVALID_PAYLOAD
  | PAUSEMESH_AGUI_REPLAY_CONFLICT

datatype agui_run_error = RunError (re_code: agui_error_code) (re_message: jstr)

text \<open>The reason of a cancellation is always \<open>agui:cancelled\<close>.\<close>

definition AGUI_CANCELLED :: jstr where
  "AGUI_CANCELLED = js ''agui:cancelled''"

datatype agui_command =
    ResumeCommand (cmd_continuationId: jstr) (cmd_idempotencyKey: jstr) (cmd_resumePayload: json)
  | CancelCommand (cmd_continuationId: jstr) (cmd_expectedVersion: int)

definition runError :: "agui_error_code \<Rightarrow> string \<Rightarrow> (agui_run_error, 'a) result" where
  "runError code message = Inl (RunError code (js message))"

definition unsafeInputError :: "(agui_run_error, 'a) result" where
  "unsafeInputError = runError PAUSEMESH_AGUI_INVALID_INPUT ''AG-UI resume input could not be safely processed''"

text \<open>\<open>if (!b) return runError(code, message)\<close>\<close>

definition require :: "bool \<Rightarrow> agui_error_code \<Rightarrow> string \<Rightarrow> (agui_run_error, unit) result" where
  "require b code message = guardR b (RunError code (js message))"

section \<open>What comes in\<close>

text \<open>
  What the program reads of a run input that \<open>RunAgentInputSchema\<close> has parsed. The payload of an
  entry is \<open>None\<close> when it is absent or \<open>undefined\<close>.
\<close>

record agui_entry =
  ae_interruptId :: jstr
  ae_status :: jstr
  ae_payload :: zvalue

record agui_run_input =
  in_threadId :: jstr
  in_resume :: "agui_entry list option"

text \<open>
  The validator of the host: \<open>None\<close> if it throws; else whether it answered \<open>valid: true\<close>, and its copy
  of the payload as it left it.
\<close>

type_synonym agui_validator = "envelope \<Rightarrow> json \<Rightarrow> json \<Rightarrow> (bool \<times> zvalue) option"

record agui_options =
  op_now :: "jsdate option"
  op_validatePayload :: "agui_validator option"
  op_maxInputDepth :: "jsnum option"
  op_maxInputNodes :: "jsnum option"

section \<open>Checks\<close>

definition validateReceipt ::
    "(schema \<Rightarrow> zparser) \<Rightarrow> (jstr \<Rightarrow> jstr) \<Rightarrow> zvalue \<Rightarrow> (agui_run_error, agui_receipt) result" where
  "validateReceipt sp sha rawReceipt =
     bindR (parse_or sp AguiInterruptReceiptSchema rawReceipt
       (RunError PAUSEMESH_AGUI_INVALID_INPUT (js ''AG-UI issuance receipt is invalid''))) (\<lambda>d.
     let receipt = as_receipt d
     in bindR (require (rd_cohortId receipt = cohortId sha receipt)
          PAUSEMESH_AGUI_INVALID_INPUT ''AG-UI issuance receipt was altered'') (\<lambda>_.
        bindR (require (length (remdups (map ri_continuation (rd_interrupts receipt))) =
              length (rd_interrupts receipt))
          PAUSEMESH_AGUI_INVALID_INPUT ''AG-UI issuance receipt contains a duplicate interrupt'') (\<lambda>_.
        Inr receipt)))"

text \<open>\<open>new Map(currentContinuations.map(...))\<close>: of equal ids the last counts.\<close>

definition continuations_by_id :: "envelope list \<Rightarrow> jstr \<rightharpoonup> envelope" where
  "continuations_by_id currents = map_of (rev (map (\<lambda>c. (env_continuationId c, c)) currents))"

definition issued_matches ::
    "(schema \<Rightarrow> zparser) \<Rightarrow> (jstr \<Rightarrow> jstr) \<Rightarrow> agui_receipt \<Rightarrow> agui_receipt_interrupt \<Rightarrow> envelope \<Rightarrow> bool" where
  "issued_matches sp sha receipt issued continuation =
     (let expectedVersion = (if env_status continuation = StPending then ri_issuedVersion issued
            else ri_issuedVersion issued + 1)
      in (case sp ZJson (Some (env_payload continuation)) of
            Some (Some p) \<Rightarrow>
              \<not> (env_correlationId continuation \<noteq> rd_threadId receipt \<or>
                 env_expiresAt continuation \<noteq> ri_expiresAt issued \<or>
                 env_version continuation \<noteq> expectedVersion \<or>
                 hashJson sha p \<noteq> ri_payloadHash issued)
          | _ \<Rightarrow> False))"

fun check_issued ::
    "(schema \<Rightarrow> zparser) \<Rightarrow> (jstr \<Rightarrow> jstr) \<Rightarrow> agui_receipt \<Rightarrow> (jstr \<rightharpoonup> envelope) \<Rightarrow>
     agui_receipt_interrupt list \<Rightarrow> (agui_run_error, unit) result" where
  "check_issued sp sha receipt byId [] = Inr ()"
| "check_issued sp sha receipt byId (issued # rest) =
     (case byId (ri_continuation issued) of
        None \<Rightarrow> runError PAUSEMESH_AGUI_RESUME_SET_MISMATCH ''Current continuations omit an issued interrupt''
      | Some continuation \<Rightarrow>
          bindR (require (issued_matches sp sha receipt issued continuation) PAUSEMESH_AGUI_REPLAY_CONFLICT
            ''Current continuation state does not match the issued interrupt receipt'') (\<lambda>_.
          check_issued sp sha receipt byId rest))"

definition validateCurrentCohort ::
    "(schema \<Rightarrow> zparser) \<Rightarrow> (jstr \<Rightarrow> jstr) \<Rightarrow> agui_receipt \<Rightarrow> envelope list \<Rightarrow>
     (agui_run_error, jstr \<rightharpoonup> envelope) result" where
  "validateCurrentCohort sp sha receipt currents =
     (let size = length (remdups (map env_continuationId currents))
      in bindR (require (\<not> (size \<noteq> length currents \<or> size \<noteq> length (rd_interrupts receipt)))
           PAUSEMESH_AGUI_RESUME_SET_MISMATCH
           ''Current continuations do not match the complete issued interrupt cohort'') (\<lambda>_.
         bindR (check_issued sp sha receipt (continuations_by_id currents) (rd_interrupts receipt)) (\<lambda>_.
         Inr (continuations_by_id currents))))"

definition validatePayloadWithPolicy ::
    "(schema \<Rightarrow> zparser) \<Rightarrow> envelope \<Rightarrow> json \<Rightarrow> json \<Rightarrow> agui_validator option \<Rightarrow> (agui_run_error, unit) result" where
  "validatePayloadWithPolicy sp continuation p responseSchema validator =
     (case validator of
        None \<Rightarrow> runError PAUSEMESH_AGUI_INVALID_PAYLOAD ''AG-UI response-schema validation policy is required''
      | Some validate \<Rightarrow>
          (case validate continuation p responseSchema of
             None \<Rightarrow> runError PAUSEMESH_AGUI_INVALID_PAYLOAD ''AG-UI resume payload validation failed''
           | Some (valid, validationPayload) \<Rightarrow>
               bindR (require valid PAUSEMESH_AGUI_INVALID_PAYLOAD
                 ''AG-UI resume payload does not match its response schema'') (\<lambda>_.
               require (case sp ZJson validationPayload of
                   Some (Some reparsed) \<Rightarrow> canonicalJson reparsed = canonicalJson p
                 | _ \<Rightarrow> False)
                 PAUSEMESH_AGUI_INVALID_PAYLOAD ''AG-UI resume payload validation must not mutate the payload'')))"

section \<open>The command of one entry\<close>

definition cancel_command ::
    "jsdate \<Rightarrow> agui_receipt_interrupt \<Rightarrow> envelope \<Rightarrow> agui_entry \<Rightarrow> (agui_run_error, agui_command) result" where
  "cancel_command now issued continuation entry =
     bindR (require (ae_payload entry = None) PAUSEMESH_AGUI_INVALID_ENTRY
       ''A cancelled AG-UI resume entry must omit payload'') (\<lambda>_.
     bindR (require (\<not> (env_status continuation = StResumed \<or>
           (env_status continuation = StCancelled \<and>
            state_reason (env_state continuation) \<noteq> Some AGUI_CANCELLED)))
       PAUSEMESH_AGUI_REPLAY_CONFLICT ''AG-UI resume conflicts with the completed interrupt outcome'') (\<lambda>_.
     bindR (require (env_status continuation \<noteq> StExpired)
       PAUSEMESH_AGUI_RESUME_EXPIRED ''AG-UI resume references an expired interrupt'') (\<lambda>_.
     bindR (require (\<not> (env_status continuation = StPending \<and>
           js_le (date_parse (env_expiresAt continuation)) (getTime now)))
       PAUSEMESH_AGUI_RESUME_EXPIRED ''AG-UI resume arrived after an interrupt expired'') (\<lambda>_.
     Inr (CancelCommand (env_continuationId continuation) (ri_issuedVersion issued))))))"

definition resume_command ::
    "(schema \<Rightarrow> zparser) \<Rightarrow> (jstr \<Rightarrow> jstr) \<Rightarrow> agui_validator option \<Rightarrow> jsdate \<Rightarrow> agui_receipt \<Rightarrow> envelope \<Rightarrow> json \<Rightarrow>
     agui_entry \<Rightarrow> (agui_run_error, agui_command) result" where
  "resume_command sp sha validator now receipt continuation contract entry =
     bindR (require (ae_payload entry \<noteq> None) PAUSEMESH_AGUI_INVALID_PAYLOAD
       ''A resolved AG-UI resume entry must include payload'') (\<lambda>_.
     bindR (parse_or sp ZJson (ae_payload entry) (RunError PAUSEMESH_AGUI_INVALID_PAYLOAD
       (js ''A resolved AG-UI resume entry must contain valid JSON''))) (\<lambda>stableResumePayload.
     bindR (require (get ''kind'' contract \<noteq> Some (JStr (js ''authorization''))) PAUSEMESH_AGUI_INVALID_ENTRY
       ''Authorization credentials must be delivered through a trusted out-of-band callback'') (\<lambda>_.
     let idempotencyKey = resumeIdempotencyKey sha (rd_threadId receipt) (env_continuationId continuation)
           (js ''resolved'') stableResumePayload;
         command = ResumeCommand (env_continuationId continuation) idempotencyKey stableResumePayload
     in
     (case env_state continuation of
        ResumedState _ key p \<Rightarrow>
          bindR (require (\<not> (key \<noteq> idempotencyKey \<or> canonicalJson p \<noteq> canonicalJson stableResumePayload))
            PAUSEMESH_AGUI_REPLAY_CONFLICT ''AG-UI resume conflicts with the completed interrupt outcome'') (\<lambda>_.
          Inr command)
      | CancelledState _ _ \<Rightarrow>
          runError PAUSEMESH_AGUI_REPLAY_CONFLICT ''AG-UI resume conflicts with the completed interrupt outcome''
      | _ \<Rightarrow>
          bindR (require (\<not> (env_status continuation = StExpired \<or>
                js_le (date_parse (env_expiresAt continuation)) (getTime now)))
            PAUSEMESH_AGUI_RESUME_EXPIRED ''AG-UI resume references an expired interrupt'') (\<lambda>_.
          bindR (case get ''responseSchema'' contract of
              None \<Rightarrow> Inr ()
            | Some responseSchema \<Rightarrow>
                validatePayloadWithPolicy sp continuation stableResumePayload responseSchema validator) (\<lambda>_.
          Inr command))))))"

definition entry_command ::
    "(schema \<Rightarrow> zparser) \<Rightarrow> (jstr \<Rightarrow> jstr) \<Rightarrow> agui_validator option \<Rightarrow> jsdate \<Rightarrow> agui_receipt \<Rightarrow>
     (jstr \<rightharpoonup> envelope) \<Rightarrow> (jstr \<rightharpoonup> agui_entry) \<Rightarrow> agui_receipt_interrupt \<Rightarrow> (agui_run_error, agui_command) result" where
  "entry_command sp sha validator now receipt byId entriesById issued =
     (case (byId (ri_continuation issued), entriesById (ri_continuation issued)) of
        (Some continuation, Some entry) \<Rightarrow>
          bindR (parse_or sp AguiContinuationPayloadSchema (Some (env_payload continuation))
            (RunError PAUSEMESH_AGUI_INVALID_INPUT
              (js ''An issued AG-UI interrupt has an invalid continuation payload''))) (\<lambda>contract.
          if ae_status entry = js ''cancelled'' then cancel_command now issued continuation entry
          else resume_command sp sha validator now receipt continuation contract entry)
      | _ \<Rightarrow> runError PAUSEMESH_AGUI_RESUME_SET_MISMATCH ''AG-UI resume is missing an issued interrupt'')"

section \<open>The whole\<close>

text \<open>\<open>entriesById\<close>, or the error at the first id that repeats.\<close>

fun entries_by_id :: "(jstr \<rightharpoonup> agui_entry) \<Rightarrow> agui_entry list \<Rightarrow> (agui_run_error, jstr \<rightharpoonup> agui_entry) result" where
  "entries_by_id m [] = Inr m"
| "entries_by_id m (entry # entries) =
     bindR (require (m (ae_interruptId entry) = None) PAUSEMESH_AGUI_DUPLICATE_INTERRUPT
       ''AG-UI resume contains a duplicate interrupt'') (\<lambda>_.
     entries_by_id (m(ae_interruptId entry \<mapsto> entry)) entries)"

text \<open>From the parsed input on.\<close>

definition agui_commands ::
    "(schema \<Rightarrow> zparser) \<Rightarrow> (jstr \<Rightarrow> jstr) \<Rightarrow> agui_run_input \<Rightarrow> zvalue \<Rightarrow> envelope list \<Rightarrow> agui_options \<Rightarrow> jsdate \<Rightarrow>
     (agui_run_error, agui_command list) result" where
  "agui_commands sp sha input rawReceipt currents options clock =
     bindR (validateReceipt sp sha rawReceipt) (\<lambda>receipt.
     bindR (validateCurrentCohort sp sha receipt currents) (\<lambda>byId.
     bindR (require (in_threadId input = rd_threadId receipt) PAUSEMESH_AGUI_THREAD_MISMATCH
       ''AG-UI resume must use the interrupted thread'') (\<lambda>_.
     (case in_resume input of
        None \<Rightarrow> runError PAUSEMESH_AGUI_RESUME_REQUIRED ''Pending AG-UI interrupts require a resume batch''
      | Some resumeEntries \<Rightarrow>
          bindR (entries_by_id Map.empty resumeEntries) (\<lambda>entriesById.
          let issuedIds = map ri_continuation (rd_interrupts receipt)
          in
          bindR (require (\<not> (length resumeEntries \<noteq> length (remdups issuedIds) \<or>
                (\<exists>entry \<in> set resumeEntries. ae_interruptId entry \<notin> set issuedIds)))
            PAUSEMESH_AGUI_RESUME_SET_MISMATCH
            ''AG-UI resume must address the complete issued interrupt cohort exactly once'') (\<lambda>_.
          let now = (case op_now options of Some d \<Rightarrow> d | None \<Rightarrow> clock)
          in
          bindR (require (getTime now \<noteq> None) PAUSEMESH_AGUI_INVALID_INPUT ''AG-UI validation clock is invalid'') (\<lambda>_.
          mapR (entry_command sp sha (op_validatePayload options) now receipt byId entriesById)
            (rd_interrupts receipt))))))))"

text \<open>
  \<open>fromAguiRunAgentInput\<close>. The three arguments are a graph of values of the heap \<open>h\<close>, which the
  preflight walks, and what the typed code reads of them once they have passed: the run input
  \<open>RunAgentInputSchema\<close> yields (or \<open>None\<close> where it does not parse), the raw receipt, and the
  continuations. An exception anywhere becomes the error of an unsafe input; in the model the reads of
  the preflight are what can throw.
\<close>

definition fromAguiRunAgentInput ::
    "(schema \<Rightarrow> zparser) \<Rightarrow> (jstr \<Rightarrow> jstr) \<Rightarrow> js_heap \<Rightarrow> js_node list \<Rightarrow> agui_run_input option \<Rightarrow> zvalue \<Rightarrow>
     envelope list \<Rightarrow> agui_options \<Rightarrow> jsdate \<Rightarrow> (agui_run_error, agui_command list) result" where
  "fromAguiRunAgentInput sp sha h arguments parsedInput rawReceipt currents options clock =
     (case parseInputLimits (op_maxInputDepth options) (op_maxInputNodes options) of
        None \<Rightarrow> unsafeInputError
      | Some limits \<Rightarrow>
          (case passesInputPreflight h limits arguments of
             Some True \<Rightarrow>
               (case parsedInput of
                  None \<Rightarrow> runError PAUSEMESH_AGUI_INVALID_INPUT ''AG-UI run input is not protocol-valid''
                | Some input \<Rightarrow> agui_commands sp sha input rawReceipt currents options clock)
           | _ \<Rightarrow> unsafeInputError))"

end
