(* ===== verification/ZodStable.thy ===== *)
theory ZodStable
  imports Protocol CanonicalJson JsonRead
begin

text \<open>
  Schemas that only check: what such a schema makes of a JSON value differs from the value in the
  order of members at most, and it accepts its own output again. With them a value the program has
  parsed, sent out and got back passes the same schema, and has the same canonical text.
\<close>

section \<open>JSON values up to the order of members\<close>

lemma json_wf_keys_wf: "json_wf v \<Longrightarrow> keys_wf v"
proof (induction v rule: json_wf.induct)
  case (3 fs)
  then have "distinct (map fst fs)" using distinct_js_obj [of fs] by simp
  then show ?case using 3 by (auto simp: list_all_iff)
qed (auto simp: list_all_iff)

lemma json_ok_keys_wf: "json_ok v \<Longrightarrow> keys_wf v"
  by (simp add: json_ok_wf json_wf_keys_wf)

lemma canonical_json_ok: "json_ok p \<Longrightarrow> json_ok q \<Longrightarrow> canonicalJson p = canonicalJson q \<longleftrightarrow> json_eq p q"
  by (simp add: canonicalJson_iff_json_eq json_ok_wf json_wf_nums_wf json_wf_keys_wf)

lemma json_eq_refl: "json_ok v \<Longrightarrow> json_eq v v"
  by (simp add: json_eq_canon json_ok_keys_wf)

lemma json_eq_trans: "json_ok u \<Longrightarrow> json_ok v \<Longrightarrow> json_ok w \<Longrightarrow> json_eq u v \<Longrightarrow> json_eq v w \<Longrightarrow> json_eq u w"
  by (simp add: json_eq_canon json_ok_keys_wf)

lemma json_ok_distinct: "json_ok (JObj fs) \<Longrightarrow> distinct (map fst fs)"
  using json_ok_keys_wf [of "JObj fs"] by simp

lemma json_ok_member: "json_ok (JObj fs) \<Longrightarrow> map_of fs k = Some v \<Longrightarrow> json_ok v"
  by (auto simp: json_ok_obj list_all_iff dest: map_of_SomeD)

lemma json_eq_obj:
  assumes "json_ok (JObj fs)" "json_ok (JObj gs)"
  shows "json_eq (JObj fs) (JObj gs) \<longleftrightarrow> (\<forall>k. rel_option json_eq (map_of fs k) (map_of gs k))"
  using alist_rel_iff [OF json_ok_distinct [OF assms(1)] json_ok_distinct [OF assms(2)], of json_eq] by simp

text \<open>Members of equal objects are equal; members that are atoms are the same.\<close>

lemma json_eq_JObj: "json_eq v (JObj gs) \<Longrightarrow> \<exists>fs. v = JObj fs"
  by (cases v) auto

lemma json_eq_get:
  assumes "json_ok v" "json_ok w" "json_eq v w"
  shows "rel_option json_eq (get k v) (get k w)"
proof (cases v)
  case (JObj fs)
  then obtain gs where "w = JObj gs" using assms(3) by (cases w) auto
  then show ?thesis using assms JObj json_eq_obj by simp
qed (use assms(3) in \<open>cases w; simp\<close>)+

lemma json_eq_atom:
  "json_eq (JStr s) w \<longleftrightarrow> w = JStr s" "json_eq (JNum n) w \<longleftrightarrow> w = JNum n" "json_eq (JBool b) w \<longleftrightarrow> w = JBool b"
  by (cases w; auto)+

section \<open>The elements and members of a parse\<close>

lemma elems_parse_list:
  "elems_parse p vs = Some ws \<longleftrightarrow> list_all2 (\<lambda>v w. p (Some v) = Some (Some w)) vs ws"
  by (induction vs arbitrary: ws) (auto simp: list_all2_Cons1 split: option.splits)

lemma members_parse_list:
  "members_parse p fs = Some gs \<longleftrightarrow>
    map fst gs = map fst fs \<and> list_all2 (\<lambda>(k, v) (l, w). p (Some v) = Some (Some w)) fs gs"
  by (induction fs arbitrary: gs) (auto simp: list_all2_Cons1 split: option.splits)

section \<open>Schemas that settle\<close>

context zod
begin

text \<open>The schema keeps a value up to the order of members, and accepts the outcome again.\<close>

definition settles :: "schema \<Rightarrow> bool" where
  "settles s \<longleftrightarrow> (\<forall>v r. json_ok v \<longrightarrow> sp s (Some v) = Some r \<longrightarrow>
     (\<exists>w. r = Some w \<and> json_ok w \<and> json_eq v w \<and> sp s (Some w) \<noteq> None))"

text \<open>The outcome is what the schema makes of the outcome.\<close>

definition fixes_outcome :: "schema \<Rightarrow> bool" where
  "fixes_outcome s \<longleftrightarrow> (\<forall>v r. json_ok v \<longrightarrow> sp s (Some v) = Some r \<longrightarrow>
     (\<exists>w. r = Some w \<and> json_ok w \<and> json_eq v w \<and> sp s (Some w) = Some (Some w)))"

text \<open>The schema hands a value back as it is.\<close>

definition keeps :: "schema \<Rightarrow> bool" where
  "keeps s \<longleftrightarrow> (\<forall>v r. sp s (Some v) = Some r \<longrightarrow> r = Some v)"

definition no_default :: "schema \<Rightarrow> bool" where
  "no_default s \<longleftrightarrow> (\<forall>r. sp s None = Some r \<longrightarrow> r = None)"

lemma settlesD:
  assumes "settles s" "json_ok v" "sp s (Some v) = Some r"
  obtains w where "r = Some w" "json_ok w" "json_eq v w" "sp s (Some w) \<noteq> None"
  using assms unfolding settles_def by blast

lemma fixesD:
  assumes "fixes_outcome s" "json_ok v" "sp s (Some v) = Some r"
  obtains w where "r = Some w" "json_ok w" "json_eq v w" "sp s (Some w) = Some (Some w)"
  using assms unfolding fixes_outcome_def by blast

lemma keeps_fixes: "keeps s \<Longrightarrow> fixes_outcome s"
proof -
  assume keep: "keeps s"
  show ?thesis
    unfolding fixes_outcome_def
  proof (intro allI impI)
    fix v r
    assume v: "json_ok v" and r: "sp s (Some v) = Some r"
    then have "r = Some v" using keep by (simp add: keeps_def)
    with v r show "\<exists>w. r = Some w \<and> json_ok w \<and> json_eq v w \<and> sp s (Some w) = Some (Some w)"
      by (simp add: json_eq_refl)
  qed
qed

lemma fixes_settles: "fixes_outcome s \<Longrightarrow> settles s"
  unfolding fixes_outcome_def settles_def by fastforce

lemma keeps_atoms:
  "Trim \<notin> set cs \<Longrightarrow> keeps (ZString cs)" "keeps (ZNumber ns)" "keeps ZBoolean" "keeps (ZLiteral l)" "keeps (ZEnum ls)"
proof -
  have run: "Trim \<notin> set cs \<Longrightarrow> str_checks_run cs s = Some t \<Longrightarrow> t = s" for s t
  proof (induction cs)
    case (Cons c cs)
    then show ?case by (cases c) (auto split: if_splits)
  qed simp
  show "Trim \<notin> set cs \<Longrightarrow> keeps (ZString cs)"
    using run by (auto simp: keeps_def string string_parse_def split: json.splits)
  show "keeps (ZNumber ns)" by (auto simp: keeps_def number number_parse_def split: json.splits if_splits)
  show "keeps ZBoolean" by (auto simp: keeps_def boolean boolean_parse_def split: json.splits)
  show "keeps (ZLiteral l)" by (auto simp: keeps_def literal literal_parse_def split: if_splits)
  show "keeps (ZEnum ls)" by (auto simp: keeps_def enum enum_parse_def split: json.splits if_splits)
qed

lemma no_default_forms [simp]:
  "no_default (ZString cs)" "no_default (ZNumber ns)" "no_default ZBoolean" "no_default (ZLiteral l)"
  "no_default (ZEnum ls)" "no_default (ZArray s n)" "no_default (ZOptional s)"
  "no_default (ZObject m shape)" "no_default (ZRecord s)"
  using object [of None m shape] record' [of None s]
  by (auto simp: no_default_def string string_parse_def number number_parse_def boolean boolean_parse_def
      literal literal_parse_def enum enum_parse_def array array_parse_def optional optional_parse_def
      object_parse_def record_parse_def plain_object_def split: if_splits)

lemma no_default_refine [simp]: "no_default s \<Longrightarrow> no_default (ZRefine s q)"
  by (auto simp: no_default_def refine refine_parse_def split: option.splits if_splits)

lemma no_default_union [simp]: "\<forall>s \<in> set ss. no_default s \<Longrightarrow> no_default (ZUnion ss)"
  unfolding no_default_def union by (induction ss) (auto split: option.splits)

lemma keeps_optional: "keeps s \<Longrightarrow> keeps (ZOptional s)"
  by (simp add: keeps_def optional optional_parse_def)

lemma optional_settles: "settles s \<Longrightarrow> settles (ZOptional s)" "fixes_outcome s \<Longrightarrow> fixes_outcome (ZOptional s)"
  by (simp_all add: settles_def fixes_outcome_def optional optional_parse_def)

lemma union_settles: "\<forall>s \<in> set ss. settles s \<Longrightarrow> settles (ZUnion ss)"
proof -
  assume all: "\<forall>s \<in> set ss. settles s"
  have accepted: "union_parse (map sp ss) v \<noteq> None \<longleftrightarrow> (\<exists>s \<in> set ss. sp s v \<noteq> None)" for v
    by (induction ss) (auto split: option.splits)
  have some: "union_parse (map sp ss) v = Some r \<Longrightarrow> \<exists>s \<in> set ss. sp s v = Some r" for v r
    by (induction ss) (auto split: option.splits)
  show ?thesis
    unfolding settles_def union accepted
  proof (intro allI impI)
    fix v r
    assume "json_ok v" "union_parse (map sp ss) (Some v) = Some r"
    then obtain s where s: "s \<in> set ss" "sp s (Some v) = Some r" using some by blast
    then show "\<exists>w. r = Some w \<and> json_ok w \<and> json_eq v w \<and> (\<exists>s \<in> set ss. sp s (Some w) \<noteq> None)"
      using all \<open>json_ok v\<close> settlesD [of s v r] by metis
  qed
qed

lemma keeps_union: "\<forall>s \<in> set ss. keeps s \<Longrightarrow> keeps (ZUnion ss)"
  unfolding keeps_def union by (induction ss) (auto split: option.splits)

lemma keeps_refine: "keeps s \<Longrightarrow> keeps (ZRefine s q)"
  by (auto simp: keeps_def refine refine_parse_def split: option.splits if_splits)

lemma fixes_refine: "fixes_outcome s \<Longrightarrow> fixes_outcome (ZRefine s q)"
proof -
  assume fix_s: "fixes_outcome s"
  show ?thesis
    unfolding fixes_outcome_def refine
  proof (intro allI impI)
    fix v r
    assume v: "json_ok v" and r: "refine_parse (sp s) q (Some v) = Some r"
    then obtain r' where r': "sp s (Some v) = Some r'" by (auto simp: refine_parse_def split: option.splits)
    obtain w where "r' = Some w" "json_ok w" "json_eq v w" "sp s (Some w) = Some (Some w)"
      by (rule fixesD [OF fix_s v r'])
    then show "\<exists>w. r = Some w \<and> json_ok w \<and> json_eq v w \<and> refine_parse (sp s) q (Some w) = Some (Some w)"
      using r r' by (auto simp: refine_parse_def split: if_splits)
  qed
qed

text \<open>A refinement that does not see the order of members.\<close>

lemma settles_refine:
  assumes "settles s" "\<And>v w. json_ok v \<Longrightarrow> sp s (Some v) = Some (Some w) \<Longrightarrow> q v = q w"
  shows "settles (ZRefine s q)"
  unfolding settles_def refine
proof (intro allI impI)
  fix v r
  assume v: "json_ok v" and "refine_parse (sp s) q (Some v) = Some r"
  then obtain r' where r': "sp s (Some v) = Some r'" by (auto simp: refine_parse_def split: option.splits)
  obtain w where w: "r' = Some w" "json_ok w" "json_eq v w" "sp s (Some w) \<noteq> None"
    by (rule settlesD [OF assms(1) v r'])
  then have q: "q w" "r = Some w"
    using \<open>refine_parse (sp s) q (Some v) = Some r\<close> r' by (auto simp: refine_parse_def split: if_splits)
  obtain r'' where r'': "sp s (Some w) = Some r''" using w(4) by blast
  obtain u where "r'' = Some u" by (rule settlesD [OF assms(1) w(2) r''])
  then have "refine_parse (sp s) q (Some w) \<noteq> None"
    using r'' q(1) assms(2) [OF w(2)] by (simp add: refine_parse_def)
  then show "\<exists>w. r = Some w \<and> json_ok w \<and> json_eq v w \<and> refine_parse (sp s) q (Some w) \<noteq> None"
    using w q by blast
qed

section \<open>Arrays, records and strict objects\<close>

lemma elems_parse_total: "\<forall>w \<in> set ws. \<exists>u. p (Some w) = Some (Some u) \<Longrightarrow> elems_parse p ws \<noteq> None"
  by (induction ws) fastforce+

lemma members_parse_total: "\<forall>w \<in> snd ` set fs. \<exists>u. p (Some w) = Some (Some u) \<Longrightarrow> members_parse p fs \<noteq> None"
  by (induction fs) fastforce+

lemma settles_once:
  assumes "settles s" "json_ok v" "sp s (Some v) = Some (Some w)"
  shows "json_ok w" "json_eq v w" "\<exists>u. sp s (Some w) = Some (Some u)"
proof -
  obtain w' where w: "Some w = Some w'" "json_ok w'" "json_eq v w'" "sp s (Some w') \<noteq> None"
    by (rule settlesD [OF assms])
  then show "json_ok w" "json_eq v w" by simp_all
  obtain r where "sp s (Some w) = Some r" using w by auto
  moreover then obtain u where "r = Some u" by (rule settlesD [OF assms(1) \<open>json_ok w\<close>])
  ultimately show "\<exists>u. sp s (Some w) = Some (Some u)" by simp
qed

lemma settles_list:
  assumes "settles s"
  shows "list_all2 (\<lambda>v w. sp s (Some v) = Some (Some w)) vs ws \<Longrightarrow> list_all json_ok vs \<Longrightarrow>
    list_all json_ok ws \<and> list_all2 json_eq vs ws \<and> (\<forall>w \<in> set ws. \<exists>u. sp s (Some w) = Some (Some u))"
proof (induction rule: list_all2_induct)
  case (Cons v vs w ws)
  then show ?case using settles_once [OF assms, of v w] by simp
qed simp

lemma array_settles:
  assumes s: "settles s"
  shows "settles (ZArray s n)"
  unfolding settles_def array
proof (intro allI impI)
  fix v r
  assume v: "json_ok v" and r: "array_parse (sp s) n (Some v) = Some r"
  then obtain vs ws where vs: "v = JArr vs" "n \<le> length vs" "elems_parse (sp s) vs = Some ws" "r = Some (JArr ws)"
    by (auto simp: array_parse_def split: json.splits if_splits)
  then have all: "list_all2 (\<lambda>v w. sp s (Some v) = Some (Some w)) vs ws" by (simp add: elems_parse_list)
  have ws: "list_all json_ok ws" "list_all2 json_eq vs ws" "elems_parse (sp s) ws \<noteq> None"
    using settles_list [OF s all] v vs(1) elems_parse_total by simp_all
  moreover have "n \<le> length ws" using vs(2) list_all2_lengthD [OF all] by simp
  ultimately show "\<exists>w. r = Some w \<and> json_ok w \<and> json_eq v w \<and> array_parse (sp s) n (Some w) \<noteq> None"
    using vs(1,4) by (simp add: array_parse_def)
qed

lemma fixes_list:
  assumes "fixes_outcome s"
  shows "list_all2 (\<lambda>v w. sp s (Some v) = Some (Some w)) vs ws \<Longrightarrow> list_all json_ok vs \<Longrightarrow>
    list_all2 (\<lambda>v w. sp s (Some v) = Some (Some w)) ws ws"
proof (induction rule: list_all2_induct)
  case (Cons v vs w ws)
  then have "json_ok v" by simp
  then obtain w' where "Some w = Some w'" "sp s (Some w') = Some (Some w')"
    by (rule fixesD [OF assms _ Cons.hyps(1)])
  then show ?case using Cons by simp
qed simp

lemma array_fixes:
  assumes s: "fixes_outcome s"
  shows "fixes_outcome (ZArray s n)"
  unfolding fixes_outcome_def array
proof (intro allI impI)
  fix v r
  assume v: "json_ok v" and r: "array_parse (sp s) n (Some v) = Some r"
  then obtain vs ws where vs: "v = JArr vs" "n \<le> length vs" "elems_parse (sp s) vs = Some ws" "r = Some (JArr ws)"
    by (auto simp: array_parse_def split: json.splits if_splits)
  then have all: "list_all2 (\<lambda>v w. sp s (Some v) = Some (Some w)) vs ws" by (simp add: elems_parse_list)
  have ws: "list_all json_ok ws" "list_all2 json_eq vs ws" "elems_parse (sp s) ws = Some ws"
    using settles_list [OF fixes_settles [OF s] all] fixes_list [OF s all] v vs(1) by (simp_all add: elems_parse_list)
  moreover have "n \<le> length ws" using vs(2) list_all2_lengthD [OF all] by simp
  ultimately show "\<exists>w. r = Some w \<and> json_ok w \<and> json_eq v w \<and> array_parse (sp s) n (Some w) = Some (Some w)"
    using vs(1,4) by (simp add: array_parse_def)
qed

end

lemma is_array_index_ch [simp]:
  "\<not> (48 \<le> (of_char c :: nat) \<and> (of_char c :: nat) \<le> 57) \<Longrightarrow> \<not> is_array_index (ch c # cs)"
  using is_array_index_digit [of "ch c" cs] by (auto simp: is_digit_def word_le_nat_alt unat_ch)

text \<open>The order of members depends on their names alone.\<close>

lemma sort_key_map_same: "(\<And>x. f (h x) = f x) \<Longrightarrow> sort_key f (map h xs) = map h (sort_key f xs)"
proof -
  assume same: "\<And>x. f (h x) = f x"
  have "insort_key f (h x) (map h ys) = map h (insort_key f x ys)" for x ys
    by (induction ys) (simp_all add: same)
  then show ?thesis by (induction xs) (simp_all add: sort_key_def)
qed

lemma js_obj_map_values:
  fixes f :: "jstr \<Rightarrow> json \<Rightarrow> json"
  assumes "distinct (map fst fs)"
  shows "js_obj (map (\<lambda>(k, v). (k, f k v)) fs) = map (\<lambda>(k, v). (k, f k v)) (js_obj fs)"
proof -
  let ?h = "\<lambda>(k, v). (k, f k v)"
  have keys: "map fst (map ?h fs) = map fst fs" by (simp add: case_prod_unfold)
  have "filter (\<lambda>(k, v). is_array_index k) (map ?h fs) = map ?h (filter (\<lambda>(k, v). is_array_index k) fs)"
    "filter (\<lambda>(k, v). \<not> is_array_index k) (map ?h fs) = map ?h (filter (\<lambda>(k, v). \<not> is_array_index k) fs)"
    by (simp_all add: filter_map o_def case_prod_unfold)
  moreover have "sort_key (\<lambda>(k, v). undec k) (map ?h xs) = map ?h (sort_key (\<lambda>(k, v). undec k) xs)" for xs
    by (rule sort_key_map_same) auto
  ultimately show ?thesis
    by (simp only: js_obj_distinct [OF assms] js_obj_distinct [OF assms [folded keys]] map_append)
qed

lemma json_ok_same_keys:
  assumes ok: "json_ok (JObj fs)" and keys: "map fst gs = map fst fs" and members: "\<forall>(k, w) \<in> set gs. json_ok w"
  shows "json_ok (JObj gs)"
proof -
  have dist: "distinct (map fst fs)" and fs: "js_obj fs = fs" using json_ok_distinct ok by (auto simp: json_ok_obj)
  have gs: "gs = map (\<lambda>(k, v). (k, the (map_of gs k))) fs"
  proof (rule nth_equalityI)
    show "length gs = length (map (\<lambda>(k, v). (k, the (map_of gs k))) fs)" using keys map_eq_imp_length_eq by force
    fix i assume i: "i < length gs"
    have "fst (gs ! i) = fst (fs ! i)" using keys i by (metis length_map nth_map)
    moreover have "map_of gs (fst (gs ! i)) = Some (snd (gs ! i))"
      using i dist keys by (intro map_of_is_SomeI) simp_all
    ultimately show "gs ! i = map (\<lambda>(k, v). (k, the (map_of gs k))) fs ! i"
      using i keys by (metis (no_types, lifting) case_prod_unfold length_map nth_map option.sel prod.collapse)
  qed
  have "js_obj gs = gs"
    by (subst (1 2) gs) (simp only: js_obj_map_values [OF dist, of "\<lambda>k v. the (map_of gs k)"] fs)
  moreover have "k \<noteq> js ''__proto__''" if "(k, w) \<in> set gs" for k w
  proof -
    have "k \<in> set (map fst fs)" using that keys by (metis in_set_zipE zip_map_fst_snd)
    then show ?thesis using ok by (auto simp: json_ok_obj list_all_iff)
  qed
  ultimately show ?thesis using members by (auto simp: json_ok_obj list_all_iff)
qed

text \<open>The names a strict schema may declare so that its outcome is in property order.\<close>

definition plain_shape :: "(jstr \<times> schema) list \<Rightarrow> bool" where
  "plain_shape shape \<longleftrightarrow> distinct (map fst shape) \<and>
     list_all (\<lambda>(k, s). \<not> is_array_index k \<and> k \<noteq> js ''__proto__'') shape"

lemma json_ok_shape:
  assumes "plain_shape shape" "distinct (map fst gs)" "fst ` set gs \<subseteq> fst ` set shape"
    and members: "\<And>k w. map_of gs k = Some w \<Longrightarrow> json_ok w"
  shows "json_ok (JObj gs)"
proof -
  have names: "\<not> is_array_index k \<and> k \<noteq> js ''__proto__''" if "(k, w) \<in> set gs" for k w
  proof -
    have "k \<in> fst ` set shape" using key_mem [OF that] assms(3) by blast
    then obtain s where "(k, s) \<in> set shape" by force
    then show ?thesis using assms(1) by (auto simp: plain_shape_def list_all_iff)
  qed
  have "js_obj gs = gs" by (rule js_obj_id [OF assms(2)]) (use names in \<open>auto simp: list_all_iff\<close>)
  moreover have "json_ok w" if "(k, w) \<in> set gs" for k w
    using members [of k w] that assms(2) by simp
  ultimately show ?thesis using names by (auto simp: json_ok_obj list_all_iff)
qed

context zod
begin

lemma record_settles:
  assumes s: "settles s"
  shows "settles (ZRecord s)"
  unfolding settles_def
proof (intro allI impI)
  fix v r
  assume v: "json_ok v" and r: "sp (ZRecord s) (Some v) = Some r"
  have parse: "record_parse (sp s) (Some v) = Some r" using r record' [OF plain_json_ok [OF v]] by simp
  then obtain fs where fs: "v = JObj fs" by (auto simp: record_parse_def split: json.splits)
  then obtain gs where gs: "members_parse (sp s) fs = Some gs" "r = Some (JObj gs)"
    using parse by (auto simp: record_parse_def)
  have keys: "map fst gs = map fst fs"
    and "list_all2 (\<lambda>(k, v) (l, w). sp s (Some v) = Some (Some w)) fs gs"
    using gs(1) by (simp_all add: members_parse_list)
  then have all: "list_all2 (\<lambda>v w. sp s (Some v) = Some (Some w)) (map snd fs) (map snd gs)"
    by (auto simp: list.rel_map case_prod_unfold)
  have "list_all json_ok (map snd fs)" using v fs by (auto simp: json_ok_obj list_all_iff)
  note each = settles_list [OF s all this]
  have ok: "json_ok (JObj gs)"
    by (rule json_ok_same_keys [OF v [unfolded fs] keys]) (use each in \<open>auto simp: list_all_iff\<close>)
  have "rel_option json_eq (map_of fs k) (map_of gs k)" for k
    using each keys
  proof -
    have "list_all2 json_eq (map snd fs) (map snd gs)" using each by blast
    then show ?thesis using keys
    proof (induction fs arbitrary: gs)
      case (Cons f fs)
      then obtain g gs' where "gs = g # gs'" by (cases gs) auto
      then show ?case using Cons by (cases f; cases g) auto
    qed simp
  qed
  then have eq: "json_eq v (JObj gs)" using json_eq_obj [OF v [unfolded fs] ok] fs by simp
  have "members_parse (sp s) gs \<noteq> None"
    by (rule members_parse_total) (use each in auto)
  then have "sp (ZRecord s) (Some (JObj gs)) \<noteq> None"
    using record' [OF plain_json_ok [OF ok]] by (simp add: record_parse_def)
  then show "\<exists>w. r = Some w \<and> json_ok w \<and> json_eq v w \<and> sp (ZRecord s) (Some w) \<noteq> None"
    using gs(2) ok eq by blast
qed

text \<open>What a strict schema makes of an object, member by member.\<close>

lemma strict_members:
  assumes v: "json_ok v" and r: "sp (ZObject Strict shape) (Some v) = Some r" and shape: "plain_shape shape"
    and members: "\<forall>(k, s) \<in> set shape. settles s \<and> no_default s"
  obtains fs gs where "v = JObj fs" "r = Some (JObj gs)" "json_ok (JObj gs)" "json_eq v (JObj gs)"
    "fst ` set fs \<subseteq> fst ` set shape" "fst ` set gs \<subseteq> fst ` set shape"
    "fields_parse (map (map_prod id sp) shape) fs = Some gs"
    "\<And>k s. (k, s) \<in> set shape \<Longrightarrow> sp s (map_of fs k) = Some (map_of gs k)"
proof -
  define ps where "ps = map (map_prod id sp) shape"
  have parse: "object_parse Strict ps (Some v) = Some r"
    using r object [OF plain_json_ok [OF v]] by (simp add: ps_def)
  then obtain fs where fs: "v = JObj fs" by (auto simp: object_parse_def split: json.splits)
  then obtain gs where gs: "fields_parse ps fs = Some gs" "r = Some (JObj gs)" and "extra_fields ps fs = []"
    using parse by (auto simp: object_parse_def split: if_splits)
  then have strict: "fst ` set fs \<subseteq> fst ` set shape"
    by (simp add: extra_fields_Nil ps_def image_image)
  have shape_d: "distinct (map fst ps)" using shape by (simp add: ps_def plain_shape_def)
  have keys: "fst ` set gs \<subseteq> fst ` set shape" "distinct (map fst gs)"
    using fields_parse_keys [OF gs(1)] fields_parse_distinct [OF gs(1) shape_d] by (simp_all add: ps_def image_image)
  have field: "sp s (map_of fs k) = Some (map_of gs k)" if "(k, s) \<in> set shape" for k s
  proof (rule fields_parse_field [OF gs(1) shape_d])
    have "(k, sp s) \<in> set ps" using that by (force simp: ps_def)
    then show "map_of ps k = Some (sp s)" using shape_d by simp
  qed
  have member: "rel_option json_eq (map_of fs k) (map_of gs k) \<and> (\<forall>w. map_of gs k = Some w \<longrightarrow> json_ok w)" for k
  proof (cases "k \<in> fst ` set shape")
    case True
    then obtain s where s: "(k, s) \<in> set shape" by force
    then have settle: "settles s" "no_default s" using members by auto
    show ?thesis
    proof (cases "map_of fs k")
      case None
      then show ?thesis using field [OF s] settle(2) by (simp add: no_default_def)
    next
      case (Some u)
      then have "json_ok u" using json_ok_member v fs by blast
      then obtain w where "map_of gs k = Some w" "json_ok w" "json_eq u w"
        by (rule settlesD [OF settle(1)]) (use field [OF s] Some in auto)
      then show ?thesis using Some by simp
    qed
  next
    case False
    then have "map_of fs k = None" "map_of gs k = None" using strict keys(1) by (auto simp: map_of_eq_None_iff)
    then show ?thesis by simp
  qed
  have ok: "json_ok (JObj gs)" by (rule json_ok_shape [OF shape keys(2,1)]) (use member in blast)
  moreover have "json_eq v (JObj gs)" using json_eq_obj [OF v [unfolded fs] ok] member fs by simp
  ultimately show thesis
    using that fs gs strict keys(1) field by (simp add: ps_def)
qed

lemma object_settles:
  assumes shape: "plain_shape shape" and members: "\<forall>(k, s) \<in> set shape. settles s \<and> no_default s"
  shows "settles (ZObject Strict shape)"
  unfolding settles_def
proof (intro allI impI)
  fix v r
  assume v: "json_ok v" and r: "sp (ZObject Strict shape) (Some v) = Some r"
  obtain fs gs where o: "v = JObj fs" "r = Some (JObj gs)" "json_ok (JObj gs)" "json_eq v (JObj gs)"
    "fst ` set gs \<subseteq> fst ` set shape" "\<And>k s. (k, s) \<in> set shape \<Longrightarrow> sp s (map_of fs k) = Some (map_of gs k)"
    by (rule strict_members [OF v r shape members]) blast
  have "sp s (map_of gs k) \<noteq> None" if s: "(k, s) \<in> set shape" for k s
  proof (cases "map_of fs k")
    case None
    then have "sp s None = Some (map_of gs k)" using o(6) [OF s] by simp
    moreover from this have "map_of gs k = None" using members s by (auto simp: no_default_def)
    ultimately show ?thesis by simp
  next
    case (Some u)
    then have u: "json_ok u" using json_ok_member v o(1) by blast
    have "settles s" using members s by auto
    moreover have "sp s (Some u) = Some (map_of gs k)" using o(6) [OF s] Some by simp
    ultimately obtain w where "map_of gs k = Some w" "sp s (Some w) \<noteq> None" using settlesD u by metis
    then show ?thesis by simp
  qed
  then have "\<exists>d. sp (ZObject Strict shape) (Some (JObj gs)) = Some (Some d)"
    unfolding object_accepts [OF plain_json_ok [OF o(3)]] using o(5) by auto
  then show "\<exists>w. r = Some w \<and> json_ok w \<and> json_eq v w \<and> sp (ZObject Strict shape) (Some w) \<noteq> None"
    using o by blast
qed

lemma fields_parse_cong:
  "\<forall>(k, p) \<in> set ps. p (map_of fs k) = p (map_of gs k) \<Longrightarrow> fields_parse ps fs = fields_parse ps gs"
  by (induction ps) (auto split: option.split)

lemma object_fixes:
  assumes shape: "plain_shape shape" and members: "\<forall>(k, s) \<in> set shape. fixes_outcome s \<and> no_default s"
  shows "fixes_outcome (ZObject Strict shape)"
  unfolding fixes_outcome_def
proof (intro allI impI)
  fix v r
  assume v: "json_ok v" and r: "sp (ZObject Strict shape) (Some v) = Some r"
  have settle: "\<forall>(k, s) \<in> set shape. settles s \<and> no_default s" using members fixes_settles by auto
  obtain fs gs where o: "v = JObj fs" "r = Some (JObj gs)" "json_ok (JObj gs)" "json_eq v (JObj gs)"
    "fst ` set gs \<subseteq> fst ` set shape" "fields_parse (map (map_prod id sp) shape) fs = Some gs"
    and field: "\<And>k s. (k, s) \<in> set shape \<Longrightarrow> sp s (map_of fs k) = Some (map_of gs k)"
    by (rule strict_members [OF v r shape settle]) blast
  have again: "sp s (map_of gs k) = Some (map_of gs k)" if s: "(k, s) \<in> set shape" for k s
  proof (cases "map_of fs k")
    case None
    then have "sp s None = Some (map_of gs k)" using field [OF s] by simp
    moreover from this have "map_of gs k = None" using members s by (auto simp: no_default_def)
    ultimately show ?thesis by simp
  next
    case (Some u)
    then have u: "json_ok u" using json_ok_member v o(1) by blast
    have "fixes_outcome s" using members s by auto
    moreover have "sp s (Some u) = Some (map_of gs k)" using field [OF s] Some by simp
    ultimately obtain w where "map_of gs k = Some w" "sp s (Some w) = Some (Some w)" using fixesD u by metis
    then show ?thesis by simp
  qed
  have "fields_parse (map (map_prod id sp) shape) gs = Some gs"
    unfolding o(6) [symmetric] by (rule fields_parse_cong) (use again field in auto)
  moreover have "extra_fields (map (map_prod id sp) shape) gs = []"
    using o(5) by (simp add: extra_fields_Nil image_image)
  ultimately have "sp (ZObject Strict shape) (Some (JObj gs)) = Some (Some (JObj gs))"
    using object [OF plain_json_ok [OF o(3)]] by (simp add: object_parse_def)
  then show "\<exists>w. r = Some w \<and> json_ok w \<and> json_eq v w \<and> sp (ZObject Strict shape) (Some w) = Some (Some w)"
    using o by blast
qed

end

end
