(* ===== verification/AguiCohort.thy ===== *)
theory AguiCohort
  imports Reducer AguiResume ZodStable
begin

text \<open>
  Facts about the cohorts of \<open>src/adapters/agui/interrupt.ts\<close>: what is issued, what the receipt of an
  issuance accepts later, and what the commands of a run input rest on.
\<close>

section \<open>What is issued\<close>

text \<open>A continuation that can be a member of a cohort of the thread.\<close>

definition issuable :: "(schema \<Rightarrow> zparser) \<Rightarrow> jstr \<Rightarrow> envelope \<Rightarrow> bool" where
  "issuable sp threadId c \<longleftrightarrow>
     env_status c = StPending \<and> env_correlationId c = threadId \<and>
     accepts sp OpaqueProtocolIdSchema (Some (JStr (env_continuationId c))) \<and>
     accepts sp ZJson (Some (env_payload c))"

lemma agui_project_Inr:
  "agui_project sp threadId ids cs = Inr ps \<Longrightarrow>
    map fst ps = cs \<and> list_all (issuable sp threadId) cs \<and> distinct (map env_continuationId cs) \<and>
    set (map env_continuationId cs) \<inter> ids = {} \<and>
    list_all (\<lambda>(c, p). sp AguiContinuationPayloadSchema (Some (env_payload c)) = Some (Some p)) ps"
proof (induction cs arbitrary: ids ps)
  case (Cons c cs)
  then obtain p rest where rest: "agui_project sp threadId (insert (env_continuationId c) ids) cs = Inr rest"
    and c: "issuable sp threadId c" "env_continuationId c \<notin> ids"
    and p: "sp AguiContinuationPayloadSchema (Some (env_payload c)) = Some (Some p)" "ps = (c, p) # rest"
    by (auto simp: bindR_eq_Inr agui_requirePending_def parseContinuationPayload_def Let_def parse_or_eq
        issuable_def)
  then show ?case using Cons.IH [OF rest] by auto
qed simp

lemma boundary_Inr [simp]: "withOutboundAdapterBoundary m r = Inr x \<longleftrightarrow> r = Inr x"
  by (auto simp: withOutboundAdapterBoundary_def split: sum.splits option.splits)

lemma issued_receipt:
  assumes "issueAguiInterrupts sp sha cs binding = Inr iss"
  obtains threadId runId ps where "agui_project sp threadId {} cs = Inr ps" "cs \<noteq> []"
    "ai_receipt iss = \<lparr>rd_threadId = threadId, rd_runId = runId, rd_interrupts = map (issued_interrupt sha) cs,
      rd_cohortId = cohortId sha (ai_receipt iss)\<rparr>"
    "accepts sp AguiInterruptReceiptSchema (Some (receipt_json (ai_receipt iss)))"
proof -
  obtain b ps where "agui_project sp (str_field ''threadId'' b) {} cs = Inr ps" "cs \<noteq> []"
    and iss: "accepts sp AguiInterruptReceiptSchema (Some (receipt_json (ai_receipt iss)))"
      "ai_receipt iss = agui_descriptor.extend
        \<lparr>rd_threadId = str_field ''threadId'' b, rd_runId = str_field ''runId'' b,
         rd_interrupts = map (issued_interrupt sha \<circ> fst) ps\<rparr>
        \<lparr>rd_cohortId = cohortId sha
          \<lparr>rd_threadId = str_field ''threadId'' b, rd_runId = str_field ''runId'' b,
           rd_interrupts = map (issued_interrupt sha \<circ> fst) ps\<rparr>\<rparr>"
    using assms by (auto simp: issueAguiInterrupts_def bindR_eq_Inr Let_def)
  moreover have "map (issued_interrupt sha \<circ> fst) ps = map (issued_interrupt sha) cs"
    using agui_project_Inr [OF calculation(1)] by (metis map_map)
  ultimately show thesis
    by (intro that [of "str_field ''threadId'' b" ps "str_field ''runId'' b"])
      (simp_all add: agui_descriptor.extend_def cohortId_def receiptDescriptor_def)
qed

section \<open>A receipt is read back\<close>

lemma receipt_objects:
  "plain_object (Some (receipt_interrupt_json i))" "plain_object (Some (receipt_json r))"
  by (simp_all add: plain_object_def receipt_interrupt_json_def receipt_json_def obj_def js_inject)

lemma receipt_shapes:
  "distinct (map fst [(js ''continuationId'', OpaqueProtocolIdSchema), (js ''expiresAt'', ZIsoDatetime True),
    (js ''issuedVersion'', ZNumber [IsInt, Positive, Safe]), (js ''payloadHash'', ZString [StrCheck hex64])])"
  "distinct (map fst [(js ''schemaVersion'', ZLiteral (JInt 1)), (js ''cohortId'', ZString [StrCheck cohort_id_ok]),
    (js ''threadId'', OpaqueProtocolIdSchema), (js ''runId'', OpaqueProtocolIdSchema),
    (js ''interrupts'', ZArray AguiReceiptInterruptSchema 1)])"
  by (simp_all add: js_inject)

context zod
begin

lemma refined_string: "sp (ZString [StrCheck q]) (Some (JStr s)) = Some r \<Longrightarrow> r = Some (JStr s)"
  by (simp add: string string_parse_def split: if_splits)

lemma checked_number: "sp (ZNumber cs) (Some (JNum n)) = Some r \<Longrightarrow> r = Some (JNum n)"
  by (simp add: number number_parse_def split: if_splits)

lemma opaque_same: "sp OpaqueProtocolIdSchema v = Some r \<Longrightarrow> r = v"
  by auto

lemma receipt_interrupt_read:
  assumes parse: "sp AguiReceiptInterruptSchema (Some (receipt_interrupt_json i)) = Some (Some d)"
  shows "as_receipt_interrupt d = i"
proof -
  note field = parsed_field [OF receipt_objects(1) receipt_shapes(1) parse [unfolded AguiReceiptInterruptSchema_def]]
  have 1: "get ''continuationId'' d = Some (JStr (ri_continuation i))"
    using opaque_same [OF field [of "''continuationId''"]] by (simp add: js_inject receipt_interrupt_json_def)
  have "sp (ZIsoDatetime True) (Some (JStr (ri_expiresAt i))) = Some (get ''expiresAt'' d)"
    using field [of "''expiresAt''"] by (simp add: js_inject receipt_interrupt_json_def)
  then have 2: "get ''expiresAt'' d = Some (JStr (ri_expiresAt i))" using formats by blast
  have 3: "get ''issuedVersion'' d = Some (JInt (ri_issuedVersion i))"
    using checked_number field [of "''issuedVersion''"] by (simp add: js_inject receipt_interrupt_json_def)
  have 4: "get ''payloadHash'' d = Some (JStr (ri_payloadHash i))"
    using refined_string field [of "''payloadHash''"] by (simp add: js_inject receipt_interrupt_json_def)
  show ?thesis using 1 2 3 4 by (simp add: as_receipt_interrupt_def str_field_def int_field_def)
qed

lemma receipt_read:
  assumes parse: "sp AguiInterruptReceiptSchema (Some (receipt_json r)) = Some (Some d)"
  shows "as_receipt d = r"
proof -
  note field = parsed_field [OF receipt_objects(2) receipt_shapes(2) parse [unfolded AguiInterruptReceiptSchema_def]]
  have 1: "get ''threadId'' d = Some (JStr (rd_threadId r))" "get ''runId'' d = Some (JStr (rd_runId r))"
    using opaque_same [OF field [of "''threadId''"]] opaque_same [OF field [of "''runId''"]]
    by (simp_all add: js_inject receipt_json_def)
  have 2: "get ''cohortId'' d = Some (JStr (rd_cohortId r))"
    using refined_string field [of "''cohortId''"] by (simp add: js_inject receipt_json_def)
  have "sp (ZArray AguiReceiptInterruptSchema 1) (Some (JArr (map receipt_interrupt_json (rd_interrupts r)))) =
      Some (get ''interrupts'' d)"
    using field [of "''interrupts''"] by (simp add: js_inject receipt_json_def)
  then obtain ws where 3: "get ''interrupts'' d = Some (JArr ws)"
    and "elems_parse (sp AguiReceiptInterruptSchema) (map receipt_interrupt_json (rd_interrupts r)) = Some ws"
    by (auto simp: array array_parse_def eq_commute [of "Some (JArr _)"] split: if_splits)
  then have "list_all2 (\<lambda>i w. as_receipt_interrupt w = i) (rd_interrupts r) ws"
    using receipt_interrupt_read by (auto simp: elems_parse_list list_all2_conv_all_nth)
  then have "map as_receipt_interrupt ws = rd_interrupts r"
    by (auto simp: list_all2_conv_all_nth intro: nth_equalityI)
  with 1 2 3 show ?thesis by (simp add: as_receipt_def str_field_def)
qed

lemma receipt_parses:
  assumes "accepts sp AguiInterruptReceiptSchema (Some (receipt_json r))"
  shows "\<exists>d. sp AguiInterruptReceiptSchema (Some (receipt_json r)) = Some (Some d) \<and> as_receipt d = r"
proof -
  obtain q where q: "sp AguiInterruptReceiptSchema (Some (receipt_json r)) = Some q"
    using assms by (auto simp: accepts_def)
  then obtain d where "q = Some d"
    using object_data [OF receipt_objects(2)] unfolding AguiInterruptReceiptSchema_def by blast
  then show ?thesis using q receipt_read by blast
qed

end

section \<open>The cohort later\<close>

text \<open>A continuation as it was issued, or after its closing event.\<close>

definition later :: "envelope \<Rightarrow> envelope \<Rightarrow> bool" where
  "later c c' \<longleftrightarrow> c' = c \<or> (\<exists>e. reduceContinuation (Some c) e = Inr c')"

text \<open>The members of a cohort later, in any order.\<close>

definition cohort_later :: "envelope list \<Rightarrow> envelope list \<Rightarrow> bool" where
  "cohort_later cs currents \<longleftrightarrow>
     distinct (map env_continuationId currents) \<and> length currents = length cs \<and>
     (\<forall>c \<in> set cs. \<exists>c' \<in> set currents. later c c')"

lemma laterD:
  assumes "later c c'" "env_status c = StPending"
  shows "same_origin c c'"
    "env_version c = (if env_status c' = StPending then env_version c' else env_version c' - 1)"
  using assms reduce_keeps_origin [of c _ c'] reduce_closes [of c _ c'] by (auto simp: later_def)

lemma continuations_by_id_Some:
  "distinct (map env_continuationId cs) \<Longrightarrow>
    continuations_by_id cs i = Some c \<longleftrightarrow> c \<in> set cs \<and> env_continuationId c = i"
  by (subst continuations_by_id_def, subst map_of_eq_Some_iff)
    (auto simp: rev_map [symmetric] o_def)

lemma check_issued_Inr:
  "check_issued sp sha receipt byId issued = Inr u \<longleftrightarrow>
    (\<forall>i \<in> set issued. \<exists>c. byId (ri_continuation i) = Some c \<and> issued_matches sp sha receipt i c)"
  by (induction issued) (auto simp: bindR_eq_Inr require_def runError_def split: option.splits)

lemma distinct_remdups_length: "length (remdups xs) = length xs \<longleftrightarrow> distinct xs"
  by (metis card_distinct distinct_card distinct_remdups length_remdups_card_conv)

lemma validateReceipt_Inr:
  "validateReceipt sp sha v = Inr r \<longleftrightarrow>
    (\<exists>d. sp AguiInterruptReceiptSchema v = Some (Some d) \<and> as_receipt d = r) \<and>
    rd_cohortId r = cohortId sha r \<and> distinct (map ri_continuation (rd_interrupts r))"
  using distinct_remdups_length [of "map ri_continuation (rd_interrupts r)"]
  by (auto simp: validateReceipt_def bindR_eq_Inr parse_or_eq require_def Let_def)

lemma validateCurrentCohort_Inr:
  "validateCurrentCohort sp sha r currents = Inr byId \<longleftrightarrow>
    distinct (map env_continuationId currents) \<and> length currents = length (rd_interrupts r) \<and>
    byId = continuations_by_id currents \<and>
    (\<forall>i \<in> set (rd_interrupts r). \<exists>c \<in> set currents.
      env_continuationId c = ri_continuation i \<and> issued_matches sp sha r i c)"
proof -
  have "(\<forall>i \<in> set (rd_interrupts r). \<exists>c. continuations_by_id currents (ri_continuation i) = Some c \<and>
        issued_matches sp sha r i c) \<longleftrightarrow>
      (\<forall>i \<in> set (rd_interrupts r). \<exists>c \<in> set currents.
        env_continuationId c = ri_continuation i \<and> issued_matches sp sha r i c)"
    if "distinct (map env_continuationId currents)"
    using continuations_by_id_Some [OF that] by blast
  then show ?thesis
    using distinct_remdups_length [of "map env_continuationId currents"]
    by (auto simp: validateCurrentCohort_def bindR_eq_Inr require_def Let_def check_issued_Inr)
qed

context zod
begin

lemma issued_matches_json:
  "json_ok (env_payload c) \<Longrightarrow> issued_matches sp sha r i c \<longleftrightarrow>
    env_correlationId c = rd_threadId r \<and> env_expiresAt c = ri_expiresAt i \<and>
    env_version c = (if env_status c = StPending then ri_issuedVersion i else ri_issuedVersion i + 1) \<and>
    hashJson sha (env_payload c) = ri_payloadHash i"
  by (auto simp: issued_matches_def Let_def json_value)

lemma issue_accepted:
  assumes "\<forall>c \<in> set cs. json_ok (env_payload c)" and iss: "issueAguiInterrupts sp sha cs binding = Inr iss"
    and later: "cohort_later cs currents"
  shows "validateReceipt sp sha (Some (receipt_json (ai_receipt iss))) = Inr (ai_receipt iss) \<and>
    validateCurrentCohort sp sha (ai_receipt iss) currents = Inr (continuations_by_id currents)"
proof -
  obtain threadId runId ps where ps: "agui_project sp threadId {} cs = Inr ps"
    and r: "ai_receipt iss = \<lparr>rd_threadId = threadId, rd_runId = runId, rd_interrupts = map (issued_interrupt sha) cs,
      rd_cohortId = cohortId sha (ai_receipt iss)\<rparr>"
    and ok: "accepts sp AguiInterruptReceiptSchema (Some (receipt_json (ai_receipt iss)))"
    by (rule issued_receipt [OF iss])
  have members: "rd_threadId (ai_receipt iss) = threadId" "rd_interrupts (ai_receipt iss) = map (issued_interrupt sha) cs"
      "rd_cohortId (ai_receipt iss) = cohortId sha (ai_receipt iss)"
    by (subst r, simp)+
  note projected = agui_project_Inr [OF ps]
  have ids: "map ri_continuation (map (issued_interrupt sha) cs) = map env_continuationId cs"
    by (simp add: issued_interrupt_def)
  have "\<exists>c' \<in> set currents. env_continuationId c' = env_continuationId c \<and>
      issued_matches sp sha (ai_receipt iss) (issued_interrupt sha c) c'" if c: "c \<in> set cs" for c
  proof -
    obtain c' where c': "c' \<in> set currents" "later c c'" using later c by (auto simp: cohort_later_def)
    have "env_status c = StPending" "env_correlationId c = threadId"
      using projected c by (auto simp: list_all_iff issuable_def)
    then show ?thesis
      using laterD [OF c'(2)] assms(1) c c'(1)
      by (intro bexI [of _ c'])
        (auto simp: same_origin_def issued_matches_json members issued_interrupt_def split: if_splits)
  qed
  then show ?thesis
    using receipt_parses [OF ok] projected ids later
    by (auto simp: validateReceipt_Inr validateCurrentCohort_Inr members cohort_later_def issued_interrupt_def comp_def)
qed

end

section \<open>What is hashed\<close>

text \<open>The texts a cohort id and an idempotency key are the hashes of.\<close>

definition cohort_text :: "agui_receipt \<Rightarrow> jstr" where
  "cohort_text r = canonicalJson (JArr [JStr (js ''agui-cohort-v1''), receiptDescriptor r])"

definition key_text :: "jstr \<Rightarrow> jstr \<Rightarrow> json \<Rightarrow> jstr" where
  "key_text threadId i p = canonicalJson (JArr
     [JStr (js ''agui-v1''), JStr threadId, JStr i, JStr (js ''resolved''), JBool True, p])"

lemma hashed_texts:
  "cohortId sha r = js ''agui-cohort:'' @ sha (cohort_text r)"
  "resumeIdempotencyKey sha threadId i (js ''resolved'') p = js ''agui:'' @ sha (key_text threadId i p)"
  by (simp_all add: cohortId_def resumeIdempotencyKey_def hashJson_def cohort_text_def key_text_def)

lemma descriptor_wf: "nums_wf (receiptDescriptor r)" "keys_wf (receiptDescriptor r)"
  by (simp_all add: receiptDescriptor_def receipt_interrupt_json_def obj_def list_all_iff js_inject)

lemma json_eq_interrupts:
  "json_eq (receipt_interrupt_json i) (receipt_interrupt_json j) \<longleftrightarrow> i = j"
  by (cases i; cases j) (simp add: receipt_interrupt_json_def obj_def js_inject)

lemma json_eq_descriptors:
  "json_eq (receiptDescriptor r) (receiptDescriptor q) \<longleftrightarrow>
    rd_threadId r = rd_threadId q \<and> rd_runId r = rd_runId q \<and> rd_interrupts r = rd_interrupts q"
proof -
  have "list_all2 json_eq (map receipt_interrupt_json xs) (map receipt_interrupt_json ys) \<longleftrightarrow> xs = ys" for xs ys
    by (simp add: list.rel_map json_eq_interrupts list.rel_eq)
  then show ?thesis by (auto simp: receiptDescriptor_def obj_def js_inject)
qed

lemma cohort_text_inject:
  "cohort_text r = cohort_text q \<longleftrightarrow>
    rd_threadId r = rd_threadId q \<and> rd_runId r = rd_runId q \<and> rd_interrupts r = rd_interrupts q"
  unfolding cohort_text_def
  by (subst canonicalJson_iff_json_eq) (simp_all add: descriptor_wf json_eq_descriptors)

lemma key_text_inject:
  assumes "json_ok p" "json_ok q"
  shows "key_text threadId i p = key_text threadId' i' q \<longleftrightarrow> threadId = threadId' \<and> i = i' \<and> json_eq p q"
  unfolding key_text_def
  by (subst canonicalJson_iff_json_eq) (use assms in \<open>simp_all add: json_ok_wf json_wf_nums_wf json_wf_keys_wf\<close>)

end
