(* ===== verification/AguiCommands.thy ===== *)
theory AguiCommands
  imports AguiCohort ContinuationService
begin

text \<open>
  What the commands of an accepted AG-UI run input rest on, and why the same input yields the same
  commands once they have been executed.
\<close>

section \<open>When an entry becomes a command\<close>

text \<open>The continuation is open: pending, and its expiry is still to come.\<close>

definition open_at :: "jsdate \<Rightarrow> envelope \<Rightarrow> bool" where
  "open_at now c \<longleftrightarrow> env_status c = StPending \<and> \<not> js_le (date_parse (env_expiresAt c)) (getTime now)"

definition policy_accepts ::
    "(schema \<Rightarrow> zparser) \<Rightarrow> agui_validator option \<Rightarrow> envelope \<Rightarrow> json \<Rightarrow> json \<Rightarrow> bool" where
  "policy_accepts sp validator c contract p \<longleftrightarrow>
     (\<forall>schema. get ''responseSchema'' contract = Some schema \<longrightarrow>
        validatePayloadWithPolicy sp c p schema validator = Inr ())"

definition cancels :: "jsdate \<Rightarrow> envelope \<Rightarrow> agui_entry \<Rightarrow> bool" where
  "cancels now c entry \<longleftrightarrow>
     ae_status entry = js ''cancelled'' \<and> ae_payload entry = None \<and>
     (open_at now c \<or> (\<exists>t. env_state c = CancelledState t (Some AGUI_CANCELLED)))"

definition resumes ::
    "(schema \<Rightarrow> zparser) \<Rightarrow> agui_validator option \<Rightarrow> jsdate \<Rightarrow> envelope \<Rightarrow> json \<Rightarrow> agui_entry \<Rightarrow> jstr \<Rightarrow> json \<Rightarrow> bool" where
  "resumes sp validator now c contract entry key p \<longleftrightarrow>
     ae_status entry \<noteq> js ''cancelled'' \<and> ae_payload entry \<noteq> None \<and>
     sp ZJson (ae_payload entry) = Some (Some p) \<and>
     get ''kind'' contract \<noteq> Some (JStr (js ''authorization'')) \<and>
     (open_at now c \<and> policy_accepts sp validator c contract p \<or>
      (\<exists>t q. env_state c = ResumedState t key q \<and> canonicalJson q = canonicalJson p))"

lemma cancel_command_Inr:
  "cancel_command now issued c entry = Inr cmd \<and> ae_status entry = js ''cancelled'' \<longleftrightarrow>
    cancels now c entry \<and> cmd = CancelCommand (env_continuationId c) (ri_issuedVersion issued)"
  by (cases "env_state c")
    (auto simp: cancel_command_def cancels_def open_at_def bindR_eq_Inr require_def env_status_def)

lemma resume_command_Inr:
  "resume_command sp sha validator now receipt c contract entry = Inr cmd \<and> ae_status entry \<noteq> js ''cancelled'' \<longleftrightarrow>
    (\<exists>key p. resumes sp validator now c contract entry key p \<and>
      key = resumeIdempotencyKey sha (rd_threadId receipt) (env_continuationId c) (js ''resolved'') p \<and>
      cmd = ResumeCommand (env_continuationId c) key p)"
  by (cases "env_state c")
    (auto simp: resume_command_def resumes_def open_at_def policy_accepts_def bindR_eq_Inr require_def
      env_status_def parse_or_eq Let_def runError_def split: option.splits)

text \<open>The command an issued interrupt, its continuation and its entry give.\<close>

definition commands ::
    "(schema \<Rightarrow> zparser) \<Rightarrow> (jstr \<Rightarrow> jstr) \<Rightarrow> agui_validator option \<Rightarrow> jsdate \<Rightarrow> agui_receipt \<Rightarrow>
     agui_receipt_interrupt \<Rightarrow> envelope \<Rightarrow> agui_entry \<Rightarrow> agui_command \<Rightarrow> bool" where
  "commands sp sha validator now receipt issued c entry cmd \<longleftrightarrow>
     env_continuationId c = ri_continuation issued \<and> ae_interruptId entry = ri_continuation issued \<and>
     issued_matches sp sha receipt issued c \<and>
     (\<exists>contract. sp AguiContinuationPayloadSchema (Some (env_payload c)) = Some (Some contract) \<and>
       (cancels now c entry \<and> cmd = CancelCommand (env_continuationId c) (ri_issuedVersion issued) \<or>
        (\<exists>key p. resumes sp validator now c contract entry key p \<and>
          key = resumeIdempotencyKey sha (rd_threadId receipt) (env_continuationId c) (js ''resolved'') p \<and>
          cmd = ResumeCommand (env_continuationId c) key p)))"

lemma entry_command_Inr:
  "entry_command sp sha validator now receipt byId entriesById issued = Inr cmd \<longleftrightarrow>
    (\<exists>c entry contract. byId (ri_continuation issued) = Some c \<and> entriesById (ri_continuation issued) = Some entry \<and>
      sp AguiContinuationPayloadSchema (Some (env_payload c)) = Some (Some contract) \<and>
      (cancels now c entry \<and> cmd = CancelCommand (env_continuationId c) (ri_issuedVersion issued) \<or>
       (\<exists>key p. resumes sp validator now c contract entry key p \<and>
         key = resumeIdempotencyKey sha (rd_threadId receipt) (env_continuationId c) (js ''resolved'') p \<and>
         cmd = ResumeCommand (env_continuationId c) key p)))" (is "_ \<longleftrightarrow> ?R")
proof (cases "\<exists>c entry contract. byId (ri_continuation issued) = Some c \<and>
    entriesById (ri_continuation issued) = Some entry \<and>
    sp AguiContinuationPayloadSchema (Some (env_payload c)) = Some (Some contract)")
  case True
  then obtain c entry contract where found: "byId (ri_continuation issued) = Some c"
      "entriesById (ri_continuation issued) = Some entry"
      "sp AguiContinuationPayloadSchema (Some (env_payload c)) = Some (Some contract)" by blast
  have "entry_command sp sha validator now receipt byId entriesById issued =
      (if ae_status entry = js ''cancelled'' then cancel_command now issued c entry
       else resume_command sp sha validator now receipt c contract entry)"
    using found by (simp add: entry_command_def parse_or_def)
  moreover have "cancels now c entry \<Longrightarrow> ae_status entry = js ''cancelled''"
      "resumes sp validator now c contract entry key p \<Longrightarrow> ae_status entry \<noteq> js ''cancelled''" for key p
    by (simp_all add: cancels_def resumes_def)
  ultimately show ?thesis
    using found cancel_command_Inr [of now issued c entry cmd]
      resume_command_Inr [of sp sha validator now receipt c contract entry cmd]
    by (simp del: js_simps) metis
next
  case False
  then show ?thesis by (auto simp: entry_command_def runError_def bindR_eq_Inr parse_or_eq split: option.splits)
qed

lemma entries_by_id_Inr:
  "entries_by_id m es = Inr m' \<longleftrightarrow>
    distinct (map ae_interruptId es) \<and> (\<forall>e \<in> set es. m (ae_interruptId e) = None) \<and>
    m' = m ++ map_of (rev (map (\<lambda>e. (ae_interruptId e, e)) es))"
proof (induction es arbitrary: m)
  case (Cons e es)
  have step: "entries_by_id m (e # es) = Inr m' \<longleftrightarrow>
      m (ae_interruptId e) = None \<and> entries_by_id (m(ae_interruptId e \<mapsto> e)) es = Inr m'"
    by (auto simp: bindR_eq_Inr require_def)
  have fresh: "(\<forall>f \<in> set es. (m(ae_interruptId e \<mapsto> e)) (ae_interruptId f) = None) \<longleftrightarrow>
      ae_interruptId e \<notin> ae_interruptId ` set es \<and> (\<forall>f \<in> set es. m (ae_interruptId f) = None)"
    by (simp add: image_iff) metis
  show ?case unfolding step Cons.IH fresh by auto
qed auto

text \<open>The clock an input is validated at.\<close>

definition validation_time :: "agui_options \<Rightarrow> jsdate \<Rightarrow> jsdate" where
  "validation_time options clock = (case op_now options of Some d \<Rightarrow> d | None \<Rightarrow> clock)"

lemma entries_found:
  "distinct (map ae_interruptId es) \<Longrightarrow>
    map_of (rev (map (\<lambda>e. (ae_interruptId e, e)) es)) i = Some e \<longleftrightarrow> e \<in> set es \<and> ae_interruptId e = i"
  by (subst map_of_eq_Some_iff) (auto simp: rev_map [symmetric] o_def)

lemma same_ids:
  assumes "distinct xs" "distinct ys"
  shows "length xs = length ys \<and> set xs \<subseteq> set ys \<longleftrightarrow> set xs = set ys"
  using assms by (metis card_subset_eq distinct_card dual_order.refl finite_set)

text \<open>The commands of the issued interrupts, one by one.\<close>

lemma interrupt_commands:
  assumes cohort: "validateCurrentCohort sp sha receipt currents = Inr (continuations_by_id currents)"
    and entries: "distinct (map ae_interruptId entries)"
  shows "mapR (entry_command sp sha v now receipt (continuations_by_id currents)
      (map_of (rev (map (\<lambda>e. (ae_interruptId e, e)) entries)))) (rd_interrupts receipt) = Inr cmds \<longleftrightarrow>
    list_all2 (\<lambda>issued cmd. \<exists>c \<in> set currents. \<exists>entry \<in> set entries.
      commands sp sha v now receipt issued c entry cmd) (rd_interrupts receipt) cmds"
proof -
  have ids: "distinct (map env_continuationId currents)" using cohort by (simp add: validateCurrentCohort_Inr)
  have matches: "issued_matches sp sha receipt issued c"
    if "issued \<in> set (rd_interrupts receipt)" "c \<in> set currents" "env_continuationId c = ri_continuation issued"
    for issued c
  proof -
    obtain c' where c': "c' \<in> set currents" "env_continuationId c' = ri_continuation issued"
        "issued_matches sp sha receipt issued c'"
      using cohort \<open>issued \<in> _\<close> by (auto simp: validateCurrentCohort_Inr)
    have "c' = c" using c' that ids by (simp add: distinct_map inj_on_def)
    with c' show ?thesis by simp
  qed
  show ?thesis
    unfolding mapR_Inr_iff
    by (rule list.rel_cong [OF refl refl])
      (use matches in \<open>auto simp: entry_command_Inr continuations_by_id_Some [OF ids] entries_found [OF entries]
        commands_def\<close>)
qed

text \<open>As many entries as interrupts, and each for one of them: then they are the same.\<close>

lemma entries_cover:
  assumes "validateReceipt sp sha rawReceipt = Inr receipt" "distinct (map ae_interruptId entries)"
  shows "length entries = length (remdups (map ri_continuation (rd_interrupts receipt))) \<and>
      (\<forall>e \<in> set entries. ae_interruptId e \<in> ri_continuation ` set (rd_interrupts receipt)) \<longleftrightarrow>
    set (map ae_interruptId entries) = set (map ri_continuation (rd_interrupts receipt))"
proof -
  have dist: "distinct (map ri_continuation (rd_interrupts receipt))" using assms(1) by (simp add: validateReceipt_Inr)
  show ?thesis using same_ids [OF assms(2) dist] unfolding distinct_remdups_id [OF dist] by auto
qed

lemma agui_commands_Inr:
  "agui_commands sp sha input rawReceipt currents options clock = Inr cmds \<longleftrightarrow>
    (\<exists>receipt entries.
      validateReceipt sp sha rawReceipt = Inr receipt \<and>
      validateCurrentCohort sp sha receipt currents = Inr (continuations_by_id currents) \<and>
      in_threadId input = rd_threadId receipt \<and> in_resume input = Some entries \<and>
      distinct (map ae_interruptId entries) \<and>
      set (map ae_interruptId entries) = set (map ri_continuation (rd_interrupts receipt)) \<and>
      getTime (validation_time options clock) \<noteq> None \<and>
      list_all2 (\<lambda>issued cmd. \<exists>c \<in> set currents. \<exists>entry \<in> set entries.
          commands sp sha (op_validatePayload options) (validation_time options clock) receipt issued c entry cmd)
        (rd_interrupts receipt) cmds)"
proof -
  have "agui_commands sp sha input rawReceipt currents options clock = Inr cmds \<longleftrightarrow>
      (\<exists>receipt entries. validateReceipt sp sha rawReceipt = Inr receipt \<and>
        validateCurrentCohort sp sha receipt currents = Inr (continuations_by_id currents) \<and>
        in_threadId input = rd_threadId receipt \<and> in_resume input = Some entries \<and>
        distinct (map ae_interruptId entries) \<and>
        (length entries = length (remdups (map ri_continuation (rd_interrupts receipt))) \<and>
          (\<forall>e \<in> set entries. ae_interruptId e \<in> ri_continuation ` set (rd_interrupts receipt))) \<and>
        getTime (validation_time options clock) \<noteq> None \<and>
        mapR (entry_command sp sha (op_validatePayload options) (validation_time options clock) receipt (continuations_by_id currents)
          (map_of (rev (map (\<lambda>e. (ae_interruptId e, e)) entries)))) (rd_interrupts receipt) = Inr cmds)"
    by (cases "in_resume input")
      (auto simp: agui_commands_def bindR_eq_Inr require_def runError_def entries_by_id_Inr Let_def
        validation_time_def validateCurrentCohort_Inr)
  then show ?thesis using interrupt_commands entries_cover by meson
qed

lemma from_input_Inr:
  "fromAguiRunAgentInput sp sha h args parsed rawReceipt currents options clock = Inr cmds \<longleftrightarrow>
    (\<exists>limits input. parseInputLimits (op_maxInputDepth options) (op_maxInputNodes options) = Some limits \<and>
      passesInputPreflight h limits args = Some True \<and> parsed = Some input \<and>
      agui_commands sp sha input rawReceipt currents options clock = Inr cmds)"
  by (auto simp: fromAguiRunAgentInput_def unsafeInputError_def runError_def split: option.splits bool.splits)

text \<open>Every command of an accepted input has its interrupt, its continuation and its entry.\<close>

lemma command_from:
  assumes "agui_commands sp sha input rawReceipt currents options clock = Inr cmds" "cmd \<in> set cmds"
  obtains receipt issued c entry entries where "validateReceipt sp sha rawReceipt = Inr receipt"
    "distinct (map env_continuationId currents)" "issued \<in> set (rd_interrupts receipt)" "c \<in> set currents"
    "in_resume input = Some entries" "entry \<in> set entries"
    "commands sp sha (op_validatePayload options) (validation_time options clock) receipt issued c entry cmd"
proof -
  obtain receipt entries where r: "validateReceipt sp sha rawReceipt = Inr receipt"
      "validateCurrentCohort sp sha receipt currents = Inr (continuations_by_id currents)"
      "in_resume input = Some entries"
    and all: "list_all2 (\<lambda>issued cmd. \<exists>c \<in> set currents. \<exists>entry \<in> set entries.
          commands sp sha (op_validatePayload options) (validation_time options clock) receipt issued c entry cmd)
        (rd_interrupts receipt) cmds"
    using assms(1) by (auto simp: agui_commands_Inr)
  obtain n where n: "n < length cmds" "cmds ! n = cmd" using assms(2) by (auto simp: in_set_conv_nth)
  then obtain c entry where "c \<in> set currents" "entry \<in> set entries"
      "commands sp sha (op_validatePayload options) (validation_time options clock) receipt
        (rd_interrupts receipt ! n) c entry cmd"
    using all by (auto simp: list_all2_conv_all_nth)
  moreover have "rd_interrupts receipt ! n \<in> set (rd_interrupts receipt)"
    using n list_all2_lengthD [OF all] by simp
  ultimately show thesis using that r by (auto simp: validateCurrentCohort_Inr)
qed

lemma commands_id: "commands sp sha v now r issued c entry cmd \<Longrightarrow>
    cmd_continuationId cmd = ri_continuation issued \<and> env_continuationId c = ri_continuation issued"
  by (auto simp: commands_def)

lemma commands_cover:
  assumes "agui_commands sp sha input rawReceipt currents options clock = Inr cmds"
    and "validateReceipt sp sha rawReceipt = Inr receipt"
  shows "map cmd_continuationId cmds = map ri_continuation (rd_interrupts receipt)"
proof -
  obtain entries where "list_all2 (\<lambda>issued cmd. \<exists>c \<in> set currents. \<exists>entry \<in> set entries.
        commands sp sha (op_validatePayload options) (validation_time options clock) receipt issued c entry cmd)
      (rd_interrupts receipt) cmds"
    using assms by (auto simp: agui_commands_Inr)
  then have "list_all2 (\<lambda>issued cmd. cmd_continuationId cmd = ri_continuation issued) (rd_interrupts receipt) cmds"
    by (rule list.rel_mono_strong) (use commands_id in blast)
  then show ?thesis by (auto simp: list_all2_conv_all_nth intro: nth_equalityI)
qed

text \<open>An authorization stays one when its payload is read as a contract.\<close>

context zod
begin

lemma authorization_contract:
  assumes "json_ok p" "sp AguiContinuationPayloadSchema (Some p) = Some (Some contract)"
    and "get ''kind'' p = Some (JStr (js ''authorization''))"
  shows "get ''kind'' contract = Some (JStr (js ''authorization''))"
  using parsed_field [OF plain_json_ok [OF assms(1)] _ assms(2) [unfolded AguiContinuationPayloadSchema_def], of "''kind''"]
    assms(3)
  by (simp add: js_inject default default_parse_def enum enum_parse_def del: js_simps)

end

section \<open>The same input again\<close>

text \<open>The continuation after the service has executed the command.\<close>

definition executed :: "agui_command \<Rightarrow> envelope \<Rightarrow> envelope \<Rightarrow> bool" where
  "executed cmd c c' \<longleftrightarrow> (\<exists>e. reduceContinuation (Some c) e = Inr c' \<and>
     ev_body e = (case cmd of
       ResumeCommand _ key p \<Rightarrow> Resumed key p
     | CancelCommand _ _ \<Rightarrow> Cancelled (Some AGUI_CANCELLED)))"

text \<open>A command that was executed, or whose continuation is as it was and not yet due.\<close>

definition retriable :: "jsdate \<Rightarrow> agui_command \<Rightarrow> envelope \<Rightarrow> envelope \<Rightarrow> bool" where
  "retriable now cmd c c' \<longleftrightarrow>
     executed cmd c c' \<or> (c' = c \<and> (env_status c = StPending \<longrightarrow> open_at now c))"

lemma commands_again:
  assumes "commands sp sha v now r issued c entry cmd" "retriable now' cmd c c'"
  shows "commands sp sha v now' r issued c' entry cmd"
proof (cases "executed cmd c c'")
  case True
  then obtain e where e: "reduceContinuation (Some c) e = Inr c'"
    and b: "ev_body e = (case cmd of ResumeCommand _ key p \<Rightarrow> Resumed key p
      | CancelCommand _ _ \<Rightarrow> Cancelled (Some AGUI_CANCELLED))"
    by (auto simp: executed_def)
  have pending: "env_status c = StPending" and c': "c' = apply_body (Some c) e (ev_body e)"
    and version: "ev_version e = env_version c + 1"
    using e by (simp_all add: reduce_Some_iff)
  have closed: "env_status c' \<noteq> StPending" using reduce_closes [OF e] .
  have "issued_matches sp sha r issued c'"
    using assms(1) reduce_keeps_origin [OF e] pending closed
    by (auto simp: commands_def issued_matches_def Let_def same_origin_def split: option.splits)
  then show ?thesis
    using assms(1) b version
    by (cases cmd) (auto simp: commands_def c' cancels_def resumes_def simp del: js_simps)
next
  case False
  then have same: "c' = c" "env_status c = StPending \<longrightarrow> open_at now' c" using assms(2) by (auto simp: retriable_def)
  have "open_at now c \<Longrightarrow> open_at now' c" using same(2) by (simp add: open_at_def)
  then have "cancels now c entry \<Longrightarrow> cancels now' c entry"
      "resumes sp v now c contract entry key p \<Longrightarrow> resumes sp v now' c contract entry key p" for contract key p
    by (auto simp: cancels_def resumes_def simp del: js_simps)
  then show ?thesis using assms(1) same(1) unfolding commands_def by blast
qed

definition cohort_retriable ::
    "jsdate \<Rightarrow> agui_command list \<Rightarrow> envelope list \<Rightarrow> envelope list \<Rightarrow> bool" where
  "cohort_retriable now cmds currents currents' \<longleftrightarrow>
     distinct (map env_continuationId currents') \<and> length currents' = length currents \<and>
     (\<forall>c \<in> set currents. \<forall>cmd \<in> set cmds. cmd_continuationId cmd = env_continuationId c \<longrightarrow>
        (\<exists>c' \<in> set currents'. retriable now cmd c c'))"

lemma retry_same_commands:
  assumes run: "agui_commands sp sha input rawReceipt currents options clock = Inr cmds"
    and retry: "cohort_retriable (validation_time options' clock') cmds currents currents'"
    and "op_validatePayload options' = op_validatePayload options"
    and "getTime (validation_time options' clock') \<noteq> None"
  shows "agui_commands sp sha input rawReceipt currents' options' clock' = Inr cmds"
proof -
  let ?now = "validation_time options clock" and ?now' = "validation_time options' clock'"
  let ?v = "op_validatePayload options"
  obtain receipt entries where r: "validateReceipt sp sha rawReceipt = Inr receipt"
      "validateCurrentCohort sp sha receipt currents = Inr (continuations_by_id currents)"
      "in_threadId input = rd_threadId receipt" "in_resume input = Some entries"
      "distinct (map ae_interruptId entries)"
      "set (map ae_interruptId entries) = set (map ri_continuation (rd_interrupts receipt))"
    and all: "list_all2 (\<lambda>issued cmd. \<exists>c \<in> set currents. \<exists>entry \<in> set entries.
        commands sp sha ?v ?now receipt issued c entry cmd) (rd_interrupts receipt) cmds"
    using run by (auto simp: agui_commands_Inr)
  have all': "list_all2 (\<lambda>issued cmd. \<exists>c \<in> set currents'. \<exists>entry \<in> set entries.
      commands sp sha ?v ?now' receipt issued c entry cmd) (rd_interrupts receipt) cmds"
    using all
  proof (rule list.rel_mono_strong)
    fix issued cmd
    assume "cmd \<in> set cmds" "\<exists>c \<in> set currents. \<exists>entry \<in> set entries. commands sp sha ?v ?now receipt issued c entry cmd"
    then obtain c entry where "c \<in> set currents" "entry \<in> set entries" "commands sp sha ?v ?now receipt issued c entry cmd"
      by blast
    moreover then obtain c' where "c' \<in> set currents'" "retriable ?now' cmd c c'"
      using retry \<open>cmd \<in> set cmds\<close> commands_id [OF \<open>commands sp sha ?v ?now receipt issued c entry cmd\<close>]
      unfolding cohort_retriable_def by metis
    ultimately show "\<exists>c \<in> set currents'. \<exists>entry \<in> set entries. commands sp sha ?v ?now' receipt issued c entry cmd"
      using commands_again by blast
  qed
  have "\<exists>c \<in> set currents'. env_continuationId c = ri_continuation issued \<and> issued_matches sp sha receipt issued c"
    if "issued \<in> set (rd_interrupts receipt)" for issued
    using all' that by (auto simp: list_all2_conv_all_nth in_set_conv_nth commands_def)
  then have "validateCurrentCohort sp sha receipt currents' = Inr (continuations_by_id currents')"
    using r(2) retry by (simp add: validateCurrentCohort_Inr cohort_retriable_def)
  then show ?thesis using r all' assms(3,4) by (auto simp: agui_commands_Inr)
qed

text \<open>What the service answers to a command whose continuation is closed.\<close>

lemma command_replayed:
  assumes run: "agui_commands sp sha input rawReceipt currents options clock = Inr cmds"
    and "cmd \<in> set cmds" "c \<in> set currents" "env_continuationId c = cmd_continuationId cmd" "env_status c \<noteq> StPending"
  shows "case cmd of
      ResumeCommand i key p \<Rightarrow> resolveCompletedResume c
        \<lparr>ri_continuationId = i, ri_idempotencyKey = key, ri_resumePayload = p, ri_resumeToken = token\<rparr> = Inr (Some c)
    | CancelCommand i v \<Rightarrow> env_status c = StCancelled \<and> resolveCompletedCancellation c
        \<lparr>xi_continuationId = i, xi_expectedVersion = Some v, xi_reason = Some AGUI_CANCELLED\<rparr> = Inr c"
proof -
  obtain receipt issued d entry where d: "d \<in> set currents" "distinct (map env_continuationId currents)"
    and cmd: "commands sp sha (op_validatePayload options) (validation_time options clock) receipt issued d entry cmd"
    by (rule command_from [OF run assms(2)])
  have "d = c" using d assms(3,4) commands_id [OF cmd] by (simp add: distinct_map inj_on_def)
  then show ?thesis
    using cmd assms(5)
    by (cases cmd)
      (auto simp: commands_def cancels_def resumes_def open_at_def issued_matches_def Let_def env_status_def
        resolveCompletedResume_def resolveCompletedCancellation_def split: option.splits simp del: js_simps)
qed

end
