(* ===== verification/AguiProperties.thy ===== *)
theory AguiProperties
  imports AdapterProperties AguiCommands Outcomes
begin

text \<open>
  The properties of the AG-UI adapter: the traversal that guards its input, the round trip from an
  issued cohort to its validation, the identities it hashes, and the commands it derives.
\<close>

section \<open>The guard\<close>

text \<open>
  C28 The guard of untrusted input always ends with the right answer, whatever graph of objects it is
  given, shared, cyclic or unbounded: it accepts exactly the values that unfold to finite trees within
  the depth limit whose nodes together are within the node limit.
\<close>

theorem agui_preflight_decides:
  assumes "readable h kids" "parseInputLimits depthOption nodesOption = Some limits"
  shows "passesInputPreflight h limits vs = Some (small_tree kids limits vs)"
  using passes_iff [OF assms(1)] parseInputLimits_Some [OF assms(2)] by simp

text \<open>An object that contains itself.\<close>

theorem agui_preflight_decides_witness:
  "passesInputPreflight (\<lambda>a. Some [Some (Ref a)]) \<lparr>maxInputDepth = 64, maxInputNodes = 50000\<rparr> [Ref 0] = Some False"
proof -
  have "readable (\<lambda>a. Some [Some (Ref a)]) (\<lambda>a. [Ref a])" by (simp add: readable_def)
  moreover have "parseInputLimits None None = Some \<lparr>maxInputDepth = 64, maxInputNodes = 50000\<rparr>"
    by (simp add: parseInputLimits_def DEFAULT_MAX_INPUT_DEPTH_def DEFAULT_MAX_INPUT_NODES_def num_less_def
      num_le_ints safe_int_def MAX_SAFE_INTEGER_def)
  moreover have "\<not> unfolds (\<lambda>a. [Ref a]) (Ref 0) t" for t
    by (rule cycle_unfolds) (simp add: reaches.child)
  then have "\<not> small_tree (\<lambda>a. [Ref a]) \<lparr>maxInputDepth = 64, maxInputNodes = 50000\<rparr> [Ref 0]"
    by (auto simp: small_tree_def list_all2_Cons1)
  ultimately show ?thesis
    using agui_preflight_decides [of _ "\<lambda>a. [Ref a]" None None "\<lparr>maxInputDepth = 64, maxInputNodes = 50000\<rparr>" "[Ref 0]"]
    by simp
qed

section \<open>Issuing\<close>

text \<open>
  C23 A cohort that was issued is accepted later: its receipt validates as it was returned, and the
  continuations match it both while they are pending and after each was resumed, cancelled or has
  expired, in whatever order they are listed.
\<close>

theorem agui_issue_round_trip:
  assumes "zod sp" "\<forall>c \<in> set cs. json_ok (env_payload c)"
    and "issueAguiInterrupts sp sha cs binding = Inr iss" "cohort_later cs currents"
  shows "validateReceipt sp sha (Some (receipt_json (ai_receipt iss))) = Inr (ai_receipt iss) \<and>
    validateCurrentCohort sp sha (ai_receipt iss) currents = Inr (continuations_by_id currents)"
  by (rule zod.issue_accepted [OF assms])

definition sample_sha :: "jstr \<Rightarrow> jstr" where
  "sample_sha t = replicate 64 (if t = [] then ch CHR ''0'' else ch CHR ''a'')"

definition sample_run :: json where
  "sample_run = JObj [(js ''runId'', JStr (js ''t1'')), (js ''threadId'', JStr (js ''thread''))]"

lemma sample_sha_hex [simp]: "hex64 (sample_sha t)"
  by (simp add: hex64_def sample_sha_def is_hex_lower_def is_digit_def list_all_iff word_le_nat_alt unat_ch)

definition sample_receipt :: agui_receipt where
  "sample_receipt =
     (let d = \<lparr>rd_threadId = js ''thread'', rd_runId = js ''t1'', rd_interrupts = [issued_interrupt sample_sha created_env]\<rparr>
      in agui_descriptor.extend d \<lparr>rd_cohortId = cohortId sample_sha d\<rparr>)"

lemma sample_payload_contract:
  "zod_ref AguiContinuationPayloadSchema (Some sample_payload) =
    Some (Some (JObj [(js ''kind'', JStr (js ''input'')), (js ''message'', JStr (js ''question''))]))"
  by (simp add: AguiContinuationPayloadSchema_def object_parse_def default_parse_def string_parse_def
    optional_parse_def extra_fields_def js_obj_id sample_payload_def)

lemma sample_cohort_ok [simp]: "cohort_id_ok (cohortId sample_sha d)"
  by (simp add: cohort_id_ok_def cohortId_def hashJson_def)

lemma sample_interrupt_parse:
  "zod_ref AguiReceiptInterruptSchema (Some (receipt_interrupt_json (issued_interrupt sample_sha created_env))) =
    Some (Some (receipt_interrupt_json (issued_interrupt sample_sha created_env)))"
proof -
  have "iso_datetime_ok True (iso_string 60000)"
    using iso_string_datetime [of 1970 60000 True] sample_year by simp
  moreover have "num_less (num_of_int 0) (num_of_int 1)" by (simp add: num_less_def num_le_ints)
  ultimately show ?thesis
    using sample_ids
    by (simp add: AguiReceiptInterruptSchema_def object_parse_def string_parse_def number_parse_def extra_fields_def
      format_parse_def receipt_interrupt_json_def obj_def issued_interrupt_def hashJson_def
      zod_reference.opaque_parse(1) safe_int_def MAX_SAFE_INTEGER_def)
qed

lemma sample_receipt_ok: "accepts zod_ref AguiInterruptReceiptSchema (Some (receipt_json sample_receipt))"
  using sample_ids sample_interrupt_parse
  by (simp add: accepts_def sample_receipt_def AguiInterruptReceiptSchema_def object_parse_def literal_parse_def
    string_parse_def array_parse_def extra_fields_def receipt_json_def obj_def agui_descriptor.extend_def
    zod_reference.opaque_parse(1))

lemma sample_run_parse: "zod_ref AguiRunBindingSchema (Some sample_run) = Some (Some sample_run)"
  using sample_ids
  by (simp add: AguiRunBindingSchema_def object_parse_def extra_fields_def sample_run_def
    zod_reference.opaque_parse(1))

lemma sample_issuance:
  "\<exists>iss. issueAguiInterrupts zod_ref sample_sha [created_env] (Some sample_run) = Inr iss \<and>
    ai_receipt iss = sample_receipt"
proof -
  have fields: "str_field ''threadId'' sample_run = js ''thread''" "str_field ''runId'' sample_run = js ''t1''"
    by (simp_all add: sample_run_def str_field_def)
  have "agui_project zod_ref (js ''thread'') {} [created_env] =
      Inr [(created_env, JObj [(js ''kind'', JStr (js ''input'')), (js ''message'', JStr (js ''question''))])]"
    using sample_ids sample_payload_contract
    by (simp add: agui_requirePending_def parseContinuationPayload_def parse_or_def accepts_def
      zod_reference.opaque_parse(1))
  then show ?thesis
    using sample_receipt_ok
    by (simp add: issueAguiInterrupts_def parseBinding_def parse_or_def sample_run_parse Let_def fields
      sample_receipt_def [symmetric] sample_receipt_def [unfolded Let_def, symmetric] del: js_simps)
qed

lemma resumed_later: "later created_env resumed_env"
proof -
  have "reduceContinuation (Some created_env) resumed_event = Inr resumed_env"
    by (simp add: reduce_Some_iff resumed_env_def) (simp add: resumed_event_def CONTINUATION_SCHEMA_VERSION_def)
  then show ?thesis by (auto simp: later_def)
qed

theorem agui_issue_round_trip_witness:
  "validateReceipt zod_ref sample_sha (Some (receipt_json sample_receipt)) = Inr sample_receipt \<and>
    (\<exists>byId. validateCurrentCohort zod_ref sample_sha sample_receipt [resumed_env] = Inr byId)"
proof -
  obtain iss where iss: "issueAguiInterrupts zod_ref sample_sha [created_env] (Some sample_run) = Inr iss"
      "ai_receipt iss = sample_receipt"
    using sample_issuance by blast
  have "cohort_later [created_env] [resumed_env]" using resumed_later by (simp add: cohort_later_def)
  from agui_issue_round_trip [OF zod_reference.zod_axioms _ iss(1) this] iss(2) show ?thesis by simp
qed

text \<open>
  The hashes identify what they are taken of, where the hash does not collide: two cohorts have the
  same id exactly when they are of the same thread and run and have the same interrupts, in order,
  with the same versions, expiries and payload hashes; and two answers have the same idempotency key
  exactly when they are for the same thread and interrupt with equal payloads, whatever the order of
  their members.
\<close>

theorem agui_identities:
  assumes "json_ok p" "json_ok q"
    and "inj_on sha {cohort_text r, cohort_text s, key_text threadId i p, key_text threadId' i' q}"
  shows "(cohortId sha r = cohortId sha s \<longleftrightarrow>
      rd_threadId r = rd_threadId s \<and> rd_runId r = rd_runId s \<and> rd_interrupts r = rd_interrupts s) \<and>
    (resumeIdempotencyKey sha threadId i (js ''resolved'') p = resumeIdempotencyKey sha threadId' i' (js ''resolved'') q \<longleftrightarrow>
      threadId = threadId' \<and> i = i' \<and> json_eq p q)"
proof -
  have "sha (cohort_text r) = sha (cohort_text s) \<longleftrightarrow> cohort_text r = cohort_text s"
    "sha (key_text threadId i p) = sha (key_text threadId' i' q) \<longleftrightarrow> key_text threadId i p = key_text threadId' i' q"
    by (rule inj_on_eq_iff [OF assms(3)]; blast)+
  then show ?thesis
    unfolding hashed_texts same_append_eq cohort_text_inject key_text_inject [OF assms(1,2)] by blast
qed

theorem agui_identities_witness:
  "resumeIdempotencyKey id (js ''thread'') (js ''c1'') (js ''resolved'') (JBool True) \<noteq>
    resumeIdempotencyKey id (js ''thread'') (js ''c1'') (js ''resolved'') (JBool False)"
  using agui_identities [of "JBool True" "JBool False" id sample_receipt sample_receipt "js ''thread''" "js ''c1''"
      "js ''thread''" "js ''c1''"]
  by simp

section \<open>Commands\<close>

text \<open>
  C24 An accepted run input answers the whole cohort exactly once: there is one command for each
  interrupt of the receipt, in the order of the receipt, and the entries of the input name each
  interrupt once and nothing else.
\<close>

theorem agui_commands_cover_cohort:
  assumes "fromAguiRunAgentInput sp sha h args parsed rawReceipt currents options clock = Inr cmds"
  shows "\<exists>receipt input entries. validateReceipt sp sha rawReceipt = Inr receipt \<and>
    parsed = Some input \<and> in_resume input = Some entries \<and>
    map cmd_continuationId cmds = map ri_continuation (rd_interrupts receipt) \<and>
    distinct (map cmd_continuationId cmds) \<and> distinct (map ae_interruptId entries) \<and>
    set (map ae_interruptId entries) = set (map cmd_continuationId cmds)"
proof -
  obtain input where input: "parsed = Some input" "agui_commands sp sha input rawReceipt currents options clock = Inr cmds"
    using assms by (auto simp: from_input_Inr)
  then obtain receipt entries where r: "validateReceipt sp sha rawReceipt = Inr receipt" "in_resume input = Some entries"
      "distinct (map ae_interruptId entries)"
      "set (map ae_interruptId entries) = set (map ri_continuation (rd_interrupts receipt))"
    by (auto simp: agui_commands_Inr)
  have "distinct (map ri_continuation (rd_interrupts receipt))" using r(1) by (simp add: validateReceipt_Inr)
  then show ?thesis using r input(1) commands_cover [OF input(2) r(1)] by metis
qed

definition sample_entry :: agui_entry where
  "sample_entry = \<lparr>ae_interruptId = js ''c1'', ae_status = js ''resolved'', ae_payload = Some (JStr (js ''answer''))\<rparr>"

definition sample_input :: agui_run_input where
  "sample_input = \<lparr>in_threadId = js ''thread'', in_resume = Some [sample_entry]\<rparr>"

definition sample_options :: agui_options where
  "sample_options = \<lparr>op_now = None, op_validatePayload = None, op_maxInputDepth = None, op_maxInputNodes = None\<rparr>"

definition sample_command :: agui_command where
  "sample_command = ResumeCommand (js ''c1'')
     (resumeIdempotencyKey sample_sha (js ''thread'') (js ''c1'') (js ''resolved'') (JStr (js ''answer'')))
     (JStr (js ''answer''))"

lemma sample_commands:
  "agui_commands zod_ref sample_sha sample_input (Some (receipt_json sample_receipt)) [created_env] sample_options
    (Date 2000) = Inr [sample_command]"
proof -
  obtain iss where iss: "issueAguiInterrupts zod_ref sample_sha [created_env] (Some sample_run) = Inr iss"
      "ai_receipt iss = sample_receipt"
    using sample_issuance by blast
  have "cohort_later [created_env] [created_env]" by (simp add: cohort_later_def later_def)
  then have ok: "validateReceipt zod_ref sample_sha (Some (receipt_json sample_receipt)) = Inr sample_receipt"
      "validateCurrentCohort zod_ref sample_sha sample_receipt [created_env] = Inr (continuations_by_id [created_env])"
    using zod_reference.issue_accepted [OF _ iss(1)] iss(2) by simp_all
  have receipt: "rd_threadId sample_receipt = js ''thread''"
      "rd_interrupts sample_receipt = [issued_interrupt sample_sha created_env]"
    by (simp_all add: sample_receipt_def agui_descriptor.extend_def Let_def)
  have "issued_matches zod_ref sample_sha sample_receipt (issued_interrupt sample_sha created_env) created_env"
    using ok(2) by (auto simp: validateCurrentCohort_Inr receipt)
  moreover have "date_parse (iso_string 60000) = Some 60000"
    by (rule date_parse_iso_string) (simp add: MAX_TIME_def)
  ultimately have "commands zod_ref sample_sha None (Date 2000) sample_receipt (issued_interrupt sample_sha created_env)
      created_env sample_entry sample_command"
    using sample_payload_contract
    by (simp add: commands_def resumes_def sample_entry_def sample_command_def open_at_def policy_accepts_def
      issued_interrupt_def receipt)
  then show ?thesis
    using ok by (auto simp: agui_commands_Inr receipt sample_input_def validation_time_def sample_options_def
      issued_interrupt_def sample_entry_def)
qed

lemma sample_from:
  "fromAguiRunAgentInput zod_ref sample_sha (\<lambda>_. None) [Primitive, Primitive, Primitive] (Some sample_input)
    (Some (receipt_json sample_receipt)) [created_env] sample_options (Date 2000) = Inr [sample_command]"
  using sample_commands
  by (simp add: from_input_Inr parseInputLimits_def DEFAULT_MAX_INPUT_DEPTH_def DEFAULT_MAX_INPUT_NODES_def num_less_def
    num_le_ints safe_int_def MAX_SAFE_INTEGER_def passesInputPreflight_def sample_options_def)

theorem agui_commands_cover_cohort_witness:
  "map cmd_continuationId [sample_command] = [js ''c1''] \<and> distinct [cmd_continuationId sample_command]"
  using agui_commands_cover_cohort [OF sample_from] by (simp add: sample_command_def)

text \<open>
  C25 Every command of an accepted run input is backed by a current continuation of the cohort and an
  entry for it. A resume command carries the payload of its entry, never answers a continuation that
  asks for an authorization, and is given only while the continuation is pending before its expiry,
  or after it was resumed with the same key and an equal payload. A cancel command is given only for
  an entry without payload, while the continuation is pending before its expiry or after the same
  cancellation.
\<close>

theorem agui_commands_justified:
  assumes "zod sp" "\<forall>c \<in> set currents. json_ok (env_payload c)"
    and "fromAguiRunAgentInput sp sha h args parsed rawReceipt currents options clock = Inr cmds" "cmd \<in> set cmds"
  shows "\<exists>input entries c entry. parsed = Some input \<and> in_resume input = Some entries \<and>
    c \<in> set currents \<and> entry \<in> set entries \<and>
    env_continuationId c = cmd_continuationId cmd \<and> ae_interruptId entry = cmd_continuationId cmd \<and>
    env_correlationId c = in_threadId input \<and>
    (case cmd of
       ResumeCommand i key p \<Rightarrow>
         ae_status entry \<noteq> js ''cancelled'' \<and> sp ZJson (ae_payload entry) = Some (Some p) \<and>
         get ''kind'' (env_payload c) \<noteq> Some (JStr (js ''authorization'')) \<and>
         key = resumeIdempotencyKey sha (in_threadId input) i (js ''resolved'') p \<and>
         (open_at (validation_time options clock) c \<or>
          (\<exists>t q. env_state c = ResumedState t key q \<and> canonicalJson q = canonicalJson p))
     | CancelCommand i v \<Rightarrow>
         ae_status entry = js ''cancelled'' \<and> ae_payload entry = None \<and>
         (open_at (validation_time options clock) c \<and> v = env_version c \<or>
          (\<exists>t. env_state c = CancelledState t (Some AGUI_CANCELLED)) \<and> v + 1 = env_version c))"
proof -
  obtain input where input: "parsed = Some input" "agui_commands sp sha input rawReceipt currents options clock = Inr cmds"
    using assms(3) by (auto simp: from_input_Inr)
  obtain receipt issued c entry entries where r: "validateReceipt sp sha rawReceipt = Inr receipt"
    and c: "c \<in> set currents" "in_resume input = Some entries" "entry \<in> set entries"
    and cmd: "commands sp sha (op_validatePayload options) (validation_time options clock) receipt issued c entry cmd"
    by (rule command_from [OF input(2) assms(4)])
  have thread: "in_threadId input = rd_threadId receipt" using input(2) r by (auto simp: agui_commands_Inr)
  have m: "env_correlationId c = rd_threadId receipt"
      "env_version c = (if env_status c = StPending then ri_issuedVersion issued else ri_issuedVersion issued + 1)"
    using cmd by (auto simp: commands_def issued_matches_def Let_def split: option.splits)
  have ok: "json_ok (env_payload c)" using assms(2) c(1) by blast
  have "case cmd of
       ResumeCommand i key p \<Rightarrow>
         ae_status entry \<noteq> js ''cancelled'' \<and> sp ZJson (ae_payload entry) = Some (Some p) \<and>
         get ''kind'' (env_payload c) \<noteq> Some (JStr (js ''authorization'')) \<and>
         key = resumeIdempotencyKey sha (in_threadId input) i (js ''resolved'') p \<and>
         (open_at (validation_time options clock) c \<or>
          (\<exists>t q. env_state c = ResumedState t key q \<and> canonicalJson q = canonicalJson p))
     | CancelCommand i v \<Rightarrow>
         ae_status entry = js ''cancelled'' \<and> ae_payload entry = None \<and>
         (open_at (validation_time options clock) c \<and> v = env_version c \<or>
          (\<exists>t. env_state c = CancelledState t (Some AGUI_CANCELLED)) \<and> v + 1 = env_version c)"
    using cmd m thread zod.authorization_contract [OF assms(1) ok]
    by (cases cmd) (auto simp: commands_def cancels_def resumes_def open_at_def env_status_def simp del: js_simps)
  then show ?thesis
    using input(1) c m(1) thread commands_id [OF cmd] cmd by (auto simp: commands_def)
qed

theorem agui_commands_justified_witness:
  "open_at (Date 2000) created_env"
proof -
  have "json_ok (env_payload created_env)" by simp
  then show ?thesis
    using agui_commands_justified [OF zod_reference.zod_axioms _ sample_from, of sample_command]
    by (auto simp: sample_command_def validation_time_def sample_options_def created_env_def created_event_def
      created_envelope_def)
qed


definition answered_event :: event where
  "answered_event =
     \<lparr>ev_schemaVersion = CONTINUATION_SCHEMA_VERSION, ev_continuationId = js ''c1'', ev_version = 2,
      ev_occurredAt = iso_string 2000,
      ev_body = Resumed (cmd_idempotencyKey sample_command) (cmd_resumePayload sample_command)\<rparr>"

definition answered_env :: envelope where
  "answered_env = apply_body (Some created_env) answered_event (ev_body answered_event)"

lemma answered: "reduceContinuation (Some created_env) answered_event = Inr answered_env"
  by (simp add: reduce_Some_iff answered_env_def) (simp add: answered_event_def CONTINUATION_SCHEMA_VERSION_def)

lemma sample_retriable: "cohort_retriable (Date 99999) [sample_command] [created_env] [answered_env]"
proof -
  have "executed sample_command created_env answered_env"
    using answered by (auto simp: executed_def answered_event_def sample_command_def)
  then show ?thesis by (simp add: cohort_retriable_def retriable_def)
qed


context zod
begin

lemma in_memory_created_hash:
  assumes "in_memory_good sp s" "stored_state (in_memory_load sp) s c env"
  shows "\<exists>hash. created_hash (in_memory_load sp) s c hash"
  by (rule in_memory.stored_holds [OF assms]) blast

lemmas in_memory_resume_replayed = in_memory.resume_replayed
lemmas in_memory_cancel_replayed = in_memory.cancel_replayed

end

text \<open>
  C27 The service answers every command it has already executed: over a store that holds a continuation as one
  that a command of an accepted input was executed on, a resume with that command and the token of the
  continuation, and a cancellation with that command, return the stored continuation, change nothing, and
  emit nothing. With a wrong token the resume is rejected, and the store is left alone.
\<close>

theorem agui_retry_accepted:
  assumes "zod sp" "in_memory_good sp (w_store w)" "\<forall>t. p_hash P t = Inr (h t)"
    and "fromAguiRunAgentInput sp sha heap args parsed rawReceipt currents options clock = Inr cmds" "cmd \<in> set cmds"
    and "c \<in> set currents" "env_continuationId c = cmd_continuationId cmd" "env_status c \<noteq> StPending"
    and "stored_state (in_memory_load sp) (w_store w) (cmd_continuationId cmd) c"
  shows "case cmd of
      ResumeCommand i key p \<Rightarrow> (\<exists>hash. created_hash (in_memory_load sp) (w_store w) i hash \<and>
        (\<forall>token. run (in_memory_load sp) (in_memory_append sp) P (resume
            \<lparr>ri_continuationId = i, ri_idempotencyKey = key, ri_resumePayload = p, ri_resumeToken = token\<rparr>) w =
          (if tokenHashesEqual hash (h token) then (Inr c, w)
           else (case iso (p_clock P (w_ticks w)) of
                   Inl e \<Rightarrow> (Inl e, tick w)
                 | Inr at \<Rightarrow> (Inl (PauseMeshError (TokenMismatchError i)), log_obs (ObsRejected i at TOKEN_MISMATCH) (tick w))))))
    | CancelCommand i v \<Rightarrow> run (in_memory_load sp) (in_memory_append sp) P (cancel
        \<lparr>xi_continuationId = i, xi_expectedVersion = Some v, xi_reason = Some AGUI_CANCELLED\<rparr>) w = (Inr c, w)"
proof -
  obtain input where "agui_commands sp sha input rawReceipt currents options clock = Inr cmds"
    using assms(4) by (auto simp: from_input_Inr)
  note replayed = command_replayed [OF this assms(5-8)]
  show ?thesis
  proof (cases cmd)
    case (ResumeCommand i key p)
    obtain hash where hash: "created_hash (in_memory_load sp) (w_store w) i hash"
      using zod.in_memory_created_hash [OF assms(1,2,9)] ResumeCommand by auto
    have "run (in_memory_load sp) (in_memory_append sp) P (resume
        \<lparr>ri_continuationId = i, ri_idempotencyKey = key, ri_resumePayload = p, ri_resumeToken = token\<rparr>) w =
      (if tokenHashesEqual hash (h token) then (Inr c, w)
       else (case iso (p_clock P (w_ticks w)) of
               Inl e \<Rightarrow> (Inl e, tick w)
             | Inr at \<Rightarrow> (Inl (PauseMeshError (TokenMismatchError i)), log_obs (ObsRejected i at TOKEN_MISMATCH) (tick w))))"
      for token
      using zod.in_memory_resume_replayed [OF assms(1,2), where env = c and hash = hash and P = P and actual = "h token"
          and i = "\<lparr>ri_continuationId = i, ri_idempotencyKey = key, ri_resumePayload = p, ri_resumeToken = token\<rparr>"]
        replayed hash assms(3,9) ResumeCommand by (simp split: sum.split)
    then show ?thesis using hash ResumeCommand by auto
  next
    case (CancelCommand i v)
    then show ?thesis
      using zod.in_memory_cancel_replayed [OF assms(1,2), where env = c and P = P
          and i = "\<lparr>xi_continuationId = i, xi_expectedVersion = Some v, xi_reason = Some AGUI_CANCELLED\<rparr>"]
        replayed assms(9) by simp
  qed
qed

text \<open>The continuation of the scenario, resumed with the command; the input comes again, with the right token and a wrong one.\<close>

definition answered_store :: in_memory where
  "answered_store = [js ''c1'' \<mapsto> map (stringify \<circ> event_json) [created_event, answered_event]]"

definition answered_world :: "in_memory world" where
  "answered_world = \<lparr>w_store = answered_store, w_ticks = 0, w_ids = 0, w_tokens = 0, w_log = []\<rparr>"

lemma answered_storable: "storable zod_ref answered_event"
  by (simp add: storable_def answered_event_def sample_command_def resumeIdempotencyKey_def CONTINUATION_SCHEMA_VERSION_def
    safe_int_def MAX_SAFE_INTEGER_def)

lemma answered_stored: "stored zod_ref (js ''c1'') [created_event, answered_event]"
  using created_storable answered_storable
  by (simp add: stored_def numbered_def less_Suc_eq nth_Cons')
    (simp add: created_event_def answered_event_def sample_command_def)

lemma answered_good: "in_memory_good zod_ref answered_store"
  unfolding in_memory_good_def
proof
  fix c
  show "\<exists>es. texts answered_store c = map (stringify \<circ> event_json) es \<and> stored zod_ref c es"
    using answered_stored
    by (cases "c = js ''c1''")
      (auto simp: texts_def answered_store_def stored_def simp del: js_simps
        intro: exI [of _ "[created_event, answered_event]"] exI [of _ "[]"])
qed

lemma answered_load: "in_memory_load zod_ref answered_store (js ''c1'') = Inr [created_event, answered_event]"
  using zod_reference.load_texts [OF _ answered_stored, of answered_store]
  by (simp add: texts_def answered_store_def del: js_simps)

lemma sample_again:
  "fromAguiRunAgentInput zod_ref sample_sha (\<lambda>_. None) [Primitive] (Some sample_input)
    (Some (receipt_json sample_receipt)) [answered_env] sample_options (Date 99999) = Inr [sample_command]"
  using retry_same_commands [OF sample_commands, of sample_options "Date 99999" "[answered_env]"] sample_retriable
  by (simp add: from_input_Inr validation_time_def sample_options_def parseInputLimits_def
    DEFAULT_MAX_INPUT_DEPTH_def DEFAULT_MAX_INPUT_NODES_def num_less_def num_le_ints safe_int_def
    MAX_SAFE_INTEGER_def passesInputPreflight_def)

definition again :: "jstr \<Rightarrow> resume_input" where
  "again token = \<lparr>ri_continuationId = js ''c1'', ri_idempotencyKey = cmd_idempotencyKey sample_command,
     ri_resumePayload = JStr (js ''answer''), ri_resumeToken = token\<rparr>"

theorem agui_retry_accepted_witness:
  "run (in_memory_load zod_ref) (in_memory_append zod_ref) sample_ports (resume (again (js ''secret''))) answered_world =
      (Inr answered_env, answered_world) \<and>
    fst (run (in_memory_load zod_ref) (in_memory_append zod_ref) sample_ports (resume (again (js ''guess''))) answered_world) =
      Inl (PauseMeshError (TokenMismatchError (js ''c1'')))"
proof -
  have closed: "env_continuationId answered_env = cmd_continuationId sample_command" "env_status answered_env \<noteq> StPending"
    using reduce_keeps_origin [OF answered] reduce_closes [OF answered]
    by (simp_all add: same_origin_def sample_command_def)
  have "reduceContinuation None created_event = Inr created_env"
    by (simp add: reduce_None_iff created_env_def) (simp add: created_event_def CONTINUATION_SCHEMA_VERSION_def)
  then have "replayContinuation [created_event] = Inr (Some created_env)"
    by (simp add: replayContinuation_def)
  then have state: "stored_state (in_memory_load zod_ref) answered_store (js ''c1'') answered_env"
    using answered_load replay_snoc [of "[created_event]" "Some created_env" answered_event] answered
    by (simp add: stored_state_def)
  have hash: "created_hash (in_memory_load zod_ref) answered_store (js ''c1'') hash \<Longrightarrow> hash = sample_hash (js ''secret'')"
    for hash
    using answered_load by (auto simp: created_hash_def created_event_def)
  have "\<not> tokenHashesEqual (sample_hash (js ''secret'')) (sample_hash (js ''guess''))"
    by code_simp
  moreover have "w_store answered_world = answered_store" "\<forall>t. p_hash sample_ports t = Inr (sample_hash t)"
    by (simp_all add: answered_world_def sample_ports_def)
  moreover obtain key where command: "sample_command = ResumeCommand (js ''c1'') key (JStr (js ''answer''))"
    by (simp add: sample_command_def)
  ultimately have "run (in_memory_load zod_ref) (in_memory_append zod_ref) sample_ports (resume (again token)) answered_world =
      (if tokenHashesEqual (sample_hash (js ''secret'')) (sample_hash token) then (Inr answered_env, answered_world)
       else (case iso (p_clock sample_ports (w_ticks answered_world)) of
               Inl e \<Rightarrow> (Inl e, tick answered_world)
             | Inr at \<Rightarrow> (Inl (PauseMeshError (TokenMismatchError (js ''c1''))),
                 log_obs (ObsRejected (js ''c1'') at TOKEN_MISMATCH) (tick answered_world))))" for token
    using agui_retry_accepted [OF zod_reference.zod_axioms _ _ sample_again, of answered_world sample_ports sample_hash
        sample_command answered_env, unfolded command agui_command.case] answered_good closed state hash
    by (auto simp: again_def command simp del: js_simps)
  then show ?thesis
    using \<open>\<not> tokenHashesEqual (sample_hash (js ''secret'')) (sample_hash (js ''guess''))\<close>
    by (simp add: tokenHashesEqual_refl sample_ports_def del: js_simps)
qed

end
