(* ===== verification/McpSchemas.thy ===== *)
theory McpSchemas
  imports Protocol
begin

text \<open>
  The schemas of \<open>src/adapters/mcp/elicitation.ts\<close>: the restricted form schemas of MCP, the payloads,
  contexts, requests, results and receipts. A \<open>superRefine\<close> accepts a value when it adds no issue.

  The checks of string formats call back into zod and \<open>URL.canParse\<close>, so these schemas take the
  parser \<open>sp\<close> and the parser of URLs as arguments.
\<close>

section \<open>URLs\<close>

text \<open>What the program reads of a \<open>URL\<close>; \<open>new URL(text)\<close> is a parameter, \<open>None\<close> where it throws.\<close>

record url =
  u_protocol :: jstr
  u_username :: jstr
  u_password :: jstr
  u_hostname :: jstr
  u_hash :: jstr
  u_queryKeys :: "jstr list"
  u_href :: jstr

type_synonym url_parser = "jstr \<Rightarrow> url option"

definition canParse :: "url_parser \<Rightarrow> jstr \<Rightarrow> bool" where
  "canParse newURL value \<longleftrightarrow> newURL value \<noteq> None"

section \<open>Small schemas\<close>

definition NonNegativeIntegerSchema :: schema where
  "NonNegativeIntegerSchema = ZNumber [IsInt, NonNegative, Safe]"

definition untrimmed_ok :: "jstr \<Rightarrow> bool" where
  "untrimmed_ok value \<longleftrightarrow> value = trim value"

definition McpOpaqueProtocolIdSchema :: schema where
  "McpOpaqueProtocolIdSchema = ZString [MinLength 1, StrCheck untrimmed_ok]"

definition PreservedNonEmptyStringSchema :: schema where
  "PreservedNonEmptyStringSchema = ZString [MinLength 1, StrCheck untrimmed_ok]"

definition McpRequestIdSchema :: schema where
  "McpRequestIdSchema = ZUnion [McpOpaqueProtocolIdSchema, ZNumber [IsInt, Safe]]"

definition OptionalTextFields :: "(jstr \<times> schema) list" where
  "OptionalTextFields = [(js ''description'', ZOptional (ZString [])), (js ''title'', ZOptional (ZString []))]"

section \<open>The issues a refinement adds\<close>

definition unicodeLength :: "jstr \<Rightarrow> int" where
  "unicodeLength value = int (code_point_length value)"

text \<open>\<open>a !== undefined && b !== undefined && a > b\<close>, for members that are numbers.\<close>

definition exceeds :: "zvalue \<Rightarrow> zvalue \<Rightarrow> bool" where
  "exceeds a b = (case (a, b) of (Some (JNum m), Some (JNum n)) \<Rightarrow> num_less n m | _ \<Rightarrow> False)"

definition addRangeIssue :: "zvalue \<Rightarrow> zvalue \<Rightarrow> bool" where
  "addRangeIssue minimum maximum = exceeds minimum maximum"

definition addLengthIssue :: "json \<Rightarrow> bool" where
  "addLengthIssue v = exceeds (get ''minLength'' v) (get ''maxLength'' v)"

text \<open>The strings of an array member, and the \<open>const\<close> members of an array of options.\<close>

definition strings :: "zvalue \<Rightarrow> jstr list" where
  "strings v = (case v of
     Some (JArr vs) \<Rightarrow> concat (map (\<lambda>w. case w of JStr s \<Rightarrow> [s] | _ \<Rightarrow> []) vs)
   | _ \<Rightarrow> [])"

definition option_values :: "zvalue \<Rightarrow> jstr list" where
  "option_values v = (case v of Some (JArr vs) \<Rightarrow> map (str_field ''const'') vs | _ \<Rightarrow> [])"

definition sub :: "string \<Rightarrow> zvalue \<Rightarrow> zvalue" where
  "sub k v = (case v of Some w \<Rightarrow> get k w | None \<Rightarrow> None)"

text \<open>The length of a string or an array, as a number; \<open>None\<close> for \<open>undefined\<close>.\<close>

definition text_length :: "zvalue \<Rightarrow> zvalue" where
  "text_length v = (case v of Some (JStr s) \<Rightarrow> Some (JInt (unicodeLength s)) | _ \<Rightarrow> None)"

definition array_length :: "zvalue \<Rightarrow> zvalue" where
  "array_length v = (case v of Some (JArr vs) \<Rightarrow> Some (JInt (int (length vs))) | _ \<Rightarrow> None)"

definition validateStringFormat :: "(schema \<Rightarrow> zparser) \<Rightarrow> url_parser \<Rightarrow> jstr \<Rightarrow> jstr \<Rightarrow> bool" where
  "validateStringFormat sp newURL value format =
     (if format = js ''email'' then accepts sp ZEmail (Some (JStr value))
      else if format = js ''uri'' then canParse newURL value
      else if format = js ''date'' then accepts sp ZIsoDate (Some (JStr value))
      else if format = js ''date-time'' then accepts sp (ZIsoDatetime True) (Some (JStr value))
      else False)"

section \<open>Form fields\<close>

definition string_issue :: "(schema \<Rightarrow> zparser) \<Rightarrow> url_parser \<Rightarrow> json \<Rightarrow> bool" where
  "string_issue sp newURL v \<longleftrightarrow>
     addLengthIssue v \<or>
     exceeds (get ''minLength'' v) (text_length (get ''default'' v)) \<or>
     exceeds (text_length (get ''default'' v)) (get ''maxLength'' v) \<or>
     (case (get ''default'' v, get ''format'' v) of
        (Some (JStr d), Some (JStr f)) \<Rightarrow> \<not> validateStringFormat sp newURL d f
      | _ \<Rightarrow> False)"

definition McpStringSchemaDefinitionSchema :: "(schema \<Rightarrow> zparser) \<Rightarrow> url_parser \<Rightarrow> schema" where
  "McpStringSchemaDefinitionSchema sp newURL = ZRefine (ZObject Strict (OptionalTextFields @
     [(js ''default'', ZOptional (ZString [])),
      (js ''format'', ZOptional (ZEnum [js ''email'', js ''uri'', js ''date'', js ''date-time''])),
      (js ''maxLength'', ZOptional NonNegativeIntegerSchema),
      (js ''minLength'', ZOptional NonNegativeIntegerSchema),
      (js ''type'', ZLiteral (JStr (js ''string'')))]))
     (\<lambda>v. \<not> string_issue sp newURL v)"

definition number_issue :: "json \<Rightarrow> bool" where
  "number_issue v \<longleftrightarrow>
     addRangeIssue (get ''minimum'' v) (get ''maximum'' v) \<or>
     (get ''type'' v = Some (JStr (js ''integer'')) \<and>
      (case get ''default'' v of Some (JNum n) \<Rightarrow> \<not> is_integer n | _ \<Rightarrow> False)) \<or>
     exceeds (get ''minimum'' v) (get ''default'' v) \<or>
     exceeds (get ''default'' v) (get ''maximum'' v)"

definition McpNumberSchemaDefinitionSchema :: schema where
  "McpNumberSchemaDefinitionSchema = ZRefine (ZObject Strict (OptionalTextFields @
     [(js ''default'', ZOptional (ZNumber [Finite])),
      (js ''maximum'', ZOptional (ZNumber [Finite])),
      (js ''minimum'', ZOptional (ZNumber [Finite])),
      (js ''type'', ZEnum [js ''number'', js ''integer''])]))
     (\<lambda>v. \<not> number_issue v)"

definition McpBooleanSchemaDefinitionSchema :: schema where
  "McpBooleanSchemaDefinitionSchema = ZObject Strict (OptionalTextFields @
     [(js ''default'', ZOptional ZBoolean), (js ''type'', ZLiteral (JStr (js ''boolean'')))])"

text \<open>The issues of a choice among values: repeated values, or a default that is none of them.\<close>

definition choice_issue :: "json \<Rightarrow> jstr list \<Rightarrow> bool" where
  "choice_issue v values \<longleftrightarrow>
     \<not> distinct values \<or> (case get ''default'' v of Some (JStr d) \<Rightarrow> d \<notin> set values | _ \<Rightarrow> False)"

definition McpUntitledSingleEnumSchema :: schema where
  "McpUntitledSingleEnumSchema = ZRefine (ZObject Strict (OptionalTextFields @
     [(js ''default'', ZOptional (ZString [])),
      (js ''enum'', ZArray (ZString []) 1),
      (js ''type'', ZLiteral (JStr (js ''string'')))]))
     (\<lambda>v. \<not> choice_issue v (strings (get ''enum'' v)))"

definition legacy_issue :: "json \<Rightarrow> bool" where
  "legacy_issue v \<longleftrightarrow>
     choice_issue v (strings (get ''enum'' v)) \<or>
     (get ''enumNames'' v \<noteq> None \<and> length (strings (get ''enumNames'' v)) \<noteq> length (strings (get ''enum'' v)))"

definition McpLegacyTitledEnumSchema :: schema where
  "McpLegacyTitledEnumSchema = ZRefine (ZObject Strict (OptionalTextFields @
     [(js ''default'', ZOptional (ZString [])),
      (js ''enum'', ZArray (ZString []) 1),
      (js ''enumNames'', ZOptional (ZArray (ZString []) 0)),
      (js ''type'', ZLiteral (JStr (js ''string'')))]))
     (\<lambda>v. \<not> legacy_issue v)"

definition TitledEnumOptionSchema :: schema where
  "TitledEnumOptionSchema = ZObject Strict [(js ''const'', ZString []), (js ''title'', ZString [])]"

definition McpTitledSingleEnumSchema :: schema where
  "McpTitledSingleEnumSchema = ZRefine (ZObject Strict (OptionalTextFields @
     [(js ''default'', ZOptional (ZString [])),
      (js ''oneOf'', ZArray TitledEnumOptionSchema 1),
      (js ''type'', ZLiteral (JStr (js ''string'')))]))
     (\<lambda>v. \<not> choice_issue v (option_values (get ''oneOf'' v)))"

text \<open>The issues of a choice of several among values.\<close>

definition multi_issue :: "json \<Rightarrow> jstr list \<Rightarrow> bool" where
  "multi_issue v values \<longleftrightarrow>
     addRangeIssue (get ''minItems'' v) (get ''maxItems'' v) \<or> \<not> distinct values \<or>
     (get ''default'' v \<noteq> None \<and>
      (\<not> distinct (strings (get ''default'' v)) \<or>
       (\<exists>entry \<in> set (strings (get ''default'' v)). entry \<notin> set values) \<or>
       exceeds (get ''minItems'' v) (array_length (get ''default'' v)) \<or>
       exceeds (array_length (get ''default'' v)) (get ''maxItems'' v)))"

definition multi_shape :: "schema \<Rightarrow> (jstr \<times> schema) list" where
  "multi_shape items = OptionalTextFields @
     [(js ''default'', ZOptional (ZArray (ZString []) 0)),
      (js ''items'', items),
      (js ''maxItems'', ZOptional NonNegativeIntegerSchema),
      (js ''minItems'', ZOptional NonNegativeIntegerSchema),
      (js ''type'', ZLiteral (JStr (js ''array'')))]"

definition McpUntitledMultiEnumSchema :: schema where
  "McpUntitledMultiEnumSchema = ZRefine (ZObject Strict (multi_shape (ZObject Strict
       [(js ''enum'', ZArray (ZString []) 1), (js ''type'', ZLiteral (JStr (js ''string'')))])))
     (\<lambda>v. \<not> multi_issue v (strings (sub ''enum'' (get ''items'' v))))"

definition McpTitledMultiEnumSchema :: schema where
  "McpTitledMultiEnumSchema = ZRefine (ZObject Strict (multi_shape (ZObject Strict
       [(js ''anyOf'', ZArray TitledEnumOptionSchema 1)])))
     (\<lambda>v. \<not> multi_issue v (option_values (sub ''anyOf'' (get ''items'' v))))"

definition McpPrimitiveSchemaDefinitionSchema :: "(schema \<Rightarrow> zparser) \<Rightarrow> url_parser \<Rightarrow> schema" where
  "McpPrimitiveSchemaDefinitionSchema sp newURL = ZUnion
     [McpLegacyTitledEnumSchema, McpUntitledSingleEnumSchema, McpTitledSingleEnumSchema,
      McpUntitledMultiEnumSchema, McpTitledMultiEnumSchema, McpStringSchemaDefinitionSchema sp newURL,
      McpNumberSchemaDefinitionSchema, McpBooleanSchemaDefinitionSchema]"

section \<open>Forms and payloads\<close>

definition requested_issue :: "json \<Rightarrow> bool" where
  "requested_issue v \<longleftrightarrow>
     \<not> distinct (strings (get ''required'' v)) \<or>
     (\<exists>required \<in> set (strings (get ''required'' v)).
        map_of (obj_field ''properties'' v) required = None)"

definition McpRequestedSchemaSchema :: "(schema \<Rightarrow> zparser) \<Rightarrow> url_parser \<Rightarrow> schema" where
  "McpRequestedSchemaSchema sp newURL = ZRefine (ZObject Strict
     [(js ''$schema'', ZOptional (ZString [])),
      (js ''properties'', ZRecord (McpPrimitiveSchemaDefinitionSchema sp newURL)),
      (js ''required'', ZOptional (ZArray (ZString []) 0)),
      (js ''type'', ZLiteral (JStr (js ''object'')))])
     (\<lambda>v. \<not> requested_issue v)"

definition InputContinuationPayloadSchema :: "(schema \<Rightarrow> zparser) \<Rightarrow> url_parser \<Rightarrow> schema" where
  "InputContinuationPayloadSchema sp newURL = ZObject Passthrough
     [(js ''kind'', ZDefault (ZLiteral (JStr (js ''input''))) (JStr (js ''input''))),
      (js ''message'', ZString [MinLength 1]),
      (js ''responseSchema'', ZOptional (McpRequestedSchemaSchema sp newURL))]"

definition AuthorizationContinuationPayloadSchema :: schema where
  "AuthorizationContinuationPayloadSchema = ZObject Passthrough
     [(js ''kind'', ZLiteral (JStr (js ''authorization''))),
      (js ''message'', ZString [MinLength 1]),
      (js ''responseSchema'', ZOptional ZNever)]"

definition McpContinuationPayloadSchema :: "(schema \<Rightarrow> zparser) \<Rightarrow> url_parser \<Rightarrow> schema" where
  "McpContinuationPayloadSchema sp newURL =
     ZUnion [AuthorizationContinuationPayloadSchema, InputContinuationPayloadSchema sp newURL]"

section \<open>Contexts\<close>

definition McpClientCapabilitiesSchema :: schema where
  "McpClientCapabilitiesSchema = ZObject Passthrough
     [(js ''elicitation'', ZOptional (ZObject Passthrough
        [(js ''form'', ZOptional (ZObject Passthrough [])), (js ''url'', ZOptional (ZObject Passthrough []))]))]"

definition McpProjectionContextSchema :: schema where
  "McpProjectionContextSchema = ZObject Strict
     [(js ''clientCapabilities'', McpClientCapabilitiesSchema),
      (js ''relatedTask'', ZOptional (ZObject Strict [(js ''taskId'', McpOpaqueProtocolIdSchema)])),
      (js ''requestId'', McpRequestIdSchema),
      (js ''urlBinding'', ZOptional (ZObject Strict
         [(js ''elicitationId'', McpOpaqueProtocolIdSchema), (js ''url'', PreservedNonEmptyStringSchema)]))]"

section \<open>Results, requests, receipts\<close>

definition McpElicitResultSchema :: schema where
  "McpElicitResultSchema = ZObject Passthrough
     [(js ''_meta'', ZOptional (ZRecord ZUnknown)),
      (js ''action'', ZEnum [js ''accept'', js ''decline'', js ''cancel'']),
      (js ''content'', ZOptional (ZRecord (ZUnion
         [ZString [], ZNumber [], ZBoolean, ZArray (ZString []) 0])))]"

definition McpPauseMeshMetadataSchema :: schema where
  "McpPauseMeshMetadataSchema = ZObject Strict
     [(js ''io.pausemesh/continuation'', ZObject Strict
        [(js ''continuationId'', McpOpaqueProtocolIdSchema),
         (js ''correlationId'', McpOpaqueProtocolIdSchema),
         (js ''expiresAt'', PreservedNonEmptyStringSchema),
         (js ''requestId'', McpRequestIdSchema),
         (js ''schemaVersion'', ZLiteral (JInt 1))]),
      (js ''io.modelcontextprotocol/related-task'',
        ZOptional (ZObject Strict [(js ''taskId'', McpOpaqueProtocolIdSchema)]))]"

definition McpFormElicitRequestSchema :: "(schema \<Rightarrow> zparser) \<Rightarrow> url_parser \<Rightarrow> schema" where
  "McpFormElicitRequestSchema sp newURL = ZObject Strict
     [(js ''jsonrpc'', ZLiteral (JStr (js ''2.0''))),
      (js ''id'', McpRequestIdSchema),
      (js ''method'', ZLiteral (JStr (js ''elicitation/create''))),
      (js ''params'', ZObject Strict
         [(js ''mode'', ZLiteral (JStr (js ''form''))),
          (js ''message'', ZString [MinLength 1]),
          (js ''requestedSchema'', McpRequestedSchemaSchema sp newURL),
          (js ''_meta'', McpPauseMeshMetadataSchema)])]"

definition McpUrlElicitRequestSchema :: schema where
  "McpUrlElicitRequestSchema = ZObject Strict
     [(js ''jsonrpc'', ZLiteral (JStr (js ''2.0''))),
      (js ''id'', McpRequestIdSchema),
      (js ''method'', ZLiteral (JStr (js ''elicitation/create''))),
      (js ''params'', ZObject Strict
         [(js ''mode'', ZLiteral (JStr (js ''url''))),
          (js ''message'', ZString [MinLength 1]),
          (js ''elicitationId'', McpOpaqueProtocolIdSchema),
          (js ''url'', PreservedNonEmptyStringSchema),
          (js ''_meta'', McpPauseMeshMetadataSchema)])]"

definition McpElicitRequestSchema :: "(schema \<Rightarrow> zparser) \<Rightarrow> url_parser \<Rightarrow> schema" where
  "McpElicitRequestSchema sp newURL = ZUnion [McpFormElicitRequestSchema sp newURL, McpUrlElicitRequestSchema]"

definition McpElicitationReceiptSchema :: schema where
  "McpElicitationReceiptSchema = ZObject Strict
     [(js ''schemaVersion'', ZLiteral (JInt 1)),
      (js ''continuationId'', McpOpaqueProtocolIdSchema),
      (js ''correlationId'', McpOpaqueProtocolIdSchema),
      (js ''mode'', ZEnum [js ''form'', js ''url'']),
      (js ''requestId'', McpRequestIdSchema),
      (js ''requestHash'', ZString [StrCheck hex64])]"

end
