(* ===== verification/Mcp.thy ===== *)
theory Mcp
  imports McpSchemas CanonicalJson
begin

text \<open>
  \<open>src/adapters/mcp/elicitation.ts\<close>: the projection of a pending continuation to an MCP elicitation
  request, the receipt that binds the request to its issuance, and the parsing of the client's result.

  Parameters: the zod parser \<open>sp\<close>, the constructor of URLs, \<open>sha\<close>, the hex digest of
  \<open>createHash("sha256")\<close>, and the host's validator of authorization URLs.
\<close>

definition parseBoundary ::
    "(schema \<Rightarrow> zparser) \<Rightarrow> schema \<Rightarrow> zvalue \<Rightarrow> protocol_error_code \<Rightarrow> string \<Rightarrow> (protocol_error, json) result" where
  "parseBoundary sp schema v code message = parse_or sp schema v (ProtocolAdapterError code (js message))"

text \<open>\<open>if (!b) throw new ProtocolAdapterError(code, message)\<close>\<close>

definition ensure :: "bool \<Rightarrow> protocol_error_code \<Rightarrow> jstr \<Rightarrow> (protocol_error, unit) result" where
  "ensure b code message = guardR b (ProtocolAdapterError code message)"

section \<open>Policies\<close>

text \<open>
  The trusted policy of the host. \<open>validateAuthorizationUrl\<close> may be anything; a function answers
  whether it returned \<open>true\<close>, or throws: a protocol error (\<open>Inl (Some _)\<close>) or another (\<open>Inl None\<close>).
\<close>

datatype 'f policy_member = Absent | Function 'f | NoFunction

type_synonym url_validator = "url \<Rightarrow> (protocol_error option, bool) result"

record mcp_policy =
  po_allowInsecureLoopbackHttp :: zvalue
  po_validateAuthorizationUrl :: "url_validator policy_member"
  po_otherMembers :: bool

definition McpProjectionPolicySchema :: "(schema \<Rightarrow> zparser) \<Rightarrow> mcp_policy \<Rightarrow> bool" where
  "McpProjectionPolicySchema sp policy \<longleftrightarrow>
     accepts sp (ZOptional ZBoolean) (po_allowInsecureLoopbackHttp policy) \<and>
     po_validateAuthorizationUrl policy \<noteq> NoFunction \<and> \<not> po_otherMembers policy"

section \<open>Guards\<close>

definition mcp_requirePending :: "envelope \<Rightarrow> (protocol_error, unit) result" where
  "mcp_requirePending continuation =
     ensure (env_status continuation = StPending) INVALID_PROTOCOL_TRANSITION
       (js ''Cannot use a '' @ status_str (env_status continuation) @ js '' continuation for MCP elicitation'')"

definition requireModeCapability ::
    "(schema \<Rightarrow> zparser) \<Rightarrow> zvalue \<Rightarrow> string \<Rightarrow> (protocol_error, unit) result" where
  "requireModeCapability sp capabilities mode =
     bindR (parseBoundary sp McpClientCapabilitiesSchema capabilities INVALID_PROTOCOL_BINDING
       ''MCP client capabilities are malformed'') (\<lambda>parsed.
     (case get ''elicitation'' parsed of
        None \<Rightarrow> Inl (ProtocolAdapterError UNSUPPORTED_PROTOCOL_CAPABILITY
          (js ''MCP client did not declare the elicitation capability''))
      | Some elicitation \<Rightarrow>
          ensure (if mode = ''form'' then get ''form'' elicitation \<noteq> None \<or> elicitation = JObj []
              else get ''url'' elicitation \<noteq> None)
            UNSUPPORTED_PROTOCOL_CAPABILITY
            (js ''MCP client did not declare '' @ js mode @ js '' elicitation support'')))"

section \<open>URLs\<close>

text \<open>
  \<open>toLowerCase\<close>, as far as its result has ASCII letters: besides \<open>A\<close> to \<open>Z\<close>, the Kelvin sign and
  the dotted capital I have such lower-case forms. Other characters are compared with none.
\<close>

definition lower_cu :: "cu \<Rightarrow> jstr" where
  "lower_cu c =
     (if ch CHR ''A'' \<le> c \<and> c \<le> ch CHR ''Z'' then [c + 32]
      else if c = 0x212A then [ch CHR ''k'']
      else if c = 0x130 then [ch CHR ''i'', 0x307]
      else [c])"

definition toLowerCase :: "jstr \<Rightarrow> jstr" where
  "toLowerCase s = concat (map lower_cu s)"

text \<open>\<open>text.split(".")\<close>\<close>

fun split_on :: "cu \<Rightarrow> jstr \<Rightarrow> jstr list" where
  "split_on sep [] = [[]]"
| "split_on sep (c # s) =
     (if c = sep then [] # split_on sep s
      else (case split_on sep s of p # ps \<Rightarrow> (c # p) # ps | [] \<Rightarrow> [[c]]))"

definition octet_ok :: "jstr \<Rightarrow> bool" where
  "octet_ok octet \<longleftrightarrow> 1 \<le> length octet \<and> length octet \<le> 3 \<and> list_all is_digit octet \<and> undec octet \<le> 255"

definition isLoopbackHostname :: "jstr \<Rightarrow> bool" where
  "isLoopbackHostname hostname =
     (let normalized = toLowerCase hostname
      in if normalized = js ''localhost'' \<or> suffix (js ''.localhost'') normalized \<or>
            normalized = js ''::1'' \<or> normalized = js ''[::1]''
         then True
         else
           (let ipv4 = split_on (ch CHR ''.'') normalized
            in length ipv4 = 4 \<and> list_all octet_ok ipv4 \<and> undec (ipv4 ! 0) = 127))"

definition is_lower_alnum :: "cu \<Rightarrow> bool" where
  "is_lower_alnum c \<longleftrightarrow> (ch CHR ''a'' \<le> c \<and> c \<le> ch CHR ''z'') \<or> is_digit c"

definition isSensitiveQueryParameter :: "jstr \<Rightarrow> bool" where
  "isSensitiveQueryParameter name =
     (let normalized = filter is_lower_alnum (toLowerCase name)
      in normalized \<in> set (map js [''token'', ''auth'', ''code'', ''jwt'', ''session'', ''sig'', ''ticket'']) \<or>
         list_ex (\<lambda>part. sublist (js part) normalized)
           [''accesstoken'', ''authtoken'', ''assertion'', ''authorization'', ''bearer'', ''credential'',
            ''idtoken'', ''apikey'', ''password'', ''passwd'', ''privatekey'', ''refreshtoken'', ''secret'',
            ''sessionid'', ''signature''])"

definition validateUrlBinding :: "url_parser \<Rightarrow> jstr \<Rightarrow> mcp_policy \<Rightarrow> (protocol_error, unit) result" where
  "validateUrlBinding newURL text policy =
     (case newURL text of
        None \<Rightarrow> Inl (ProtocolAdapterError INVALID_PROTOCOL_BINDING
          (js ''MCP URL elicitation requires an absolute URL''))
      | Some parsed \<Rightarrow>
          bindR (ensure (\<not> (0 < length (u_username parsed) \<or> 0 < length (u_password parsed)))
            INVALID_PROTOCOL_BINDING (js ''MCP URL elicitation must not embed credentials in the URL authority'')) (\<lambda>_.
          bindR (ensure (\<not> 0 < length (u_hash parsed))
            INVALID_PROTOCOL_BINDING (js ''MCP URL elicitation must not include a fragment'')) (\<lambda>_.
          bindR (ensure (\<not> list_ex isSensitiveQueryParameter (u_queryKeys parsed))
            INVALID_PROTOCOL_BINDING
            (js ''MCP URL elicitation must not include credential-like query parameters'')) (\<lambda>_.
          let secureTransport = (u_protocol parsed = js ''https:'');
              trustedLoopbackException =
                (u_protocol parsed = js ''http:'' \<and>
                 po_allowInsecureLoopbackHttp policy = Some (JBool True) \<and> isLoopbackHostname (u_hostname parsed))
          in
          bindR (ensure (secureTransport \<or> trustedLoopbackException)
            INVALID_PROTOCOL_BINDING
            (js ''MCP URL elicitation requires HTTPS; trusted policy may allow HTTP only on loopback'')) (\<lambda>_.
          (case po_validateAuthorizationUrl policy of
             Function validate \<Rightarrow>
               (let failed = ProtocolAdapterError INVALID_PROTOCOL_BINDING
                      (js ''MCP authorization URL validation policy failed'')
                in (case newURL (u_href parsed) of
                      None \<Rightarrow> Inl failed
                    | Some copy \<Rightarrow>
                        (case validate copy of
                           Inl (Some error) \<Rightarrow> Inl error
                         | Inl None \<Rightarrow> Inl failed
                         | Inr answer \<Rightarrow>
                             ensure answer INVALID_PROTOCOL_BINDING
                               (js ''MCP authorization URL was rejected by trusted host policy''))))
           | _ \<Rightarrow> Inl (ProtocolAdapterError INVALID_PROTOCOL_BINDING
               (js ''MCP URL elicitation requires a trusted authorization-URL validation policy''))))))))"

section \<open>Issuing\<close>

definition projectionMetadata :: "envelope \<Rightarrow> json \<Rightarrow> zvalue \<Rightarrow> json" where
  "projectionMetadata continuation requestId relatedTask = obj
     ([(''io.pausemesh/continuation'', obj
         [(''continuationId'', JStr (env_continuationId continuation)),
          (''correlationId'', JStr (env_correlationId continuation)),
          (''expiresAt'', JStr (env_expiresAt continuation)),
          (''requestId'', requestId),
          (''schemaVersion'', JInt 1)])] @
      present [(''io.modelcontextprotocol/related-task'',
        map_option (\<lambda>task. obj [(''taskId'', json_field ''taskId'' task)]) relatedTask)])"

text \<open>The form of a continuation that asks for none.\<close>

definition empty_form :: json where
  "empty_form = obj [(''type'', JStr (js ''object'')), (''properties'', obj [])]"

definition url_request :: "json \<Rightarrow> json \<Rightarrow> json \<Rightarrow> json \<Rightarrow> json" where
  "url_request requestId payload urlBinding metadata = obj
     [(''jsonrpc'', JStr (js ''2.0'')), (''id'', requestId), (''method'', JStr (js ''elicitation/create'')),
      (''params'', obj
        [(''mode'', JStr (js ''url'')), (''message'', json_field ''message'' payload),
         (''elicitationId'', json_field ''elicitationId'' urlBinding), (''url'', json_field ''url'' urlBinding),
         (''_meta'', metadata)])]"

definition form_request :: "json \<Rightarrow> json \<Rightarrow> json \<Rightarrow> json" where
  "form_request requestId payload metadata = obj
     [(''jsonrpc'', JStr (js ''2.0'')), (''id'', requestId), (''method'', JStr (js ''elicitation/create'')),
      (''params'', obj
        [(''mode'', JStr (js ''form'')), (''message'', json_field ''message'' payload),
         (''requestedSchema'', (case get ''responseSchema'' payload of Some s \<Rightarrow> s | None \<Rightarrow> empty_form)),
         (''_meta'', metadata)])]"

definition toMcpElicitRequest ::
    "(schema \<Rightarrow> zparser) \<Rightarrow> url_parser \<Rightarrow> envelope \<Rightarrow> zvalue \<Rightarrow> mcp_policy \<Rightarrow> (protocol_error, json) result" where
  "toMcpElicitRequest sp newURL continuation rawContext rawPolicy =
     bindR (mcp_requirePending continuation) (\<lambda>_.
     bindR (parseBoundary sp (McpContinuationPayloadSchema sp newURL) (Some (env_payload continuation))
       INVALID_PROTOCOL_MESSAGE ''PauseMesh continuation payload cannot be projected to MCP elicitation'') (\<lambda>payload.
     bindR (parseBoundary sp McpProjectionContextSchema rawContext
       INVALID_PROTOCOL_BINDING ''MCP projection context is malformed'') (\<lambda>ctx.
     bindR (ensure (McpProjectionPolicySchema sp rawPolicy)
       INVALID_PROTOCOL_BINDING (js ''MCP projection policy is malformed'')) (\<lambda>_.
     let requestId = json_field ''requestId'' ctx;
         metadata = projectionMetadata continuation requestId (get ''relatedTask'' ctx);
         unprojectable = ''PauseMesh continuation identifiers cannot be projected to MCP elicitation''
     in
     if get ''kind'' payload = Some (JStr (js ''authorization'')) then
       bindR (requireModeCapability sp (get ''clientCapabilities'' ctx) ''url'') (\<lambda>_.
       (case get ''urlBinding'' ctx of
          None \<Rightarrow> Inl (ProtocolAdapterError INVALID_PROTOCOL_BINDING
            (js ''MCP authorization projection requires an explicit URL binding''))
        | Some urlBinding \<Rightarrow>
            bindR (validateUrlBinding newURL (str_field ''url'' urlBinding) rawPolicy) (\<lambda>_.
            parseBoundary sp McpUrlElicitRequestSchema (Some (url_request requestId payload urlBinding metadata))
              INVALID_PROTOCOL_MESSAGE unprojectable)))
     else
       bindR (requireModeCapability sp (get ''clientCapabilities'' ctx) ''form'') (\<lambda>_.
       bindR (ensure (get ''urlBinding'' ctx = None)
         INVALID_PROTOCOL_BINDING (js ''MCP form projection must not include a URL binding'')) (\<lambda>_.
       parseBoundary sp (McpFormElicitRequestSchema sp newURL) (Some (form_request requestId payload metadata))
         INVALID_PROTOCOL_MESSAGE unprojectable))))))"

text \<open>The parts of a request.\<close>

definition params :: "json \<Rightarrow> json" where
  "params request = json_field ''params'' request"

definition meta_continuation :: "json \<Rightarrow> json" where
  "meta_continuation request = json_field ''io.pausemesh/continuation'' (json_field ''_meta'' (params request))"

definition requestHash :: "(jstr \<Rightarrow> jstr) \<Rightarrow> json \<Rightarrow> jstr" where
  "requestHash sha request = sha (canonicalJson (JArr [JStr (js ''mcp-elicitation-v1''), request]))"

definition createMcpElicitationReceipt :: "(jstr \<Rightarrow> jstr) \<Rightarrow> envelope \<Rightarrow> json \<Rightarrow> json" where
  "createMcpElicitationReceipt sha continuation request = obj
     [(''schemaVersion'', JInt 1),
      (''continuationId'', JStr (env_continuationId continuation)),
      (''correlationId'', JStr (env_correlationId continuation)),
      (''mode'', json_field ''mode'' (params request)),
      (''requestId'', json_field ''id'' request),
      (''requestHash'', JStr (requestHash sha request))]"

record mcp_issuance =
  mi_request :: json
  mi_receipt :: json

definition issueMcpElicitation ::
    "(schema \<Rightarrow> zparser) \<Rightarrow> url_parser \<Rightarrow> (jstr \<Rightarrow> jstr) \<Rightarrow> envelope \<Rightarrow> zvalue \<Rightarrow> mcp_policy \<Rightarrow>
     (protocol_error, mcp_issuance) result" where
  "issueMcpElicitation sp newURL sha continuation ctx policy =
     bindR (toMcpElicitRequest sp newURL continuation ctx policy) (\<lambda>request.
     bindR (parseBoundary sp McpElicitationReceiptSchema
         (Some (createMcpElicitationReceipt sha continuation request))
         INVALID_PROTOCOL_MESSAGE ''MCP elicitation issuance receipt could not be created'') (\<lambda>receipt.
     Inr \<lparr>mi_request = request, mi_receipt = receipt\<rparr>))"

end
