(* ===== verification/McpResult.thy ===== *)
theory McpResult
  imports Mcp
begin

text \<open>
  The second half of \<open>src/adapters/mcp/elicitation.ts\<close>: the client's result is parsed against the
  request it answers, which has to be bound to the continuation and to the receipt of its issuance.
\<close>

section \<open>Outcomes\<close>

datatype mcp_outcome =
    FormAccepted (form_content: json_object)
  | FormRefused (form_action: jstr)
  | UrlConsent (consent_action: jstr) (consent_elicitationId: json)

section \<open>Form fields\<close>

definition is_JStr :: "json \<Rightarrow> bool" where
  "is_JStr v \<longleftrightarrow> (case v of JStr _ \<Rightarrow> True | _ \<Rightarrow> False)"

text \<open>
  \<open>fieldValueIsValid\<close>, by the type of the field. \<open>exceeds\<close> is false when the bound is absent.
\<close>

definition number_valid :: "json \<Rightarrow> json \<Rightarrow> bool" where
  "number_valid schema v =
     (case v of
        JNum n \<Rightarrow>
          \<not> (get ''type'' schema = Some (JStr (js ''integer'')) \<and> \<not> is_integer n) \<and>
          \<not> exceeds (get ''minimum'' schema) (Some v) \<and> \<not> exceeds (Some v) (get ''maximum'' schema)
      | _ \<Rightarrow> False)"

definition array_valid :: "json \<Rightarrow> json \<Rightarrow> bool" where
  "array_valid schema v =
     (case v of
        JArr vs \<Rightarrow>
          list_all is_JStr vs \<and> distinct vs \<and>
          \<not> exceeds (get ''minItems'' schema) (array_length (Some v)) \<and>
          \<not> exceeds (array_length (Some v)) (get ''maxItems'' schema) \<and>
          (let items = get ''items'' schema;
               allowed = (if sub ''enum'' items \<noteq> None then strings (sub ''enum'' items)
                          else option_values (sub ''anyOf'' items))
           in list_all (\<lambda>entry. entry \<in> set allowed) (strings (Some v)))
      | _ \<Rightarrow> False)"

definition string_valid :: "(schema \<Rightarrow> zparser) \<Rightarrow> url_parser \<Rightarrow> json \<Rightarrow> json \<Rightarrow> bool" where
  "string_valid sp newURL schema v =
     (case v of
        JStr s \<Rightarrow>
          \<not> (get ''enum'' schema \<noteq> None \<and> s \<notin> set (strings (get ''enum'' schema))) \<and>
          \<not> (get ''oneOf'' schema \<noteq> None \<and> s \<notin> set (option_values (get ''oneOf'' schema))) \<and>
          \<not> exceeds (get ''minLength'' schema) (text_length (Some v)) \<and>
          \<not> exceeds (text_length (Some v)) (get ''maxLength'' schema) \<and>
          (case get ''format'' schema of
             Some (JStr format) \<Rightarrow> validateStringFormat sp newURL s format
           | _ \<Rightarrow> True)
      | _ \<Rightarrow> False)"

definition fieldValueIsValid :: "(schema \<Rightarrow> zparser) \<Rightarrow> url_parser \<Rightarrow> json \<Rightarrow> json \<Rightarrow> bool" where
  "fieldValueIsValid sp newURL v schema =
     (let type = get ''type'' schema
      in if type = Some (JStr (js ''boolean'')) then (case v of JBool _ \<Rightarrow> True | _ \<Rightarrow> False)
         else if type = Some (JStr (js ''number'')) \<or> type = Some (JStr (js ''integer'')) then number_valid schema v
         else if type = Some (JStr (js ''array'')) then array_valid schema v
         else string_valid sp newURL schema v)"

text \<open>\<open>for (const x of xs) if (!ok(x)) throw error(x)\<close>\<close>

fun check_each :: "('a \<Rightarrow> bool) \<Rightarrow> ('a \<Rightarrow> 'e) \<Rightarrow> 'a list \<Rightarrow> ('e, unit) result" where
  "check_each ok error [] = Inr ()"
| "check_each ok error (x # xs) = bindR (guardR (ok x) (error x)) (\<lambda>_. check_each ok error xs)"

lemma check_each_Inr [simp]: "check_each ok error xs = Inr u \<longleftrightarrow> list_all ok xs"
  by (induction xs) (auto simp: bindR_eq_Inr)

lemma check_each_Inl: "check_each ok error xs = Inl e \<Longrightarrow> \<exists>x \<in> set xs. \<not> ok x \<and> e = error x"
  by (induction xs) (auto simp: bindR_eq_Inl)

definition content_error :: "string \<Rightarrow> jstr \<Rightarrow> string \<Rightarrow> protocol_error" where
  "content_error before key after =
     ProtocolAdapterError INVALID_PROTOCOL_MESSAGE (js before @ key @ js after)"

definition validatedFormContent ::
    "(schema \<Rightarrow> zparser) \<Rightarrow> url_parser \<Rightarrow> json_object \<Rightarrow> json \<Rightarrow> (protocol_error, json_object) result" where
  "validatedFormContent sp newURL content schema =
     (let properties = obj_field ''properties'' schema
      in bindR (check_each (\<lambda>key. map_of properties key \<noteq> None)
             (\<lambda>key. content_error ''MCP elicitation result contains unexpected property '' key '''') (map fst content)) (\<lambda>_.
         bindR (check_each (\<lambda>key. map_of content key \<noteq> None)
             (\<lambda>key. content_error ''MCP elicitation result is missing required property '' key '''')
             (strings (get ''required'' schema))) (\<lambda>_.
         bindR (check_each
             (\<lambda>(key, v). case map_of properties key of
                None \<Rightarrow> False
              | Some fieldSchema \<Rightarrow> fieldValueIsValid sp newURL v fieldSchema)
             (\<lambda>(key, v). content_error ''MCP elicitation result property '' key '' does not match its schema'')
             content) (\<lambda>_.
         Inr content))))"

section \<open>Bindings\<close>

definition requireRequestBinding ::
    "(schema \<Rightarrow> zparser) \<Rightarrow> url_parser \<Rightarrow> envelope \<Rightarrow> json \<Rightarrow> (protocol_error, unit) result" where
  "requireRequestBinding sp newURL continuation request =
     (let requestContinuation = meta_continuation request
      in bindR (parseBoundary sp (McpContinuationPayloadSchema sp newURL) (Some (env_payload continuation))
           INVALID_PROTOCOL_BINDING ''MCP elicitation request does not match the continuation payload'') (\<lambda>payload.
         let expectedMode = (if get ''kind'' payload = Some (JStr (js ''authorization'')) then js ''url'' else js ''form'');
             messageMatches = (get ''message'' (params request) = get ''message'' payload);
             mode = get ''mode'' (params request);
             schemaMatches = (mode \<noteq> Some (JStr (js ''form'')) \<or>
               (get ''kind'' payload = Some (JStr (js ''input'')) \<and>
                canonicalJson (json_field ''requestedSchema'' (params request)) =
                  canonicalJson (case get ''responseSchema'' payload of Some s \<Rightarrow> s | None \<Rightarrow> empty_form)))
         in ensure (\<not> (get ''continuationId'' requestContinuation \<noteq> Some (JStr (env_continuationId continuation)) \<or>
                get ''correlationId'' requestContinuation \<noteq> Some (JStr (env_correlationId continuation)) \<or>
                get ''expiresAt'' requestContinuation \<noteq> Some (JStr (env_expiresAt continuation)) \<or>
                get ''requestId'' requestContinuation \<noteq> get ''id'' request \<or>
                get ''schemaVersion'' requestContinuation \<noteq> Some (JInt (env_schemaVersion continuation)) \<or>
                mode \<noteq> Some (JStr expectedMode) \<or> \<not> messageMatches \<or> \<not> schemaMatches))
              INVALID_PROTOCOL_BINDING (js ''MCP elicitation request is not bound to this continuation'')))"

definition requireIssuanceReceipt ::
    "(schema \<Rightarrow> zparser) \<Rightarrow> (jstr \<Rightarrow> jstr) \<Rightarrow> envelope \<Rightarrow> json \<Rightarrow> zvalue \<Rightarrow> (protocol_error, unit) result" where
  "requireIssuanceReceipt sp sha continuation request rawReceipt =
     bindR (parseBoundary sp McpElicitationReceiptSchema rawReceipt
       INVALID_PROTOCOL_BINDING ''MCP elicitation issuance receipt is malformed'') (\<lambda>receipt.
     ensure (\<not> (get ''continuationId'' receipt \<noteq> Some (JStr (env_continuationId continuation)) \<or>
         get ''correlationId'' receipt \<noteq> Some (JStr (env_correlationId continuation)) \<or>
         get ''mode'' receipt \<noteq> get ''mode'' (params request) \<or>
         get ''requestId'' receipt \<noteq> get ''id'' request \<or>
         get ''requestHash'' receipt \<noteq> Some (JStr (requestHash sha request))))
       INVALID_PROTOCOL_BINDING
       (js ''MCP elicitation request does not match its immutable issuance receipt''))"

section \<open>Results\<close>

text \<open>The result of a form or of a URL, once the request is known to be the issued one.\<close>

definition outcome ::
    "(schema \<Rightarrow> zparser) \<Rightarrow> url_parser \<Rightarrow> json \<Rightarrow> json \<Rightarrow> (protocol_error, mcp_outcome) result" where
  "outcome sp newURL request result =
     (let action = str_field ''action'' result
      in if get ''mode'' (params request) = Some (JStr (js ''url'')) then
           bindR (ensure (get ''content'' result = None) INVALID_PROTOCOL_MESSAGE
             (js ''MCP URL elicitation results must not contain in-band content'')) (\<lambda>_.
           Inr (UrlConsent action (json_field ''elicitationId'' (params request))))
         else if action \<noteq> js ''accept'' then
           bindR (ensure (get ''content'' result = None) INVALID_PROTOCOL_MESSAGE
             (js ''Declined or cancelled MCP elicitation results must not contain content'')) (\<lambda>_.
           Inr (FormRefused action))
         else
           bindR (ensure (get ''content'' result \<noteq> None) INVALID_PROTOCOL_MESSAGE
             (js ''Accepted MCP form elicitation requires content'')) (\<lambda>_.
           bindR (validatedFormContent sp newURL (obj_field ''content'' result)
             (json_field ''requestedSchema'' (params request))) (\<lambda>content.
           Inr (FormAccepted content))))"

definition parseMcpElicitResult ::
    "(schema \<Rightarrow> zparser) \<Rightarrow> url_parser \<Rightarrow> (jstr \<Rightarrow> jstr) \<Rightarrow> envelope \<Rightarrow> zvalue \<Rightarrow> zvalue \<Rightarrow> zvalue \<Rightarrow>
     (protocol_error, mcp_outcome) result" where
  "parseMcpElicitResult sp newURL sha continuation request rawReceipt rawResult =
     bindR (mcp_requirePending continuation) (\<lambda>_.
     bindR (parseBoundary sp (McpElicitRequestSchema sp newURL) request
       INVALID_PROTOCOL_BINDING ''MCP elicitation request is malformed'') (\<lambda>parsedRequest.
     bindR (requireRequestBinding sp newURL continuation parsedRequest) (\<lambda>_.
     bindR (requireIssuanceReceipt sp sha continuation parsedRequest rawReceipt) (\<lambda>_.
     bindR (parseBoundary sp McpElicitResultSchema rawResult
       INVALID_PROTOCOL_MESSAGE ''MCP elicitation result is malformed'') (\<lambda>result.
     outcome sp newURL parsedRequest result)))))"

definition toMcpElicitationCompleteNotification ::
    "(schema \<Rightarrow> zparser) \<Rightarrow> url_parser \<Rightarrow> (jstr \<Rightarrow> jstr) \<Rightarrow> envelope \<Rightarrow> zvalue \<Rightarrow> zvalue \<Rightarrow>
     (protocol_error, json) result" where
  "toMcpElicitationCompleteNotification sp newURL sha continuation request rawReceipt =
     bindR (ensure (env_status continuation = StResumed) INVALID_PROTOCOL_TRANSITION
       (js ''MCP URL elicitation completion requires a resumed continuation, received '' @
        status_str (env_status continuation))) (\<lambda>_.
     bindR (parseBoundary sp McpUrlElicitRequestSchema request
       INVALID_PROTOCOL_BINDING ''MCP URL elicitation request is malformed'') (\<lambda>parsedRequest.
     bindR (requireRequestBinding sp newURL continuation parsedRequest) (\<lambda>_.
     bindR (requireIssuanceReceipt sp sha continuation parsedRequest rawReceipt) (\<lambda>_.
     Inr (obj
       [(''jsonrpc'', JStr (js ''2.0'')), (''method'', JStr (js ''notifications/elicitation/complete'')),
        (''params'', obj
          [(''elicitationId'', json_field ''elicitationId'' (params parsedRequest)),
           (''_meta'', json_field ''_meta'' (params parsedRequest))])])))))"

end
