(* ===== verification/McpLaws.thy ===== *)
theory McpLaws
  imports ZodStable McpResult Reducer
begin

text \<open>
  Facts about the MCP adapter: its schemas only check, an issued request is accepted when its result
  comes back, and what an accepted result rests on.
\<close>

section \<open>The schemas only check\<close>

context zod
begin

lemmas fixes_atoms = keeps_fixes [OF keeps_atoms(1)] keeps_fixes [OF keeps_atoms(2)] keeps_fixes [OF keeps_atoms(3)]
  keeps_fixes [OF keeps_atoms(4)] keeps_fixes [OF keeps_atoms(5)]

lemmas fixes_rules = fixes_atoms optional_settles(2) array_fixes object_fixes fixes_refine

lemma mcp_ids_keep:
  "keeps McpOpaqueProtocolIdSchema" "keeps PreservedNonEmptyStringSchema" "keeps McpRequestIdSchema"
  by (simp_all add: McpOpaqueProtocolIdSchema_def PreservedNonEmptyStringSchema_def McpRequestIdSchema_def
      keeps_atoms keeps_union)

lemma ids_no_default [simp]:
  "no_default McpOpaqueProtocolIdSchema" "no_default PreservedNonEmptyStringSchema" "no_default McpRequestIdSchema"
  "no_default McpPauseMeshMetadataSchema" "no_default (McpRequestedSchemaSchema sp newURL)"
  by (simp_all add: McpOpaqueProtocolIdSchema_def PreservedNonEmptyStringSchema_def McpRequestIdSchema_def
      McpPauseMeshMetadataSchema_def McpRequestedSchemaSchema_def)

lemmas shape_simps = plain_shape_def OptionalTextFields_def js_inject NonNegativeIntegerSchema_def

lemma fields_fix:
  "fixes_outcome McpLegacyTitledEnumSchema" "fixes_outcome McpUntitledSingleEnumSchema"
  "fixes_outcome McpTitledSingleEnumSchema" "fixes_outcome McpUntitledMultiEnumSchema"
  "fixes_outcome McpTitledMultiEnumSchema" "fixes_outcome (McpStringSchemaDefinitionSchema sp newURL)"
  "fixes_outcome McpNumberSchemaDefinitionSchema" "fixes_outcome McpBooleanSchemaDefinitionSchema"
  unfolding McpLegacyTitledEnumSchema_def McpUntitledSingleEnumSchema_def McpTitledSingleEnumSchema_def
    McpUntitledMultiEnumSchema_def McpTitledMultiEnumSchema_def McpStringSchemaDefinitionSchema_def
    McpNumberSchemaDefinitionSchema_def McpBooleanSchemaDefinitionSchema_def TitledEnumOptionSchema_def multi_shape_def
  by (intro fixes_rules; simp add: shape_simps fixes_rules)+

lemma field_settles: "settles (McpPrimitiveSchemaDefinitionSchema sp newURL)"
  unfolding McpPrimitiveSchemaDefinitionSchema_def
  by (rule union_settles) (simp add: fields_fix fixes_settles)

end

lemma strings_eq: "rel_option json_eq x y \<Longrightarrow> strings x = strings y"
proof (cases x; cases y)
  fix v w
  assume "rel_option json_eq x y" and xy: "x = Some v" "y = Some w"
  then have eq: "json_eq v w" by simp
  have "list_all2 json_eq vs ws \<Longrightarrow>
      concat (map (\<lambda>w. case w of JStr s \<Rightarrow> [s] | _ \<Rightarrow> []) vs) =
      concat (map (\<lambda>w. case w of JStr s \<Rightarrow> [s] | _ \<Rightarrow> []) ws)" for vs ws
  proof (induction rule: list_all2_induct)
    case (Cons v vs w ws)
    then show ?case by (cases v; cases w) auto
  qed simp
  then show ?thesis using eq xy by (cases v; cases w) (auto simp: strings_def)
qed (auto simp: strings_def)

lemma json_ok_get: "json_ok v \<Longrightarrow> get k v = Some p \<Longrightarrow> json_ok p"
  by (cases v) (auto dest: json_ok_member)

text \<open>The issues of a form do not depend on the order of members.\<close>

lemma requested_issue_eq:
  assumes "json_ok v" "json_ok w" "json_eq v w"
  shows "requested_issue v = requested_issue w"
proof -
  have "map_of (obj_field ''properties'' v) k = None \<longleftrightarrow> map_of (obj_field ''properties'' w) k = None" for k
  proof -
    have rel: "rel_option json_eq (get ''properties'' v) (get ''properties'' w)" by (rule json_eq_get [OF assms])
    show ?thesis
    proof (cases "get ''properties'' v")
      case None
      then show ?thesis using rel by (simp add: obj_field_def)
    next
      case (Some p)
      then obtain q where q: "get ''properties'' w = Some q" "json_eq p q" using rel by (auto simp: option_rel_Some1)
      have ok: "json_ok p" "json_ok q"
        using json_ok_get assms(1,2) Some q(1) by blast+
      show ?thesis
      proof (cases p)
        case (JObj fs)
        then obtain gs where gs: "q = JObj gs" using q(2) by (cases q) auto
        have "rel_option json_eq (map_of fs k) (map_of gs k)"
          using q(2) json_eq_obj ok JObj gs by blast
        then show ?thesis
          using Some q(1) JObj gs by (cases "map_of fs k"; cases "map_of gs k") (simp_all add: obj_field_def)
      qed (use q Some in \<open>cases q; simp add: obj_field_def\<close>)+
    qed
  qed
  then show ?thesis
    using strings_eq [OF json_eq_get [OF assms, of "''required''"]] by (simp add: requested_issue_def)
qed

context zod
begin

lemma requested_settles: "settles (McpRequestedSchemaSchema sp newURL)"
proof -
  let ?s = "ZObject Strict [(js ''$schema'', ZOptional (ZString [])),
      (js ''properties'', ZRecord (McpPrimitiveSchemaDefinitionSchema sp newURL)),
      (js ''required'', ZOptional (ZArray (ZString []) 0)), (js ''type'', ZLiteral (JStr (js ''object'')))]"
  have base: "settles ?s"
    by (rule object_settles)
      (simp_all add: shape_simps record_settles field_settles optional_settles fixes_settles array_fixes fixes_atoms)
  have "(\<not> requested_issue v) = (\<not> requested_issue w)" if "json_ok v" "sp ?s (Some v) = Some (Some w)" for v w
    using settles_once [OF base that] requested_issue_eq [OF that(1)] by blast
  then show ?thesis unfolding McpRequestedSchemaSchema_def by (rule settles_refine [OF base])
qed

lemma metadata_fixes: "fixes_outcome McpPauseMeshMetadataSchema"
  unfolding McpPauseMeshMetadataSchema_def
  by (rule object_fixes)
    (simp_all add: shape_simps optional_settles object_fixes keeps_fixes mcp_ids_keep keeps_atoms)

lemma url_request_fixes: "fixes_outcome McpUrlElicitRequestSchema"
  unfolding McpUrlElicitRequestSchema_def
  by (rule object_fixes)
    (simp_all add: shape_simps object_fixes metadata_fixes keeps_fixes mcp_ids_keep keeps_atoms)

lemma form_request_settles: "settles (McpFormElicitRequestSchema sp newURL)"
  unfolding McpFormElicitRequestSchema_def
  by (rule object_settles)
    (simp_all add: shape_simps object_settles requested_settles metadata_fixes fixes_settles keeps_fixes mcp_ids_keep keeps_atoms)

lemma request_settles: "settles (McpElicitRequestSchema sp newURL)"
  unfolding McpElicitRequestSchema_def
  by (rule union_settles) (simp add: form_request_settles url_request_fixes fixes_settles)

lemma receipt_fixes: "fixes_outcome McpElicitationReceiptSchema"
  unfolding McpElicitationReceiptSchema_def
  by (rule object_fixes) (simp_all add: shape_simps keeps_fixes mcp_ids_keep keeps_atoms)

end

section \<open>Values of a request\<close>

lemma json_ok_field: "json_ok v \<Longrightarrow> json_ok (json_field k v)"
  by (auto simp: json_field_def json_ok_get split: option.split)

lemma json_ok_literal:
  "distinct (map fst fs) \<Longrightarrow> list_all (\<lambda>(k, v). \<not> is_array_index (js k) \<and> k \<noteq> ''__proto__'' \<and> json_ok v) fs \<Longrightarrow>
    json_ok (obj fs)"
proof -
  assume dist: "distinct (map fst fs)"
    and ok: "list_all (\<lambda>(k, v). \<not> is_array_index (js k) \<and> k \<noteq> ''__proto__'' \<and> json_ok v) fs"
  have "inj js" by (simp add: inj_def js_inject)
  then have "distinct (map fst (map (\<lambda>(k, v). (js k, v)) fs))"
    using dist distinct_map [of js "map fst fs"] by (simp add: case_prod_unfold comp_def inj_on_subset [of js UNIV])
  then have "js_obj (map (\<lambda>(k, v). (js k, v)) fs) = map (\<lambda>(k, v). (js k, v)) fs"
    by (rule js_obj_id) (use ok in \<open>auto simp: list_all_iff\<close>)
  then show ?thesis using ok by (auto simp: obj_def json_ok_obj list_all_iff js_inject)
qed

text \<open>A string or a number.\<close>

definition is_atom :: "json \<Rightarrow> bool" where
  "is_atom v \<longleftrightarrow> (\<exists>s. v = JStr s) \<or> (\<exists>n. v = JNum n)"

lemma is_atom_JStr [simp]: "is_atom (JStr s)"
  by (simp add: is_atom_def)

lemma same_atom:
  assumes "json_ok v" "json_ok w" "json_eq v w" "get k v = Some x" "is_atom x"
  shows "get k w = Some x"
  using json_eq_get [OF assms(1-3), of k] assms(4,5) by (auto simp: is_atom_def option_rel_Some1 json_eq_atom)

lemma same_member:
  assumes "json_ok v" "json_ok w" "json_eq v w" "get k v = Some x"
  obtains y where "get k w = Some y" "json_ok x" "json_ok y" "json_eq x y"
  using json_eq_get [OF assms(1-3), of k] assms(4) json_ok_get [OF assms(1)] json_ok_get [OF assms(2)]
  by (auto simp: option_rel_Some1)

lemma request_hash_eq:
  assumes "json_ok v" "json_ok w" "json_eq v w"
  shows "requestHash sha v = requestHash sha w"
proof -
  have "canonicalJson (JArr [JStr t, v]) = canonicalJson (JArr [JStr t, w])" for t
    by (subst canonical_json_ok) (use assms in simp_all)
  then show ?thesis by (simp add: requestHash_def)
qed

context zod
begin

lemma request_id_parsed:
  assumes "sp McpRequestIdSchema v = Some r"
  shows "r = v \<and> (\<exists>x. v = Some x \<and> is_atom x)"
  using assms
  by (auto simp: McpRequestIdSchema_def McpOpaqueProtocolIdSchema_def union string string_parse_def number number_parse_def
      is_atom_def split: option.splits json.splits if_splits)

lemma payload_parsed:
  assumes ok: "json_ok p" and parse: "sp (McpContinuationPayloadSchema sp newURL) (Some p) = Some (Some d)"
  obtains m where "get ''message'' d = Some (JStr m)"
    "get ''kind'' d = Some (JStr (js ''authorization'')) \<or> get ''kind'' d = Some (JStr (js ''input''))"
    "\<And>s. get ''responseSchema'' d = Some s \<Longrightarrow> json_ok s"
proof -
  note plain = plain_json_ok [OF ok]
  have words: "sp (ZString [MinLength 1]) v = Some r \<Longrightarrow> \<exists>m. r = Some (JStr m)" for v r
    by (auto simp: string string_parse_def split: option.splits json.splits)
  consider (auth) "sp AuthorizationContinuationPayloadSchema (Some p) = Some (Some d)"
    | (input) "sp (InputContinuationPayloadSchema sp newURL) (Some p) = Some (Some d)"
    using parse by (auto simp: McpContinuationPayloadSchema_def union split: option.splits)
  then show thesis
  proof cases
    case auth
    note field = parsed_field [OF plain _ auth [unfolded AuthorizationContinuationPayloadSchema_def]]
    have "sp (ZString [MinLength 1]) (get ''message'' p) = Some (get ''message'' d)"
      using field [of "''message''"] by (simp add: js_inject del: js_simps)
    moreover have "get ''kind'' d = Some (JStr (js ''authorization''))"
      using field [of "''kind''"] by (auto simp: js_inject literal literal_parse_def split: if_splits simp del: js_simps)
    moreover have "get ''responseSchema'' d = None"
      using field [of "''responseSchema''"]
      by (auto simp: js_inject optional optional_parse_def never split: option.splits simp del: js_simps)
    ultimately show thesis using words [of "get ''message'' p"] that by (metis option.distinct(1))
  next
    case input
    note field = parsed_field [OF plain _ input [unfolded InputContinuationPayloadSchema_def]]
    have "sp (ZString [MinLength 1]) (get ''message'' p) = Some (get ''message'' d)"
      using field [of "''message''"] by (simp add: js_inject del: js_simps)
    moreover have "get ''kind'' d = Some (JStr (js ''input''))"
      using field [of "''kind''"]
      by (auto simp: js_inject default default_parse_def literal literal_parse_def split: if_splits option.splits
          simp del: js_simps)
    moreover have rs: "sp (ZOptional (McpRequestedSchemaSchema sp newURL)) (get ''responseSchema'' p) =
        Some (get ''responseSchema'' d)"
      using field [of "''responseSchema''"] by (simp add: js_inject del: js_simps)
    then have "json_ok s" if rd: "get ''responseSchema'' d = Some s" for s
    proof -
      obtain q where "get ''responseSchema'' p = Some q" "sp (McpRequestedSchemaSchema sp newURL) (Some q) = Some (Some s)"
        using rs rd by (auto simp: optional optional_parse_def split: option.splits)
      then show ?thesis using settles_once(1) [OF requested_settles] json_ok_get [OF ok] by blast
    qed
    ultimately show thesis using words [of "get ''message'' p"] that by metis
  qed
qed

end

section \<open>A request of a continuation\<close>

definition authorization_payload :: "json \<Rightarrow> bool" where
  "authorization_payload d \<longleftrightarrow> get ''kind'' d = Some (JStr (js ''authorization''))"

text \<open>The form a payload asks for.\<close>

definition form_of :: "json \<Rightarrow> json" where
  "form_of d = (case get ''responseSchema'' d of Some s \<Rightarrow> s | None \<Rightarrow> empty_form)"

text \<open>The request is bound to the continuation, whose payload was read as \<open>d\<close>.\<close>

definition request_of :: "envelope \<Rightarrow> json \<Rightarrow> json \<Rightarrow> json \<Rightarrow> bool" where
  "request_of c d requestId request \<longleftrightarrow>
     get ''id'' request = Some requestId \<and>
     (\<exists>ps m mt mc. get ''params'' request = Some ps \<and>
        get ''mode'' ps = Some (JStr (if authorization_payload d then js ''url'' else js ''form'')) \<and>
        get ''message'' ps = Some (JStr m) \<and> get ''message'' d = Some (JStr m) \<and>
        get ''_meta'' ps = Some mt \<and> get ''io.pausemesh/continuation'' mt = Some mc \<and>
        get ''continuationId'' mc = Some (JStr (env_continuationId c)) \<and>
        get ''correlationId'' mc = Some (JStr (env_correlationId c)) \<and>
        get ''expiresAt'' mc = Some (JStr (env_expiresAt c)) \<and>
        get ''requestId'' mc = Some requestId \<and> get ''schemaVersion'' mc = Some (JInt 1) \<and>
        (\<not> authorization_payload d \<longrightarrow>
          (\<exists>form. get ''requestedSchema'' ps = Some form \<and> canonicalJson form = canonicalJson (form_of d))))"

lemma request_of_eq:
  assumes "request_of c d requestId v" "is_atom requestId" and eq: "json_ok v" "json_ok w" "json_eq v w"
  shows "request_of c d requestId w"
proof -
  obtain ps m mt mc where get: "get ''params'' v = Some ps" "get ''_meta'' ps = Some mt"
      "get ''io.pausemesh/continuation'' mt = Some mc"
    and v: "get ''id'' v = Some requestId"
      "get ''mode'' ps = Some (JStr (if authorization_payload d then js ''url'' else js ''form''))"
      "get ''message'' ps = Some (JStr m)" "get ''message'' d = Some (JStr m)"
      "get ''continuationId'' mc = Some (JStr (env_continuationId c))"
      "get ''correlationId'' mc = Some (JStr (env_correlationId c))"
      "get ''expiresAt'' mc = Some (JStr (env_expiresAt c))"
      "get ''requestId'' mc = Some requestId" "get ''schemaVersion'' mc = Some (JInt 1)"
    and form: "\<not> authorization_payload d \<longrightarrow>
      (\<exists>form. get ''requestedSchema'' ps = Some form \<and> canonicalJson form = canonicalJson (form_of d))"
    using assms(1) unfolding request_of_def by blast
  have int: "is_atom (JInt 1)" by (simp add: is_atom_def)
  obtain ps' where ps': "get ''params'' w = Some ps'" "json_ok ps" "json_ok ps'" "json_eq ps ps'"
    by (rule same_member [OF eq get(1)])
  obtain mt' where mt': "get ''_meta'' ps' = Some mt'" "json_ok mt" "json_ok mt'" "json_eq mt mt'"
    by (rule same_member [OF ps'(2-4) get(2)])
  obtain mc' where mc': "get ''io.pausemesh/continuation'' mt' = Some mc'" "json_ok mc" "json_ok mc'" "json_eq mc mc'"
    by (rule same_member [OF mt'(2-4) get(3)])
  have "\<exists>form. get ''requestedSchema'' ps' = Some form \<and> canonicalJson form = canonicalJson (form_of d)"
    if form_mode: "\<not> authorization_payload d"
  proof -
    obtain f where f: "get ''requestedSchema'' ps = Some f" "canonicalJson f = canonicalJson (form_of d)"
      using form form_mode by blast
    obtain f' where "get ''requestedSchema'' ps' = Some f'" "json_ok f" "json_ok f'" "json_eq f f'"
      by (rule same_member [OF ps'(2-4) f(1)])
    then show ?thesis using f(2) canonical_json_ok by metis
  qed
  then show ?thesis
    unfolding request_of_def
    using ps'(1) mt'(1) mc'(1) v(4) same_atom [OF eq v(1) assms(2)] same_atom [OF ps'(2-4) v(2)] same_atom [OF ps'(2-4) v(3)]
      same_atom [OF mc'(2-4) v(5)] same_atom [OF mc'(2-4) v(6)] same_atom [OF mc'(2-4) v(7)]
      same_atom [OF mc'(2-4) v(8) assms(2)] same_atom [OF mc'(2-4) v(9) int]
    by (intro conjI exI) (assumption | rule is_atom_JStr | simp)+
qed

lemma empty_form_ok: "json_ok empty_form"
  by (simp add: empty_form_def obj_def json_ok_obj js_obj_id)

lemma projectionMetadata_gets:
  "get ''io.pausemesh/continuation'' (projectionMetadata c requestId rt) = Some (obj
     [(''continuationId'', JStr (env_continuationId c)), (''correlationId'', JStr (env_correlationId c)),
      (''expiresAt'', JStr (env_expiresAt c)), (''requestId'', requestId), (''schemaVersion'', JInt 1)])"
  by (simp add: projectionMetadata_def)

lemma projectionMetadata_ok:
  assumes "json_ok requestId" "\<And>t. rt = Some t \<Longrightarrow> json_ok t"
  shows "json_ok (projectionMetadata c requestId rt)"
proof -
  have "json_ok (obj [(''continuationId'', JStr (env_continuationId c)), (''correlationId'', JStr (env_correlationId c)),
      (''expiresAt'', JStr (env_expiresAt c)), (''requestId'', requestId), (''schemaVersion'', JInt 1)])"
    by (rule json_ok_literal) (simp_all add: assms(1))
  moreover have "json_ok (obj [(''taskId'', json_field ''taskId'' t)])" if "rt = Some t" for t
    by (rule json_ok_literal) (simp_all add: json_ok_field assms(2) [OF that])
  ultimately show ?thesis
    unfolding projectionMetadata_def by (cases rt) (auto intro!: json_ok_literal)
qed

lemma requests_ok:
  assumes "json_ok requestId" "get ''message'' d = Some (JStr m)" "json_ok mt"
  shows "json_ok b \<Longrightarrow> json_ok (url_request requestId d b mt)"
    "(\<And>s. get ''responseSchema'' d = Some s \<Longrightarrow> json_ok s) \<Longrightarrow> json_ok (form_request requestId d mt)"
proof -
  have m: "json_field ''message'' d = JStr m" using assms(2) by (simp add: json_field_def)
  assume "json_ok b"
  then have "json_ok (obj [(''mode'', JStr (js ''url'')), (''message'', json_field ''message'' d),
      (''elicitationId'', json_field ''elicitationId'' b), (''url'', json_field ''url'' b), (''_meta'', mt)])"
    by (intro json_ok_literal) (simp_all add: m json_ok_field assms)
  then show "json_ok (url_request requestId d b mt)"
    unfolding url_request_def by (intro json_ok_literal) (simp_all add: assms)
next
  have m: "json_field ''message'' d = JStr m" using assms(2) by (simp add: json_field_def)
  assume "\<And>s. get ''responseSchema'' d = Some s \<Longrightarrow> json_ok s"
  then have "json_ok (form_of d)" by (simp add: form_of_def empty_form_ok split: option.split)
  then have "json_ok (obj [(''mode'', JStr (js ''form'')), (''message'', json_field ''message'' d),
      (''requestedSchema'', form_of d), (''_meta'', mt)])"
    by (intro json_ok_literal) (simp_all add: m assms)
  then show "json_ok (form_request requestId d mt)"
    unfolding form_request_def form_of_def by (intro json_ok_literal) (simp_all add: assms)
qed

lemma requests_of:
  assumes "get ''message'' d = Some (JStr m)"
  shows "authorization_payload d \<Longrightarrow> request_of c d requestId (url_request requestId d b (projectionMetadata c requestId rt))"
    "\<not> authorization_payload d \<Longrightarrow> request_of c d requestId (form_request requestId d (projectionMetadata c requestId rt))"
  using assms
  by (simp_all add: request_of_def url_request_def form_request_def projectionMetadata_gets json_field_def form_of_def
      del: js_simps)

context zod
begin

text \<open>What the projection sends: a request of the continuation, which its own schema accepts again.\<close>

text \<open>What the adapter takes from the context of a projection.\<close>

lemma context_parsed:
  assumes ok: "json_ok ctx" and ctx': "sp McpProjectionContextSchema (Some ctx) = Some (Some ctx')"
  shows "is_atom (json_field ''requestId'' ctx')" "json_ok (json_field ''requestId'' ctx')"
    and "get ''relatedTask'' ctx' = Some w \<Longrightarrow> json_ok w" "get ''urlBinding'' ctx' = Some b \<Longrightarrow> json_ok b"
proof -
  note field = parsed_field [OF plain_json_ok [OF ok] _ ctx' [unfolded McpProjectionContextSchema_def]]
  have "sp McpRequestIdSchema (get ''requestId'' ctx) = Some (get ''requestId'' ctx')"
    using field [of "''requestId''"] by (simp add: js_inject del: js_simps)
  then show "is_atom (json_field ''requestId'' ctx')" "json_ok (json_field ''requestId'' ctx')"
    using request_id_parsed json_ok_get [OF ok] by (fastforce simp: json_field_def)+
  have task: "settles (ZOptional (ZObject Strict [(js ''taskId'', McpOpaqueProtocolIdSchema)]))"
    and binding: "settles (ZOptional (ZObject Strict
      [(js ''elicitationId'', McpOpaqueProtocolIdSchema), (js ''url'', PreservedNonEmptyStringSchema)]))"
    by (simp_all add: optional_settles object_settles shape_simps fixes_settles keeps_fixes mcp_ids_keep)
  have member: "json_ok w" if "settles (ZOptional s)" "sp (ZOptional s) (get k ctx) = Some (get k ctx')" "get k ctx' = Some w"
    for s k w
  proof (cases "get k ctx")
    case None
    then show ?thesis using that(2,3) by (simp add: optional optional_parse_def)
  next
    case (Some v)
    then show ?thesis using settles_once(1) [OF that(1) json_ok_get [OF ok Some]] that(2,3) by simp
  qed
  show "get ''relatedTask'' ctx' = Some w \<Longrightarrow> json_ok w"
    by (rule member [OF task]) (use field [of "''relatedTask''"] in \<open>simp_all add: js_inject del: js_simps\<close>)
  show "get ''urlBinding'' ctx' = Some b \<Longrightarrow> json_ok b"
    by (rule member [OF binding]) (use field [of "''urlBinding''"] in \<open>simp_all add: js_inject del: js_simps\<close>)
qed

lemma projected_request:
  assumes ok: "json_ok (env_payload c)" "json_ok ctx"
    and run: "toMcpElicitRequest sp newURL c (Some ctx) policy = Inr request"
  obtains d requestId where "env_status c = StPending"
    "sp (McpContinuationPayloadSchema sp newURL) (Some (env_payload c)) = Some (Some d)"
    "is_atom requestId" "json_ok request" "request_of c d requestId request"
    "accepts sp (McpElicitRequestSchema sp newURL) (Some request)"
proof -
  obtain d ctx' where pending: "env_status c = StPending"
    and d: "sp (McpContinuationPayloadSchema sp newURL) (Some (env_payload c)) = Some (Some d)"
    and ctx': "sp McpProjectionContextSchema (Some ctx) = Some (Some ctx')"
    using run by (auto simp: toMcpElicitRequest_def bindR_eq_Inr parseBoundary_def parse_or_eq mcp_requirePending_def
        ensure_def)
  obtain m where m: "get ''message'' d = Some (JStr m)"
    and form_ok: "\<And>s. get ''responseSchema'' d = Some s \<Longrightarrow> json_ok s"
    by (rule payload_parsed [OF ok(1) d]) blast
  define requestId where "requestId = json_field ''requestId'' ctx'"
  define mt where "mt = projectionMetadata c requestId (get ''relatedTask'' ctx')"
  note ctx = context_parsed [OF ok(2) ctx', folded requestId_def]
  note id = ctx(1,2) and url = ctx(4)
  have mt: "json_ok mt" unfolding mt_def by (rule projectionMetadata_ok [OF id(2) ctx(3)])
  have "\<exists>s raw. settles s \<and> json_ok raw \<and> request_of c d requestId raw \<and> sp s (Some raw) = Some (Some request) \<and>
      s \<in> {McpFormElicitRequestSchema sp newURL, McpUrlElicitRequestSchema}"
  proof (cases "authorization_payload d")
    case True
    then obtain b where b: "get ''urlBinding'' ctx' = Some b"
      and "sp McpUrlElicitRequestSchema (Some (url_request requestId d b mt)) = Some (Some request)"
      using run pending d ctx'
      by (auto simp: toMcpElicitRequest_def bindR_eq_Inr parseBoundary_def parse_or_def ensure_def Let_def requestId_def
          mt_def authorization_payload_def split: option.splits simp del: js_simps)
    then show ?thesis
      using requests_ok(1) [OF id(2) m mt url [OF b]] requests_of(1) [OF m True] fixes_settles [OF url_request_fixes]
      by (metis insertCI mt_def)
  next
    case False
    then have "sp (McpFormElicitRequestSchema sp newURL) (Some (form_request requestId d mt)) = Some (Some request)"
      using run pending d ctx'
      by (auto simp: toMcpElicitRequest_def bindR_eq_Inr parseBoundary_def parse_or_eq ensure_def Let_def requestId_def
          mt_def authorization_payload_def simp del: js_simps)
    then show ?thesis
      using requests_ok(2) [OF id(2) m mt form_ok] requests_of(2) [OF m False] form_request_settles
      by (metis insertCI mt_def)
  qed
  then obtain s raw where s: "settles s" "json_ok raw" "request_of c d requestId raw" "sp s (Some raw) = Some (Some request)"
      "s \<in> {McpFormElicitRequestSchema sp newURL, McpUrlElicitRequestSchema}" by blast
  note once = settles_once [OF s(1,2,4)]
  have "accepts sp (McpElicitRequestSchema sp newURL) (Some request)"
    using s(5) once(3) by (auto simp: accepts_def McpElicitRequestSchema_def union split: option.splits)
  then show thesis
    using that [OF pending d id(1) once(1) request_of_eq [OF s(3) id(1) s(2) once(1,2)]] by blast
qed

text \<open>A request of the continuation passes the check of its binding.\<close>

lemma binding_accepted:
  assumes d: "sp (McpContinuationPayloadSchema sp newURL) (Some (env_payload c)) = Some (Some d)"
    and ok: "json_ok (env_payload c)" and of: "request_of c d requestId request" and version: "env_schemaVersion c = 1"
  shows "requireRequestBinding sp newURL c request = Inr ()"
proof -
  have "authorization_payload d \<or> get ''kind'' d = Some (JStr (js ''input''))"
    using payload_parsed [OF ok d] by (metis authorization_payload_def)
  moreover have "js ''url'' \<noteq> js ''form''" by (simp add: js_inject del: js_simps)
  ultimately show ?thesis
    using of d version
    by (auto simp: requireRequestBinding_def parseBoundary_def parse_or_def request_of_def ensure_def Let_def
        params_def meta_continuation_def json_field_def form_of_def authorization_payload_def simp del: js_simps)
qed

lemma issue_parse:
  assumes ok: "json_ok (env_payload c)" "json_ok ctx" and version: "env_schemaVersion c = 1"
    and iss: "issueMcpElicitation sp newURL sha c (Some ctx) policy = Inr iss"
  shows "\<exists>request. sp (McpElicitRequestSchema sp newURL) (Some (mi_request iss)) = Some (Some request) \<and>
    json_eq (mi_request iss) request \<and>
    parseMcpElicitResult sp newURL sha c (Some (mi_request iss)) (Some (mi_receipt iss)) rawResult =
      bindR (parseBoundary sp McpElicitResultSchema rawResult INVALID_PROTOCOL_MESSAGE
        ''MCP elicitation result is malformed'') (outcome sp newURL request)"
proof -
  let ?r = "mi_request iss"
  have run: "toMcpElicitRequest sp newURL c (Some ctx) policy = Inr ?r"
    and receipt: "sp McpElicitationReceiptSchema (Some (createMcpElicitationReceipt sha c ?r)) = Some (Some (mi_receipt iss))"
    using iss by (auto simp: issueMcpElicitation_def bindR_eq_Inr parseBoundary_def parse_or_eq)
  obtain d requestId where pending: "env_status c = StPending"
    and d: "sp (McpContinuationPayloadSchema sp newURL) (Some (env_payload c)) = Some (Some d)"
    and r: "is_atom requestId" "json_ok ?r" "request_of c d requestId ?r"
    and acc: "accepts sp (McpElicitRequestSchema sp newURL) (Some ?r)"
    by (rule projected_request [OF ok run])
  obtain q where q: "sp (McpElicitRequestSchema sp newURL) (Some ?r) = Some q" using acc by (auto simp: accepts_def)
  obtain request where "q = Some request" "json_ok request" "json_eq ?r request"
    by (rule settlesD [OF request_settles r(2) q])
  note request = this q
  have of: "request_of c d requestId request" by (rule request_of_eq [OF r(3,1,2) request(2,3)])
  obtain mode where modes: "get ''mode'' (params ?r) = Some (JStr mode)" "get ''mode'' (params request) = Some (JStr mode)"
    using r(3) of by (auto simp: request_of_def params_def json_field_def)
  have ids: "get ''id'' ?r = Some requestId" "get ''id'' request = Some requestId"
    using r(3) of by (auto simp: request_of_def)
  have raw_ok: "json_ok (createMcpElicitationReceipt sha c ?r)"
    unfolding createMcpElicitationReceipt_def
    by (rule json_ok_literal) (use json_ok_get [OF r(2) ids(1)] modes(1) ids(1) in \<open>simp_all add: json_field_def\<close>)
  obtain w where w: "Some (mi_receipt iss) = Some w" "json_ok w" "json_eq (createMcpElicitationReceipt sha c ?r) w"
      "sp McpElicitationReceiptSchema (Some w) = Some (Some w)"
    by (rule fixesD [OF receipt_fixes raw_ok receipt])
  have gets: "get ''continuationId'' w = Some (JStr (env_continuationId c))"
    "get ''correlationId'' w = Some (JStr (env_correlationId c))" "get ''mode'' w = Some (JStr mode)"
    "get ''requestId'' w = Some requestId" "get ''requestHash'' w = Some (JStr (requestHash sha ?r))"
    by (rule same_atom [OF raw_ok w(2,3)];
        use modes(1) ids(1) r(1) in \<open>simp add: createMcpElicitationReceipt_def json_field_def\<close>)+
  have "requireIssuanceReceipt sp sha c request (Some (mi_receipt iss)) = Inr ()"
    using w gets modes(2) ids(2) request_hash_eq [OF r(2) request(2,3), of sha]
    by (simp add: requireIssuanceReceipt_def parseBoundary_def parse_or_def ensure_def del: js_simps)
  moreover have "requireRequestBinding sp newURL c request = Inr ()"
    by (rule binding_accepted [OF d ok(1) of version])
  moreover have "parseBoundary sp (McpElicitRequestSchema sp newURL) (Some ?r) code message = Inr request" for code message
    using request(1,4) by (simp add: parseBoundary_def parse_or_def)
  ultimately have "parseMcpElicitResult sp newURL sha c (Some ?r) (Some (mi_receipt iss)) rawResult =
      bindR (parseBoundary sp McpElicitResultSchema rawResult INVALID_PROTOCOL_MESSAGE
        ''MCP elicitation result is malformed'') (outcome sp newURL request)"
    using pending by (simp add: parseMcpElicitResult_def mcp_requirePending_def ensure_def)
  then show ?thesis using request by blast
qed

end

section \<open>URLs that may be sent\<close>

text \<open>A host of this machine: by name, or by the address of a loopback interface.\<close>

definition local_host :: "jstr \<Rightarrow> bool" where
  "local_host host \<longleftrightarrow>
     toLowerCase host \<in> {js ''localhost'', js ''::1'', js ''[::1]''} \<or> suffix (js ''.localhost'') (toLowerCase host) \<or>
     (\<exists>a b c d. split_on (ch CHR ''.'') (toLowerCase host) = [a, b, c, d] \<and> undec a = 127 \<and>
        (\<forall>octet \<in> {a, b, c, d}. octet_ok octet))"

text \<open>A name that, but for case and punctuation, is one of a credential or holds the name of one.\<close>

definition credential_name :: "jstr \<Rightarrow> bool" where
  "credential_name name \<longleftrightarrow>
     (let normalized = filter is_lower_alnum (toLowerCase name)
      in (\<exists>word \<in> {''token'', ''auth'', ''code'', ''jwt'', ''session'', ''sig'', ''ticket''}. normalized = js word) \<or>
         (\<exists>part \<in> {''accesstoken'', ''authtoken'', ''assertion'', ''authorization'', ''bearer'', ''credential'',
            ''idtoken'', ''apikey'', ''password'', ''passwd'', ''privatekey'', ''refreshtoken'', ''secret'',
            ''sessionid'', ''signature''}. sublist (js part) normalized))"

lemma local_host_iff: "isLoopbackHostname host \<longleftrightarrow> local_host host"
proof -
  have four: "length xs = 4 \<longleftrightarrow> (\<exists>a b c d. xs = [a, b, c, d])" for xs :: "jstr list"
    by (auto simp: length_Suc_conv eval_nat_numeral)
  have "length xs = 4 \<and> list_all octet_ok xs \<and> undec (xs ! 0) = 127 \<longleftrightarrow>
      (\<exists>a b c d. xs = [a, b, c, d] \<and> undec a = 127 \<and> (\<forall>octet \<in> {a, b, c, d}. octet_ok octet))" for xs
    unfolding four by auto
  then show ?thesis
    unfolding isLoopbackHostname_def local_host_def Let_def by (auto simp del: js_simps)
qed

lemma credential_name_iff: "isSensitiveQueryParameter name \<longleftrightarrow> credential_name name"
  by (simp add: isSensitiveQueryParameter_def credential_name_def Let_def del: js_simps)

definition trusted_url :: "url_parser \<Rightarrow> mcp_policy \<Rightarrow> url \<Rightarrow> bool" where
  "trusted_url newURL policy u \<longleftrightarrow>
     u_username u = [] \<and> u_password u = [] \<and> u_hash u = [] \<and>
     (\<forall>k \<in> set (u_queryKeys u). \<not> credential_name k) \<and>
     (u_protocol u = js ''https:'' \<or>
      u_protocol u = js ''http:'' \<and> po_allowInsecureLoopbackHttp policy = Some (JBool True) \<and>
      local_host (u_hostname u)) \<and>
     (\<exists>validate copy. po_validateAuthorizationUrl policy = Function validate \<and>
        newURL (u_href u) = Some copy \<and> validate copy = Inr True)"

lemma validateUrlBinding_Inr:
  "validateUrlBinding newURL t policy = Inr x \<longleftrightarrow> (\<exists>u. newURL t = Some u \<and> trusted_url newURL policy u)"
  by (auto simp: validateUrlBinding_def trusted_url_def ensure_def bindR_eq_Inr Let_def list_ex_iff local_host_iff credential_name_iff
      split: option.splits policy_member.splits sum.splits simp del: js_simps)

section \<open>Contents that are accepted\<close>

text \<open>What a field of a form asks of a value, by the type of the field.\<close>

definition within :: "zvalue \<Rightarrow> jsnum \<Rightarrow> zvalue \<Rightarrow> bool" where
  "within least x most \<longleftrightarrow>
     (\<forall>m. least = Some (JNum m) \<longrightarrow> num_le m x) \<and> (\<forall>m. most = Some (JNum m) \<longrightarrow> num_le x m)"

definition matches_field :: "(schema \<Rightarrow> zparser) \<Rightarrow> url_parser \<Rightarrow> json \<Rightarrow> json \<Rightarrow> bool" where
  "matches_field sp newURL field v \<longleftrightarrow>
     (let type = get ''type'' field; items = get ''items'' field
      in if type = Some (JStr (js ''boolean'')) then \<exists>b. v = JBool b
         else if type = Some (JStr (js ''number'')) then \<exists>x. v = JNum x \<and> within (get ''minimum'' field) x (get ''maximum'' field)
         else if type = Some (JStr (js ''integer'')) then
           \<exists>x. v = JNum x \<and> is_integer x \<and> within (get ''minimum'' field) x (get ''maximum'' field)
         else if type = Some (JStr (js ''array'')) then
           \<exists>texts. v = JArr (map JStr texts) \<and> distinct texts \<and>
             within (get ''minItems'' field) (num_of_int (int (length texts))) (get ''maxItems'' field) \<and>
             (\<forall>text \<in> set texts. text \<in> set (if sub ''enum'' items \<noteq> None then strings (sub ''enum'' items) else option_values (sub ''anyOf'' items)))
         else \<exists>text. v = JStr text \<and>
           (get ''enum'' field \<noteq> None \<longrightarrow> text \<in> set (strings (get ''enum'' field))) \<and>
           (get ''oneOf'' field \<noteq> None \<longrightarrow> text \<in> set (option_values (get ''oneOf'' field))) \<and>
           within (get ''minLength'' field) (num_of_int (unicodeLength text)) (get ''maxLength'' field) \<and>
           (\<forall>format. get ''format'' field = Some (JStr format) \<longrightarrow> validateStringFormat sp newURL text format))"

lemma exceeds_within:
  "within least x most \<longleftrightarrow> \<not> exceeds least (Some (JNum x)) \<and> \<not> exceeds (Some (JNum x)) most"
  by (auto simp: within_def exceeds_def num_less_def split: option.splits json.splits)

lemma all_JStr: "list_all is_JStr vs \<Longrightarrow> \<exists>texts. vs = map JStr texts"
  by (induction vs) (auto simp: is_JStr_def split: json.splits intro: exI [of _ "_ # _"])

lemma strings_texts: "strings (Some (JArr (map JStr texts))) = texts"
  by (induction texts) (simp_all add: strings_def)

lemma valid_matches: "fieldValueIsValid sp newURL v field \<longleftrightarrow> matches_field sp newURL field v"
proof -
  have array: "array_valid field v \<longleftrightarrow> (\<exists>texts. v = JArr (map JStr texts) \<and> distinct texts \<and>
      within (get ''minItems'' field) (num_of_int (int (length texts))) (get ''maxItems'' field) \<and>
      (\<forall>text \<in> set texts. text \<in> set (if sub ''enum'' (get ''items'' field) \<noteq> None
        then strings (sub ''enum'' (get ''items'' field)) else option_values (sub ''anyOf'' (get ''items'' field)))))" (is "_ \<longleftrightarrow> ?r")
  proof
    assume valid: "array_valid field v"
    then obtain texts where "v = JArr (map JStr texts)"
      using all_JStr by (auto simp: array_valid_def split: json.splits)
    with valid show ?r
      by (auto simp: array_valid_def array_length_def exceeds_within distinct_map strings_texts list_all_iff Let_def)
  next
    assume ?r
    then show "array_valid field v"
      by (auto simp: array_valid_def array_length_def exceeds_within distinct_map strings_texts list_all_iff Let_def
        is_JStr_def inj_on_def)
  qed
  show ?thesis
    unfolding fieldValueIsValid_def matches_field_def Let_def array
    by (auto simp: number_valid_def string_valid_def exceeds_within text_length_def js_inject simp del: js_simps
        split: json.splits option.splits)
qed

lemma validatedFormContent_Inr:
  "validatedFormContent sp newURL content schema = Inr content' \<longleftrightarrow>
    content' = content \<and>
    (\<forall>(k, v) \<in> set content. \<exists>field. map_of (obj_field ''properties'' schema) k = Some field \<and>
       fieldValueIsValid sp newURL v field) \<and>
    (\<forall>k \<in> set (strings (get ''required'' schema)). map_of content k \<noteq> None)"
  by (fastforce simp: validatedFormContent_def Let_def bindR_eq_Inr list_all_iff split: option.splits)

lemma parse_result_Inr:
  "parseMcpElicitResult sp newURL sha c rawRequest rawReceipt rawResult = Inr out \<longleftrightarrow>
    (\<exists>request result. env_status c = StPending \<and>
       sp (McpElicitRequestSchema sp newURL) rawRequest = Some (Some request) \<and>
       requireRequestBinding sp newURL c request = Inr () \<and>
       requireIssuanceReceipt sp sha c request rawReceipt = Inr () \<and>
       sp McpElicitResultSchema rawResult = Some (Some result) \<and>
       McpResult.outcome sp newURL request result = Inr out)"
  by (auto simp: parseMcpElicitResult_def bindR_eq_Inr parseBoundary_def parse_or_eq mcp_requirePending_def ensure_def)

lemma binding_Inr:
  assumes "requireRequestBinding sp newURL c request = Inr x"
  obtains d where "sp (McpContinuationPayloadSchema sp newURL) (Some (env_payload c)) = Some (Some d)"
    "get ''mode'' (params request) = Some (JStr (if authorization_payload d then js ''url'' else js ''form''))"
    "get ''continuationId'' (meta_continuation request) = Some (JStr (env_continuationId c))"
    "get ''correlationId'' (meta_continuation request) = Some (JStr (env_correlationId c))"
    "get ''expiresAt'' (meta_continuation request) = Some (JStr (env_expiresAt c))"
    "get ''message'' (params request) = get ''message'' d"
    "\<not> authorization_payload d \<Longrightarrow> canonicalJson (json_field ''requestedSchema'' (params request)) = canonicalJson (form_of d)"
  using assms
  by (auto simp: requireRequestBinding_def bindR_eq_Inr parseBoundary_def parse_or_eq ensure_def Let_def form_of_def
      authorization_payload_def split: if_splits simp del: js_simps)

lemma receipt_Inr:
  assumes "requireIssuanceReceipt sp sha c request rawReceipt = Inr x"
  obtains receipt where "sp McpElicitationReceiptSchema rawReceipt = Some (Some receipt)"
    "get ''requestHash'' receipt = Some (JStr (requestHash sha request))"
    "get ''continuationId'' receipt = Some (JStr (env_continuationId c))"
  using assms by (auto simp: requireIssuanceReceipt_def bindR_eq_Inr parseBoundary_def parse_or_eq ensure_def)

lemma outcome_Inr:
  "McpResult.outcome sp newURL request result = Inr out \<longleftrightarrow>
    (if get ''mode'' (params request) = Some (JStr (js ''url'')) then
       get ''content'' result = None \<and>
       out = UrlConsent (str_field ''action'' result) (json_field ''elicitationId'' (params request))
     else if str_field ''action'' result \<noteq> js ''accept'' then
       get ''content'' result = None \<and> out = FormRefused (str_field ''action'' result)
     else get ''content'' result \<noteq> None \<and>
       (\<exists>content. validatedFormContent sp newURL (obj_field ''content'' result)
          (json_field ''requestedSchema'' (params request)) = Inr content \<and> out = FormAccepted content))"
  by (auto simp: McpResult.outcome_def ensure_def bindR_eq_Inr Let_def simp del: js_simps)

context zod
begin

text \<open>A payload is read as an authorization exactly when it says so.\<close>

lemma payload_kind:
  assumes ok: "json_ok p" and parse: "sp (McpContinuationPayloadSchema sp newURL) (Some p) = Some (Some d)"
  shows "authorization_payload d \<longleftrightarrow> authorization_payload p"
proof -
  note plain = plain_json_ok [OF ok]
  have other: "js ''authorization'' \<noteq> js ''input''" by (simp add: js_inject del: js_simps)
  consider (auth) "sp AuthorizationContinuationPayloadSchema (Some p) = Some (Some d)"
    | (input) "sp (InputContinuationPayloadSchema sp newURL) (Some p) = Some (Some d)"
    using parse by (auto simp: McpContinuationPayloadSchema_def union split: option.splits)
  then show ?thesis
  proof cases
    case auth
    show ?thesis
      using parsed_field [OF plain _ auth [unfolded AuthorizationContinuationPayloadSchema_def], of "''kind''"]
      by (auto simp: authorization_payload_def js_inject literal literal_parse_def split: if_splits simp del: js_simps)
  next
    case input
    show ?thesis
      using parsed_field [OF plain _ input [unfolded InputContinuationPayloadSchema_def], of "''kind''"] other
      by (auto simp: authorization_payload_def js_inject default default_parse_def literal literal_parse_def
          split: if_splits option.splits simp del: js_simps)
  qed
qed

text \<open>The URL of a binding, and of the request it is sent in.\<close>

lemma bound_url:
  assumes ok: "json_ok ctx" and ctx': "sp McpProjectionContextSchema (Some ctx) = Some (Some ctx')"
    and b: "get ''urlBinding'' ctx' = Some b"
  obtains t where "get ''url'' b = Some (JStr t)"
proof -
  let ?s = "ZObject Strict [(js ''elicitationId'', McpOpaqueProtocolIdSchema), (js ''url'', PreservedNonEmptyStringSchema)]"
  have "sp ?s (get ''urlBinding'' ctx) = Some (Some b)"
    using parsed_field [OF plain_json_ok [OF ok] _ ctx' [unfolded McpProjectionContextSchema_def], of "''urlBinding''"] b
    by (auto simp: js_inject optional optional_parse_def split: option.splits simp del: js_simps)
  moreover then obtain b0 where b0: "get ''urlBinding'' ctx = Some b0"
    using object [of None Strict] by (cases "get ''urlBinding'' ctx") (auto simp: object_parse_def plain_object_def)
  ultimately have parsed: "sp ?s (Some b0) = Some (Some b)" by simp
  have "sp PreservedNonEmptyStringSchema (get ''url'' b0) = Some (get ''url'' b)"
    using parsed_field [OF plain_json_ok [OF json_ok_get [OF ok b0]] _ parsed, of "''url''"]
    by (simp add: js_inject del: js_simps)
  then obtain t where "Some (JStr t) = get ''url'' b"
    by (auto simp: PreservedNonEmptyStringSchema_def string string_parse_def split: option.splits json.splits)
  then show thesis by (intro that) (rule sym)
qed

lemma sent_url:
  assumes sent: "sp McpUrlElicitRequestSchema (Some (url_request requestId d b mt)) = Some (Some request)"
    and t: "get ''url'' b = Some (JStr t)"
  shows "get ''url'' (params request) = Some (JStr t)"
proof -
  let ?s = "ZObject Strict [(js ''mode'', ZLiteral (JStr (js ''url''))), (js ''message'', ZString [MinLength 1]),
    (js ''elicitationId'', McpOpaqueProtocolIdSchema), (js ''url'', PreservedNonEmptyStringSchema),
    (js ''_meta'', McpPauseMeshMetadataSchema)]"
  define ps where "ps = obj [(''mode'', JStr (js ''url'')), (''message'', json_field ''message'' d),
      (''elicitationId'', json_field ''elicitationId'' b), (''url'', json_field ''url'' b), (''_meta'', mt)]"
  have same: "plain_object (Some (url_request requestId d b mt))" and plain: "plain_object (Some ps)"
    by (simp_all add: plain_object_def url_request_def ps_def obj_def js_inject)
  have "get ''params'' (url_request requestId d b mt) = Some ps" by (simp add: url_request_def ps_def del: js_simps)
  then have params: "sp ?s (Some ps) = Some (get ''params'' request)"
    using parsed_field [OF same _ sent [unfolded McpUrlElicitRequestSchema_def], of "''params''"]
    by (simp add: js_inject del: js_simps)
  then obtain ps' where ps': "get ''params'' request = Some ps'" using object_data [OF plain] by blast
  then have p: "sp ?s (Some ps) = Some (Some ps')" using params by simp
  have "sp PreservedNonEmptyStringSchema (get ''url'' ps) = Some (get ''url'' ps')"
    using parsed_field [OF plain _ p, of "''url''"] by (simp add: js_inject del: js_simps)
  moreover have "get ''url'' ps = Some (JStr t)" using t by (simp add: ps_def json_field_def)
  ultimately have "get ''url'' ps' = Some (JStr t)" using mcp_ids_keep(2) by (simp add: keeps_def)
  then show ?thesis using ps' by (simp add: params_def json_field_def)
qed

lemma url_request_trusted:
  assumes ok: "json_ok (env_payload c)" "json_ok ctx"
    and run: "toMcpElicitRequest sp newURL c (Some ctx) policy = Inr request" and auth: "authorization_payload (env_payload c)"
  shows "\<exists>t u. get ''url'' (params request) = Some (JStr t) \<and> newURL t = Some u \<and> trusted_url newURL policy u"
proof -
  obtain d ctx' where d: "sp (McpContinuationPayloadSchema sp newURL) (Some (env_payload c)) = Some (Some d)"
    and ctx': "sp McpProjectionContextSchema (Some ctx) = Some (Some ctx')"
    using run by (auto simp: toMcpElicitRequest_def bindR_eq_Inr parseBoundary_def parse_or_eq)
  have "authorization_payload d" using payload_kind [OF ok(1) d] auth by simp
  then obtain b mt u where b: "get ''urlBinding'' ctx' = Some b" "newURL (str_field ''url'' b) = Some u"
      "trusted_url newURL policy u"
    and sent: "sp McpUrlElicitRequestSchema (Some (url_request (json_field ''requestId'' ctx') d b mt)) = Some (Some request)"
    using run d ctx'
    by (auto simp: toMcpElicitRequest_def bindR_eq_Inr parseBoundary_def parse_or_def ensure_def Let_def
        authorization_payload_def validateUrlBinding_Inr split: option.splits simp del: js_simps)
  obtain t where t: "get ''url'' b = Some (JStr t)" by (rule bound_url [OF ok(2) ctx' b(1)])
  then show ?thesis using sent_url [OF sent t] b(2,3) by (simp add: str_field_def)
qed

end

end
