(* ===== verification/McpFields.thy ===== *)
theory McpFields
  imports McpLaws
begin

text \<open>
  The two places of \<open>src/adapters/mcp/elicitation.ts\<close> that say which values a form field takes agree:
  the refinements of the field schemas, which check the default, and \<open>fieldValueIsValid\<close>, which checks an
  answer.
\<close>

lemma get_default_literals:
  "js ''string'' \<noteq> js ''boolean''" "js ''string'' \<noteq> js ''number''" "js ''string'' \<noteq> js ''integer''"
  "js ''string'' \<noteq> js ''array''" "js ''array'' \<noteq> js ''boolean''" "js ''array'' \<noteq> js ''number''"
  "js ''array'' \<noteq> js ''integer''" "js ''number'' \<noteq> js ''boolean''" "js ''integer'' \<noteq> js ''boolean''"
  by (simp_all add: js_inject del: js_simps)

text \<open>A member whose schema admits a string, a number, a Boolean or an array of strings.\<close>

context zod
begin

lemma optional_forms:
  "sp (ZOptional (ZString [])) v = Some r \<Longrightarrow> r = v \<and> (\<forall>w. v = Some w \<longrightarrow> (\<exists>s. w = JStr s))"
  "sp (ZOptional (ZNumber ns)) v = Some r \<Longrightarrow> r = v \<and> (\<forall>w. v = Some w \<longrightarrow> (\<exists>n. w = JNum n))"
  "sp (ZOptional ZBoolean) v = Some r \<Longrightarrow> r = v \<and> (\<forall>w. v = Some w \<longrightarrow> (\<exists>b. w = JBool b))"
  "sp (ZOptional (ZArray (ZString []) n)) v = Some r \<Longrightarrow>
    (\<forall>w. r = Some w \<longrightarrow> (\<exists>vs. w = JArr vs \<and> list_all is_JStr vs))"
proof -
  have elems: "elems_parse (string_parse []) vs = Some ws \<Longrightarrow> list_all is_JStr ws" for vs ws
    by (induction vs arbitrary: ws) (auto simp: string_parse_def is_JStr_def split: option.splits json.splits)
  have p: "sp (ZString []) = string_parse []" by (rule ext) (simp add: string)
  show "sp (ZOptional (ZArray (ZString []) n)) v = Some r \<Longrightarrow>
      (\<forall>w. r = Some w \<longrightarrow> (\<exists>vs. w = JArr vs \<and> list_all is_JStr vs))"
    using elems by (auto simp: optional optional_parse_def array array_parse_def p split: option.splits json.splits if_splits)
qed (auto simp: optional optional_parse_def string string_parse_def number number_parse_def boolean boolean_parse_def
    split: option.splits json.splits if_splits)

text \<open>A refined strict object: its outcome passes the refinement, and each member its schema.\<close>

lemma refined_member:
  assumes "json_ok f" "sp (ZRefine (ZObject Strict shape) q) (Some f) = Some (Some g)"
  shows "q g" "distinct (map fst shape) \<Longrightarrow> map_of shape (js k) = Some s \<Longrightarrow> sp s (get k f) = Some (get k g)"
proof -
  have g: "sp (ZObject Strict shape) (Some f) = Some (Some g)" and "q g"
    using assms(2) by (auto simp: refine refine_parse_def split: option.splits if_splits)
  then show "q g" by simp
  show "distinct (map fst shape) \<Longrightarrow> map_of shape (js k) = Some s \<Longrightarrow> sp s (get k f) = Some (get k g)"
    using parsed_field [OF plain_json_ok [OF assms(1)] _ g] by simp
qed

text \<open>A strict object has no other members.\<close>

lemma strict_absent:
  assumes "json_ok f" "sp (ZObject Strict shape) (Some f) = Some (Some g)" "js k \<notin> fst ` set shape"
  shows "get k g = None"
proof -
  obtain fs gs where "fields_parse (map (map_prod id sp) shape) fs = Some gs" "g = JObj gs"
    using assms(2) object [OF plain_json_ok [OF assms(1)]]
    by (auto simp: object_parse_def split: json.splits if_splits)
  then show ?thesis
    using fields_parse_keys [of "map (map_prod id sp) shape" fs gs] assms(3)
    by (auto simp: map_of_eq_None_iff image_image)
qed

lemma refined_absent:
  assumes "json_ok f" "sp (ZRefine (ZObject Strict shape) q) (Some f) = Some (Some g)" "js k \<notin> fst ` set shape"
  shows "get k g = None"
  using strict_absent [OF assms(1) _ assms(3)] assms(2)
  by (auto simp: refine refine_parse_def split: option.splits if_splits)

lemma literal_member: "sp (ZLiteral l) v = Some r \<Longrightarrow> r = Some l"
  by (auto simp: literal literal_parse_def split: if_splits)

end

lemma strings_distinct: "list_all is_JStr vs \<Longrightarrow> distinct (strings (Some (JArr vs))) \<Longrightarrow> distinct vs"
proof (induction vs)
  case (Cons v vs)
  then obtain s where v: "v = JStr s" by (auto simp: is_JStr_def split: json.splits)
  have "JStr t \<in> set vs \<Longrightarrow> t \<in> set (strings (Some (JArr vs)))" for t
    by (force simp: strings_def)
  then show ?case using Cons v by (auto simp: strings_def)
qed simp

lemma exceeds_None [simp]: "\<not> exceeds None b" "\<not> exceeds a None"
  by (auto simp: exceeds_def split: option.splits json.splits)

text \<open>A default that passes the checks of a choice is a valid answer.\<close>

lemma choice_default:
  assumes "get ''type'' g = Some (JStr (js ''string''))" "get ''default'' g = Some (JStr d)"
    and "\<not> choice_issue g values"
    and "get ''minLength'' g = None" "get ''maxLength'' g = None" "get ''format'' g = None"
    and "get ''enum'' g = None \<or> values = strings (get ''enum'' g)"
    and "get ''oneOf'' g = None \<or> values = option_values (get ''oneOf'' g)"
  shows "fieldValueIsValid sp newURL (JStr d) g"
  using assms get_default_literals
  by (auto simp: fieldValueIsValid_def string_valid_def choice_issue_def simp del: js_simps)

lemma multi_default:
  assumes "get ''type'' g = Some (JStr (js ''array''))" "get ''default'' g = Some (JArr vs)" "list_all is_JStr vs"
    and "\<not> multi_issue g values"
    and "sub ''enum'' (get ''items'' g) \<noteq> None \<Longrightarrow> values = strings (sub ''enum'' (get ''items'' g))"
    and "sub ''enum'' (get ''items'' g) = None \<Longrightarrow> values = option_values (sub ''anyOf'' (get ''items'' g)) \<or> values = []"
  shows "fieldValueIsValid sp newURL (JArr vs) g"
proof -
  have "distinct vs" using assms(2-4) strings_distinct by (auto simp: multi_issue_def)
  moreover have "\<forall>entry \<in> set (strings (Some (JArr vs))). entry \<in> set values"
    using assms(2,4) by (auto simp: multi_issue_def)
  moreover have "\<forall>entry \<in> set (strings (Some (JArr vs))). entry \<in>
      set (if sub ''enum'' (get ''items'' g) \<noteq> None then strings (sub ''enum'' (get ''items'' g))
           else option_values (sub ''anyOf'' (get ''items'' g)))"
    using calculation(2) assms(5,6) by auto
  ultimately show ?thesis
    using assms(1-4) get_default_literals
    by (simp add: fieldValueIsValid_def array_valid_def multi_issue_def Let_def list_all_iff del: js_simps)
qed

context zod
begin

lemmas field_shapes = OptionalTextFields_def js_inject multi_shape_def

text \<open>One kind of field after the other.\<close>

lemma legacy_default:
  assumes ok: "json_ok f" and legacy: "sp McpLegacyTitledEnumSchema (Some f) = Some (Some g)" and d: "get ''default'' g = Some d"
  shows "fieldValueIsValid sp newURL d g"
proof -
  note m = refined_member [OF ok legacy [unfolded McpLegacyTitledEnumSchema_def]]
  note absent = refined_absent [OF ok legacy [unfolded McpLegacyTitledEnumSchema_def]]
  have "get ''type'' g = Some (JStr (js ''string''))"
    using literal_member m(2) [of "''type''"] by (simp add: field_shapes del: js_simps)
  moreover obtain t where "d = JStr t"
    using optional_forms(1) m(2) [of "''default''"] d by (fastforce simp: field_shapes simp del: js_simps)
  ultimately show ?thesis
    using choice_default [of g t "strings (get ''enum'' g)"] m(1) d absent
    by (simp add: legacy_issue_def field_shapes del: js_simps)
qed

lemma untitled_default:
  assumes ok: "json_ok f" and untitled: "sp McpUntitledSingleEnumSchema (Some f) = Some (Some g)" and d: "get ''default'' g = Some d"
  shows "fieldValueIsValid sp newURL d g"
proof -
  note m = refined_member [OF ok untitled [unfolded McpUntitledSingleEnumSchema_def]]
  note absent = refined_absent [OF ok untitled [unfolded McpUntitledSingleEnumSchema_def]]
  have "get ''type'' g = Some (JStr (js ''string''))"
    using literal_member m(2) [of "''type''"] by (simp add: field_shapes del: js_simps)
  moreover obtain t where "d = JStr t"
    using optional_forms(1) m(2) [of "''default''"] d by (fastforce simp: field_shapes simp del: js_simps)
  ultimately show ?thesis
    using choice_default [of g t "strings (get ''enum'' g)"] m(1) d absent by (simp add: field_shapes del: js_simps)
qed

lemma titled_default:
  assumes ok: "json_ok f" and titled: "sp McpTitledSingleEnumSchema (Some f) = Some (Some g)" and d: "get ''default'' g = Some d"
  shows "fieldValueIsValid sp newURL d g"
proof -
  note m = refined_member [OF ok titled [unfolded McpTitledSingleEnumSchema_def]]
  note absent = refined_absent [OF ok titled [unfolded McpTitledSingleEnumSchema_def]]
  have "get ''type'' g = Some (JStr (js ''string''))"
    using literal_member m(2) [of "''type''"] by (simp add: field_shapes del: js_simps)
  moreover obtain t where "d = JStr t"
    using optional_forms(1) m(2) [of "''default''"] d by (fastforce simp: field_shapes simp del: js_simps)
  ultimately show ?thesis
    using choice_default [of g t "option_values (get ''oneOf'' g)"] m(1) d absent by (simp add: field_shapes del: js_simps)
qed

lemma multi_default_valid:
  assumes ok: "json_ok f" and multi: "sp McpUntitledMultiEnumSchema (Some f) = Some (Some g)" and d: "get ''default'' g = Some d"
  shows "fieldValueIsValid sp newURL d g"
proof -
  note m = refined_member [OF ok multi [unfolded McpUntitledMultiEnumSchema_def]]
  have "get ''type'' g = Some (JStr (js ''array''))"
    using literal_member m(2) [of "''type''"] by (simp add: field_shapes del: js_simps)
  moreover obtain vs where "d = JArr vs" "list_all is_JStr vs"
    using optional_forms(4) m(2) [of "''default''"] d by (fastforce simp: field_shapes simp del: js_simps)
  ultimately show ?thesis
    using multi_default [of g vs "strings (sub ''enum'' (get ''items'' g))"] m(1) d
    by (simp add: strings_def del: js_simps)
qed

lemma titled_multi_default:
  assumes ok: "json_ok f" and titled_multi: "sp McpTitledMultiEnumSchema (Some f) = Some (Some g)" and d: "get ''default'' g = Some d"
  shows "fieldValueIsValid sp newURL d g"
proof -
  note m = refined_member [OF ok titled_multi [unfolded McpTitledMultiEnumSchema_def]]
  have "get ''type'' g = Some (JStr (js ''array''))"
    using literal_member m(2) [of "''type''"] by (simp add: field_shapes del: js_simps)
  moreover obtain vs where "d = JArr vs" "list_all is_JStr vs"
    using optional_forms(4) m(2) [of "''default''"] d by (fastforce simp: field_shapes simp del: js_simps)
  moreover have "sub ''enum'' (get ''items'' g) = None"
  proof (cases "get ''items'' g")
    case (Some w)
    have items: "sp (ZObject Strict [(js ''anyOf'', ZArray TitledEnumOptionSchema 1)]) (get ''items'' f) = Some (Some w)"
      using m(2) [of "''items''"] Some by (simp add: field_shapes del: js_simps)
    then obtain v where v: "get ''items'' f = Some v"
      using object [of None Strict] by (cases "get ''items'' f") (auto simp: object_parse_def plain_object_def)
    then show ?thesis
      using strict_absent [OF json_ok_get [OF ok v], of _ w "''enum''"] items Some
      by (simp add: sub_def js_inject del: js_simps)
  qed (simp add: sub_def)
  ultimately show ?thesis
    using multi_default [of g vs "option_values (sub ''anyOf'' (get ''items'' g))"] m(1) d by simp
qed

lemma words_default:
  assumes ok: "json_ok f" and words: "sp (McpStringSchemaDefinitionSchema sp newURL) (Some f) = Some (Some g)" and d: "get ''default'' g = Some d"
  shows "fieldValueIsValid sp newURL d g"
proof -
  note m = refined_member [OF ok words [unfolded McpStringSchemaDefinitionSchema_def]]
  note absent = refined_absent [OF ok words [unfolded McpStringSchemaDefinitionSchema_def]]
  have "get ''type'' g = Some (JStr (js ''string''))"
    using literal_member m(2) [of "''type''"] by (simp add: field_shapes del: js_simps)
  moreover obtain t where "d = JStr t"
    using optional_forms(1) m(2) [of "''default''"] d by (fastforce simp: field_shapes simp del: js_simps)
  moreover have "get ''enum'' g = None" "get ''oneOf'' g = None"
    using absent by (simp_all add: field_shapes del: js_simps)
  ultimately show ?thesis
    using m(1) d get_default_literals
    by (auto simp: fieldValueIsValid_def string_valid_def string_issue_def simp del: js_simps
        split: option.splits json.splits)
qed

lemma number_default:
  assumes ok: "json_ok f" and number: "sp McpNumberSchemaDefinitionSchema (Some f) = Some (Some g)" and d: "get ''default'' g = Some d"
  shows "fieldValueIsValid sp newURL d g"
proof -
  note m = refined_member [OF ok number [unfolded McpNumberSchemaDefinitionSchema_def]]
  have "get ''type'' g \<in> {Some (JStr (js ''number'')), Some (JStr (js ''integer''))}"
    using m(2) [of "''type''"]
    by (auto simp: field_shapes enum enum_parse_def split: option.splits json.splits if_splits simp del: js_simps)
  moreover obtain n where "d = JNum n"
    using optional_forms(2) m(2) [of "''default''"] d by (fastforce simp: field_shapes simp del: js_simps)
  ultimately show ?thesis
    using m(1) d get_default_literals
    by (auto simp: fieldValueIsValid_def number_valid_def number_issue_def simp del: js_simps)
qed

lemma boolean_default:
  assumes ok: "json_ok f" and boolean: "sp McpBooleanSchemaDefinitionSchema (Some f) = Some (Some g)" and d: "get ''default'' g = Some d"
  shows "fieldValueIsValid sp newURL d g"
proof -
  note m = parsed_field [OF plain_json_ok [OF ok] _ boolean [unfolded McpBooleanSchemaDefinitionSchema_def]]
  have "get ''type'' g = Some (JStr (js ''boolean''))"
    using literal_member m [of "''type''"] by (simp add: field_shapes del: js_simps)
  moreover obtain b where "d = JBool b"
    using optional_forms(3) m [of "''default''"] d by (fastforce simp: field_shapes simp del: js_simps)
  ultimately show ?thesis by (simp add: fieldValueIsValid_def)
qed

lemma default_valid:
  assumes "json_ok f" "sp (McpPrimitiveSchemaDefinitionSchema sp newURL) (Some f) = Some (Some g)"
    and "get ''default'' g = Some d"
  shows "fieldValueIsValid sp newURL d g"
proof -
  have "\<exists>s \<in> {McpLegacyTitledEnumSchema, McpUntitledSingleEnumSchema, McpTitledSingleEnumSchema,
      McpUntitledMultiEnumSchema, McpTitledMultiEnumSchema, McpStringSchemaDefinitionSchema sp newURL,
      McpNumberSchemaDefinitionSchema, McpBooleanSchemaDefinitionSchema}. sp s (Some f) = Some (Some g)"
    using assms(2) by (auto simp: McpPrimitiveSchemaDefinitionSchema_def union split: option.splits)
  then show ?thesis
    using legacy_default [OF assms(1) _ assms(3)] untitled_default [OF assms(1) _ assms(3)]
      titled_default [OF assms(1) _ assms(3)] multi_default_valid [OF assms(1) _ assms(3)]
      titled_multi_default [OF assms(1) _ assms(3)] words_default [OF assms(1) _ assms(3)]
      number_default [OF assms(1) _ assms(3)] boolean_default [OF assms(1) _ assms(3)] by blast
qed

end

end
