(* ===== verification/McpScenario.thy ===== *)
theory McpScenario
  imports AdapterProperties McpFields
begin

text \<open>
  A concrete elicitation of each kind, a form and a URL, issued by the adapter with the reference parser:
  the runs the witnesses of the MCP properties are made of.
\<close>

section \<open>A form\<close>

definition no_policy :: mcp_policy where
  "no_policy = \<lparr>po_allowInsecureLoopbackHttp = None, po_validateAuthorizationUrl = Absent, po_otherMembers = False\<rparr>"

definition sample_context :: json where
  "sample_context = JObj
     [(js ''clientCapabilities'', JObj [(js ''elicitation'', JObj [])]), (js ''requestId'', JStr (js ''t1''))]"

abbreviation no_url :: url_parser where
  "no_url \<equiv> (\<lambda>_. None)"

definition sample_const_sha :: "jstr \<Rightarrow> jstr" where
  "sample_const_sha t = replicate 64 (ch CHR ''a'')"

lemma sample_context_ok: "json_ok sample_context"
  by (simp add: sample_context_def json_ok_obj js_obj_id)

lemma untrimmed_samples [simp]: "untrimmed_ok (js ''t1'')" "untrimmed_ok (js ''c1'')" "untrimmed_ok (js ''thread'')"
  using sample_ids by (auto simp: untrimmed_ok_def opaque_id_def trim_id_iff eq_commute [of _ "trim _"] simp del: js_simps)

lemma sample_context_parse: "zod_ref McpProjectionContextSchema (Some sample_context) = Some (Some sample_context)"
  using untrimmed_samples
  by (simp add: McpProjectionContextSchema_def McpClientCapabilitiesSchema_def McpRequestIdSchema_def
    McpOpaqueProtocolIdSchema_def object_parse_def optional_parse_def string_parse_def extra_fields_def sample_context_def
    js_obj_id js_obj_def)

lemma untrimmed_iso [simp]: "untrimmed_ok (iso_string 60000)" "Suc 0 \<le> length (iso_string 60000)"
proof -
  have ok: "iso_datetime_ok False (iso_string 60000)"
    using iso_string_datetime [of 1970 60000 False] sample_year by simp
  then have "iso_string 60000 \<noteq> []" by (auto simp: iso_datetime_ok_def)
  then have hd: "is_digit (hd (iso_string 60000))" and last: "last (iso_string 60000) = ch CHR ''Z''"
    using ok by (simp_all add: iso_datetime_ok_def hd_conv_nth)
  have "is_digit c \<Longrightarrow> \<not> is_space c" for c
    by (auto simp: is_digit_def is_space_def word_le_nat_alt unat_ch)
  moreover have "\<not> is_space (ch CHR ''Z'')" by (simp add: is_space_def word_unat_eq_iff unat_ch word_le_nat_alt)
  ultimately have "trim (iso_string 60000) = iso_string 60000" using hd last by (simp add: trim_id_iff)
  then show "untrimmed_ok (iso_string 60000)" by (simp add: untrimmed_ok_def)
  show "Suc 0 \<le> length (iso_string 60000)" using ok by (simp add: iso_datetime_ok_def)
qed

definition sample_mcp_payload :: json where
  "sample_mcp_payload = JObj [(js ''kind'', JStr (js ''input'')), (js ''message'', JStr (js ''question''))]"

lemma sample_mcp_payload_parse:
  "zod_ref (McpContinuationPayloadSchema zod_ref no_url) (Some sample_payload) = Some (Some sample_mcp_payload)"
  by (simp add: McpContinuationPayloadSchema_def AuthorizationContinuationPayloadSchema_def
    InputContinuationPayloadSchema_def object_parse_def default_parse_def string_parse_def literal_parse_def
    optional_parse_def extra_fields_def js_obj_id sample_payload_def sample_mcp_payload_def)

definition sample_request :: json where
  "sample_request = form_request (JStr (js ''t1'')) sample_mcp_payload
     (projectionMetadata created_env (JStr (js ''t1'')) None)"

lemma sample_request_parse:
  "\<exists>r. zod_ref (McpFormElicitRequestSchema zod_ref no_url) (Some sample_request) = Some (Some r)"
proof -
  have form: "\<exists>r. zod_ref (McpRequestedSchemaSchema zod_ref no_url) (Some empty_form) = Some (Some r)"
    by (simp add: McpRequestedSchemaSchema_def empty_form_def obj_def object_parse_def record_parse_def literal_parse_def
      optional_parse_def refine_parse_def extra_fields_def requested_issue_def strings_def)
  have meta: "\<exists>r. zod_ref McpPauseMeshMetadataSchema (Some (projectionMetadata created_env (JStr (js ''t1'')) None)) = Some (Some r)"
    using untrimmed_samples untrimmed_iso
    by (simp add: McpPauseMeshMetadataSchema_def projectionMetadata_def obj_def object_parse_def string_parse_def
      McpRequestIdSchema_def McpOpaqueProtocolIdSchema_def PreservedNonEmptyStringSchema_def optional_parse_def
      literal_parse_def extra_fields_def)
  show ?thesis
    using form meta untrimmed_samples
    by (auto simp: McpFormElicitRequestSchema_def sample_request_def form_request_def obj_def object_parse_def
      literal_parse_def string_parse_def extra_fields_def McpRequestIdSchema_def McpOpaqueProtocolIdSchema_def
      sample_mcp_payload_def json_field_def)
qed

lemma sample_request_ok: "json_ok sample_request"
  unfolding sample_request_def
  by (rule requests_ok(2))
    (use projectionMetadata_ok [of "JStr (js ''t1'')" None created_env] in \<open>simp_all add: sample_mcp_payload_def\<close>)

lemma issue_of_request:
  assumes project: "toMcpElicitRequest zod_ref newURL c ctx policy = Inr r"
    and r: "get ''id'' r = Some (JStr (js ''t1''))" "get ''mode'' (params r) = Some (JStr m)" "m \<in> {js ''form'', js ''url''}"
    and ids: "untrimmed_ok (env_continuationId c)" "untrimmed_ok (env_correlationId c)"
      "1 \<le> length (env_continuationId c)" "1 \<le> length (env_correlationId c)"
  shows "\<exists>iss. issueMcpElicitation zod_ref newURL sample_const_sha c ctx policy = Inr iss"
proof -
  have "hex64 (requestHash sample_const_sha r)"
    by (simp add: requestHash_def sample_const_sha_def hex64_def is_hex_lower_def is_digit_def list_all_iff
      word_le_nat_alt unat_ch)
  then have "\<exists>q. zod_ref McpElicitationReceiptSchema (Some (createMcpElicitationReceipt sample_const_sha c r)) =
      Some (Some q)"
    using r ids untrimmed_samples
    by (auto simp: McpElicitationReceiptSchema_def createMcpElicitationReceipt_def obj_def object_parse_def
      literal_parse_def string_parse_def enum_parse_def extra_fields_def McpRequestIdSchema_def
      McpOpaqueProtocolIdSchema_def json_field_def)
  then show ?thesis using project by (auto simp: issueMcpElicitation_def parseBoundary_def parse_or_def)
qed

lemma sample_issue_ok:
  "\<exists>iss. issueMcpElicitation zod_ref no_url sample_const_sha created_env (Some sample_context) no_policy = Inr iss \<and>
    json_ok (mi_request iss) \<and> json_eq sample_request (mi_request iss)"
proof -
  obtain r where r: "zod_ref (McpFormElicitRequestSchema zod_ref no_url) (Some sample_request) = Some (Some r)"
    using sample_request_parse by blast
  have caps: "requireModeCapability zod_ref (Some (JObj [(js ''elicitation'', JObj [])])) ''form'' = Inr ()"
    by (simp add: requireModeCapability_def parseBoundary_def parse_or_def McpClientCapabilitiesSchema_def
      object_parse_def optional_parse_def extra_fields_def js_obj_id js_obj_def ensure_def)
  have project: "toMcpElicitRequest zod_ref no_url created_env (Some sample_context) no_policy = Inr r"
    using r caps sample_context_parse sample_mcp_payload_parse
    by (simp add: toMcpElicitRequest_def parseBoundary_def parse_or_def mcp_requirePending_def ensure_def
      McpProjectionPolicySchema_def no_policy_def accepts_def optional_parse_def Let_def)
      (simp add: sample_context_def sample_request_def sample_mcp_payload_def json_field_def)
  note raw = sample_request_ok
  note once = zod_reference.settles_once [OF zod_reference.form_request_settles raw r]
  have "authorization_payload sample_mcp_payload = False"
    by (simp add: authorization_payload_def sample_mcp_payload_def)
  then have "request_of created_env sample_mcp_payload (JStr (js ''t1'')) sample_request"
    unfolding sample_request_def by (intro requests_of(2) [of _ "js ''question''"]) (simp_all add: sample_mcp_payload_def)
  from request_of_eq [OF this _ raw once(1,2)]
  have of: "request_of created_env sample_mcp_payload (JStr (js ''t1'')) r" by simp
  then have id: "get ''id'' r = Some (JStr (js ''t1''))" and mode: "get ''mode'' (params r) = Some (JStr (js ''form''))"
    by (auto simp: request_of_def params_def json_field_def authorization_payload_def sample_mcp_payload_def)
  have "\<exists>iss. issueMcpElicitation zod_ref no_url sample_const_sha created_env (Some sample_context) no_policy = Inr iss"
    by (rule issue_of_request [OF project id mode]) (use untrimmed_samples in simp_all)
  moreover have "mi_request iss = r"
    if "issueMcpElicitation zod_ref no_url sample_const_sha created_env (Some sample_context) no_policy = Inr iss" for iss
    using that project by (auto simp: issueMcpElicitation_def bindR_eq_Inr)
  ultimately show ?thesis using once(1,2) by blast
qed

lemma sample_issue:
  "\<exists>iss. issueMcpElicitation zod_ref no_url sample_const_sha created_env (Some sample_context) no_policy = Inr iss"
  using sample_issue_ok by blast

lemma created_version [simp]: "env_schemaVersion created_env = 1"
  by (simp add: created_env_def created_event_def created_envelope_def CONTINUATION_SCHEMA_VERSION_def)

section \<open>The form, answered\<close>

definition accept_nothing :: json where
  "accept_nothing = JObj [(js ''action'', JStr (js ''accept'')), (js ''content'', JObj [])]"

lemma accept_nothing_parse: "zod_ref McpElicitResultSchema (Some accept_nothing) = Some (Some accept_nothing)"
  by (simp add: McpElicitResultSchema_def accept_nothing_def object_parse_def enum_parse_def optional_parse_def
    record_parse_def extra_fields_def js_obj_id js_obj_def)

lemma empty_form_answer:
  assumes "json_ok form" "json_eq empty_form form"
  shows "validatedFormContent sp newURL [] form = Inr []"
proof -
  have "rel_option json_eq (get ''required'' empty_form) (get ''required'' form)"
    by (rule json_eq_get [OF empty_form_ok assms])
  then have "get ''required'' form = None" by (simp add: empty_form_def obj_def)
  then show ?thesis by (simp add: validatedFormContent_def Let_def strings_def)
qed

text \<open>The issued form, answered with no member at all, which it asks for.\<close>

lemma sample_form_answer:
  "\<exists>iss :: mcp_issuance. parseMcpElicitResult zod_ref no_url sample_const_sha created_env (Some (mi_request iss)) (Some (mi_receipt iss))
    (Some accept_nothing) = Inr (FormAccepted [])"
proof -
  obtain iss where iss: "issueMcpElicitation zod_ref no_url sample_const_sha created_env (Some sample_context) no_policy = Inr iss"
    and sent: "json_ok (mi_request iss)" "json_eq sample_request (mi_request iss)"
    using sample_issue_ok by blast
  obtain request where request: "zod_ref (McpElicitRequestSchema zod_ref no_url) (Some (mi_request iss)) = Some (Some request)"
      "json_eq (mi_request iss) request"
    and parse: "parseMcpElicitResult zod_ref no_url sample_const_sha created_env (Some (mi_request iss))
        (Some (mi_receipt iss)) (Some accept_nothing) =
      bindR (parseBoundary zod_ref McpElicitResultSchema (Some accept_nothing) INVALID_PROTOCOL_MESSAGE
        ''MCP elicitation result is malformed'') (McpResult.outcome zod_ref no_url request)"
    using zod_reference.issue_parse [OF _ sample_context_ok created_version iss] by auto
  have ok: "json_ok request" by (rule zod_reference.settles_once(1) [OF zod_reference.request_settles sent(1) request(1)])
  have eq: "json_eq sample_request request"
    by (rule json_eq_trans [OF sample_request_ok sent(1) ok sent(2) request(2)])
  obtain ps where ps: "get ''params'' sample_request = Some ps" "get ''mode'' ps = Some (JStr (js ''form''))"
      "get ''requestedSchema'' ps = Some empty_form"
    by (simp add: sample_request_def form_request_def sample_mcp_payload_def js_inject del: js_simps)
  obtain ps' where ps': "get ''params'' request = Some ps'" "json_ok ps" "json_ok ps'" "json_eq ps ps'"
    by (rule same_member [OF sample_request_ok ok eq ps(1)])
  obtain form where "get ''requestedSchema'' ps' = Some form" "json_ok form" "json_eq empty_form form"
    by (rule same_member [OF ps'(2-4) ps(3)])
  moreover have "get ''mode'' ps' = Some (JStr (js ''form''))"
    by (rule same_atom [OF ps'(2-4) ps(2)]) simp
  ultimately have "McpResult.outcome zod_ref no_url request accept_nothing = Inr (FormAccepted [])"
    using ps'(1) empty_form_answer
    by (simp add: outcome_Inr params_def json_field_def) (simp add: accept_nothing_def str_field_def obj_field_def)
  then show ?thesis using parse accept_nothing_parse by (intro exI [of _ iss]) (simp add: parseBoundary_def parse_or_def)
qed

section \<open>A URL\<close>

text \<open>
  A continuation that asks for a sign-in, a client that opens URLs, a binding to a URL that is read as a
  plain HTTPS one, and a host that trusts it.
\<close>

definition sample_url :: url where
  "sample_url = \<lparr>u_protocol = js ''https:'', u_username = [], u_password = [], u_hostname = js ''id'', u_hash = [],
     u_queryKeys = [], u_href = js ''https://id/''\<rparr>"

definition sample_newURL :: url_parser where
  "sample_newURL t = (if prefix (js ''https://id/'') t then Some sample_url else None)"

definition trusting_policy :: mcp_policy where
  "trusting_policy = \<lparr>po_allowInsecureLoopbackHttp = None,
     po_validateAuthorizationUrl = Function (\<lambda>u. Inr (u_hostname u = js ''id'')), po_otherMembers = False\<rparr>"

definition sample_url_context :: json where
  "sample_url_context = JObj
     [(js ''clientCapabilities'', JObj [(js ''elicitation'', JObj [(js ''url'', JObj [])])]),
      (js ''requestId'', JStr (js ''t1'')),
      (js ''urlBinding'', JObj [(js ''elicitationId'', JStr (js ''t1'')), (js ''url'', JStr (js ''https://id/''))])]"

lemma sample_url_context_ok: "json_ok sample_url_context"
  by (simp add: sample_url_context_def json_ok_obj js_obj_id)

lemma untrimmed_url [simp]: "untrimmed_ok (js ''https://id/'')"
  by (simp add: untrimmed_ok_def eq_commute [of _ "trim _"] trim_id_iff js_def is_space_def word_unat_eq_iff unat_ch
    word_le_nat_alt)

lemma sample_url_context_parse:
  "zod_ref McpProjectionContextSchema (Some sample_url_context) = Some (Some sample_url_context)"
  using untrimmed_samples untrimmed_url
  by (simp add: McpProjectionContextSchema_def McpClientCapabilitiesSchema_def McpRequestIdSchema_def
    McpOpaqueProtocolIdSchema_def PreservedNonEmptyStringSchema_def object_parse_def optional_parse_def
    string_parse_def extra_fields_def sample_url_context_def js_obj_id js_obj_def)

definition sample_url_request :: json where
  "sample_url_request = url_request (JStr (js ''t1'')) (env_payload sample_authorization)
     (JObj [(js ''elicitationId'', JStr (js ''t1'')), (js ''url'', JStr (js ''https://id/''))])
     (projectionMetadata sample_authorization (JStr (js ''t1'')) None)"

lemma sample_url_trusted: "validateUrlBinding sample_newURL (js ''https://id/'') trusting_policy = Inr ()"
  by (simp add: validateUrlBinding_def sample_newURL_def sample_url_def trusting_policy_def ensure_def Let_def)

lemma sample_authorization_parse:
  "zod_ref (McpContinuationPayloadSchema zod_ref newURL) (Some (env_payload sample_authorization)) =
    Some (Some (env_payload sample_authorization))"
  by (simp add: McpContinuationPayloadSchema_def AuthorizationContinuationPayloadSchema_def object_parse_def
    string_parse_def literal_parse_def optional_parse_def extra_fields_def js_obj_id sample_authorization_def)

lemma sample_url_request_parse:
  "\<exists>r. zod_ref McpUrlElicitRequestSchema (Some sample_url_request) = Some (Some r)"
  using untrimmed_samples untrimmed_url untrimmed_iso
  by (simp add: McpUrlElicitRequestSchema_def McpPauseMeshMetadataSchema_def sample_url_request_def url_request_def
    projectionMetadata_def obj_def object_parse_def string_parse_def McpRequestIdSchema_def
    McpOpaqueProtocolIdSchema_def PreservedNonEmptyStringSchema_def optional_parse_def literal_parse_def
    extra_fields_def sample_authorization_def json_field_def)

lemma sample_url_request_ok: "json_ok sample_url_request"
  unfolding sample_url_request_def
  by (rule requests_ok(1))
    (use projectionMetadata_ok [of "JStr (js ''t1'')" None sample_authorization] in
      \<open>simp_all add: sample_authorization_def json_ok_obj js_obj_id\<close>)

lemma sample_url_issue:
  "\<exists>iss. issueMcpElicitation zod_ref sample_newURL sample_const_sha sample_authorization (Some sample_url_context)
    trusting_policy = Inr iss"
proof -
  obtain r where r: "zod_ref McpUrlElicitRequestSchema (Some sample_url_request) = Some (Some r)"
    using sample_url_request_parse by blast
  have caps: "requireModeCapability zod_ref (Some (JObj [(js ''elicitation'', JObj [(js ''url'', JObj [])])])) ''url'' = Inr ()"
    by (simp add: requireModeCapability_def parseBoundary_def parse_or_def McpClientCapabilitiesSchema_def
      object_parse_def optional_parse_def extra_fields_def js_obj_id js_obj_def ensure_def)
  have pending: "mcp_requirePending sample_authorization = Inr ()"
    by (simp add: mcp_requirePending_def ensure_def sample_authorization_def env_status_def created_env_def
      created_event_def created_envelope_def)
  have payload: "get ''kind'' (env_payload sample_authorization) = Some (JStr (js ''authorization''))"
    by (simp add: sample_authorization_def)
  have ctx: "get ''requestId'' sample_url_context = Some (JStr (js ''t1''))"
      "get ''relatedTask'' sample_url_context = None"
      "get ''clientCapabilities'' sample_url_context = Some (JObj [(js ''elicitation'', JObj [(js ''url'', JObj [])])])"
      "get ''urlBinding'' sample_url_context =
        Some (JObj [(js ''elicitationId'', JStr (js ''t1'')), (js ''url'', JStr (js ''https://id/''))])"
    by (simp_all add: sample_url_context_def js_inject del: js_simps)
  have policy: "McpProjectionPolicySchema zod_ref trusting_policy"
    by (simp add: McpProjectionPolicySchema_def trusting_policy_def accepts_def optional_parse_def)
  have project: "toMcpElicitRequest zod_ref sample_newURL sample_authorization (Some sample_url_context)
      trusting_policy = Inr r"
    using r caps pending sample_url_context_parse sample_authorization_parse sample_url_trusted payload policy ctx
    by (simp add: toMcpElicitRequest_def parseBoundary_def parse_or_def ensure_def Let_def json_field_def str_field_def
      sample_url_request_def del: js_simps)
  have "zod_ref McpUrlElicitRequestSchema (Some sample_url_request) = Some (Some r)" by (rule r)
  then have eq: "json_ok r" "json_eq sample_url_request r"
    using zod_reference.settles_once [OF zod_reference.fixes_settles [OF zod_reference.url_request_fixes]
      sample_url_request_ok] by blast+
  have "request_of sample_authorization (env_payload sample_authorization) (JStr (js ''t1'')) sample_url_request"
    unfolding sample_url_request_def
    by (intro requests_of(1) [of _ "js ''sign in''"])
      (simp_all add: payload authorization_payload_def, simp add: sample_authorization_def)
  from request_of_eq [OF this _ sample_url_request_ok eq]
  have of: "request_of sample_authorization (env_payload sample_authorization) (JStr (js ''t1'')) r" by simp
  then have id: "get ''id'' r = Some (JStr (js ''t1''))" and mode: "get ''mode'' (params r) = Some (JStr (js ''url''))"
    using payload by (auto simp: request_of_def params_def json_field_def authorization_payload_def)
  show ?thesis
    by (rule issue_of_request [OF project id mode]) (use untrimmed_samples in \<open>simp_all add: sample_authorization_def\<close>)
qed

definition accept_url :: json where
  "accept_url = JObj [(js ''action'', JStr (js ''accept''))]"

lemma accept_url_parse: "zod_ref McpElicitResultSchema (Some accept_url) = Some (Some accept_url)"
  by (simp add: McpElicitResultSchema_def accept_url_def object_parse_def enum_parse_def optional_parse_def
    extra_fields_def js_obj_id js_obj_def)

text \<open>The issued URL, whose opening the user consented to.\<close>

lemma sample_url_answer:
  "\<exists>(iss :: mcp_issuance) out. parseMcpElicitResult zod_ref sample_newURL sample_const_sha sample_authorization
    (Some (mi_request iss)) (Some (mi_receipt iss)) (Some accept_url) = Inr out"
proof -
  obtain iss where iss: "issueMcpElicitation zod_ref sample_newURL sample_const_sha sample_authorization
      (Some sample_url_context) trusting_policy = Inr iss"
    using sample_url_issue by blast
  have ok: "json_ok (env_payload sample_authorization)" by (simp add: sample_authorization_def json_ok_obj js_obj_id)
  have version: "env_schemaVersion sample_authorization = 1" by (simp add: sample_authorization_def)
  obtain request where request:
      "zod_ref (McpElicitRequestSchema zod_ref sample_newURL) (Some (mi_request iss)) = Some (Some request)"
      "json_eq (mi_request iss) request"
    and parse: "parseMcpElicitResult zod_ref sample_newURL sample_const_sha sample_authorization
        (Some (mi_request iss)) (Some (mi_receipt iss)) (Some accept_url) =
      bindR (parseBoundary zod_ref McpElicitResultSchema (Some accept_url) INVALID_PROTOCOL_MESSAGE
        ''MCP elicitation result is malformed'') (McpResult.outcome zod_ref sample_newURL request)"
    using zod_reference.issue_parse [OF ok sample_url_context_ok version iss] by blast
  have "toMcpElicitRequest zod_ref sample_newURL sample_authorization (Some sample_url_context) trusting_policy =
      Inr (mi_request iss)"
    using iss by (auto simp: issueMcpElicitation_def bindR_eq_Inr)
  then obtain d requestId where
      d: "zod_ref (McpContinuationPayloadSchema zod_ref sample_newURL) (Some (env_payload sample_authorization)) =
        Some (Some d)"
    and sent: "is_atom requestId" "json_ok (mi_request iss)" "request_of sample_authorization d requestId (mi_request iss)"
    by (rule zod_reference.projected_request [OF ok sample_url_context_ok]) blast
  have parsed: "json_ok request" "json_eq (mi_request iss) request"
    by (rule zod_reference.settles_once [OF zod_reference.request_settles sent(2) request(1)])+
  have "request_of sample_authorization d requestId request"
    by (rule request_of_eq [OF sent(3,1,2) parsed])
  moreover have "authorization_payload d"
    using d sample_authorization_parse [of sample_newURL] by (auto simp: authorization_payload_def sample_authorization_def)
  ultimately have "get ''mode'' (params request) = Some (JStr (js ''url''))"
    by (auto simp: request_of_def params_def json_field_def)
  then have "\<exists>out. McpResult.outcome zod_ref sample_newURL request accept_url = Inr out"
    by (simp add: outcome_Inr) (simp add: accept_url_def)
  then obtain out where out: "McpResult.outcome zod_ref sample_newURL request accept_url = Inr out" ..
  have "parseMcpElicitResult zod_ref sample_newURL sample_const_sha sample_authorization
      (Some (mi_request iss)) (Some (mi_receipt iss)) (Some accept_url) = Inr out"
    using parse accept_url_parse out by (simp add: parseBoundary_def parse_or_def)
  then show ?thesis by (intro exI)
qed

end
