(* ===== verification/McpProperties.thy ===== *)
theory McpProperties
  imports McpScenario
begin

text \<open>
  The properties of the MCP adapter: which URLs it sends, the round trip from an issued request to its
  result, and what an accepted result may contain.
\<close>

section \<open>Properties\<close>

text \<open>The text a receipt is the hash of.\<close>

definition request_text :: "json \<Rightarrow> jstr" where
  "request_text request = canonicalJson (JArr [JStr (js ''mcp-elicitation-v1''), request])"

text \<open>
  C30 What is issued is accepted: the request and receipt of an issuance, sent out and given back with
  any result while the continuation is pending, pass every check of their binding, so the parser of
  results goes on to the result itself, for a request that is equal up to the order of members.
\<close>

theorem mcp_round_trip:
  assumes "zod sp" "json_ok (env_payload c)" "json_ok ctx" "env_schemaVersion c = 1"
    and "issueMcpElicitation sp newURL sha c (Some ctx) policy = Inr iss"
  shows "\<exists>request. json_eq (mi_request iss) request \<and>
    (\<forall>rawResult. parseMcpElicitResult sp newURL sha c (Some (mi_request iss)) (Some (mi_receipt iss)) rawResult =
      bindR (parseBoundary sp McpElicitResultSchema rawResult INVALID_PROTOCOL_MESSAGE
        ''MCP elicitation result is malformed'') (McpResult.outcome sp newURL request))"
proof -
  note parse = zod.issue_parse [OF assms]
  obtain request where request: "sp (McpElicitRequestSchema sp newURL) (Some (mi_request iss)) = Some (Some request)"
      "json_eq (mi_request iss) request"
    using parse by blast
  with parse show ?thesis by (intro exI [of _ request]) (metis option.inject)
qed

theorem mcp_round_trip_witness:
  "\<exists>iss request. issueMcpElicitation zod_ref no_url sample_const_sha created_env (Some sample_context) no_policy = Inr iss \<and>
    json_eq (mi_request iss) request"
proof -
  obtain iss where iss: "issueMcpElicitation zod_ref no_url sample_const_sha created_env (Some sample_context) no_policy = Inr iss"
    using sample_issue by blast
  have "json_ok (env_payload created_env)" by simp
  from mcp_round_trip [OF zod_reference.zod_axioms this sample_context_ok created_version iss] iss show ?thesis by blast
qed

text \<open>
  C29 A URL is sent only for an authorization, and only a trusted one: it parses, holds no credentials,
  no fragment and no query parameter with a credential-like name, uses HTTPS, or HTTP to a loopback
  host where the policy of the host allows it, and the validator of the host has accepted it.
\<close>

theorem mcp_url_is_trusted:
  assumes "zod sp" "json_ok (env_payload c)" "json_ok ctx" "toMcpElicitRequest sp newURL c (Some ctx) policy = Inr request"
  shows "(get ''mode'' (params request) = Some (JStr (js ''url'')) \<longleftrightarrow> authorization_payload (env_payload c)) \<and>
    (authorization_payload (env_payload c) \<longrightarrow>
      (\<exists>t u. get ''url'' (params request) = Some (JStr t) \<and> newURL t = Some u \<and> trusted_url newURL policy u))"
proof -
  obtain d requestId where d: "sp (McpContinuationPayloadSchema sp newURL) (Some (env_payload c)) = Some (Some d)"
    and of: "request_of c d requestId request"
    by (rule zod.projected_request [OF assms]) blast
  have "js ''form'' \<noteq> js ''url''" by (simp add: js_inject del: js_simps)
  then have "get ''mode'' (params request) = Some (JStr (js ''url'')) \<longleftrightarrow> authorization_payload d"
    using of by (auto simp: request_of_def params_def json_field_def split: if_splits simp del: js_simps)
  then show ?thesis
    using zod.payload_kind [OF assms(1,2) d] zod.url_request_trusted [OF assms] by simp
qed

theorem mcp_url_is_trusted_witness:
  "\<exists>request t u. toMcpElicitRequest zod_ref sample_newURL sample_authorization (Some sample_url_context) trusting_policy =
      Inr request \<and> get ''mode'' (params request) = Some (JStr (js ''url'')) \<and>
    get ''url'' (params request) = Some (JStr t) \<and> sample_newURL t = Some u \<and> trusted_url sample_newURL trusting_policy u"
proof -
  obtain iss where "issueMcpElicitation zod_ref sample_newURL sample_const_sha sample_authorization
      (Some sample_url_context) trusting_policy = Inr iss"
    using sample_url_issue by blast
  then obtain request where run: "toMcpElicitRequest zod_ref sample_newURL sample_authorization (Some sample_url_context)
      trusting_policy = Inr request"
    by (auto simp: issueMcpElicitation_def bindR_eq_Inr)
  have "json_ok (env_payload sample_authorization)" "authorization_payload (env_payload sample_authorization)"
    by (simp_all add: sample_authorization_def json_ok_obj js_obj_id authorization_payload_def)
  then show ?thesis
    using mcp_url_is_trusted [OF zod_reference.zod_axioms _ sample_url_context_ok run] run by blast
qed

text \<open>
  C31 An accepted form holds what was asked for and nothing else: the content is of a continuation that
  asks for input, whose form it matches; each of its members is a property of the form with a value of its
  type, within its bounds, among its choices and of its format, and every required property is there.
\<close>

theorem mcp_accepted_content:
  assumes "zod sp" "json_ok (env_payload c)"
    and "parseMcpElicitResult sp newURL sha c rawRequest rawReceipt rawResult = Inr (FormAccepted content)"
  shows "\<exists>d form. sp (McpContinuationPayloadSchema sp newURL) (Some (env_payload c)) = Some (Some d) \<and>
    \<not> authorization_payload (env_payload c) \<and> canonicalJson form = canonicalJson (form_of d) \<and>
    (\<forall>(k, v) \<in> set content. \<exists>field. map_of (obj_field ''properties'' form) k = Some field \<and>
       matches_field sp newURL field v \<and> fieldValueIsValid sp newURL v field) \<and>
    (\<forall>k \<in> set (strings (get ''required'' form)). map_of content k \<noteq> None)"
proof -
  obtain request result where bound: "requireRequestBinding sp newURL c request = Inr ()"
    and out: "McpResult.outcome sp newURL request result = Inr (FormAccepted content)"
    using assms(3) by (auto simp: parse_result_Inr)
  obtain d where d: "sp (McpContinuationPayloadSchema sp newURL) (Some (env_payload c)) = Some (Some d)"
    "get ''mode'' (params request) = Some (JStr (if authorization_payload d then js ''url'' else js ''form''))"
    "\<not> authorization_payload d \<Longrightarrow> canonicalJson (json_field ''requestedSchema'' (params request)) = canonicalJson (form_of d)"
    by (rule binding_Inr [OF bound]) blast
  have form: "\<not> authorization_payload d" using out d(2) by (auto simp: outcome_Inr split: if_splits simp del: js_simps)
  then show ?thesis
    using out d(1,3) zod.payload_kind [OF assms(1,2) d(1)]
    by (auto simp: outcome_Inr validatedFormContent_Inr valid_matches [symmetric] split: if_splits simp del: js_simps)
qed

theorem mcp_accepted_content_witness:
  "\<exists>form. canonicalJson form = canonicalJson empty_form \<and> strings (get ''required'' form) = []"
proof -
  obtain iss :: mcp_issuance where run: "parseMcpElicitResult zod_ref no_url sample_const_sha created_env
      (Some (mi_request iss)) (Some (mi_receipt iss)) (Some accept_nothing) = Inr (FormAccepted [])"
    using sample_form_answer by blast
  have "json_ok (env_payload created_env)" by simp
  from mcp_accepted_content [OF zod_reference.zod_axioms this run]
  obtain d form where "zod_ref (McpContinuationPayloadSchema zod_ref no_url) (Some (env_payload created_env)) = Some (Some d)"
    and form: "canonicalJson form = canonicalJson (form_of d)" "strings (get ''required'' form) = []"
    by auto
  then have "d = sample_mcp_payload" using sample_mcp_payload_parse by simp
  then have "form_of d = empty_form" by (simp add: form_of_def sample_mcp_payload_def)
  then show ?thesis using form by auto
qed

text \<open>
  C32 Credentials stay out of band: for a continuation that asks for an authorization the only outcome
  is whether the user consented to open the URL, and a result with content is refused.
\<close>

theorem mcp_authorization_out_of_band:
  assumes "zod sp" "json_ok (env_payload c)" "authorization_payload (env_payload c)"
    and "parseMcpElicitResult sp newURL sha c rawRequest rawReceipt rawResult = Inr out"
  shows "\<exists>result action elicitationId. sp McpElicitResultSchema rawResult = Some (Some result) \<and>
    get ''content'' result = None \<and> out = UrlConsent action elicitationId"
proof -
  obtain request result where bound: "requireRequestBinding sp newURL c request = Inr ()"
    and result: "sp McpElicitResultSchema rawResult = Some (Some result)"
    and out: "McpResult.outcome sp newURL request result = Inr out"
    using assms(4) by (auto simp: parse_result_Inr)
  obtain d where d: "sp (McpContinuationPayloadSchema sp newURL) (Some (env_payload c)) = Some (Some d)"
    "get ''mode'' (params request) = Some (JStr (if authorization_payload d then js ''url'' else js ''form''))"
    by (rule binding_Inr [OF bound]) blast
  have "authorization_payload d" using zod.payload_kind [OF assms(1,2) d(1)] assms(3) by simp
  then show ?thesis using out d(2) result by (auto simp: outcome_Inr)
qed

theorem mcp_authorization_out_of_band_witness:
  "\<exists>action elicitationId (iss :: mcp_issuance). parseMcpElicitResult zod_ref sample_newURL sample_const_sha
    sample_authorization (Some (mi_request iss)) (Some (mi_receipt iss)) (Some accept_url) =
    Inr (UrlConsent action elicitationId)"
proof -
  obtain iss :: mcp_issuance and out where run: "parseMcpElicitResult zod_ref sample_newURL sample_const_sha
      sample_authorization (Some (mi_request iss)) (Some (mi_receipt iss)) (Some accept_url) = Inr out"
    using sample_url_answer by blast
  have "json_ok (env_payload sample_authorization)" "authorization_payload (env_payload sample_authorization)"
    by (simp_all add: sample_authorization_def json_ok_obj js_obj_id authorization_payload_def)
  from mcp_authorization_out_of_band [OF zod_reference.zod_axioms this run] run show ?thesis by blast
qed

text \<open>
  A receipt stands for one request: two results that are accepted with the same receipt answer, where
  the hash does not collide, requests with the same canonical text, of one continuation.
\<close>

theorem mcp_receipt_binds_request:
  assumes "requireIssuanceReceipt sp sha c request rawReceipt = Inr ()" "requireIssuanceReceipt sp sha c' request' rawReceipt = Inr ()"
    and "inj_on sha {request_text request, request_text request'}"
  shows "request_text request = request_text request' \<and> env_continuationId c = env_continuationId c'"
proof -
  obtain r where r: "sp McpElicitationReceiptSchema rawReceipt = Some (Some r)"
    "get ''requestHash'' r = Some (JStr (requestHash sha request))" "get ''continuationId'' r = Some (JStr (env_continuationId c))"
    by (rule receipt_Inr [OF assms(1)])
  obtain r' where "sp McpElicitationReceiptSchema rawReceipt = Some (Some r')"
    "get ''requestHash'' r' = Some (JStr (requestHash sha request'))"
    "get ''continuationId'' r' = Some (JStr (env_continuationId c'))"
    by (rule receipt_Inr [OF assms(2)])
  then have "sha (request_text request) = sha (request_text request')" "env_continuationId c = env_continuationId c'"
    using r by (simp_all add: requestHash_def request_text_def)
  then show ?thesis using inj_on_eq_iff [OF assms(3), of "request_text request" "request_text request'"] by simp
qed

theorem mcp_receipt_binds_request_witness:
  "\<exists>(iss :: mcp_issuance) request. requireIssuanceReceipt zod_ref sample_const_sha created_env request
      (Some (mi_receipt iss)) = Inr () \<and> request_text request = request_text request"
proof -
  obtain iss :: mcp_issuance where run: "parseMcpElicitResult zod_ref no_url sample_const_sha created_env
      (Some (mi_request iss)) (Some (mi_receipt iss)) (Some accept_nothing) = Inr (FormAccepted [])"
    using sample_form_answer by blast
  then obtain request where receipt: "requireIssuanceReceipt zod_ref sample_const_sha created_env request
      (Some (mi_receipt iss)) = Inr ()"
    by (auto simp: parse_result_Inr)
  have "inj_on sample_const_sha {request_text request, request_text request}" by simp
  from mcp_receipt_binds_request [OF receipt receipt this] receipt show ?thesis by blast
qed

text \<open>
  The two checks of form fields agree: the default a field schema accepts is a valid answer to the
  field, whatever kind of field it is.
\<close>

theorem mcp_default_is_valid:
  assumes "zod sp" "json_ok field" "sp (McpPrimitiveSchemaDefinitionSchema sp newURL) (Some field) = Some (Some parsed)"
    and "get ''default'' parsed = Some d"
  shows "fieldValueIsValid sp newURL d parsed"
  by (rule zod.default_valid [OF assms])

theorem mcp_default_is_valid_witness:
  "fieldValueIsValid zod_ref no_url (JBool True) (JObj [(js ''default'', JBool True), (js ''type'', JStr (js ''boolean''))])"
proof (rule mcp_default_is_valid [OF zod_reference.zod_axioms])
  let ?f = "JObj [(js ''default'', JBool True), (js ''type'', JStr (js ''boolean''))]"
  show "json_ok ?f" by (simp add: json_ok_obj js_obj_id)
  show "zod_ref (McpPrimitiveSchemaDefinitionSchema zod_ref no_url) (Some ?f) = Some (Some ?f)"
    by (simp add: McpPrimitiveSchemaDefinitionSchema_def McpLegacyTitledEnumSchema_def McpUntitledSingleEnumSchema_def
      McpTitledSingleEnumSchema_def McpUntitledMultiEnumSchema_def McpTitledMultiEnumSchema_def multi_shape_def
      McpStringSchemaDefinitionSchema_def McpNumberSchemaDefinitionSchema_def McpBooleanSchemaDefinitionSchema_def
      OptionalTextFields_def refine_parse_def object_parse_def optional_parse_def string_parse_def enum_parse_def
      literal_parse_def array_parse_def boolean_parse_def number_parse_def extra_fields_def)
qed simp

end
