(* ===== verification/TextEncoding.thy ===== *)
theory TextEncoding
  imports Json
begin

text \<open>
  The text encodings of \<open>node:buffer\<close> the program uses: a string as its UTF-8 bytes
  (\<open>Buffer.byteLength(text, "utf8")\<close>, \<open>hash.update(text, "utf8")\<close>), bytes as hexadecimal digits
  (\<open>digest("hex")\<close>) and in the URL-safe base 64 without padding (\<open>toString("base64url")\<close>).
\<close>

type_synonym byte = "8 word"

definition byte :: "nat \<Rightarrow> byte" where
  "byte n = word_of_nat n"

lemma byte_less: "unat (b :: byte) < 256"
  using unsigned_less [of b] by simp

section \<open>UTF-8\<close>

text \<open>The bytes of one code point; a surrogate without its partner is written as \<open>U+FFFD\<close>.\<close>

definition utf8_point :: "nat \<Rightarrow> byte list" where
  "utf8_point p =
     (if p < 0x80 then [byte p]
      else if p < 0x800 then [byte (0xC0 + p div 64), byte (0x80 + p mod 64)]
      else if p < 0x10000 then
        [byte (0xE0 + p div 4096), byte (0x80 + p div 64 mod 64), byte (0x80 + p mod 64)]
      else
        [byte (0xF0 + p div 262144), byte (0x80 + p div 4096 mod 64), byte (0x80 + p div 64 mod 64),
         byte (0x80 + p mod 64)])"

definition surrogate_point :: "cu \<Rightarrow> cu \<Rightarrow> nat" where
  "surrogate_point h l = 0x10000 + (unat h - 0xD800) * 1024 + (unat l - 0xDC00)"

definition unit_point :: "cu \<Rightarrow> nat" where
  "unit_point c = (if is_high_surrogate c \<or> is_low_surrogate c then 0xFFFD else unat c)"

fun utf8 :: "jstr \<Rightarrow> byte list" where
  "utf8 (h # l # s) =
     (if is_high_surrogate h \<and> is_low_surrogate l then utf8_point (surrogate_point h l) @ utf8 s
      else utf8_point (unit_point h) @ utf8 (l # s))"
| "utf8 [c] = utf8_point (unit_point c)"
| "utf8 [] = []"

text \<open>ASCII text is its own encoding.\<close>

definition is_ascii :: "cu \<Rightarrow> bool" where
  "is_ascii c \<longleftrightarrow> c < 0x80"

lemma ascii_point: "is_ascii c \<Longrightarrow> utf8_point (unit_point c) = [byte (unat c)]" "is_ascii c \<Longrightarrow> \<not> is_high_surrogate c"
  by (auto simp: is_ascii_def utf8_point_def unit_point_def is_high_surrogate_def is_low_surrogate_def
      word_less_nat_alt word_le_nat_alt)

lemma utf8_ascii: "list_all is_ascii s \<Longrightarrow> utf8 s = map (\<lambda>c. byte (unat c)) s"
  by (induction s rule: utf8.induct) (simp_all add: ascii_point)

lemma utf8_ascii_inject:
  assumes "list_all is_ascii s" "list_all is_ascii t" "utf8 s = utf8 t"
  shows "s = t"
proof -
  have inj: "c = d" if "is_ascii c" "is_ascii d" "byte (unat c) = byte (unat d)" for c d
    using that
    by (simp add: is_ascii_def byte_def word_less_nat_alt word_unat_eq_iff unsigned_ucast_eq take_bit_eq_mod)
  have "map (\<lambda>c. byte (unat c)) s = map (\<lambda>c. byte (unat c)) t" using assms by (simp add: utf8_ascii)
  then show ?thesis using assms(1,2) by (induction s t rule: list_induct2') (auto intro: inj)
qed

section \<open>Hexadecimal\<close>

definition hex_text :: "byte list \<Rightarrow> jstr" where
  "hex_text bs = concat (map (\<lambda>b. [hex_digit (unat b div 16), hex_digit (unat b mod 16)]) bs)"

lemma hex_digit_lower:
  assumes "n < 16"
  shows "is_hex_lower (hex_digit n)"
proof -
  from assms have "n \<in> {0, 1, 2, 3, 4, 5, 6, 7, 8, 9, 10, 11, 12, 13, 14, 15}"
    by (simp only: insert_iff empty_iff) presburger
  then show ?thesis
    by (elim insertE emptyE)
      (simp_all add: hex_digit_def is_hex_lower_def digit_def is_digit_def ch_def word_le_nat_alt)
qed

lemma nibbles: "unat (b :: byte) div 16 < 16"
  using byte_less [of b] by simp

lemma hex_text_digits: "list_all is_hex_lower (hex_text bs)"
  by (induction bs) (simp_all add: hex_text_def hex_digit_lower nibbles)

lemma length_hex_text [simp]: "length (hex_text bs) = 2 * length bs"
  by (induction bs) (simp_all add: hex_text_def)

lemma hex_text_64: "length bs = 32 \<Longrightarrow> hex64 (hex_text bs)"
  by (simp add: hex64_def hex_text_digits)

lemma hex_digit_inject: "m < 16 \<Longrightarrow> n < 16 \<Longrightarrow> hex_digit m = hex_digit n \<longleftrightarrow> m = n"
  by (metis hex_val_digit option.inject)

lemma hex_text_inject: "hex_text as = hex_text bs \<longleftrightarrow> as = bs"
proof (induction as bs rule: list_induct2')
  case (4 a as b bs)
  have "a = b" if "unat a div 16 = unat b div 16" "unat a mod 16 = unat b mod 16"
    by (metis that div_mult_mod_eq word_unat_eq_iff)
  with 4 show ?case by (auto simp: hex_text_def hex_digit_inject nibbles)
qed (simp_all add: hex_text_def)

section \<open>Base 64\<close>

text \<open>The digit of a sextet: letters, then digits, then the two signs that are safe in a URL.\<close>

definition base64_char :: "nat \<Rightarrow> cu" where
  "base64_char n =
     (if n < 26 then of_nat (65 + n) else if n < 52 then of_nat (71 + n) else if n < 62 then of_nat (n - 4)
      else if n = 62 then ch CHR ''-'' else ch CHR ''_'')"

text \<open>Three bytes are four digits; of a last group of one or two bytes the digits that hold them.\<close>

fun sextets :: "byte list \<Rightarrow> nat list" where
  "sextets (a # b # c # bs) =
     [unat a div 4, (unat a mod 4) * 16 + unat b div 16, (unat b mod 16) * 4 + unat c div 64, unat c mod 64] @
     sextets bs"
| "sextets [a, b] = [unat a div 4, (unat a mod 4) * 16 + unat b div 16, (unat b mod 16) * 4]"
| "sextets [a] = [unat a div 4, (unat a mod 4) * 16]"
| "sextets [] = []"

definition base64url :: "byte list \<Rightarrow> jstr" where
  "base64url bs = map base64_char (sextets bs)"

lemma byte_bounds: "unat (b :: byte) div 4 < 64" "unat b div 16 < 16" "unat b div 64 < 4"
  using byte_less [of b] by simp_all

lemma sextets_less: "n \<in> set (sextets bs) \<Longrightarrow> n < 64"
proof (induction bs rule: sextets.induct)
  case (1 a b c bs)
  have "(unat a mod 4) * 16 + unat b div 16 < 64" "(unat b mod 16) * 4 + unat c div 64 < 64"
    using byte_bounds(2) [of b] byte_bounds(3) [of c] mod_less_divisor [of 4 "unat a"] mod_less_divisor [of 16 "unat b"]
    by linarith+
  then show ?case using 1 byte_bounds(1) [of a] by auto
next
  case (2 a b)
  have "(unat a mod 4) * 16 + unat b div 16 < 64" "(unat b mod 16) * 4 < 64"
    using byte_bounds(2) [of b] mod_less_divisor [of 4 "unat a"] mod_less_divisor [of 16 "unat b"] by linarith+
  then show ?case using 2 byte_bounds(1) [of a] by auto
next
  case (3 a)
  have "(unat a mod 4) * 16 < 64" using mod_less_divisor [of 4 "unat a"] by linarith
  then show ?case using 3 byte_bounds(1) [of a] by auto
qed simp

text \<open>The digits determine the bytes.\<close>

lemma split_digits:
  fixes x y z w k :: nat
  assumes "x * k + y = z * k + w" "y < k" "w < k"
  shows "x = z" "y = w"
proof -
  have "(x * k + y) div k = x" "(z * k + w) div k = z" "(x * k + y) mod k = y" "(z * k + w) mod k = w"
    using assms(2,3) by auto
  then show "x = z" "y = w" using assms(1) by metis+
qed

lemma unat_parts: "unat (a :: byte) div k = unat b div k \<Longrightarrow> unat a mod k = unat b mod k \<Longrightarrow> a = b"
  by (metis div_mult_mod_eq word_unat_eq_iff)

lemma sextets_pair:
  fixes a b a' b' :: byte
  assumes "unat a div 4 = unat a' div 4" "(unat a mod 4) * 16 + unat b div 16 = (unat a' mod 4) * 16 + unat b' div 16"
  shows "a = a'" "unat b div 16 = unat b' div 16"
  using split_digits [OF assms(2) byte_bounds(2) byte_bounds(2)] assms(1) by (auto intro: unat_parts)

lemma sextets_inject: "sextets as = sextets bs \<Longrightarrow> as = bs"
proof (induction as arbitrary: bs rule: sextets.induct)
  case (1 a b c as)
  then obtain a' b' c' bs' where bs: "bs = a' # b' # c' # bs'" by (cases bs rule: sextets.cases) auto
  note eq = "1.prems" [unfolded bs]
  have ab: "a = a'" "unat b div 16 = unat b' div 16" using sextets_pair [of a a' b b'] eq by simp_all
  have bc: "unat b mod 16 = unat b' mod 16" "unat c div 64 = unat c' div 64"
    using split_digits [of "unat b mod 16" 4 "unat c div 64" "unat b' mod 16" "unat c' div 64"]
      byte_bounds(3) [of c] byte_bounds(3) [of c'] eq by simp_all
  have "b = b'" "c = c'" using ab(2) bc eq by (auto intro: unat_parts)
  then show ?case using ab(1) bs eq "1.IH" by simp
next
  case (2 a b)
  then obtain a' b' where bs: "bs = [a', b']" by (cases bs rule: sextets.cases) auto
  have ab: "a = a'" "unat b div 16 = unat b' div 16" using sextets_pair [of a a' b b'] "2.prems" bs by simp_all
  have "b = b'" using ab(2) "2.prems" bs by (auto intro: unat_parts)
  then show ?case using ab(1) bs by simp
next
  case (3 a)
  then obtain a' where bs: "bs = [a']" by (cases bs rule: sextets.cases) auto
  then show ?case using "3.prems" by (auto intro: unat_parts)
next
  case 4
  then show ?case by (cases bs rule: sextets.cases) auto
qed

lemma length_sextets: "3 * length (sextets bs) \<ge> 4 * length bs"
  by (induction bs rule: sextets.induct) simp_all

text \<open>The characters are ASCII, and none of them is white space.\<close>

lemma base64_char_unat:
  "n < 64 \<Longrightarrow> unat (base64_char n) =
    (if n < 26 then 65 + n else if n < 52 then 71 + n else if n < 62 then n - 4 else if n = 62 then 45 else 95)"
  by (auto simp: base64_char_def unat_ch unat_of_nat simp del: of_nat_add of_nat_diff)

lemma base64_char_inject: "m < 64 \<Longrightarrow> n < 64 \<Longrightarrow> base64_char m = base64_char n \<longleftrightarrow> m = n"
  by (auto simp: word_unat_eq_iff base64_char_unat split: if_splits)

lemma base64_char_plain: "n < 64 \<Longrightarrow> is_ascii (base64_char n) \<and> \<not> is_space (base64_char n)"
proof -
  assume n: "n < 64"
  have "44 < unat (base64_char n) \<and> unat (base64_char n) < 128" using n by (auto simp: base64_char_unat)
  then show ?thesis by (auto simp: is_ascii_def is_space_def word_less_nat_alt word_le_nat_alt)
qed

lemma base64url_plain: "list_all (\<lambda>c. is_ascii c \<and> \<not> is_space c) (base64url bs)"
  using base64_char_plain sextets_less by (simp add: base64url_def list_all_iff)

lemma length_base64url: "4 * length bs \<le> 3 * length (base64url bs)"
  by (simp add: base64url_def length_sextets)

lemma base64url_inject: "base64url as = base64url bs \<longleftrightarrow> as = bs"
proof
  assume "base64url as = base64url bs"
  moreover have "inj_on base64_char (set (sextets as) \<union> set (sextets bs))"
    using sextets_less by (auto simp: inj_on_def base64_char_inject)
  ultimately have "sextets as = sextets bs" unfolding base64url_def by (rule map_inj_on)
  then show "as = bs" by (rule sextets_inject)
qed simp

end
