(* ===== verification/TokenIssuer.thy ===== *)
theory TokenIssuer
  imports ContinuationService TextEncoding
begin

text \<open>
  \<open>src/adapters/crypto/sha256-token-issuer.ts\<close>: tokens of random bytes, and their SHA-256 hashes.

  Parameters, from \<open>node:crypto\<close>: \<open>random n\<close>, the answer of \<open>randomBytes(n)\<close>; \<open>sha256\<close>, the digest of a
  byte string, of which only its length of 32 bytes is relied on.
\<close>

text \<open>The constructor: the number of bytes of a token, or a \<open>RangeError\<close>.\<close>

definition sha256_issuer :: "jsnum option \<Rightarrow> (failure, int) result" where
  "sha256_issuer option =
     (let tokenBytes = (case option of Some n \<Rightarrow> n | None \<Rightarrow> num_of_int 32)
      in if \<not> is_integer tokenBytes \<or> num_less tokenBytes (num_of_int 16)
         then Inl (RangeError (js ''tokenBytes must be an integer greater than or equal to 16''))
         else Inr (int_of_num tokenBytes))"

definition token_hash :: "(byte list \<Rightarrow> byte list) \<Rightarrow> jstr \<Rightarrow> jstr" where
  "token_hash sha256 token = hex_text (sha256 (utf8 token))"

definition issue_token ::
    "(byte list \<Rightarrow> byte list) \<Rightarrow> (int \<Rightarrow> (failure, byte list) result) \<Rightarrow> int \<Rightarrow> (failure, issued_token) result" where
  "issue_token sha256 random tokenBytes =
     bindR (random tokenBytes) (\<lambda>bytes.
     let token = base64url bytes
     in Inr \<lparr>it_token = token, it_tokenHash = token_hash sha256 token\<rparr>)"

section \<open>Tokens\<close>

lemma sha256_issuer_Inr: "sha256_issuer option = Inr n \<Longrightarrow> 16 \<le> n"
proof -
  assume ok: "sha256_issuer option = Inr n"
  define x where "x = (case option of Some n \<Rightarrow> n | None \<Rightarrow> num_of_int 32)"
  have x: "is_integer x" "num_le (num_of_int 16) x" "n = int_of_num x"
    using ok by (auto simp: sha256_issuer_def Let_def num_less_def x_def split: if_splits)
  then show "16 \<le> n" by (simp add: num_le_ints)
qed

lemma token_hash_hex: "(\<And>bs. length (sha256 bs) = 32) \<Longrightarrow> hex64 (token_hash sha256 token)"
  by (simp add: token_hash_def hex_text_64)

lemma base64url_ascii: "list_all is_ascii (base64url bs)"
  using base64url_plain [of bs] by (simp add: list_all_iff)

lemma issue_token_Inr:
  "issue_token sha256 random n = Inr tok \<longleftrightarrow>
    (\<exists>bytes. random n = Inr bytes \<and> tok = \<lparr>it_token = base64url bytes, it_tokenHash = token_hash sha256 (base64url bytes)\<rparr>)"
  by (auto simp: issue_token_def bindR_eq_Inr Let_def)

text \<open>Tokens of different bytes are different, and so are their hashes unless the digest collides.\<close>

lemma token_hash_inject:
  assumes "inj_on sha256 {utf8 (base64url as), utf8 (base64url bs)}"
  shows "token_hash sha256 (base64url as) = token_hash sha256 (base64url bs) \<longleftrightarrow> as = bs"
proof
  assume "token_hash sha256 (base64url as) = token_hash sha256 (base64url bs)"
  then have "utf8 (base64url as) = utf8 (base64url bs)"
    using inj_on_eq_iff [OF assms, of "utf8 (base64url as)" "utf8 (base64url bs)"]
    by (simp add: token_hash_def hex_text_inject)
  then have "base64url as = base64url bs"
    by (rule utf8_ascii_inject [OF base64url_ascii base64url_ascii])
  then show "as = bs" by (simp add: base64url_inject)
qed simp

end
