(* ===== verification/HttpRequest.thy ===== *)
theory HttpRequest
  imports TokenIssuer JsonRead Protocol
begin

text \<open>
  What the HTTP adapter (\<open>src/adapters/http/app.ts\<close>) reads from a request: the bounded JSON body, the
  resume token of the \<open>Authorization\<close> header and the idempotency key, with the errors they throw.

  The framework \<open>hono\<close> is not modelled: a request is given as what it hands to a handler, its headers
  and its body decoded as text. Whether a body is over the limit of \<open>bodyLimit\<close> is a parameter of the
  middleware (theory HttpApp).
\<close>

record http_request =
  rq_header :: "string \<Rightarrow> jstr option"
  rq_body :: jstr

section \<open>Errors\<close>

text \<open>
  What a handler can throw. The issues of a \<open>ZodError\<close> are given as what the response shows of them, a
  message and a path each. A \<open>ZodError\<close> is either thrown by \<open>parse\<close> or made by the adapter itself.
\<close>

record zod_issue =
  zi_message :: jstr
  zi_path :: "json list"

datatype thrown =
    PayloadTooLargeError int
  | ZodErrorParsed "zod_issue list"
  | ZodErrorMade "zod_issue list"
  | ProtocolFailure protocol_error
  | Failure failure
  | SyntaxError

section \<open>The bounded body\<close>

text \<open>
  \<open>Number(text)\<close>: white space around it is ignored, the empty text is zero, and besides decimals there
  are hexadecimal, octal and binary integers and \<open>Infinity\<close>. The answer is \<open>None\<close> for \<open>NaN\<close>.
\<close>

datatype js_numeric = Finite_num jsnum | Infinite bool

definition radix_digits :: "nat \<Rightarrow> jstr \<Rightarrow> nat option" where
  "radix_digits base s =
     (let ds = map hex_val s
      in if s \<noteq> [] \<and> list_all (\<lambda>d. case d of Some n \<Rightarrow> n < base | None \<Rightarrow> False) ds
         then Some (foldl (\<lambda>n d. n * base + the d) 0 ds)
         else None)"

definition exponent_value :: "jstr \<Rightarrow> int option" where
  "exponent_value s =
     (case s of
        [] \<Rightarrow> Some 0
      | c # r \<Rightarrow>
          if c \<noteq> ch CHR ''e'' \<and> c \<noteq> ch CHR ''E'' then None
          else
            (let negative = prefix (js ''-'') r;
                 ds = (if negative \<or> prefix (js ''+'') r then tl r else r)
             in if ds \<noteq> [] \<and> list_all is_digit ds
                then Some (if negative then - int (undec ds) else int (undec ds)) else None))"

definition decimal_value :: "jstr \<Rightarrow> js_numeric option" where
  "decimal_value s =
     (let negative = prefix (js ''-'') s;
          u = (if negative \<or> prefix (js ''+'') s then tl s else s);
          whole = takeWhile is_digit u;
          rest = dropWhile is_digit u;
          frac = (if prefix (js ''.'') rest then takeWhile is_digit (tl rest) else []);
          expo = (if prefix (js ''.'') rest then dropWhile is_digit (tl rest) else rest)
      in if u = js ''Infinity'' then Some (Infinite negative)
         else if whole = [] \<and> frac = [] then None
         else map_option (\<lambda>e. Finite_num
             (norm (if negative then - int (undec (whole @ frac)) else int (undec (whole @ frac))) (e - int (length frac))))
           (exponent_value expo))"

definition to_number :: "jstr \<Rightarrow> js_numeric option" where
  "to_number text =
     (let s = trim text
      in if s = [] then Some (Finite_num (num_of_int 0))
         else if prefix (js ''0x'') s \<or> prefix (js ''0X'') s then
           map_option (\<lambda>n. Finite_num (num_of_int (int n))) (radix_digits 16 (drop 2 s))
         else if prefix (js ''0o'') s \<or> prefix (js ''0O'') s then
           map_option (\<lambda>n. Finite_num (num_of_int (int n))) (radix_digits 8 (drop 2 s))
         else if prefix (js ''0b'') s \<or> prefix (js ''0B'') s then
           map_option (\<lambda>n. Finite_num (num_of_int (int n))) (radix_digits 2 (drop 2 s))
         else decimal_value s)"

text \<open>\<open>Number(text) > limit\<close>, which is false of \<open>NaN\<close>.\<close>

definition number_exceeds :: "jstr \<Rightarrow> int \<Rightarrow> bool" where
  "number_exceeds text limit =
     (case to_number text of
        None \<Rightarrow> False
      | Some (Finite_num n) \<Rightarrow> num_less (num_of_int limit) n
      | Some (Infinite negative) \<Rightarrow> \<not> negative)"

definition readBoundedJson :: "int \<Rightarrow> http_request \<Rightarrow> (thrown, json) result" where
  "readBoundedJson maxPayloadBytes c =
     (let declaredLength = rq_header c ''content-length''
      in bindR (guardR (\<not> (case declaredLength of None \<Rightarrow> False | Some t \<Rightarrow> number_exceeds t maxPayloadBytes))
           (PayloadTooLargeError maxPayloadBytes)) (\<lambda>_.
         (case json_parse (rq_body c) of
            None \<Rightarrow> Inl SyntaxError
          | Some v \<Rightarrow>
              bindR (guardR (\<not> int (length (utf8 (stringify v))) > maxPayloadBytes)
                (PayloadTooLargeError maxPayloadBytes)) (\<lambda>_.
              Inr v))))"

section \<open>Headers\<close>

definition lower_ascii :: "cu \<Rightarrow> cu" where
  "lower_ascii c = (if ch CHR ''A'' \<le> c \<and> c \<le> ch CHR ''Z'' then c + 32 else c)"

definition is_line_terminator :: "cu \<Rightarrow> bool" where
  "is_line_terminator c \<longleftrightarrow> c \<in> {0x0A, 0x0D, 0x2028, 0x2029}"

text \<open>
  \<open>/^PauseMesh\s+(.+)$/i\<close>: the group of a match. The white space takes what it can and gives
  characters back one at a time until the rest of the text is not empty and on one line; when the rest
  begins with another character, no character given back makes a difference to either.
\<close>

fun split_spaces :: "jstr \<Rightarrow> nat \<Rightarrow> jstr option" where
  "split_spaces s 0 = None"
| "split_spaces s (Suc n) =
     (let rest = drop (Suc n) s
      in if rest \<noteq> [] \<and> list_all (\<lambda>c. \<not> is_line_terminator c) rest then Some rest else split_spaces s n)"

definition scheme_match :: "jstr \<Rightarrow> jstr option" where
  "scheme_match s =
     (if map lower_ascii (take 9 s) = js ''pausemesh''
      then split_spaces (drop 9 s) (length (takeWhile is_space (drop 9 s)))
      else None)"

definition resumeToken :: "http_request \<Rightarrow> jstr \<Rightarrow> (thrown, jstr) result" where
  "resumeToken c continuationId =
     (let authorization = rq_header c ''authorization'';
          mismatch = Failure (PauseMeshError (TokenMismatchError continuationId))
      in (case scheme_match (case authorization of None \<Rightarrow> [] | Some t \<Rightarrow> t) of
            None \<Rightarrow> Inl mismatch
          | Some token \<Rightarrow>
              bindR (guardR (length (trim token) \<noteq> 0) mismatch) (\<lambda>_. Inr (trim token))))"

definition idempotencyKey :: "http_request \<Rightarrow> (thrown, jstr) result" where
  "idempotencyKey c =
     (let failed = ZodErrorMade
            [\<lparr>zi_message = js ''Idempotency-Key header is required and must be at most 200 characters'',
              zi_path = [JStr (js ''headers''), JStr (js ''idempotency-key'')]\<rparr>]
      in (case map_option trim (rq_header c ''idempotency-key'') of
            None \<Rightarrow> Inl failed
          | Some v \<Rightarrow>
              bindR (guardR (\<not> (length v = 0 \<or> 200 < length v)) failed) (\<lambda>_. Inr v)))"

section \<open>What is read\<close>

lemma readBoundedJson_Inr:
  "readBoundedJson limit c = Inr v \<longleftrightarrow>
    (\<forall>t. rq_header c ''content-length'' = Some t \<longrightarrow> \<not> number_exceeds t limit) \<and>
    json_parse (rq_body c) = Some v \<and> int (length (utf8 (stringify v))) \<le> limit"
  by (auto simp: readBoundedJson_def bindR_eq_Inr Let_def split: option.splits)

lemma readBoundedJson_wf: "readBoundedJson limit c = Inr v \<Longrightarrow> json_wf v"
  by (auto simp: readBoundedJson_Inr intro: json_parse_wf)

lemma idempotencyKey_Inr:
  "idempotencyKey c = Inr k \<longleftrightarrow>
    (\<exists>v. rq_header c ''idempotency-key'' = Some v \<and> k = trim v \<and> 0 < length k \<and> length k \<le> 200)"
  by (auto simp: idempotencyKey_def bindR_eq_Inr Let_def split: option.splits)

lemma resumeToken_Inl: "resumeToken c cid = Inl e \<Longrightarrow> e = Failure (PauseMeshError (TokenMismatchError cid))"
  by (auto simp: resumeToken_def Let_def bindR_eq_Inl split: option.splits)

text \<open>A token without white space comes back as it was sent, whatever the case of the scheme.\<close>

lemma scheme_match_token:
  assumes "map lower_ascii scheme = js ''pausemesh''" "token \<noteq> []" "list_all (\<lambda>c. \<not> is_space c) token"
  shows "scheme_match (scheme @ js '' '' @ token) = Some token"
proof -
  have "length (map lower_ascii scheme) = 9" by (simp add: assms(1) js_def)
  then have len: "length scheme = 9" by simp
  have space: "is_space (ch CHR '' '')" by (simp add: is_space_def ch_def)
  have lines: "list_all (\<lambda>c. \<not> is_line_terminator c) token"
    using assms(3) by (auto simp: list_all_iff is_line_terminator_def is_space_def)
  have run: "takeWhile is_space (ch CHR '' '' # token) = [ch CHR '' '']"
    using assms(2,3) space by (cases token) auto
  have "js '' '' @ token = ch CHR '' '' # token" by (simp add: js_def)
  then show ?thesis
    using len run lines assms(1,2) by (simp add: scheme_match_def)
qed

end
