(* ===== verification/HttpApp.thy ===== *)
theory HttpApp
  imports HttpRequest A2A Agui Mcp Concurrency
begin

text \<open>
  \<open>src/adapters/http/app.ts\<close>: the routes of the HTTP adapter, as programs over the ports of the service,
  and the responses their results and errors are turned into.

  Parameters, from third-party packages, are the members of \<open>http_env\<close>: the zod parser and the issues of
  a failed parse, the URL parser and \<open>sha256\<close> of the protocol adapters, the decision of hono's
  \<open>bodyLimit\<close>, and whether a thrown value is an instance of \<open>Error\<close>, which is what hono passes to
  \<open>onError\<close>; another value is left to the server. A request comes with the route it matched.
\<close>

record http_env =
  he_parse :: "schema \<Rightarrow> zparser"
  he_issues :: "schema \<Rightarrow> zvalue \<Rightarrow> zod_issue list"
  he_newURL :: url_parser
  he_sha :: "jstr \<Rightarrow> jstr"
  he_overLimit :: "int \<Rightarrow> http_request \<Rightarrow> bool"
  he_isError :: "thrown \<Rightarrow> bool"

record http_response =
  rs_status :: int
  rs_body :: json

text \<open>The options; the probe is given by the answer of its check when the request arrives.\<close>

record http_options =
  op_maxPayloadBytes :: int
  op_mcpProjectionPolicy :: "mcp_policy option"
  op_readinessProbe :: "(failure, unit) result option"

datatype endpoint =
    Healthz
  | Readyz
  | CreateRoute
  | InspectRoute jstr
  | EventsRoute jstr
  | ProjectionRoute jstr jstr
  | ResumeRoute jstr
  | CancelRoute jstr

section \<open>Schemas\<close>

definition OpaqueIdSchema :: schema where
  "OpaqueIdSchema = ZString [MinLength 1, StrCheck no_edge_space]"

definition CreateContinuationSchema :: schema where
  "CreateContinuationSchema = ZObject Strict
     [(js ''continuationId'', ZOptional OpaqueIdSchema),
      (js ''correlationId'', ZOptional OpaqueIdSchema),
      (js ''expiresAt'', ZOptional (ZIsoDatetime False)),
      (js ''metadata'', ZOptional (ZRecord ZJson)),
      (js ''payload'', ZJson)]"

definition ResumeContinuationSchema :: schema where
  "ResumeContinuationSchema = ZObject Strict [(js ''payload'', ZJson)]"

definition CancelContinuationSchema :: schema where
  "CancelContinuationSchema = ZObject Strict
     [(js ''expectedVersion'', ZOptional (ZNumber [IsInt, Positive, Safe])),
      (js ''reason'', ZOptional (ZString [MaxLength 500]))]"

definition A2AProjectionSchema :: schema where
  "A2AProjectionSchema = ZObject Strict [(js ''contextId'', OpaqueIdSchema), (js ''taskId'', OpaqueIdSchema)]"

definition AguiProjectionSchema :: schema where
  "AguiProjectionSchema = ZObject Strict [(js ''runId'', OpaqueIdSchema), (js ''threadId'', OpaqueIdSchema)]"

definition McpProjectionSchema :: schema where
  "McpProjectionSchema = ZObject Strict
     [(js ''clientCapabilities'', ZObject Passthrough
        [(js ''elicitation'', ZOptional (ZObject Passthrough
           [(js ''form'', ZOptional (ZRecord ZUnknown)), (js ''url'', ZOptional (ZRecord ZUnknown))]))]),
      (js ''relatedTask'', ZOptional (ZObject Strict [(js ''taskId'', OpaqueIdSchema)])),
      (js ''requestId'', ZUnion [OpaqueIdSchema, ZNumber [IsInt, Safe]]),
      (js ''urlBinding'', ZOptional (ZObject Strict
        [(js ''elicitationId'', OpaqueIdSchema), (js ''url'', ZString [MinLength 1])]))]"

section \<open>Responses\<close>

text \<open>The members of an envelope and of an event, as \<open>JSON.stringify\<close> writes them.\<close>

fun state_fields :: "continuation_state \<Rightarrow> (string \<times> json) list" where
  "state_fields (PendingState hash) = [(''resumeTokenHash'', JStr hash)]"
| "state_fields (ResumedState at key p) =
     [(''resumedAt'', JStr at), (''idempotencyKey'', JStr key), (''resumePayload'', p)]"
| "state_fields (CancelledState at reason) =
     (''cancelledAt'', JStr at) # present [(''reason'', map_option JStr reason)]"
| "state_fields (ExpiredState at) = [(''expiredAt'', JStr at)]"

definition envelope_json :: "envelope \<Rightarrow> json" where
  "envelope_json c =
     (let ids = [(''schemaVersion'', JInt (env_schemaVersion c)), (''continuationId'', JStr (env_continuationId c)),
            (''correlationId'', JStr (env_correlationId c)), (''version'', JInt (env_version c))];
          status = [(''status'', JStr (status_str (env_status c)))];
          facts = [(''createdAt'', JStr (env_createdAt c)), (''expiresAt'', JStr (env_expiresAt c)),
            (''payload'', env_payload c), (''metadata'', JObj (env_metadata c))]
      in obj ((if env_status c = StPending then ids @ status @ facts else ids @ facts @ status) @
           state_fields (env_state c)))"

definition respond :: "int \<Rightarrow> (string \<times> json) list \<Rightarrow> http_response" where
  "respond status fs = \<lparr>rs_status = status, rs_body = obj fs\<rparr>"

definition error_response :: "int \<Rightarrow> (string \<times> json) list \<Rightarrow> http_response" where
  "error_response status fs = respond status [(''error'', obj fs)]"

fun errorStatus :: "pausemesh_error \<Rightarrow> int" where
  "errorStatus (ContinuationNotFoundError _) = 404"
| "errorStatus (TokenMismatchError _) = 401"
| "errorStatus (ContinuationExpiredError _) = 410"
| "errorStatus (ContinuationCancelledError _) = 409"
| "errorStatus (TokenAlreadyUsedError _) = 409"
| "errorStatus (IdempotencyConflictError _) = 409"
| "errorStatus (InvalidTransitionError _ _ _) = 409"
| "errorStatus (VersionConflictError _ _ _) = 409"
| "errorStatus _ = 400"

fun protocol_code_str :: "protocol_error_code \<Rightarrow> jstr" where
  "protocol_code_str INVALID_PROTOCOL_BINDING = js ''INVALID_PROTOCOL_BINDING''"
| "protocol_code_str INVALID_PROTOCOL_MESSAGE = js ''INVALID_PROTOCOL_MESSAGE''"
| "protocol_code_str INVALID_PROTOCOL_TRANSITION = js ''INVALID_PROTOCOL_TRANSITION''"
| "protocol_code_str UNSUPPORTED_PROTOCOL_CAPABILITY = js ''UNSUPPORTED_PROTOCOL_CAPABILITY''"

definition zod_response :: "zod_issue list \<Rightarrow> http_response" where
  "zod_response issues = error_response 400
     [(''code'', JStr (js ''INVALID_REQUEST'')), (''message'', JStr (js ''Request validation failed'')),
      (''issues'', JArr (map (\<lambda>i. obj [(''message'', JStr (zi_message i)), (''path'', JArr (zi_path i))]) issues))]"

definition internal_error :: http_response where
  "internal_error = error_response 500
     [(''code'', JStr (js ''INTERNAL_ERROR'')), (''message'', JStr (js ''The continuation operation failed''))]"

fun onError :: "thrown \<Rightarrow> http_response" where
  "onError (PayloadTooLargeError n) = error_response 413
     [(''code'', JStr (js ''PAYLOAD_TOO_LARGE'')),
      (''message'', JStr (js ''JSON payload exceeds '' @ int_str n @ js '' bytes''))]"
| "onError (ZodErrorParsed issues) = zod_response issues"
| "onError (ZodErrorMade issues) = zod_response issues"
| "onError (ProtocolFailure e) =
     error_response (if pe_code e = INVALID_PROTOCOL_TRANSITION then 409 else 400)
       [(''code'', JStr (protocol_code_str (pe_code e))), (''message'', JStr (pe_message e))]"
| "onError (Failure (PauseMeshError e)) = error_response (errorStatus e)
     [(''code'', JStr (code_str (error_code e))), (''message'', JStr (error_message e)), (''details'', error_details e)]"
| "onError _ = internal_error"

section \<open>Routes\<close>

text \<open>
  A handler is a program that answers a response or what it throws. A call of the service turns the
  failure of its program into a thrown value.
\<close>

type_synonym 'a handler = "(thrown, 'a) result prog"

definition bindH :: "'a handler \<Rightarrow> ('a \<Rightarrow> 'b handler) \<Rightarrow> 'b handler" where
  "bindH m f = bindP m (\<lambda>r. case r of Inl e \<Rightarrow> Ret (Inl e) | Inr x \<Rightarrow> f x)"

definition callH :: "'a prog \<Rightarrow> 'a handler" where
  "callH p = catchP (bindP p (\<lambda>x. Ret (Inr x))) (\<lambda>e. Ret (Inl (Failure e)))"

definition adapterH :: "(protocol_error, 'a) result \<Rightarrow> (thrown, 'a) result" where
  "adapterH r = (case r of Inl e \<Rightarrow> Inl (ProtocolFailure e) | Inr x \<Rightarrow> Inr x)"

text \<open>\<open>schema.parse(await readBoundedJson(c, options.maxPayloadBytes))\<close>\<close>

definition parseBody :: "http_env \<Rightarrow> http_options \<Rightarrow> schema \<Rightarrow> http_request \<Rightarrow> (thrown, json) result" where
  "parseBody env opts schema c =
     bindR (readBoundedJson (op_maxPayloadBytes opts) c) (\<lambda>v.
       parse_or (he_parse env) schema (Some v) (ZodErrorParsed (he_issues env schema (Some v))))"

text \<open>The middleware in front of the routes with a body.\<close>

definition boundedJsonBody :: "http_env \<Rightarrow> http_options \<Rightarrow> http_request \<Rightarrow> 'a handler \<Rightarrow> 'a handler" where
  "boundedJsonBody env opts c next =
     (if he_overLimit env (op_maxPayloadBytes opts) c
      then Ret (Inl (PayloadTooLargeError (op_maxPayloadBytes opts))) else next)"

definition check :: "string \<Rightarrow> json" where
  "check status = JArr [obj [(''component'', JStr (js ''event-store'')), (''status'', JStr (js status))]]"

definition readyz :: "http_options \<Rightarrow> http_response" where
  "readyz opts =
     (case op_readinessProbe opts of
        None \<Rightarrow> respond 503 [(''status'', JStr (js ''not_ready'')), (''checks'', check ''not_configured'')]
      | Some (Inr _) \<Rightarrow> respond 200 [(''status'', JStr (js ''ready'')), (''checks'', check ''ready'')]
      | Some (Inl _) \<Rightarrow> respond 503 [(''status'', JStr (js ''not_ready'')), (''checks'', check ''unavailable'')])"

text \<open>The input of a creation, and of a cancellation, from its body.\<close>

definition create_body :: "json \<Rightarrow> create_input" where
  "create_body body =
     \<lparr>ci_continuationId = opt_str_field ''continuationId'' body,
      ci_correlationId = opt_str_field ''correlationId'' body,
      ci_expiresAt = map_option (\<lambda>t. new_date (date_parse t)) (opt_str_field ''expiresAt'' body),
      ci_metadata = (if get ''metadata'' body = None then None else Some (obj_field ''metadata'' body)),
      ci_payload = json_field ''payload'' body\<rparr>"

definition cancel_body :: "jstr \<Rightarrow> json \<Rightarrow> cancel_input" where
  "cancel_body continuationId body =
     \<lparr>xi_continuationId = continuationId,
      xi_expectedVersion =
        (if get ''expectedVersion'' body = None then None else Some (int_field ''expectedVersion'' body)),
      xi_reason = opt_str_field ''reason'' body\<rparr>"

definition default_policy :: mcp_policy where
  "default_policy = \<lparr>po_allowInsecureLoopbackHttp = None, po_validateAuthorizationUrl = Absent, po_otherMembers = False\<rparr>"

definition unsupported_protocol :: http_response where
  "unsupported_protocol = error_response 404
     [(''code'', JStr (js ''UNSUPPORTED_PROTOCOL'')),
      (''message'', JStr (js ''Protocol must be one of: mcp, a2a, ag-ui''))]"

text \<open>The switch over the protocols, once the continuation is read.\<close>

definition project :: "http_env \<Rightarrow> http_options \<Rightarrow> http_request \<Rightarrow> jstr \<Rightarrow> envelope \<Rightarrow> (thrown, http_response) result" where
  "project env opts c protocol continuation =
     (if protocol = js ''mcp'' then
        bindR (parseBody env opts McpProjectionSchema c) (\<lambda>ctx.
        bindR (adapterH (issueMcpElicitation (he_parse env) (he_newURL env) (he_sha env) continuation (Some ctx)
          (case op_mcpProjectionPolicy opts of None \<Rightarrow> default_policy | Some p \<Rightarrow> p))) (\<lambda>issuance.
        Inr (respond 200 [(''projection'', mi_request issuance), (''receipt'', mi_receipt issuance)])))
      else if protocol = js ''a2a'' then
        bindR (parseBody env opts A2AProjectionSchema c) (\<lambda>binding.
        bindR (adapterH (toA2AInterruptedTask (he_parse env) continuation (Some binding))) (\<lambda>task.
        Inr (respond 200 [(''projection'', task)])))
      else if protocol = js ''ag-ui'' then
        bindR (parseBody env opts AguiProjectionSchema c) (\<lambda>binding.
        bindR (adapterH (issueAguiInterrupts (he_parse env) (he_sha env) [continuation] (Some binding))) (\<lambda>issuance.
        Inr (respond 200 [(''projection'', ai_event issuance), (''receipt'', receipt_json (ai_receipt issuance))])))
      else Inr unsupported_protocol)"

fun route :: "http_env \<Rightarrow> http_options \<Rightarrow> int \<Rightarrow> endpoint \<Rightarrow> http_request \<Rightarrow> http_response handler" where
  "route env opts ttl Healthz c = Ret (Inr (respond 200 [(''status'', JStr (js ''ok''))]))"
| "route env opts ttl Readyz c = Ret (Inr (readyz opts))"
| "route env opts ttl CreateRoute c = boundedJsonBody env opts c
     (bindH (Ret (parseBody env opts CreateContinuationSchema c)) (\<lambda>body.
      bindH (callH (create ttl (create_body body))) (\<lambda>result.
      Ret (Inr (respond 201
        [(''continuation'', envelope_json (cc_continuation result)),
         (''resumeToken'', JStr (cc_resumeToken result))])))))"
| "route env opts ttl (InspectRoute continuationId) c =
     bindH (callH (inspect continuationId)) (\<lambda>continuation.
     Ret (Inr (respond 200 [(''continuation'', envelope_json continuation)])))"
| "route env opts ttl (EventsRoute continuationId) c =
     bindH (callH (history continuationId)) (\<lambda>events.
     Ret (Inr (respond 200 [(''events'', JArr (map event_json events))])))"
| "route env opts ttl (ProjectionRoute continuationId protocol) c = boundedJsonBody env opts c
     (bindH (callH (inspect continuationId)) (\<lambda>continuation.
      Ret (project env opts c protocol continuation)))"
| "route env opts ttl (ResumeRoute continuationId) c = boundedJsonBody env opts c
     (bindH (Ret (parseBody env opts ResumeContinuationSchema c)) (\<lambda>body.
      bindH (Ret (idempotencyKey c)) (\<lambda>key.
      bindH (Ret (resumeToken c continuationId)) (\<lambda>token.
      bindH (callH (resume
        \<lparr>ri_continuationId = continuationId, ri_idempotencyKey = key,
         ri_resumePayload = json_field ''payload'' body, ri_resumeToken = token\<rparr>)) (\<lambda>continuation.
      Ret (Inr (respond 200 [(''continuation'', envelope_json continuation)])))))))"
| "route env opts ttl (CancelRoute continuationId) c = boundedJsonBody env opts c
     (bindH (Ret (parseBody env opts CancelContinuationSchema c)) (\<lambda>body.
      bindH (callH (cancel (cancel_body continuationId body))) (\<lambda>continuation.
      Ret (Inr (respond 200 [(''continuation'', envelope_json continuation)])))))"

text \<open>The response of the app, or \<open>None\<close> where a thrown value is left to the server.\<close>

definition settle :: "http_env \<Rightarrow> (thrown, http_response) result \<Rightarrow> http_response option" where
  "settle env r =
     (case r of Inr response \<Rightarrow> Some response | Inl e \<Rightarrow> if he_isError env e then Some (onError e) else None)"

definition handle :: "http_env \<Rightarrow> http_options \<Rightarrow> int \<Rightarrow> endpoint \<Rightarrow> http_request \<Rightarrow> http_response option prog" where
  "handle env opts ttl ep c = bindP (route env opts ttl ep c) (\<lambda>r. Ret (settle env r))"

end
