(* ===== verification/HttpService.thy ===== *)
theory HttpService
  imports HttpApp Outcomes McpLaws ServiceRuns
begin

text \<open>
  The HTTP adapter as a client of the service: a route decodes the request, runs one operation of the
  service at most, and renders its result. So what is known of the operations in every interleaving
  (theory Outcomes) is known of the HTTP responses.
\<close>

section \<open>Decode, serve, render\<close>

text \<open>
  What a route does with a request: answer at once, or run a request of the service and turn its
  response into the answer.
\<close>

datatype http_plan =
    Immediate "(thrown, http_response) result"
  | Call request "response \<Rightarrow> (thrown, http_response) result"

fun envelope_of :: "response \<Rightarrow> envelope" where
  "envelope_of (EnvelopeResp s) = s"
| "envelope_of (CreatedResp r) = cc_continuation r"
| "envelope_of (HistoryResp _) = undefined"

fun history_of :: "response \<Rightarrow> event list" where
  "history_of (HistoryResp es) = es"
| "history_of _ = []"

fun show_created :: "response \<Rightarrow> http_response" where
  "show_created (CreatedResp r) = respond 201
     [(''continuation'', envelope_json (cc_continuation r)), (''resumeToken'', JStr (cc_resumeToken r))]"
| "show_created r = internal_error"

definition show_envelope :: "response \<Rightarrow> http_response" where
  "show_envelope r = respond 200 [(''continuation'', envelope_json (envelope_of r))]"

definition show_history :: "response \<Rightarrow> http_response" where
  "show_history r = respond 200 [(''events'', JArr (map event_json (history_of r)))]"

fun post_plan :: "(thrown, 'a) result \<Rightarrow> ('a \<Rightarrow> http_plan) \<Rightarrow> http_plan" where
  "post_plan (Inl e) f = Immediate (Inl e)"
| "post_plan (Inr x) f = f x"

definition bounded_plan :: "http_env \<Rightarrow> http_options \<Rightarrow> http_request \<Rightarrow> http_plan \<Rightarrow> http_plan" where
  "bounded_plan env opts c p =
     (if he_overLimit env (op_maxPayloadBytes opts) c
      then Immediate (Inl (PayloadTooLargeError (op_maxPayloadBytes opts))) else p)"

text \<open>The resume a request asks for, or what is thrown.\<close>

definition resume_request :: "http_env \<Rightarrow> http_options \<Rightarrow> jstr \<Rightarrow> http_request \<Rightarrow> (thrown, resume_input) result" where
  "resume_request env opts continuationId c =
     bindR (parseBody env opts ResumeContinuationSchema c) (\<lambda>body.
     bindR (idempotencyKey c) (\<lambda>key.
     bindR (resumeToken c continuationId) (\<lambda>token.
     Inr \<lparr>ri_continuationId = continuationId, ri_idempotencyKey = key,
        ri_resumePayload = json_field ''payload'' body, ri_resumeToken = token\<rparr>)))"

fun plan :: "http_env \<Rightarrow> http_options \<Rightarrow> endpoint \<Rightarrow> http_request \<Rightarrow> http_plan" where
  "plan env opts Healthz c = Immediate (Inr (respond 200 [(''status'', JStr (js ''ok''))]))"
| "plan env opts Readyz c = Immediate (Inr (readyz opts))"
| "plan env opts CreateRoute c = bounded_plan env opts c
     (post_plan (parseBody env opts CreateContinuationSchema c) (\<lambda>body.
      Call (CreateReq (create_body body)) (\<lambda>r. Inr (show_created r))))"
| "plan env opts (InspectRoute i) c = Call (InspectReq i) (\<lambda>r. Inr (show_envelope r))"
| "plan env opts (EventsRoute i) c = Call (HistoryReq i) (\<lambda>r. Inr (show_history r))"
| "plan env opts (ProjectionRoute i protocol) c = bounded_plan env opts c
     (Call (InspectReq i) (\<lambda>r. project env opts c protocol (envelope_of r)))"
| "plan env opts (ResumeRoute i) c = bounded_plan env opts c
     (post_plan (resume_request env opts i c) (\<lambda>input. Call (ResumeReq input) (\<lambda>r. Inr (show_envelope r))))"
| "plan env opts (CancelRoute i) c = bounded_plan env opts c
     (post_plan (parseBody env opts CancelContinuationSchema c) (\<lambda>body.
      Call (CancelReq (cancel_body i body)) (\<lambda>r. Inr (show_envelope r))))"

fun run_plan :: "int \<Rightarrow> http_plan \<Rightarrow> http_response handler" where
  "run_plan ttl (Immediate r) = Ret r"
| "run_plan ttl (Call req render) = bindH (callH (serve ttl req)) (\<lambda>r. Ret (render r))"

lemma bindH_simps [simp]: "bindH (Ret (Inl e)) f = Ret (Inl e)" "bindH (Ret (Inr x)) f = f x"
  by (simp_all add: bindH_def)

lemma bindH_callH_map:
  "bindH (callH (bindP p (\<lambda>x. Ret (g x)))) (\<lambda>r. Ret (f r)) = bindH (callH p) (\<lambda>x. Ret (f (g x)))"
  unfolding bindH_def callH_def by (induction p) (simp_all add: fun_eq_iff)

lemma bindH_Ret: "bindH (Ret r) f = (case r of Inl e \<Rightarrow> Ret (Inl e) | Inr x \<Rightarrow> f x)"
  by (simp add: bindH_def)

lemma run_bounded_plan: "run_plan ttl (bounded_plan env opts c p) = boundedJsonBody env opts c (run_plan ttl p)"
  by (simp add: bounded_plan_def boundedJsonBody_def)

lemma run_post_plan: "run_plan ttl (post_plan r f) = bindH (Ret r) (\<lambda>x. run_plan ttl (f x))"
  by (cases r) simp_all

lemma resume_steps:
  "bindH (Ret (parseBody env opts ResumeContinuationSchema c)) (\<lambda>body.
     bindH (Ret (idempotencyKey c)) (\<lambda>key.
     bindH (Ret (resumeToken c i)) (\<lambda>token.
     f \<lparr>ri_continuationId = i, ri_idempotencyKey = key,
        ri_resumePayload = json_field ''payload'' body, ri_resumeToken = token\<rparr>))) =
   bindH (Ret (resume_request env opts i c)) f"
  by (simp add: bindH_Ret resume_request_def bindR_def split: sum.split)

text \<open>The refinement: every route is its plan.\<close>

lemma route_plan: "route env opts ttl ep c = run_plan ttl (plan env opts ep c)"
proof (cases ep)
  case (ResumeRoute i)
  then show ?thesis
    by (simp add: run_bounded_plan run_post_plan bindH_callH_map resume_steps [symmetric] show_envelope_def)
qed (simp_all add: run_bounded_plan run_post_plan bindH_callH_map show_envelope_def show_history_def)

section \<open>What is decoded\<close>

text \<open>The members of the body a request is decoded to are plain JSON when the body is.\<close>

definition body_ok_http :: "http_request \<Rightarrow> bool" where
  "body_ok_http c \<longleftrightarrow> (\<forall>v. json_parse (rq_body c) = Some v \<longrightarrow> json_ok v)"

lemma parseBody_Inr:
  "parseBody env opts schema c = Inr d \<longleftrightarrow>
    (\<exists>v. readBoundedJson (op_maxPayloadBytes opts) c = Inr v \<and> he_parse env schema (Some v) = Some (Some d))"
  by (auto simp: parseBody_def bindR_eq_Inr parse_or_eq)

lemma resume_request_Inr:
  "resume_request env opts i c = Inr input \<longleftrightarrow>
    (\<exists>body. parseBody env opts ResumeContinuationSchema c = Inr body \<and>
      idempotencyKey c = Inr (ri_idempotencyKey input) \<and> resumeToken c i = Inr (ri_resumeToken input) \<and>
      ri_continuationId input = i \<and> ri_resumePayload input = json_field ''payload'' body)"
  by (auto simp: resume_request_def bindR_eq_Inr)

lemma bounded_Call:
  "bounded_plan env opts c p = Call req render \<longleftrightarrow>
    \<not> he_overLimit env (op_maxPayloadBytes opts) c \<and> p = Call req render"
  by (simp add: bounded_plan_def)

lemma post_plan_Call: "post_plan r f = Call req render \<longleftrightarrow> (\<exists>x. r = Inr x \<and> f x = Call req render)"
  by (cases r) simp_all

lemmas plan_Call = bounded_Call post_plan_Call

context zod
begin

lemma read_ok: "body_ok_http c \<Longrightarrow> readBoundedJson n c = Inr v \<Longrightarrow> json_ok v"
  by (simp add: body_ok_http_def readBoundedJson_Inr)

text \<open>A member of a strict body that is any JSON is taken as it was sent.\<close>

lemma json_member:
  assumes "json_ok v" "distinct (map fst shape)" "map_of shape (js k) = Some ZJson"
    and "sp (ZObject m shape) (Some v) = Some (Some d)"
  shows "get k d = get k v \<and> get k v \<noteq> None \<and> json_ok (json_field k d)"
proof -
  have parse: "sp ZJson (get k v) = Some (get k d)"
    by (rule parsed_field [OF plain_json_ok [OF assms(1)] assms(2,4,3)])
  then obtain x where x: "get k v = Some x" using json_undefined by (cases "get k v") auto
  then have "json_ok x" using assms(1) by (rule json_ok_get [rotated])
  moreover then have "get k d = Some x" using parse x json_value [of x] by simp
  ultimately show ?thesis using x by (simp add: json_field_def)
qed

lemma json_settles: "settles ZJson"
  by (auto simp: settles_def json_value json_eq_canon json_ok_keys_wf)

lemma resume_payload:
  assumes "he_parse env = sp" "body_ok_http c" "parseBody env opts ResumeContinuationSchema c = Inr body"
  shows "json_ok (json_field ''payload'' body)"
proof -
  obtain v where v: "json_ok v" "sp ResumeContinuationSchema (Some v) = Some (Some body)"
    using assms read_ok by (auto simp: parseBody_Inr)
  show ?thesis
    using json_member [OF v(1) _ _ v(2) [unfolded ResumeContinuationSchema_def], of "''payload''"] by simp
qed

lemma create_body_ok:
  assumes "he_parse env = sp" "body_ok_http c" "parseBody env opts CreateContinuationSchema c = Inr body"
  shows "request_ok (CreateReq (create_body body))"
proof -
  obtain v where v: "json_ok v" "sp CreateContinuationSchema (Some v) = Some (Some body)"
    using assms read_ok by (auto simp: parseBody_Inr)
  note body = v(2) [unfolded CreateContinuationSchema_def]
  have payload: "json_ok (json_field ''payload'' body)"
    using json_member [OF v(1) _ _ body, of "''payload''"] by (simp add: js_inject del: js_simps)
  have md: "sp (ZOptional (ZRecord ZJson)) (get ''metadata'' v) = Some (get ''metadata'' body)"
    by (rule parsed_field [OF plain_json_ok [OF v(1)] _ body]) (simp_all add: js_inject del: js_simps)
  have "json_ok (JObj (obj_field ''metadata'' body))"
  proof (cases "get ''metadata'' v")
    case None
    then show ?thesis using md by (auto simp: optional optional_parse_def obj_field_def json_ok_obj js_obj_id)
  next
    case (Some w)
    have w: "json_ok w" using v(1) Some by (rule json_ok_get)
    have rec: "sp (ZRecord ZJson) (Some w) = Some (get ''metadata'' body)"
      using md Some by (simp add: optional optional_parse_def)
    obtain m where m: "get ''metadata'' body = Some m" "json_ok m"
      by (rule settlesD [OF record_settles [OF json_settles] w rec]) blast
    then show ?thesis by (cases m) (simp_all add: obj_field_def json_ok_obj js_obj_id)
  qed
  moreover have "json_ok (JObj [])" by (simp add: json_ok_obj js_obj_id)
  ultimately show ?thesis using payload by (simp add: create_body_def)
qed

end

section \<open>What reaches the service\<close>

text \<open>The JSON of a body is within the limit.\<close>

definition body_within :: "http_options \<Rightarrow> http_request \<Rightarrow> bool" where
  "body_within opts c \<longleftrightarrow>
     (\<exists>v. json_parse (rq_body c) = Some v \<and> int (length (utf8 (stringify v))) \<le> op_maxPayloadBytes opts)"

definition optional_id :: "jstr option \<Rightarrow> bool" where
  "optional_id i \<longleftrightarrow> (case i of None \<Rightarrow> True | Some s \<Rightarrow> opaque_id s)"

fun well_formed :: "http_options \<Rightarrow> http_request \<Rightarrow> request \<Rightarrow> bool" where
  "well_formed opts c (CreateReq i) \<longleftrightarrow>
     body_within opts c \<and> optional_id (ci_continuationId i) \<and> optional_id (ci_correlationId i)"
| "well_formed opts c (ResumeReq i) \<longleftrightarrow>
     body_within opts c \<and> 0 < length (ri_idempotencyKey i) \<and> length (ri_idempotencyKey i) \<le> 200 \<and>
     trim (ri_idempotencyKey i) = ri_idempotencyKey i \<and> ri_resumeToken i \<noteq> [] \<and>
     trim (ri_resumeToken i) = ri_resumeToken i"
| "well_formed opts c (CancelReq i) \<longleftrightarrow>
     body_within opts c \<and> (case xi_expectedVersion i of None \<Rightarrow> True | Some v \<Rightarrow> 0 < v \<and> safe_int v) \<and>
     (case xi_reason i of None \<Rightarrow> True | Some t \<Rightarrow> length t \<le> 500)"
| "well_formed opts c _ \<longleftrightarrow> True"

lemma body_withinI: "parseBody env opts schema c = Inr d \<Longrightarrow> body_within opts c"
  by (auto simp: parseBody_Inr readBoundedJson_Inr body_within_def)

lemma trim_trim [simp]: "trim (trim s) = trim s"
proof -
  let ?u = "dropWhile is_space s"
  obtain e where e: "?u = trim s @ e" "trim s \<noteq> [] \<Longrightarrow> \<not> is_space (last (trim s))"
    by (rule that [of "rev (takeWhile is_space (rev ?u))"])
      (simp_all add: trim_def rev_append [symmetric] last_rev hd_dropWhile del: rev_append)
  have "\<not> is_space (hd (trim s))" if "trim s \<noteq> []"
    using that e(1) hd_dropWhile [of is_space s] by (cases "trim s") auto
  then show ?thesis using e(2) by (auto simp: trim_id_iff)
qed

lemma resumeToken_Inr: "resumeToken c i = Inr t \<Longrightarrow> t \<noteq> [] \<and> trim t = t"
  by (auto simp: resumeToken_def Let_def bindR_eq_Inr split: option.splits)

context zod
begin

lemma optional_member:
  assumes "json_ok v" "distinct (map fst shape)" "map_of shape (js k) = Some (ZOptional s)"
    and "sp (ZObject m shape) (Some v) = Some (Some d)"
  shows "get k d = None \<or> (\<exists>w x. sp s (Some w) = Some x \<and> get k d = x)"
proof -
  have "sp (ZOptional s) (get k v) = Some (get k d)"
    by (rule parsed_field [OF plain_json_ok [OF assms(1)] assms(2,4,3)])
  then show ?thesis by (cases "get k v") (auto simp: optional optional_parse_def)
qed

lemma create_well_formed:
  assumes "he_parse env = sp" "body_ok_http c" "parseBody env opts CreateContinuationSchema c = Inr body"
  shows "well_formed opts c (CreateReq (create_body body))"
proof -
  obtain v where v: "json_ok v" "sp CreateContinuationSchema (Some v) = Some (Some body)"
    using assms read_ok by (auto simp: parseBody_Inr)
  note member = optional_member [OF v(1) _ _ v(2) [unfolded CreateContinuationSchema_def]]
  have id: "optional_id (opt_str_field k body)"
    if "get k body = None \<or> (\<exists>w x. sp OpaqueIdSchema (Some w) = Some x \<and> get k body = x)" for k
    using that opaque_parse(2) [of "Some _"]
    by (auto simp: optional_id_def opt_str_field_def OpaqueIdSchema_def OpaqueProtocolIdSchema_def)
  have "optional_id (opt_str_field ''continuationId'' body)" "optional_id (opt_str_field ''correlationId'' body)"
    by (rule id, rule member; simp add: js_inject del: js_simps)+
  then show ?thesis using body_withinI [OF assms(3)] by (simp add: create_body_def)
qed

lemma number_parse_Some:
  "number_parse ns v = Some x \<longleftrightarrow> (\<exists>n. v = Some (JNum n) \<and> x = v \<and> list_all (\<lambda>k. num_check_ok k n) ns)"
  by (auto simp: number_parse_def split: option.splits json.splits)

lemma string_parse_max: "string_parse [MaxLength n] v = Some x \<Longrightarrow> \<exists>t. x = Some (JStr t) \<and> length t \<le> n"
  by (auto simp: string_parse_def split: option.splits json.splits if_splits)

lemma version_of_number:
  assumes "number_parse [IsInt, Positive, Safe] v = Some x" "get k d = x"
  shows "0 < int_field k d \<and> safe_int (int_field k d)"
proof -
  obtain n where n: "get k d = Some (JNum n)" "is_safe_integer n" "num_less (num_of_int 0) n"
    using assms by (auto simp: number_parse_Some)
  then show ?thesis
    using num_le_ints [of n "num_of_int 0"] by (auto simp: int_field_def is_safe_integer_def num_less_def)
qed

lemma cancel_well_formed:
  assumes "he_parse env = sp" "body_ok_http c" "parseBody env opts CancelContinuationSchema c = Inr body"
  shows "well_formed opts c (CancelReq (cancel_body i body))"
proof -
  obtain v where v: "json_ok v" "sp CancelContinuationSchema (Some v) = Some (Some body)"
    using assms read_ok by (auto simp: parseBody_Inr)
  note member = optional_member [OF v(1) _ _ v(2) [unfolded CancelContinuationSchema_def]]
  have n: "get ''expectedVersion'' body = None \<or>
      (\<exists>w x. sp (ZNumber [IsInt, Positive, Safe]) (Some w) = Some x \<and> get ''expectedVersion'' body = x)"
    by (rule member) (simp_all add: js_inject del: js_simps)
  have t: "get ''reason'' body = None \<or>
      (\<exists>w x. sp (ZString [MaxLength 500]) (Some w) = Some x \<and> get ''reason'' body = x)"
    by (rule member) (simp_all add: js_inject del: js_simps)
  have "case xi_expectedVersion (cancel_body i body) of None \<Rightarrow> True | Some v \<Rightarrow> 0 < v \<and> safe_int v"
    using n version_of_number [of _ _ "''expectedVersion''" body] by (auto simp: cancel_body_def number)
  moreover have "case xi_reason (cancel_body i body) of None \<Rightarrow> True | Some t \<Rightarrow> length t \<le> 500"
    using t string_parse_max [of 500] by (fastforce simp: cancel_body_def opt_str_field_def string)
  ultimately show ?thesis using body_withinI [OF assms(3)] by (simp add: cancel_body_def)
qed

lemma plan_well_formed:
  assumes "he_parse env = sp" "body_ok_http c" "plan env opts ep c = Call req render"
  shows "request_ok req \<and> well_formed opts c req"
proof (cases ep)
  case CreateRoute
  then show ?thesis
    using assms create_body_ok [OF assms(1,2)] create_well_formed [OF assms(1,2)] by (auto simp: plan_Call)
next
  case (ResumeRoute i)
  then obtain input body where req: "req = ResumeReq input" "resume_request env opts i c = Inr input"
      "parseBody env opts ResumeContinuationSchema c = Inr body"
    using assms(3) by (auto simp: plan_Call resume_request_Inr)
  then show ?thesis
    using resume_payload [OF assms(1,2) req(3)] body_withinI [OF req(3)] resumeToken_Inr [of c i "ri_resumeToken input"]
    by (auto simp: resume_request_Inr idempotencyKey_Inr)
next
  case (CancelRoute i)
  then show ?thesis using assms cancel_well_formed [OF assms(1,2)] by (auto simp: plan_Call)
qed (use assms in \<open>auto simp: plan_Call\<close>)

end

section \<open>Answers\<close>

text \<open>The handler runs the request alone: what the service ends with, rendered.\<close>

lemma run_handle:
  "run ld ap P (handle env opts ttl ep c) w =
    (case plan env opts ep c of
       Immediate r \<Rightarrow> (Inr (settle env r), w)
     | Call req render \<Rightarrow>
         (case run ld ap P (serve ttl req) w of
            (Inl e, w') \<Rightarrow> (Inr (settle env (Inl (Failure e))), w')
          | (Inr r, w') \<Rightarrow> (Inr (settle env (render r)), w')))"
  by (simp add: handle_def route_plan bindH_def callH_def run_bindP run_catchP split: http_plan.split prod.split sum.split)

text \<open>
  The response to an HTTP request among the requests of a system of concurrent tasks: the request of
  the service it was decoded to has ended, and this is what it is answered with.
\<close>

definition http_answer ::
    "http_env \<Rightarrow> http_options \<Rightarrow> 's system \<Rightarrow> endpoint \<Rightarrow> http_request \<Rightarrow> http_response option \<Rightarrow> bool" where
  "http_answer env opts S ep c response \<longleftrightarrow>
     (case plan env opts ep c of
        Immediate r \<Rightarrow> response = settle env r
      | Call req render \<Rightarrow>
          (\<exists>r. finished S req r \<and> response = settle env (render r)) \<or>
          (\<exists>e. failed S req e \<and> response = settle env (Inl (Failure e))))"

lemma settle_Some:
  "settle env r = Some response \<longleftrightarrow>
    (case r of Inr x \<Rightarrow> response = x | Inl e \<Rightarrow> he_isError env e \<and> response = onError e)"
  by (auto simp: settle_def split: sum.splits)

lemma status_respond [simp]: "rs_status (respond n fs) = n" "rs_status (error_response n fs) = n"
  by (simp_all add: respond_def error_response_def)

lemma body_respond [simp]: "rs_body (respond n fs) = obj fs" "rs_body (error_response n fs) = obj [(''error'', obj fs)]"
  by (simp_all add: respond_def error_response_def)

lemma onError_status:
  "rs_status (onError e) =
    (case e of
       PayloadTooLargeError _ \<Rightarrow> 413
     | ZodErrorParsed _ \<Rightarrow> 400
     | ZodErrorMade _ \<Rightarrow> 400
     | ProtocolFailure pe \<Rightarrow> if pe_code pe = INVALID_PROTOCOL_TRANSITION then 409 else 400
     | Failure (PauseMeshError pe) \<Rightarrow> errorStatus pe
     | _ \<Rightarrow> 500)"
  by (cases e rule: onError.cases) (simp_all add: zod_response_def internal_error_def)

lemma errorStatus_range: "errorStatus e \<in> {400, 401, 404, 409, 410}"
  by (cases e) simp_all

text \<open>What is thrown before the service is asked is the fault of the request.\<close>

fun request_fault :: "thrown \<Rightarrow> bool" where
  "request_fault (PayloadTooLargeError _) = True"
| "request_fault (ZodErrorParsed _) = True"
| "request_fault (ZodErrorMade _) = True"
| "request_fault SyntaxError = True"
| "request_fault _ = False"

lemma request_fault_status: "request_fault e \<Longrightarrow> rs_status (onError e) \<in> {400, 413, 500}"
  by (cases e) (simp_all add: onError_status del: onError.simps)

lemma parseBody_Inl: "parseBody env opts schema c = Inl e \<Longrightarrow> request_fault e"
  by (auto simp: parseBody_def bindR_eq_Inl parse_or_eq readBoundedJson_def Let_def split: option.splits)

lemma idempotencyKey_Inl: "idempotencyKey c = Inl e \<Longrightarrow> request_fault e"
  by (auto simp: idempotencyKey_def Let_def bindR_eq_Inl split: option.splits)

lemma resume_request_Inl:
  "resume_request env opts i c = Inl e \<Longrightarrow> request_fault e \<or> resumeToken c i = Inl e"
  by (auto simp: resume_request_def bindR_eq_Inl dest: parseBody_Inl idempotencyKey_Inl)

section \<open>The resume route, in every interleaving\<close>

text \<open>
  What a resume over HTTP is answered with: nothing but a fault of the request, or what the service made
  of the decoded request.
\<close>

lemma resume_answer:
  assumes "http_answer env opts S (ResumeRoute i) c (Some response)"
  obtains (fault) e where "request_fault e" "response = onError e"
  | (token) e where "resumeToken c i = Inl e" "response = onError e" "rs_status response = 401"
  | (served) input s where "resume_request env opts i c = Inr input" "finished S (ResumeReq input) s"
      "response = show_envelope s"
  | (refused) input e where "resume_request env opts i c = Inr input" "failed S (ResumeReq input) e"
      "response = onError (Failure e)"
proof (cases "he_overLimit env (op_maxPayloadBytes opts) c")
  case True
  then show thesis
    using assms fault [of "PayloadTooLargeError (op_maxPayloadBytes opts)"]
    by (simp add: http_answer_def bounded_plan_def settle_def split: if_splits)
next
  case False
  show thesis
  proof (cases "resume_request env opts i c")
    case (Inl e)
    then have resp: "response = onError e"
      using assms False by (simp add: http_answer_def bounded_plan_def settle_def split: if_splits)
    show thesis
    proof (cases "request_fault e")
      case True
      then show thesis using resp by (rule fault)
    next
      case False
      then have "resumeToken c i = Inl e" using resume_request_Inl [OF Inl] by simp
      then show thesis using resp token resumeToken_Inl [of c i e] by (simp add: onError_status)
    qed
  next
    case (Inr input)
    then show thesis
      using assms False served refused
      by (auto simp: http_answer_def bounded_plan_def eq_commute [of "Some response"] settle_Some)
  qed
qed

text \<open>A domain error of a resume is true of the store, and stays true.\<close>

context event_store
begin

lemma failed_resume:
  assumes inv: "sys_inv h S" and fail: "failed S (ResumeReq i) (PauseMeshError e)"
  shows "case e of
      ContinuationNotFoundError _ \<Rightarrow> True
    | TokenMismatchError _ \<Rightarrow> \<exists>hash. created_hash load (sys_store S) (ri_continuationId i) hash \<and>
        \<not> tokenHashesEqual hash (h (ri_resumeToken i))
    | ContinuationExpiredError _ \<Rightarrow>
        \<exists>s. stored_state load (sys_store S) (ri_continuationId i) s \<and> env_status s = StExpired
    | ContinuationIdMismatchError _ _ \<Rightarrow> True
    | UnsupportedSchemaVersionError _ \<Rightarrow> False
    | InvalidTransitionError _ _ _ \<Rightarrow> False
    | _ \<Rightarrow> \<exists>s. stored_state load (sys_store S) (ri_continuationId i) s \<and> env_status s \<noteq> StPending"
proof -
  have good: "good (sys_store S)" using inv by (simp add: sys_inv_def)
  obtain H where H: "knows (sys_store S) H" "resume_error h i H (PauseMeshError e)"
    using failed_known [OF inv fail [unfolded failed_def]] by auto
  have closed: "stored_state load (sys_store S) (ri_continuationId i) s"
    if "snap H (ri_continuationId i) s" "env_status s \<noteq> StPending" for s
    by (rule stored_terminal [OF inv H(1) that])
  have hash: "created_hash load (sys_store S) (ri_continuationId i) hash" if "known_hash H (ri_continuationId i) hash" for hash
    using known_hash_current [OF H(1) that] load_stream [OF good] by (auto simp: created_hash_def)
  show ?thesis
  proof (cases e)
    case (TokenMismatchError d)
    then show ?thesis using H(2) hash by (auto simp: Let_def)
  next
    case (ContinuationExpiredError d)
    then obtain s where "snap H (ri_continuationId i) s" "env_status s = StExpired"
      using H(2) by (auto simp: Let_def)
    then show ?thesis using ContinuationExpiredError closed [of s] by auto
  next
    case (IdempotencyConflictError d)
    then obtain s at p where "snap H (ri_continuationId i) s" "env_state s = ResumedState at (ri_idempotencyKey i) p"
      using H(2) by (auto simp: Let_def)
    then show ?thesis using IdempotencyConflictError closed [of s] by (auto simp: env_status_def)
  qed (use H(2) in \<open>force simp: Let_def intro: closed\<close>)+
qed

text \<open>The response 200 is the rendered envelope of a resume that succeeded.\<close>

lemma http_resumed:
  assumes "sys_inv h S" "http_answer env opts S (ResumeRoute i) c (Some r)" "rs_status r = 200"
  obtains input s where "resume_request env opts i c = Inr input" "\<not> he_overLimit env (op_maxPayloadBytes opts) c"
    "resumed_by load h (sys_store S) input s" "r = show_envelope (EnvelopeResp s)"
proof -
  have limit: "\<not> he_overLimit env (op_maxPayloadBytes opts) c"
    using assms(2,3) by (auto simp: http_answer_def bounded_plan_def settle_def onError_status simp del: onError.simps split: if_splits)
  show thesis
  proof (rule resume_answer [OF assms(2)])
    fix e assume "request_fault e" "r = onError e"
    then show thesis using request_fault_status [of e] assms(3) by auto
  next
    fix input res
    assume input: "resume_request env opts i c = Inr input" and fin: "finished S (ResumeReq input) res"
      and r: "r = show_envelope res"
    obtain H where "response_ok h (ResumeReq input) H res"
      by (rule finished_known [OF assms(1) fin [unfolded finished_def]])
    then obtain s where s: "res = EnvelopeResp s" by (cases res) simp_all
    show thesis
      by (rule that [OF input limit finished_resume [OF assms(1) fin [unfolded s]]]) (simp add: r s)
  next
    fix input e assume "r = onError (Failure e)"
    then show thesis
      using assms(3) errorStatus_range [of "case e of PauseMeshError pe \<Rightarrow> pe"]
      by (cases e) (auto simp: onError_status simp del: onError.simps)
  qed (use assms(3) in simp)
qed

end

context reliable_event_store
begin

text \<open>The same request again, on any store that holds the resume: the same response, and nothing happens.\<close>

lemma http_resume_again:
  assumes "sys_inv h S" "http_answer env opts S (ResumeRoute i) c (Some r)" "rs_status r = 200"
    and "\<And>t. p_hash P t = Inr (h t)" "w_store w = sys_store S"
  shows "run load append P (handle env opts ttl (ResumeRoute i) c) w = (Inr (Some r), w)"
proof -
  obtain input s where input: "resume_request env opts i c = Inr input" "\<not> he_overLimit env (op_maxPayloadBytes opts) c"
    and res: "resumed_by load h (sys_store S) input s" and r: "r = show_envelope (EnvelopeResp s)"
    by (rule http_resumed [OF assms(1-3)])
  obtain at p hash where st: "stored_state load (sys_store S) (ri_continuationId input) s"
      "env_state s = ResumedState at (ri_idempotencyKey input) p" "canonicalJson p = canonicalJson (ri_resumePayload input)"
    and hash: "created_hash load (sys_store S) (ri_continuationId input) hash"
      "tokenHashesEqual hash (h (ri_resumeToken input))"
    using res by (auto simp: resumed_by_def)
  have good: "good (w_store w)" using assms(1,5) by (simp add: sys_inv_def)
  have "resolveCompletedResume s input = Inr (Some s)"
    using st(2,3) by (simp add: resolveCompletedResume_def)
  from resume_replayed [OF good _ _ assms(4) this, of hash] have "run load append P (resume input) w = (Inr s, w)"
    using st(1) hash assms(5) by simp
  then show ?thesis
    using input r by (simp add: run_handle bounded_plan_def run_bindP settle_def)
qed

end

end
