(* ===== verification/HttpProperties.thy ===== *)
theory HttpProperties
  imports HttpService ServiceProperties
begin

text \<open>
  The properties of the HTTP adapter over the service: what the responses to concurrent requests
  guarantee, that error statuses are true, and that the tokens of the issuer survive their way through
  a request.
\<close>

section \<open>The resume route\<close>

context zod
begin

lemmas service_refusal = in_memory.failed_resume [OF service_inv]

lemmas http_resume_again = in_memory.http_resume_again [OF service_inv]
lemmas http_resumed = in_memory.http_resumed [OF service_inv]

end

section \<open>A concrete exchange\<close>

text \<open>The resume of theory Scenario, as an HTTP request.\<close>

definition sample_body :: json where
  "sample_body = JObj [(js ''payload'', JStr (js ''answer''))]"

definition sample_http :: http_request where
  "sample_http =
     \<lparr>rq_header = [''authorization'' \<mapsto> js ''PauseMesh secret'', ''idempotency-key'' \<mapsto> js ''key''],
      rq_body = stringify sample_body\<rparr>"

definition sample_http_env :: http_env where
  "sample_http_env =
     \<lparr>he_parse = zod_ref, he_issues = \<lambda>s v. [], he_newURL = \<lambda>t. None, he_sha = sample_hash,
      he_overLimit = \<lambda>n c. n < int (length (rq_body c)), he_isError = \<lambda>e. True\<rparr>"

definition sample_http_options :: http_options where
  "sample_http_options =
     \<lparr>op_maxPayloadBytes = 65536, op_mcpProjectionPolicy = None, op_readinessProbe = None\<rparr>"

lemma sample_body_parse: "json_parse (stringify sample_body) = Some sample_body"
  by (rule json_parse_stringify [OF json_ok_wf]) (simp add: sample_body_def json_ok_obj js_obj_id)

lemma sample_body_length: "length (utf8 (stringify sample_body)) = 20" "length (stringify sample_body) = 20"
  by code_simp+

lemma sample_headers:
  "scheme_match (js ''PauseMesh secret'') = Some (js ''secret'')" "trim (js ''secret'') = js ''secret''"
  "trim (js ''key'') = js ''key''" "length (js ''key'') = 3" "js ''secret'' \<noteq> []"
  by code_simp+

lemma sample_resume_request:
  "resume_request sample_http_env sample_http_options (js ''c1'') sample_http = Inr sample_resume"
proof -
  have "parseBody sample_http_env sample_http_options ResumeContinuationSchema sample_http = Inr sample_body"
    using sample_body_parse sample_body_length
    by (simp add: parseBody_Inr readBoundedJson_Inr sample_http_def sample_http_options_def sample_http_env_def)
      (simp add: sample_body_def ResumeContinuationSchema_def object_parse_def extra_fields_def)
  moreover have "resumeToken sample_http (js ''c1'') = Inr (js ''secret'')"
    using sample_headers by (simp add: resumeToken_def sample_http_def Let_def del: js_simps)
  moreover have "idempotencyKey sample_http = Inr (js ''key'')"
    using sample_headers by (simp add: idempotencyKey_Inr sample_http_def del: js_simps)
  ultimately show ?thesis
    by (simp add: resume_request_def sample_resume_def) (simp add: sample_body_def json_field_def)
qed

lemma sample_plan:
  "plan sample_http_env sample_http_options (ResumeRoute (js ''c1'')) sample_http =
    Call (ResumeReq sample_resume) (\<lambda>r. Inr (show_envelope r))"
proof -
  have "\<not> he_overLimit sample_http_env (op_maxPayloadBytes sample_http_options) sample_http"
    using sample_body_length by (simp add: sample_http_env_def sample_http_options_def sample_http_def)
  then show ?thesis using sample_resume_request by (simp add: bounded_plan_def)
qed

definition sample_answer :: http_response where
  "sample_answer = show_envelope (EnvelopeResp resumed_env)"

lemma sample_answer_status: "rs_status sample_answer = 200"
  by (simp add: sample_answer_def show_envelope_def)

lemma sample_http_answer:
  "http_answer sample_http_env sample_http_options in_memory_run.sample_system (ResumeRoute (js ''c1'')) sample_http
    (Some sample_answer)"
  using sample_plan sample_finished
  by (auto simp: http_answer_def settle_def sample_answer_def simp del: plan.simps js_simps)

section \<open>Properties\<close>

text \<open>
  C33 Exactly once over HTTP: two requests to resume a continuation that are answered with 200, however
  they interleave with each other and with anything else, get the same response, which shows the
  resumed continuation as the store holds it; they carry the same idempotency key, and the token of
  each hashes to what the creation of the continuation recorded.
\<close>

theorem http_resume_exactly_once:
  assumes "zod sp" "service_reachable sp h ttl S"
    and "http_answer env opts S (ResumeRoute i) c (Some r)" "rs_status r = 200"
    and "http_answer env opts S (ResumeRoute i) d (Some q)" "rs_status q = 200"
  shows "r = q \<and> idempotencyKey c = idempotencyKey d \<and>
    (\<exists>s hash token. stored_state (in_memory_load sp) (sys_store S) i s \<and> env_status s = StResumed \<and>
      rs_body r = obj [(''continuation'', envelope_json s)] \<and>
      created_hash (in_memory_load sp) (sys_store S) i hash \<and> resumeToken c i = Inr token \<and>
      tokenHashesEqual hash (h token))"
proof -
  obtain input s where one: "resume_request env opts i c = Inr input"
      "resumed_by (in_memory_load sp) h (sys_store S) input s" "r = show_envelope (EnvelopeResp s)"
    by (rule zod.http_resumed [OF assms(1-4)])
  obtain input' t where two: "resume_request env opts i d = Inr input'"
      "resumed_by (in_memory_load sp) h (sys_store S) input' t" "q = show_envelope (EnvelopeResp t)"
    by (rule zod.http_resumed [OF assms(1,2,5,6)])
  have ids: "ri_continuationId input = i" "ri_continuationId input' = i"
    "idempotencyKey c = Inr (ri_idempotencyKey input)" "idempotencyKey d = Inr (ri_idempotencyKey input')"
    "resumeToken c i = Inr (ri_resumeToken input)"
    using one(1) two(1) by (auto simp: resume_request_Inr)
  show ?thesis
    using resumed_by_agree [OF one(2) two(2)] one(2,3) two(3) ids
    by (auto simp: resumed_by_def env_status_def show_envelope_def)
qed

theorem http_resume_exactly_once_witness:
  "\<exists>s. stored_state (in_memory_load zod_ref) (sys_store in_memory_run.sample_system) (js ''c1'') s \<and>
    env_status s = StResumed \<and> rs_body sample_answer = obj [(''continuation'', envelope_json s)]"
  using http_resume_exactly_once [OF sample_zod sample_service sample_http_answer sample_answer_status
    sample_http_answer sample_answer_status] by blast

text \<open>
  C35 The error statuses of the resume route are true of the store: 410 says the continuation is stored
  as expired, 409 that it is closed, and 401 that the request bears no token or one whose hash is not
  the recorded one; no other statuses occur than these, 200, 404 and the faults of a request or of the
  host.
\<close>

theorem http_refusals_are_true:
  assumes "zod sp" "service_reachable sp h ttl S" "http_answer env opts S (ResumeRoute i) c (Some r)"
  shows "rs_status r \<in> {200, 400, 401, 404, 409, 410, 413, 500} \<and>
    (rs_status r = 410 \<longrightarrow> (\<exists>s. stored_state (in_memory_load sp) (sys_store S) i s \<and> env_status s = StExpired)) \<and>
    (rs_status r = 409 \<longrightarrow> (\<exists>s. stored_state (in_memory_load sp) (sys_store S) i s \<and> env_status s \<noteq> StPending)) \<and>
    (rs_status r = 401 \<longrightarrow> (case resumeToken c i of
       Inl _ \<Rightarrow> True
     | Inr token \<Rightarrow> \<exists>hash. created_hash (in_memory_load sp) (sys_store S) i hash \<and>
         \<not> tokenHashesEqual hash (h token)))"
proof (rule resume_answer [OF assms(3)])
  fix e assume "request_fault e" "r = onError e"
  then show ?thesis using request_fault_status [of e] by auto
next
  fix e assume "resumeToken c i = Inl e" "rs_status r = 401"
  then show ?thesis by simp
next
  fix s assume "r = show_envelope s"
  then show ?thesis by (simp add: show_envelope_def)
next
  fix input e
  assume input: "resume_request env opts i c = Inr input" and fail: "failed S (ResumeReq input) e"
    and r: "r = onError (Failure e)"
  have ids: "ri_continuationId input = i" "resumeToken c i = Inr (ri_resumeToken input)"
    using input by (auto simp: resume_request_Inr)
  show ?thesis
  proof (cases e)
    case (PauseMeshError pe)
    then show ?thesis
      using zod.service_refusal [OF assms(1,2) fail [unfolded PauseMeshError]] ids r
      by (cases pe) (auto simp: onError_status simp del: onError.simps)
  qed (use r in \<open>simp_all add: onError_status del: onError.simps\<close>)
qed

theorem http_refusals_are_true_witness: "rs_status sample_answer \<in> {200, 400, 401, 404, 409, 410, 413, 500}"
  using http_refusals_are_true [OF sample_zod sample_service sample_http_answer] by blast

text \<open>
  C36 A client that retries always learns the outcome: after a request to resume was answered with 200,
  in whatever interleaving, the same request is answered with the same response at any later time, and
  changes nothing, not even when the continuation would have expired by then.
\<close>

theorem http_retry_is_answered:
  assumes "zod sp" "service_reachable sp h ttl S"
    and "http_answer env opts S (ResumeRoute i) c (Some r)" "rs_status r = 200"
    and "p_hash P = Inr \<circ> h" "w_store w = sys_store S"
  shows "run (in_memory_load sp) (in_memory_append sp) P (handle env opts ttl (ResumeRoute i) c) w = (Inr (Some r), w)"
  by (rule zod.http_resume_again [OF assms(1-4) _ assms(6)]) (simp add: assms(5))

theorem http_retry_is_answered_witness:
  "run (in_memory_load zod_ref) (in_memory_append zod_ref) sample_ports
      (handle sample_http_env sample_http_options 900000 (ResumeRoute (js ''c1'')) sample_http) in_memory_run.resumed_world =
    (Inr (Some sample_answer), in_memory_run.resumed_world)"
proof (rule http_retry_is_answered [OF sample_zod sample_service sample_http_answer sample_answer_status])
  show "p_hash sample_ports = Inr \<circ> sample_hash" by (simp add: sample_ports_def fun_eq_iff)
  show "w_store in_memory_run.resumed_world = sys_store in_memory_run.sample_system"
    by (simp add: in_memory_run.sample_system_def)
qed

text \<open>
  C37 A route decodes, serves and renders: it answers at once, without touching the service, or runs one
  operation of the service and renders its result; and whatever reaches the service is well formed, its
  JSON within the limit, its ids, key, token, version and reason within what the adapter promises.
\<close>

theorem http_requests_are_well_formed:
  assumes "zod (he_parse env)" "body_ok_http c"
  shows "case plan env opts ep c of
      Immediate r \<Rightarrow> handle env opts ttl ep c = Ret (settle env r)
    | Call req render \<Rightarrow>
        handle env opts ttl ep c = bindP (callH (serve ttl req)) (\<lambda>r. Ret (settle env (bindR r render))) \<and>
        request_ok req \<and> well_formed opts c req"
  using zod.plan_well_formed [OF assms(1) refl assms(2), of opts ep]
  by (auto simp: handle_def route_plan bindH_def bindR_def split: http_plan.split sum.split intro!: arg_cong [of _ _ "bindP _"])

theorem http_requests_are_well_formed_witness:
  "request_ok (ResumeReq sample_resume) \<and> well_formed sample_http_options sample_http (ResumeReq sample_resume)"
proof -
  have "zod (he_parse sample_http_env)" using sample_zod by (simp add: sample_http_env_def)
  moreover have "body_ok_http sample_http"
    using sample_body_parse by (auto simp: body_ok_http_def sample_http_def) (simp add: sample_body_def json_ok_obj js_obj_id)
  ultimately show ?thesis
    using http_requests_are_well_formed [of sample_http_env sample_http sample_http_options, where ep = "ResumeRoute (js ''c1'')"]
      sample_plan by (simp del: plan.simps well_formed.simps js_simps)
qed

section \<open>Tokens\<close>

text \<open>
  C38 The tokens of the issuer work: each has at least 22 characters, which survive their way through an
  \<open>Authorization\<close> header whatever the case of the scheme; its recorded hash equals the hash the service
  computes of it; and tokens of different random bytes, like their hashes, are different where the
  digest does not collide.
\<close>

theorem issued_tokens_work:
  assumes "sha256_issuer option = Inr n" "\<And>bytes. random n = Inr bytes \<Longrightarrow> int (length bytes) = n"
    and "\<And>bytes. length (sha256 bytes) = 32" "issue_token sha256 random n = Inr tok"
    and "map lower_ascii scheme = js ''pausemesh''" "rq_header c ''authorization'' = Some (scheme @ js '' '' @ it_token tok)"
  shows "22 \<le> length (it_token tok) \<and> resumeToken c i = Inr (it_token tok) \<and>
    tokenHashesEqual (it_tokenHash tok) (token_hash sha256 (it_token tok)) \<and>
    (\<forall>random' tok'. issue_token sha256 random' n = Inr tok' \<and> random' n \<noteq> random n \<and>
       inj_on sha256 {utf8 (it_token tok), utf8 (it_token tok')} \<longrightarrow>
         it_token tok \<noteq> it_token tok' \<and> it_tokenHash tok \<noteq> it_tokenHash tok')"
proof -
  obtain bytes where bytes: "random n = Inr bytes"
    and tok: "tok = \<lparr>it_token = base64url bytes, it_tokenHash = token_hash sha256 (base64url bytes)\<rparr>"
    using assms(4) by (auto simp: issue_token_Inr)
  have "16 \<le> n" by (rule sha256_issuer_Inr [OF assms(1)])
  then have "16 \<le> length bytes" using assms(2) [OF bytes] by simp
  then have len: "22 \<le> length (base64url bytes)" using length_base64url [of bytes] by simp
  have plain: "list_all (\<lambda>c. \<not> is_space c) (base64url bytes)"
    using base64url_plain [of bytes] by (simp add: list_all_iff)
  have "base64url bytes \<noteq> []" using len by auto
  note token = this plain
  have "trim (base64url bytes) = base64url bytes"
    using token by (simp add: trim_id_iff list_all_iff)
  then have "resumeToken c i = Inr (base64url bytes)"
    using scheme_match_token [OF assms(5) token] assms(6) token(1) by (simp add: resumeToken_def tok Let_def del: js_simps)
  moreover have "tokenHashesEqual (it_tokenHash tok) (token_hash sha256 (it_token tok))"
    using token_hash_hex [OF assms(3)] by (simp add: tok tokenHashesEqual_refl hex64_imp_hex64_i)
  moreover have "it_token tok \<noteq> it_token tok' \<and> it_tokenHash tok \<noteq> it_tokenHash tok'"
    if other: "issue_token sha256 random' n = Inr tok'" "random' n \<noteq> random n"
      "inj_on sha256 {utf8 (it_token tok), utf8 (it_token tok')}" for random' tok'
  proof -
    obtain bytes' where b: "random' n = Inr bytes'" "it_token tok' = base64url bytes'"
        "it_tokenHash tok' = token_hash sha256 (base64url bytes')"
      using other(1) by (auto simp: issue_token_Inr)
    have "bytes \<noteq> bytes'" using other(2) b(1) bytes by auto
    moreover have "inj_on sha256 {utf8 (base64url bytes), utf8 (base64url bytes')}" using other(3) b(2) by (simp add: tok)
    ultimately show ?thesis using token_hash_inject b by (simp add: tok base64url_inject)
  qed
  ultimately show ?thesis using len by (simp add: tok) blast
qed

theorem issued_tokens_work_witness:
  "resumeToken \<lparr>rq_header = [''authorization'' \<mapsto> js ''pausemesh'' @ js '' '' @ base64url (replicate 32 7)], rq_body = []\<rparr> (js ''c1'') =
    Inr (base64url (replicate 32 7))"
proof -
  let ?random = "\<lambda>n. Inr (replicate (nat n) 7) :: (failure, byte list) result"
  let ?sha = "\<lambda>bytes. replicate 32 (0 :: byte)"
  let ?tok = "\<lparr>it_token = base64url (replicate 32 7), it_tokenHash = token_hash ?sha (base64url (replicate 32 7))\<rparr>"
  have "sha256_issuer None = Inr 32" by (simp add: sha256_issuer_def num_less_def num_le_ints)
  moreover have "issue_token ?sha ?random 32 = Inr ?tok" by (simp add: issue_token_Inr)
  moreover have "map lower_ascii (js ''pausemesh'') = js ''pausemesh''" by code_simp
  ultimately show ?thesis
    using issued_tokens_work [of None 32 ?random ?sha ?tok "js ''pausemesh''"
        "\<lparr>rq_header = [''authorization'' \<mapsto> js ''pausemesh'' @ js '' '' @ base64url (replicate 32 7)], rq_body = []\<rparr>"]
    by (simp del: js_simps)
qed

section \<open>Faults of a client that are answered as faults of the server\<close>

text \<open>
  A body that is not JSON makes \<open>c.req.json()\<close> throw a \<open>SyntaxError\<close>, and a creation with an expiry
  in the past makes the service throw a \<open>RangeError\<close>; neither is known to \<open>onError\<close>, which answers 500.
\<close>

lemma malformed_body_is_internal_error:
  assumes "json_parse (rq_body c) = None" "rq_header c ''content-length'' = None"
    and "\<not> he_overLimit env (op_maxPayloadBytes opts) c" "he_isError env SyntaxError"
  shows "handle env opts ttl CreateRoute c = Ret (Some internal_error)"
  using assms
  by (simp add: handle_def boundedJsonBody_def parseBody_def readBoundedJson_def settle_def)

lemma past_expiry_is_internal_error:
  assumes "plan env opts CreateRoute c = Call (CreateReq i) render" "ci_expiresAt i = Some d"
    and "js_le (getTime d) (getTime (p_clock P (w_ticks w)))" "\<And>e. he_isError env e"
  shows "fst (run ld ap P (handle env opts ttl CreateRoute c) w) = Inr (Some internal_error)"
  using assms
  by (simp add: run_handle run_bindP run_Now create_def create_with_def settle_def split: option.split del: plan.simps)

end
