(* ===== verification/PgProgram.thy ===== *)
theory PgProgram
  imports Protocol
begin

text \<open>
  Programs over a PostgreSQL pool, as \<open>src/adapters/storage/postgres-event-store.ts\<close> writes them: an
  asynchronous function is a tree of its calls to the pool and to the client it has checked out, with
  the rest of the function as a function of the answer. A program has at most one client out at a time.
  \<open>run_pg\<close> executes a program alone; theory PostgresReplicas lets any number of them take turns between
  their statements.

  A statement is named by what its SQL text says; its arguments are the values the code binds.
\<close>

datatype pg_statement =
    BeginReadCommitted
  | Commit
  | Rollback
  | SelectStream jstr int \<comment> \<open>head and events of a stream, with the limit of events\<close>
  | SelectHead jstr
  | InsertStream jstr \<comment> \<open>version 0, \<open>ON CONFLICT DO NOTHING\<close>\<close>
  | FenceStream jstr int int \<comment> \<open>\<open>UPDATE\<close> of the head from one version to another\<close>
  | InsertEvents jstr "jstr list" "jstr list" \<comment> \<open>versions and event texts, unnested side by side\<close>
  | SelectMigrations
  | SelectSchemaObjects jstr
  | ProbeStreams
  | ProbeEvents
  | AdvisoryLock int int
  | CreateSchema
  | CreateMigrationTable
  | Execute jstr \<comment> \<open>a statement of the migration\<close>
  | InsertMigration int jstr jstr

text \<open>What \<open>release\<close> is given for a client that must not be used again: the error, or \<open>true\<close>.\<close>

datatype release_error = ReleaseError failure | ReleaseTrue

record pg_result =
  pr_rowCount :: "int option"
  pr_rows :: "json list"

datatype 'r pg_prog =
    PRet 'r
  | PFail failure
  | PoolQuery pg_statement "(failure, pg_result) result \<Rightarrow> 'r pg_prog"
  | Connect "(failure, unit) result \<Rightarrow> 'r pg_prog"
  | Query pg_statement "(failure, pg_result) result \<Rightarrow> 'r pg_prog"
  | Release "release_error option" "'r pg_prog"

primrec bindQ :: "'a pg_prog \<Rightarrow> ('a \<Rightarrow> 'b pg_prog) \<Rightarrow> 'b pg_prog" where
  "bindQ (PRet x) f = f x"
| "bindQ (PFail e) f = PFail e"
| "bindQ (PoolQuery s k) f = PoolQuery s (\<lambda>r. bindQ (k r) f)"
| "bindQ (Connect k) f = Connect (\<lambda>r. bindQ (k r) f)"
| "bindQ (Query s k) f = Query s (\<lambda>r. bindQ (k r) f)"
| "bindQ (Release e p) f = Release e (bindQ p f)"

primrec catchQ :: "'a pg_prog \<Rightarrow> (failure \<Rightarrow> 'a pg_prog) \<Rightarrow> 'a pg_prog" where
  "catchQ (PRet x) h = PRet x"
| "catchQ (PFail e) h = h e"
| "catchQ (PoolQuery s k) h = PoolQuery s (\<lambda>r. catchQ (k r) h)"
| "catchQ (Connect k) h = Connect (\<lambda>r. catchQ (k r) h)"
| "catchQ (Query s k) h = Query s (\<lambda>r. catchQ (k r) h)"
| "catchQ (Release e p) h = Release e (catchQ p h)"

definition liftQ :: "(failure, 'a) result \<Rightarrow> 'a pg_prog" where
  "liftQ r = (case r of Inl e \<Rightarrow> PFail e | Inr x \<Rightarrow> PRet x)"

lemma liftQ_simps [simp]: "liftQ (Inl e) = PFail e" "liftQ (Inr x) = PRet x"
  by (simp_all add: liftQ_def)

lemma bindQ_liftQ: "bindQ (liftQ r) f = (case r of Inl e \<Rightarrow> PFail e | Inr x \<Rightarrow> f x)"
  by (cases r) simp_all

text \<open>\<open>await pool.query(...)\<close>, \<open>await pool.connect()\<close>, \<open>await client.query(...)\<close>\<close>

abbreviation pool_query :: "pg_statement \<Rightarrow> pg_result pg_prog" where
  "pool_query s \<equiv> PoolQuery s liftQ"

abbreviation connect :: "unit pg_prog" where
  "connect \<equiv> Connect liftQ"

abbreviation query :: "pg_statement \<Rightarrow> pg_result pg_prog" where
  "query s \<equiv> Query s liftQ"

section \<open>A pool, and a program that runs alone\<close>

text \<open>
  \<open>'d\<close> is the state of the server and its connections. The client of a program is given by a number;
  \<open>pg_ready\<close> says whether a statement of a client would be answered now or waits for the lock of a row.
\<close>

record 'd pg =
  pg_pool :: "'d \<Rightarrow> pg_statement \<Rightarrow> (failure, pg_result) result"
  pg_connect :: "'d \<Rightarrow> nat \<Rightarrow> (failure, unit) result \<times> 'd"
  pg_ready :: "'d \<Rightarrow> nat \<Rightarrow> pg_statement \<Rightarrow> bool"
  pg_query :: "'d \<Rightarrow> nat \<Rightarrow> pg_statement \<Rightarrow> (failure, pg_result) result \<times> 'd"
  pg_release :: "'d \<Rightarrow> nat \<Rightarrow> release_error option \<Rightarrow> 'd"

primrec run_pg :: "'d pg \<Rightarrow> nat \<Rightarrow> 'r pg_prog \<Rightarrow> 'd \<Rightarrow> (failure, 'r) result \<times> 'd" where
  "run_pg db i (PRet x) d = (Inr x, d)"
| "run_pg db i (PFail e) d = (Inl e, d)"
| "run_pg db i (PoolQuery s k) d = run_pg db i (k (pg_pool db d s)) d"
| "run_pg db i (Connect k) d = (case pg_connect db d i of (r, d') \<Rightarrow> run_pg db i (k r) d')"
| "run_pg db i (Query s k) d = (case pg_query db d i s of (r, d') \<Rightarrow> run_pg db i (k r) d')"
| "run_pg db i (Release e p) d = run_pg db i p (pg_release db d i e)"

lemma run_bindQ:
  "run_pg db i (bindQ p f) d =
    (case run_pg db i p d of
       (Inl e, d') \<Rightarrow> (Inl e, d')
     | (Inr x, d') \<Rightarrow> run_pg db i (f x) d')"
  by (induction p arbitrary: d) (simp_all split: prod.split)

lemma run_catchQ:
  "run_pg db i (catchQ p h) d =
    (case run_pg db i p d of
       (Inl e, d') \<Rightarrow> run_pg db i (h e) d'
     | (Inr x, d') \<Rightarrow> (Inr x, d'))"
  by (induction p arbitrary: d) (simp_all split: prod.split)

lemma run_liftQ: "run_pg db i (liftQ r) d = (r, d)"
  by (cases r) simp_all

lemma run_query: "run_pg db i (query s) d = pg_query db d i s"
  by (simp add: run_liftQ split: prod.split)

lemmas run_pg_simps = run_bindQ run_catchQ run_liftQ run_query

end
