(* ===== verification/PostgresCommon.thy ===== *)
theory PostgresCommon
  imports PgProgram TokenIssuer
begin

text \<open>
  \<open>src/adapters/storage/postgres-event-store.ts\<close>, what the store and its migration share: the errors, the
  names of the schema, the reading of versions, and the transaction around the statements of a client.
  The operations of the store are in theory PostgresEventStore, the migration in PostgresMigration.

  The driver \<open>pg\<close> and the hash function are parameters: \<open>pe_isError\<close> says whether a value the driver
  throws is an \<open>Error\<close>, \<open>pe_sha256\<close> is the hash \<open>node:crypto\<close> computes.
\<close>

record pg_env =
  pe_isError :: "json \<Rightarrow> bool"
  pe_sha256 :: "byte list \<Rightarrow> byte list"

definition DEFAULT_SCHEMA :: jstr where
  "DEFAULT_SCHEMA = js ''pausemesh''"

definition DEFAULT_MAX_EVENTS_PER_STREAM :: int where
  "DEFAULT_MAX_EVENTS_PER_STREAM = 32"

definition POSTGRES_EVENT_STORE_SCHEMA_VERSION :: int where
  "POSTGRES_EVENT_STORE_SCHEMA_VERSION = 1"

section \<open>Errors\<close>

datatype pg_error_code =
    CORRUPT_STREAM
  | MIGRATION_CHECKSUM_MISMATCH
  | MIGRATION_REQUIRED
  | MIGRATION_VERSION_AHEAD
  | SCHEMA_INCOMPLETE
  | STREAM_TOO_LARGE

fun pg_code_str :: "pg_error_code \<Rightarrow> jstr" where
  "pg_code_str CORRUPT_STREAM = js ''CORRUPT_STREAM''"
| "pg_code_str MIGRATION_CHECKSUM_MISMATCH = js ''MIGRATION_CHECKSUM_MISMATCH''"
| "pg_code_str MIGRATION_REQUIRED = js ''MIGRATION_REQUIRED''"
| "pg_code_str MIGRATION_VERSION_AHEAD = js ''MIGRATION_VERSION_AHEAD''"
| "pg_code_str SCHEMA_INCOMPLETE = js ''SCHEMA_INCOMPLETE''"
| "pg_code_str STREAM_TOO_LARGE = js ''STREAM_TOO_LARGE''"

text \<open>
  The error class of the adapter. For the program above the store it is one of the errors a host may
  throw, so it is the value of a \<open>HostError\<close>: the object with its name, its code and its message.
\<close>

definition PostgresEventStoreError :: "pg_error_code \<Rightarrow> jstr \<Rightarrow> failure" where
  "PostgresEventStoreError code message = HostError (JObj
     [(js ''name'', JStr (js ''PostgresEventStoreError'')), (js ''code'', JStr (pg_code_str code)),
      (js ''message'', JStr message)])"

text \<open>An error of the driver or the server, as opposed to one of the adapter.\<close>

fun driver_failure :: "failure \<Rightarrow> bool" where
  "driver_failure (HostError j) \<longleftrightarrow> get ''name'' j \<noteq> Some (JStr (js ''PostgresEventStoreError''))"
| "driver_failure _ \<longleftrightarrow> False"

lemma adapter_error [simp]: "\<not> driver_failure (PostgresEventStoreError code m)"
  by (simp add: PostgresEventStoreError_def)

lemma adapter_error_host [simp]:
  "host_failure (PostgresEventStoreError code m)" "\<not> is_version_conflict (PostgresEventStoreError code m)"
  by (simp_all add: PostgresEventStoreError_def)

lemma driver_failure_host: "driver_failure e \<Longrightarrow> host_failure e"
  by (cases e) simp_all

section \<open>Names\<close>

text \<open>\<open>text.replaceAll(pattern, replacement)\<close>, for a pattern that is not empty and a replacement without \<open>$\<close>.\<close>

function replaceAll :: "jstr \<Rightarrow> jstr \<Rightarrow> jstr \<Rightarrow> jstr" where
  "replaceAll pat replacement [] = []"
| "replaceAll pat replacement (x # xs) =
     (if prefix pat (x # xs) then replacement @ replaceAll pat replacement (drop (length pat - 1) xs)
      else x # replaceAll pat replacement xs)"
  by pat_completeness auto
termination by (relation "measure (\<lambda>(p, r, s). length s)") auto

definition quoteIdentifier :: "jstr \<Rightarrow> jstr" where
  "quoteIdentifier identifier =
     js [CHR 0x22] @ replaceAll (js [CHR 0x22]) (js [CHR 0x22, CHR 0x22]) identifier @ js [CHR 0x22]"

definition is_letter :: "cu \<Rightarrow> bool" where
  "is_letter c \<longleftrightarrow> ch CHR ''A'' \<le> c \<and> c \<le> ch CHR ''Z'' \<or> ch CHR ''a'' \<le> c \<and> c \<le> ch CHR ''z''"

text \<open>\<open>/^[A-Za-z_][A-Za-z0-9_]{0,62}$/\<close>\<close>

fun SCHEMA_NAME_PATTERN :: "jstr \<Rightarrow> bool" where
  "SCHEMA_NAME_PATTERN [] = False"
| "SCHEMA_NAME_PATTERN (x # xs) =
     ((is_letter x \<or> x = ch CHR ''_'') \<and> length xs \<le> 62 \<and>
      list_all (\<lambda>c. is_letter c \<or> is_digit c \<or> c = ch CHR ''_'') xs)"

record schema_names =
  sn_migrationTable :: jstr
  sn_schema :: jstr
  sn_schemaSql :: jstr
  sn_streamsTable :: jstr
  sn_eventsTable :: jstr

definition schemaNames :: "jstr option \<Rightarrow> (failure, schema_names) result" where
  "schemaNames schemaOption =
     (let schema = (case schemaOption of None \<Rightarrow> DEFAULT_SCHEMA | Some s \<Rightarrow> s)
      in bindR (guardR (SCHEMA_NAME_PATTERN schema) (TypeError (js (''PostgreSQL schema must be a 1-63 character '' @
           ''ASCII identifier starting with a letter or underscore'')))) (\<lambda>_.
         let schemaSql = quoteIdentifier schema;
             table = (\<lambda>name. schemaSql @ js ''.'' @ js [CHR 0x22] @ js name @ js [CHR 0x22])
         in Inr
           \<lparr>sn_migrationTable = table ''pausemesh_schema_migrations'', sn_schema = schema,
            sn_schemaSql = schemaSql, sn_streamsTable = table ''continuation_streams'',
            sn_eventsTable = table ''continuation_events''\<rparr>))"

section \<open>Versions\<close>

text \<open>A field of a row, or \<open>undefined\<close>. The texts of the server are decimal digits.\<close>

definition parseDatabaseVersion :: "json option \<Rightarrow> string \<Rightarrow> (failure, int) result" where
  "parseDatabaseVersion v label =
     (let malformed = PostgresEventStoreError CORRUPT_STREAM (js (label @ '' is not an integer''));
          outside = PostgresEventStoreError CORRUPT_STREAM (js (label @ '' is outside the safe range''));
          checked = (\<lambda>parsed. bindR (guardR (is_safe_integer parsed \<and> \<not> num_less parsed (num_of_int 0)) outside)
            (\<lambda>_. Inr (int_of_num parsed)))
      in (case v of
            Some (JNum n) \<Rightarrow> checked n
          | Some (JStr s) \<Rightarrow>
              if s \<noteq> [] \<and> list_all is_digit s then checked (num_of_int (int (undec s))) else Inl malformed
          | _ \<Rightarrow> Inl malformed))"

definition validateExpectedVersion :: "int \<Rightarrow> nat \<Rightarrow> (failure, unit) result" where
  "validateExpectedVersion expectedVersion eventCount =
     bindR (guardR (safe_int expectedVersion \<and> \<not> expectedVersion < 0)
       (RangeError (js ''expectedVersion must be a non-negative safe integer''))) (\<lambda>_.
     guardR (safe_int (expectedVersion + int eventCount))
       (RangeError (js ''The appended stream version exceeds the safe integer range'')))"

definition actualVersionFromRows :: "json list \<Rightarrow> (failure, int) result" where
  "actualVersionFromRows rows =
     (case rows of
        [] \<Rightarrow> Inr 0
      | row # _ \<Rightarrow> parseDatabaseVersion (get ''current_version'' row) ''current_version'')"

section \<open>Transactions\<close>

fun is_error :: "pg_env \<Rightarrow> failure \<Rightarrow> bool" where
  "is_error env (HostError j) = pe_isError env j"
| "is_error env _ = True"

definition releaseFailure :: "pg_env \<Rightarrow> failure \<Rightarrow> release_error" where
  "releaseFailure env error = (if is_error env error then ReleaseError error else ReleaseTrue)"

text \<open>
  The rollback after a failure. That the error of a failed rollback is attached to the primary error, as a
  property that is not enumerable, is not part of the model.
\<close>

definition rollbackPreservingPrimaryError :: "pg_env \<Rightarrow> release_error option pg_prog" where
  "rollbackPreservingPrimaryError env =
     Query Rollback (\<lambda>r. case r of
        Inr _ \<Rightarrow> PRet None
      | Inl rollbackError \<Rightarrow> PRet (Some (releaseFailure env rollbackError)))"

text \<open>The \<open>try\<close>, \<open>catch\<close>, \<open>finally\<close> around the statements of a checked out client.\<close>

definition with_client :: "pg_env \<Rightarrow> unit pg_prog \<Rightarrow> unit pg_prog" where
  "with_client env body =
     bindQ (catchQ body (\<lambda>error.
         bindQ (rollbackPreservingPrimaryError env) (\<lambda>releaseError. Release releaseError (PFail error))))
       (\<lambda>_. Release None (PRet ()))"

end
