(* ===== verification/PostgresMigration.thy ===== *)
theory PostgresMigration
  imports PostgresCommon
begin

text \<open>
  The migration of \<open>src/adapters/storage/postgres-event-store.ts\<close>: its statements with their checksum, the
  checks of what a database holds, and the transaction that applies it. A replica checks the same before
  it is ready, and never migrates.
\<close>

section \<open>The statements\<close>

text \<open>A text of several lines.\<close>

definition lines :: "string list \<Rightarrow> jstr" where
  "lines ls = join (js [CHR 0x0A]) (map js ls)"

definition canonicalMigrationStatements :: \<open>jstr list\<close> where
  \<open>canonicalMigrationStatements =
     [lines
        [''CREATE TABLE {{schema}}."continuation_streams" ('',
         ''      continuation_id TEXT PRIMARY KEY,'',
         ''      current_version BIGINT NOT NULL CHECK ('',
         ''        current_version BETWEEN 0 AND 9007199254740991'',
         ''      )'',
         ''    )''],
      lines
        [''CREATE TABLE {{schema}}."continuation_events" ('',
         ''      continuation_id TEXT NOT NULL REFERENCES {{schema}}."continuation_streams" (continuation_id),'',
         ''      version BIGINT NOT NULL CHECK (version BETWEEN 1 AND 9007199254740991),'',
         ''      event_json TEXT NOT NULL CHECK (jsonb_typeof(event_json::jsonb) = \'object\'),'',
         ''      PRIMARY KEY (continuation_id, version)'',
         ''    )''],
      lines
        [''CREATE FUNCTION {{schema}}."pausemesh_reject_mutation"()'',
         ''      RETURNS trigger'',
         ''      LANGUAGE plpgsql'',
         ''      AS $$'',
         ''      BEGIN'',
         ''        RAISE EXCEPTION \'PauseMesh persistence is append-only\';'',
         ''      END;'',
         ''      $$''],
      lines
        [''CREATE TRIGGER pausemesh_events_no_update_delete'',
         ''      BEFORE UPDATE OR DELETE ON {{schema}}."continuation_events"'',
         ''      FOR EACH ROW EXECUTE FUNCTION {{schema}}."pausemesh_reject_mutation"()''],
      lines
        [''CREATE TRIGGER pausemesh_events_no_truncate'',
         ''      BEFORE TRUNCATE ON {{schema}}."continuation_events"'',
         ''      FOR EACH STATEMENT EXECUTE FUNCTION {{schema}}."pausemesh_reject_mutation"()''],
      lines
        [''CREATE TRIGGER pausemesh_streams_no_delete'',
         ''      BEFORE DELETE ON {{schema}}."continuation_streams"'',
         ''      FOR EACH ROW EXECUTE FUNCTION {{schema}}."pausemesh_reject_mutation"()''],
      lines
        [''CREATE TRIGGER pausemesh_streams_no_truncate'',
         ''      BEFORE TRUNCATE ON {{schema}}."continuation_streams"'',
         ''      FOR EACH STATEMENT EXECUTE FUNCTION {{schema}}."pausemesh_reject_mutation"()''],
      lines
        [''CREATE TRIGGER pausemesh_migrations_no_update_delete'',
         ''      BEFORE UPDATE OR DELETE ON {{schema}}."pausemesh_schema_migrations"'',
         ''      FOR EACH ROW EXECUTE FUNCTION {{schema}}."pausemesh_reject_mutation"()''],
      lines
        [''CREATE TRIGGER pausemesh_migrations_no_truncate'',
         ''      BEFORE TRUNCATE ON {{schema}}."pausemesh_schema_migrations"'',
         ''      FOR EACH STATEMENT EXECUTE FUNCTION {{schema}}."pausemesh_reject_mutation"()'']]\<close>

record migration =
  mg_version :: int
  mg_name :: jstr
  mg_checksum :: jstr
  mg_statements :: "jstr list"

definition migrationFor :: "pg_env \<Rightarrow> schema_names \<Rightarrow> migration" where
  "migrationFor env names =
     \<lparr>mg_version = POSTGRES_EVENT_STORE_SCHEMA_VERSION, mg_name = js ''postgres_multi_replica_event_store'',
      mg_checksum = hex_text (pe_sha256 env (utf8 (join (js '';'' @ js [CHR 0x0A]) canonicalMigrationStatements))),
      mg_statements = map (replaceAll (js ''{{schema}}'') (sn_schemaSql names)) canonicalMigrationStatements\<rparr>"

section \<open>The checks\<close>

text \<open>\<open>rows.find(row => test(parse(row.version)))\<close>, where reading the version of a row may throw.\<close>

fun find_version :: "(int \<Rightarrow> bool) \<Rightarrow> json list \<Rightarrow> (failure, json option) result" where
  "find_version test [] = Inr None"
| "find_version test (row # rows) =
     bindR (parseDatabaseVersion (get ''version'' row) ''migration version'') (\<lambda>v.
       if test v then Inr (Some row) else find_version test rows)"

definition requireMigrationRows :: "json list \<Rightarrow> migration \<Rightarrow> (failure, unit) result" where
  "requireMigrationRows rows migration =
     bindR (find_version (\<lambda>v. v > mg_version migration) rows) (\<lambda>future.
     bindR (guardR (future = None) (PostgresEventStoreError MIGRATION_VERSION_AHEAD
       (js ''PostgreSQL event-store schema is newer than this PauseMesh adapter''))) (\<lambda>_.
     bindR (find_version (\<lambda>v. v = mg_version migration) rows) (\<lambda>applied.
       (case applied of
          None \<Rightarrow> Inl (PostgresEventStoreError MIGRATION_REQUIRED
            (js ''PostgreSQL event-store migration is not applied''))
        | Some row \<Rightarrow>
            guardR (\<not> (get ''name'' row \<noteq> Some (JStr (mg_name migration)) \<or>
                get ''checksum'' row \<noteq> Some (JStr (mg_checksum migration))))
              (PostgresEventStoreError MIGRATION_CHECKSUM_MISMATCH
                (js ''PostgreSQL event-store migration checksum does not match the adapter''))))))"

text \<open>The functions that take a \<open>queryable\<close>: the pool itself, or the client of a transaction.\<close>

type_synonym queryable = "pg_statement \<Rightarrow> pg_result pg_prog"

definition readMigrationRows :: "queryable \<Rightarrow> json list pg_prog" where
  "readMigrationRows queryable = bindQ (queryable SelectMigrations) (\<lambda>result. PRet (pr_rows result))"

definition requireSchemaObjects :: "queryable \<Rightarrow> schema_names \<Rightarrow> unit pg_prog" where
  "requireSchemaObjects queryable names =
     bindQ (queryable (SelectSchemaObjects (sn_schema names))) (\<lambda>result.
       let row = (case pr_rows result of [] \<Rightarrow> None | r # _ \<Rightarrow> Some r);
           field = (\<lambda>k. case row of None \<Rightarrow> None | Some r \<Rightarrow> get k r);
           incomplete = PostgresEventStoreError SCHEMA_INCOMPLETE
             (js ''PostgreSQL event-store schema objects are incomplete'')
       in if field ''streams_exists'' \<noteq> Some (JBool True) \<or> field ''events_exists'' \<noteq> Some (JBool True) \<or>
             field ''migrations_exists'' \<noteq> Some (JBool True)
          then PFail incomplete
          else bindQ (liftQ (parseDatabaseVersion (field ''missing_trigger_count'') ''missing_trigger_count'')) (\<lambda>n.
            if n \<noteq> 0 then PFail incomplete
            else bindQ (queryable ProbeStreams) (\<lambda>_. bindQ (queryable ProbeEvents) (\<lambda>_. PRet ()))))"

section \<open>The migration\<close>

definition MIGRATION_LOCK_NAMESPACE :: int where
  "MIGRATION_LOCK_NAMESPACE = 1347566917"

definition MIGRATION_LOCK_KEY :: int where
  "MIGRATION_LOCK_KEY = 1"

text \<open>\<open>for (const statement of statements) await client.query(statement)\<close>\<close>

fun executeAll :: "jstr list \<Rightarrow> unit pg_prog" where
  "executeAll [] = PRet ()"
| "executeAll (statement # statements) = bindQ (query (Execute statement)) (\<lambda>_. executeAll statements)"

definition apply_or_check :: "migration \<Rightarrow> json list \<Rightarrow> unit pg_prog" where
  "apply_or_check migration before =
     bindQ (liftQ (find_version (\<lambda>v. v > mg_version migration) before)) (\<lambda>future.
       if future \<noteq> None then PFail (PostgresEventStoreError MIGRATION_VERSION_AHEAD
         (js ''PostgreSQL event-store schema is newer than this PauseMesh adapter''))
       else bindQ (liftQ (find_version (\<lambda>v. v = mg_version migration) before)) (\<lambda>existing.
         if existing \<noteq> None then liftQ (requireMigrationRows before migration)
         else bindQ (executeAll (mg_statements migration)) (\<lambda>_.
              bindQ (query (InsertMigration (mg_version migration) (mg_name migration) (mg_checksum migration)))
                (\<lambda>_. PRet ()))))"

definition migratePostgresEventStore :: "pg_env \<Rightarrow> jstr option \<Rightarrow> unit pg_prog" where
  "migratePostgresEventStore env schema =
     bindQ (liftQ (schemaNames schema)) (\<lambda>names.
       let migration = migrationFor env names
       in bindQ connect (\<lambda>_. with_client env
         (bindQ (query BeginReadCommitted) (\<lambda>_.
          bindQ (query (AdvisoryLock MIGRATION_LOCK_NAMESPACE MIGRATION_LOCK_KEY)) (\<lambda>_.
          bindQ (query CreateSchema) (\<lambda>_.
          bindQ (query CreateMigrationTable) (\<lambda>_.
          bindQ (readMigrationRows query) (\<lambda>before.
          bindQ (apply_or_check migration before) (\<lambda>_.
          bindQ (readMigrationRows query) (\<lambda>after.
          bindQ (liftQ (requireMigrationRows after migration)) (\<lambda>_.
          bindQ (requireSchemaObjects query names) (\<lambda>_.
          bindQ (query Commit) (\<lambda>_. PRet ())))))))))))))"

end
