(* ===== verification/PostgresEventStore.thy ===== *)
theory PostgresEventStore
  imports PostgresMigration InMemoryEventStore
begin

text \<open>
  \<open>src/adapters/storage/postgres-event-store.ts\<close>: the event store that several replicas share. Its
  operations are programs over a pool (theory PgProgram): \<open>load\<close> is one statement of the pool, \<open>append\<close> a
  transaction of a client that fences the head of the stream before it inserts the events.

  First what the operations do, then what a load guarantees whatever the server answers, and the
  \<open>safe\<close> discipline every append follows between its statements, on which theory PostgresReplicas rests.
\<close>

section \<open>The store\<close>

record pg_store =
  ps_maxEventsPerStream :: int
  ps_migration :: migration
  ps_names :: schema_names

text \<open>The constructor, with the options \<open>maxEventsPerStream\<close> and \<open>schema\<close>.\<close>

definition postgres_store :: "pg_env \<Rightarrow> jsnum option \<Rightarrow> jstr option \<Rightarrow> (failure, pg_store) result" where
  "postgres_store env maxOption schemaOption =
     (let maxEventsPerStream =
            (case maxOption of None \<Rightarrow> num_of_int DEFAULT_MAX_EVENTS_PER_STREAM | Some n \<Rightarrow> n)
      in bindR (guardR (is_safe_integer maxEventsPerStream \<and> num_less (num_of_int 0) maxEventsPerStream)
           (RangeError (js ''maxEventsPerStream must be a positive safe integer''))) (\<lambda>_.
         bindR (schemaNames schemaOption) (\<lambda>names.
         Inr \<lparr>ps_maxEventsPerStream = int_of_num maxEventsPerStream, ps_migration = migrationFor env names,
           ps_names = names\<rparr>)))"

definition stream_too_large :: "int \<Rightarrow> failure" where
  "stream_too_large limit = PostgresEventStoreError STREAM_TOO_LARGE
     (js ''Continuation stream exceeds the configured '' @ int_str limit @ js ''-event limit'')"

text \<open>A row of a load, with its position.\<close>

definition postgres_row :: "(schema \<Rightarrow> zparser) \<Rightarrow> jstr \<Rightarrow> json \<times> nat \<Rightarrow> (failure, event) result" where
  "postgres_row sp continuationId = (\<lambda>(row, index).
     let expectedVersion = int index + 1;
         corrupt = (\<lambda>m. PostgresEventStoreError CORRUPT_STREAM (js m))
     in bindR (parseDatabaseVersion (get ''version'' row) ''event version'') (\<lambda>storedVersion.
        bindR (guardR (storedVersion = expectedVersion)
          (corrupt ''Stored continuation stream contains a version gap'')) (\<lambda>_.
        (case get ''event_json'' row of
           Some (JStr s) \<Rightarrow>
             (case deserializeEvent sp s of
                Inl cause \<Rightarrow> Inl (corrupt ''Stored continuation event does not match the persistence contract'')
              | Inr event \<Rightarrow>
                  bindR (guardR (ev_continuationId event = continuationId)
                    (corrupt ''Stored continuation event belongs to a different stream'')) (\<lambda>_.
                  bindR (guardR (ev_version event = storedVersion)
                    (corrupt ''Stored continuation event embeds a different version'')) (\<lambda>_.
                  Inr event)))
         | _ \<Rightarrow> Inl (corrupt ''Stored continuation event is not a JSON text snapshot'')))))"

definition postgres_rows ::
    "(schema \<Rightarrow> zparser) \<Rightarrow> int \<Rightarrow> jstr \<Rightarrow> json list \<Rightarrow> (failure, event list) result" where
  "postgres_rows sp limit continuationId rows =
     (case rows of
        [] \<Rightarrow> Inr []
      | row # _ \<Rightarrow>
          bindR (parseDatabaseVersion (get ''current_version'' row) ''current_version'') (\<lambda>currentVersion.
          bindR (guardR (\<not> (currentVersion > limit \<or> int (length rows) > limit)) (stream_too_large limit)) (\<lambda>_.
          bindR (guardR (\<not> (currentVersion = 0 \<or> int (length rows) \<noteq> currentVersion))
            (PostgresEventStoreError CORRUPT_STREAM
              (js ''Continuation stream head does not match its event count''))) (\<lambda>_.
          mapR (postgres_row sp continuationId) (indexed rows)))))"

definition postgres_load :: "(schema \<Rightarrow> zparser) \<Rightarrow> pg_store \<Rightarrow> jstr \<Rightarrow> event list pg_prog" where
  "postgres_load sp st continuationId =
     bindQ (pool_query (SelectStream continuationId (ps_maxEventsPerStream st + 1))) (\<lambda>result.
       liftQ (postgres_rows sp (ps_maxEventsPerStream st) continuationId (pr_rows result)))"

text \<open>
  The statements of the \<open>try\<close> block of an append: the head of the stream is moved from the expected version
  to the next, and the events are inserted, or the version the stream is at is reported.
\<close>

definition report_conflict :: "jstr \<Rightarrow> int \<Rightarrow> unit pg_prog" where
  "report_conflict continuationId expectedVersion =
     bindQ (query (SelectHead continuationId)) (\<lambda>current.
     bindQ (liftQ (actualVersionFromRows (pr_rows current))) (\<lambda>actual.
     PFail (PauseMeshError (VersionConflictError continuationId expectedVersion actual))))"

definition insert_batch :: "jstr \<Rightarrow> int \<Rightarrow> jstr list \<Rightarrow> unit pg_prog" where
  "insert_batch continuationId expectedVersion serializedEvents =
     (let versions = map (\<lambda>(_, index). int_str (expectedVersion + int index + 1)) (indexed serializedEvents)
      in bindQ (query (InsertEvents continuationId versions serializedEvents)) (\<lambda>inserted.
           if pr_rowCount inserted \<noteq> Some (int (length serializedEvents)) then
             PFail (PostgresEventStoreError CORRUPT_STREAM
               (js ''PostgreSQL did not persist the complete continuation event batch''))
           else bindQ (query Commit) (\<lambda>_. PRet ())))"

definition append_statements :: "jstr \<Rightarrow> int \<Rightarrow> jstr list \<Rightarrow> unit pg_prog" where
  "append_statements continuationId expectedVersion serializedEvents =
     (let nextVersion = expectedVersion + int (length serializedEvents);
          fenced_batch = bindQ (query (FenceStream continuationId expectedVersion nextVersion)) (\<lambda>fenced.
            if pr_rowCount fenced \<noteq> Some 1 then report_conflict continuationId expectedVersion
            else insert_batch continuationId expectedVersion serializedEvents)
      in bindQ (query BeginReadCommitted) (\<lambda>_.
           if expectedVersion = 0 then bindQ (query (InsertStream continuationId)) (\<lambda>_. fenced_batch)
           else fenced_batch))"

definition postgres_append ::
    "(schema \<Rightarrow> zparser) \<Rightarrow> pg_env \<Rightarrow> pg_store \<Rightarrow> jstr \<Rightarrow> int \<Rightarrow> event list \<Rightarrow> unit pg_prog" where
  "postgres_append sp env st continuationId expectedVersion events =
     bindQ (liftQ (validateExpectedVersion expectedVersion (length events))) (\<lambda>_.
       if expectedVersion + int (length events) > ps_maxEventsPerStream st
       then PFail (stream_too_large (ps_maxEventsPerStream st))
       else bindQ (liftQ (serializeAppendBatch sp continuationId expectedVersion events)) (\<lambda>serializedEvents.
         if length serializedEvents = 0 then
           bindQ (pool_query (SelectHead continuationId)) (\<lambda>current.
           bindQ (liftQ (actualVersionFromRows (pr_rows current))) (\<lambda>actualVersion.
             if actualVersion \<noteq> expectedVersion
             then PFail (PauseMeshError (VersionConflictError continuationId expectedVersion actualVersion))
             else PRet ()))
         else
           bindQ connect (\<lambda>_.
             with_client env (append_statements continuationId expectedVersion serializedEvents))))"

definition postgres_checkReadiness :: "pg_store \<Rightarrow> unit pg_prog" where
  "postgres_checkReadiness st =
     bindQ (readMigrationRows (\<lambda>s. pool_query s)) (\<lambda>rows.
     bindQ (liftQ (requireMigrationRows rows (ps_migration st))) (\<lambda>_.
     requireSchemaObjects (\<lambda>s. pool_query s) (ps_names st)))"

section \<open>What a load guarantees, whatever the server answers\<close>

lemma postgres_row_Inr:
  assumes "postgres_row sp c (r, i) = Inr e"
  shows "ev_continuationId e = c \<and> ev_version e = int i + 1"
proof -
  obtain s where "get ''event_json'' r = Some (JStr s)"
    using assms by (fastforce simp: postgres_row_def bindR_eq_Inr split: option.splits json.splits)
  with assms show ?thesis
    by (cases "deserializeEvent sp s") (auto simp: postgres_row_def bindR_eq_Inr)
qed

lemma postgres_rows_Inr:
  assumes "postgres_rows sp limit c rows = Inr es"
  shows "numbered c 0 es" "length es = length rows" "rows = [] \<or> int (length rows) \<le> limit"
proof -
  have "numbered c 0 es \<and> length es = length rows \<and> (rows = [] \<or> int (length rows) \<le> limit)"
  proof (cases rows)
    case Nil
    then show ?thesis using assms by (simp add: postgres_rows_def)
  next
    case (Cons row rs)
    then have m: "mapR (postgres_row sp c) (indexed rows) = Inr es" and "int (length rows) \<le> limit"
      using assms by (auto simp: postgres_rows_def bindR_eq_Inr)
    moreover have "length es = length rows" using mapR_length [OF m] by simp
    moreover have "postgres_row sp c (rows ! i, i) = Inr (es ! i)" if "i < length es" for i
      using m that \<open>length es = length rows\<close>
      by (auto simp: mapR_Inr_iff list_all2_conv_all_nth indexed_nth)
    ultimately show ?thesis by (auto simp: numbered_def dest!: postgres_row_Inr)
  qed
  then show "numbered c 0 es" "length es = length rows" "rows = [] \<or> int (length rows) \<le> limit" by blast+
qed

end
