(* ===== verification/PostgresServer.thy ===== *)
theory PostgresServer
  imports PostgresEventStore
begin

text \<open>
  What the event store relies on of a PostgreSQL server, as the laws of the locale \<open>pg_server\<close>: statements
  act on the two tables, a transaction of \<open>READ COMMITTED\<close> sees what is committed and its own writes, the
  row it writes is locked until it ends, and its writes are applied as a whole or not at all. Any statement
  may fail; a \<open>COMMIT\<close> that fails may have been applied (the connection may break after the server has
  committed): \<open>doubtful\<close> says whether this can happen.

  The discipline every append keeps between its statements (\<open>safe\<close>) is proved of the program once; what it
  gives for a program that runs alone (\<open>pg_event_store\<close>, theory PostgresAlone) makes the store an \<open>event_store\<close>, what it gives for
  programs that take turns is theory PostgresReplicas.
\<close>

section \<open>Versions as the server writes them\<close>

lemma dec_times_10: "0 < m \<Longrightarrow> dec (m * 10) = dec m @ [digit 0]"
  by (simp add: dec.simps [of "m * 10"])

lemma dec_times_pow: "0 < n \<Longrightarrow> dec (n * 10 ^ k) = dec n @ zeros k"
proof (induction k)
  case (Suc k)
  have "dec (n * 10 ^ Suc k) = dec (n * 10 ^ k) @ [digit 0]"
    using dec_times_10 [of "n * 10 ^ k"] Suc.prems by (simp add: mult.commute mult.left_commute)
  then show ?case
    using Suc by (simp add: zeros_def digit_def replicate_append_same)
qed (simp add: zeros_def)

lemma int_str_dec:
  assumes "0 \<le> n" "n < 10 ^ 21"
  shows "int_str n = dec (nat n)"
proof (cases "n = 0")
  case True
  then show ?thesis by (simp add: int_str_def num_str_def num_of_int_def norm.simps dec_0 js_def)
next
  case False
  let ?x = "num_of_int n"
  have e: "0 \<le> expo ?x" using is_integer_num_of_int [of n] by (simp add: is_integer_def)
  have n: "mant ?x * 10 ^ nat (expo ?x) = n" using int_of_num_of_int [of n] by (simp add: int_of_num_def)
  then have m: "0 < mant ?x" using assms(1) False
    by (metis less_eq_int_code(1) linorder_not_less mult_le_0_iff nle_le zero_le_numeral zero_le_power)
  then have d: "dec (nat n) = dec (nat (mant ?x)) @ zeros (nat (expo ?x))"
    using dec_times_pow [of "nat (mant ?x)" "nat (expo ?x)"] n
    by (metis nat_mult_distrib nat_power_eq nat_numeral order_less_le zero_le_numeral zero_less_nat_eq)
  have "nat n < 10 ^ 21" using assms by (simp add: nat_less_iff)
  then have "length (dec (nat n)) \<le> 21" using length_dec_le [of 21] by simp
  then have "int (length (dec (nat (mant ?x)))) + expo ?x \<le> 21"
    using d e by (simp add: zeros_def)
  then show ?thesis
    using m e d by (simp add: int_str_def num_str_def digits_str_def Let_def)
qed

lemma parse_version_text:
  assumes "0 \<le> n" "safe_int n"
  shows "parseDatabaseVersion (Some (JStr (int_str n))) label = Inr n"
proof -
  have "n < 10 ^ 21" using assms(2) by (simp add: safe_int_def MAX_SAFE_INTEGER_def)
  then show ?thesis
    using assms by (simp add: parseDatabaseVersion_def int_str_dec dec_digits undec_dec num_less_def num_le_ints)
qed

section \<open>What a server holds\<close>

text \<open>The committed tables, and the writes of an open transaction.\<close>

record pg_tables =
  tb_heads :: "jstr \<Rightarrow> int option"
  tb_rows :: "jstr \<Rightarrow> (int \<times> jstr) list"

record pg_tx =
  tx_heads :: "jstr \<Rightarrow> int option"
  tx_events :: "jstr \<Rightarrow> (int \<times> jstr) list"

definition no_writes :: pg_tx where
  "no_writes = \<lparr>tx_heads = (\<lambda>_. None), tx_events = (\<lambda>_. [])\<rparr>"

text \<open>The head a transaction sees.\<close>

definition visible :: "pg_tables \<Rightarrow> pg_tx \<Rightarrow> jstr \<Rightarrow> int option" where
  "visible T t c = (case tx_heads t c of None \<Rightarrow> tb_heads T c | Some w \<Rightarrow> Some w)"

definition apply_tx :: "pg_tx \<Rightarrow> pg_tables \<Rightarrow> pg_tables" where
  "apply_tx t T = \<lparr>tb_heads = visible T t, tb_rows = (\<lambda>c. sort_key fst (tb_rows T c @ tx_events t c))\<rparr>"

text \<open>No other transaction has written the row of the stream.\<close>

definition unlocked :: "(nat \<Rightarrow> pg_tx option) \<Rightarrow> nat \<Rightarrow> jstr \<Rightarrow> bool" where
  "unlocked X k c \<longleftrightarrow> (\<forall>j t. j \<noteq> k \<longrightarrow> X j = Some t \<longrightarrow> tx_heads t c = None)"

text \<open>The rows the two queries answer with: versions as text, and a left join without events.\<close>

definition head_rows :: "int option \<Rightarrow> json list" where
  "head_rows h = (case h of None \<Rightarrow> [] | Some w \<Rightarrow> [JObj [(js ''current_version'', JStr (int_str w))]])"

definition stream_rows :: "int option \<Rightarrow> (int \<times> jstr) list \<Rightarrow> json list" where
  "stream_rows h rows =
     (case h of
        None \<Rightarrow> []
      | Some w \<Rightarrow>
          (let head = (js ''current_version'', JStr (int_str w))
           in if rows = [] then [JObj [head, (js ''version'', JNull), (js ''event_json'', JNull)]]
              else map (\<lambda>(v, t). JObj [head, (js ''version'', JStr (int_str v)), (js ''event_json'', JStr t)]) rows))"

locale pg_server =
  fixes db :: "'d pg"
    and data :: "'d \<Rightarrow> pg_tables"
    and tx :: "'d \<Rightarrow> nat \<Rightarrow> pg_tx option"
    and doubtful :: bool
  assumes pool_head: "pg_pool db d (SelectHead c) = Inr r \<Longrightarrow> pr_rows r = head_rows (tb_heads (data d) c)"
    and pool_stream: "pg_pool db d (SelectStream c n) = Inr r \<Longrightarrow>
      pr_rows r = stream_rows (tb_heads (data d) c) (take (nat n) (tb_rows (data d) c))"
    and pool_failed: "pg_pool db d s = Inl e \<Longrightarrow> driver_failure e"
    and connect: "pg_connect db d k = (a, d') \<Longrightarrow> data d' = data d \<and> tx d' = tx d"
    and connect_failed: "pg_connect db d k = (Inl e, d') \<Longrightarrow> driver_failure e"
    and begins: "tx d k = None \<Longrightarrow> pg_query db d k BeginReadCommitted = (Inr r, d') \<Longrightarrow>
      data d' = data d \<and> tx d' = (tx d)(k := Some no_writes)"
    and insert_stream: "tx d k = Some t \<Longrightarrow> pg_query db d k (InsertStream c) = (Inr r, d') \<Longrightarrow>
      visible (data d) t c = None \<longrightarrow> unlocked (tx d) k c \<Longrightarrow>
      data d' = data d \<and> tx d' = (tx d)(k := Some (if visible (data d) t c = None
        then t\<lparr>tx_heads := (tx_heads t)(c := Some 0)\<rparr> else t))"
    and fence: "tx d k = Some t \<Longrightarrow> pg_query db d k (FenceStream c v w) = (Inr r, d') \<Longrightarrow>
      visible (data d) t c = Some v \<longrightarrow> unlocked (tx d) k c \<Longrightarrow>
      data d' = data d \<and>
      (if visible (data d) t c = Some v
       then pr_rowCount r = Some 1 \<and> tx d' = (tx d)(k := Some (t\<lparr>tx_heads := (tx_heads t)(c := Some w)\<rparr>))
       else pr_rowCount r \<noteq> Some 1 \<and> tx d' = tx d)"
    and select_head: "tx d k = Some t \<Longrightarrow> pg_query db d k (SelectHead c) = (Inr r, d') \<Longrightarrow>
      data d' = data d \<and> tx d' = tx d \<and> pr_rows r = head_rows (visible (data d) t c)"
    and insert_events: "tx d k = Some t \<Longrightarrow> length ns = length ts \<Longrightarrow>
      pg_query db d k (InsertEvents c (map int_str ns) ts) = (Inr r, d') \<Longrightarrow>
      data d' = data d \<and> (\<exists>ms. subseq ms (zip ns ts) \<and> pr_rowCount r = Some (int (length ms)) \<and>
        tx d' = (tx d)(k := Some (t\<lparr>tx_events := (tx_events t)(c := tx_events t c @ ms)\<rparr>)))"
    and commit: "tx d k = Some t \<Longrightarrow> pg_query db d k Commit = (Inr r, d') \<Longrightarrow>
      data d' = apply_tx t (data d) \<and> tx d' = (tx d)(k := None)"
    and commit_failed: "tx d k = Some t \<Longrightarrow> pg_query db d k Commit = (Inl e, d') \<Longrightarrow>
      data d' = data d \<and> (tx d' = tx d \<or> tx d' = (tx d)(k := None)) \<or>
      doubtful \<and> data d' = apply_tx t (data d) \<and> tx d' = (tx d)(k := None)"
    and rollback: "pg_query db d k Rollback = (Inr r, d') \<Longrightarrow> data d' = data d \<and> tx d' = (tx d)(k := None)"
    and failed: "pg_query db d k s = (Inl e, d') \<Longrightarrow> driver_failure e"
    and failed_kept: "pg_query db d k s = (Inl e, d') \<Longrightarrow> s \<noteq> Commit \<Longrightarrow>
      data d' = data d \<and> (tx d' = tx d \<or> tx d' = (tx d)(k := None))"
    and release_data: "data (pg_release db d k x) = data d"
    and release_tx: "x \<noteq> None \<or> tx d k = None \<Longrightarrow> tx (pg_release db d k x) = (tx d)(k := None)"
    and ready_insert: "pg_ready db d k (InsertStream c) \<Longrightarrow> tx d k = Some t \<Longrightarrow>
      visible (data d) t c = None \<Longrightarrow> unlocked (tx d) k c"
    and ready_fence: "pg_ready db d k (FenceStream c v w) \<Longrightarrow> tx d k = Some t \<Longrightarrow>
      visible (data d) t c = Some v \<Longrightarrow> unlocked (tx d) k c"

section \<open>The discipline of an append\<close>

text \<open>
  Where an append is between two statements. A failing append has its transaction to roll back, and it
  may be that its \<open>COMMIT\<close> was applied all the same.
\<close>

datatype phase = PhIdle | PhBegun | PhExists | PhCreated | PhFenced | PhLoaded | PhFailing bool | PhDone

definition settled :: "bool \<Rightarrow> phase" where
  "settled applied = (if applied then PhDone else PhIdle)"

definition head_version :: "int option \<Rightarrow> int" where
  "head_version h = (case h of None \<Rightarrow> 0 | Some w \<Rightarrow> w)"

definition valid_head :: "int option \<Rightarrow> bool" where
  "valid_head h \<longleftrightarrow> 0 \<le> head_version h \<and> safe_int (head_version h)"

text \<open>
  Which statements an append of the texts \<open>ts\<close> to the continuation \<open>c\<close> at version \<open>v\<close> may issue in a phase,
  and where the answer may leave it. The heads it may be shown are those of \<open>seen\<close>.
\<close>

fun issues :: "jstr \<Rightarrow> int \<Rightarrow> jstr list \<Rightarrow> phase \<Rightarrow> pg_statement \<Rightarrow> bool" where
  "issues c v ts ph BeginReadCommitted \<longleftrightarrow> ph = PhIdle"
| "issues c v ts ph (InsertStream c') \<longleftrightarrow> c' = c \<and> v = 0 \<and> ph = PhBegun"
| "issues c v ts ph (FenceStream c' v' w) \<longleftrightarrow>
     c' = c \<and> v' = v \<and> w = v + int (length ts) \<and>
     (ph = PhBegun \<and> v \<noteq> 0 \<or> ph = PhExists \<or> ph = PhCreated)"
| "issues c v ts ph (SelectHead c') \<longleftrightarrow> c' = c \<and> (ph = PhBegun \<or> ph = PhExists)"
| "issues c v ts ph (InsertEvents c' vs ts') \<longleftrightarrow>
     c' = c \<and> vs = map (int_str \<circ> fst) (batch_rows v ts) \<and> ts' = ts \<and> ph = PhFenced"
| "issues c v ts ph Commit \<longleftrightarrow> ph = PhLoaded"
| "issues c v ts ph Rollback \<longleftrightarrow> ph = PhBegun \<or> ph = PhExists \<or> (\<exists>a. ph = PhFailing a)"
| "issues c v ts ph _ \<longleftrightarrow> False"

definition after_failure :: "bool \<Rightarrow> phase \<Rightarrow> pg_statement \<Rightarrow> phase set" where
  "after_failure doubtful ph s =
     (if s = Commit then {PhFailing a | a. a \<longrightarrow> doubtful} else {PhFailing (ph = PhFailing True)})"

fun after_answer ::
    "(int option \<Rightarrow> bool) \<Rightarrow> int \<Rightarrow> jstr list \<Rightarrow> phase \<Rightarrow> pg_statement \<Rightarrow> pg_result \<Rightarrow> phase set" where
  "after_answer seen v ts ph BeginReadCommitted r = {PhBegun}"
| "after_answer seen v ts ph (InsertStream c) r = {PhExists, PhCreated}"
| "after_answer seen v ts ph (FenceStream c v' w) r =
     (if pr_rowCount r = Some 1 then {PhFenced}
      else {p. p = ph \<and> ph \<noteq> PhCreated \<and> (\<exists>h. seen h \<and> head_version h \<noteq> v)})"
| "after_answer seen v ts ph (SelectHead c) r = {p. p = ph \<and> (\<exists>h. seen h \<and> pr_rows r = head_rows h)}"
| "after_answer seen v ts ph (InsertEvents c vs ts') r =
     (if pr_rowCount r = Some (int (length ts)) then {PhLoaded} else {PhFailing False})"
| "after_answer seen v ts ph Commit r = {PhDone}"
| "after_answer seen v ts ph Rollback r = {settled (ph = PhFailing True)}"
| "after_answer seen v ts ph _ r = {}"

definition after ::
    "bool \<Rightarrow> (int option \<Rightarrow> bool) \<Rightarrow> int \<Rightarrow> jstr list \<Rightarrow> phase \<Rightarrow> pg_statement \<Rightarrow> (failure, pg_result) result \<Rightarrow> phase set" where
  "after doubtful seen v ts ph s r =
     (case r of Inl e \<Rightarrow> (if driver_failure e then after_failure doubtful ph s else {})
      | Inr q \<Rightarrow> after_answer seen v ts ph s q)"

text \<open>
  A program keeps the discipline from a phase: whatever the answers are, it succeeds only when its batch is
  committed, it fails with an error \<open>Q\<close> allows or with one of the driver, and only the latter when the batch
  may have been committed.
\<close>

primrec safe ::
    "bool \<Rightarrow> (int option \<Rightarrow> bool) \<Rightarrow> (failure \<Rightarrow> bool) \<Rightarrow> jstr \<Rightarrow> int \<Rightarrow> jstr list \<Rightarrow> unit pg_prog \<Rightarrow> phase \<Rightarrow> bool" where
  "safe doubtful seen Q c v ts (PRet u) ph \<longleftrightarrow> ph = PhDone"
| "safe doubtful seen Q c v ts (PFail e) ph \<longleftrightarrow>
     ph = PhIdle \<and> (driver_failure e \<or> Q e) \<or> ph = PhDone \<and> driver_failure e \<and> doubtful"
| "safe doubtful seen Q c v ts (PoolQuery s k) ph \<longleftrightarrow> s = SelectHead c \<and> ts = [] \<and> ph = PhIdle \<and>
     (\<forall>e. driver_failure e \<longrightarrow> safe doubtful seen Q c v ts (k (Inl e)) PhIdle) \<and>
     (\<forall>r h. seen h \<and> pr_rows r = head_rows h \<longrightarrow>
        safe doubtful seen Q c v ts (k (Inr r)) (settled (head_version h = v)))"
| "safe doubtful seen Q c v ts (Connect k) ph \<longleftrightarrow> ph = PhIdle \<and> safe doubtful seen Q c v ts (k (Inr ())) PhIdle \<and>
     (\<forall>e. driver_failure e \<longrightarrow> safe doubtful seen Q c v ts (k (Inl e)) PhIdle)"
| "safe doubtful seen Q c v ts (Query s k) ph \<longleftrightarrow> ts \<noteq> [] \<and> issues c v ts ph s \<and>
     (\<forall>r. \<forall>ph' \<in> after doubtful seen v ts ph s r. safe doubtful seen Q c v ts (k r) ph')"
| "safe doubtful seen Q c v ts (Release e p) ph \<longleftrightarrow>
     (case ph of
        PhIdle \<Rightarrow> safe doubtful seen Q c v ts p PhIdle
      | PhDone \<Rightarrow> safe doubtful seen Q c v ts p PhDone
      | PhFailing a \<Rightarrow> e \<noteq> None \<and> safe doubtful seen Q c v ts p (settled a)
      | _ \<Rightarrow> False)"


section \<open>Every append keeps it\<close>

definition incomplete_batch :: failure where
  "incomplete_batch = PostgresEventStoreError CORRUPT_STREAM
     (js ''PostgreSQL did not persist the complete continuation event batch'')"

text \<open>The errors of the transaction that are not of the driver.\<close>

definition turned_down :: "(int option \<Rightarrow> bool) \<Rightarrow> jstr \<Rightarrow> int \<Rightarrow> failure \<Rightarrow> bool" where
  "turned_down seen c v e \<longleftrightarrow>
     e = incomplete_batch \<or>
     (\<exists>h. seen h \<and> e = PauseMeshError (VersionConflictError c v (head_version h))) \<and>
     (\<exists>h. seen h \<and> head_version h \<noteq> v)"

lemma head_rows_read:
  assumes "valid_head h"
  shows "actualVersionFromRows (head_rows h) = Inr (head_version h)"
  using assms parse_version_text
  by (cases h) (auto simp: actualVersionFromRows_def head_rows_def head_version_def valid_head_def)

text \<open>After a failure: the transaction is rolled back, or the client is discarded.\<close>

lemma safe_abort:
  assumes "ph = PhBegun \<or> ph = PhExists \<or> (\<exists>a. ph = PhFailing a)"
    and "driver_failure e \<or> ph \<noteq> PhFailing True \<and> Q e" "ph = PhFailing True \<Longrightarrow> doubtful" "ts \<noteq> []"
  shows "safe doubtful seen Q c v ts (with_client env (PFail e)) ph"
  using assms
  by (auto simp: with_client_def rollbackPreservingPrimaryError_def after_def after_failure_def settled_def split: sum.splits if_splits)

lemma safe_query:
  assumes "ts \<noteq> []" "issues c v ts ph s" "s \<noteq> Rollback" "ph = PhFailing True \<Longrightarrow> doubtful"
    and "\<And>q ph'. ph' \<in> after_answer seen v ts ph s q \<Longrightarrow> safe doubtful seen Q c v ts (with_client env (f q)) ph'"
  shows "safe doubtful seen Q c v ts (with_client env (bindQ (query s) f)) ph"
proof -
  have "safe doubtful seen Q c v ts (with_client env (PFail e)) ph'" if "driver_failure e" "ph' \<in> after_failure doubtful ph s" for e ph'
    using that assms(1,4) by (intro safe_abort) (auto simp: after_failure_def split: if_splits)
  then show ?thesis
    using assms by (auto simp: with_client_def after_def split: sum.splits if_splits)
qed

lemma safe_statements:
  assumes "ts \<noteq> []" "\<And>h. seen h \<Longrightarrow> valid_head h"
  shows "safe doubtful seen (turned_down seen c v) c v ts (with_client env (append_statements c v ts)) PhIdle"
proof -
  let ?safe = "\<lambda>p. safe doubtful seen (turned_down seen c v) c v ts (with_client env p)"
  let ?fenced = "bindQ (query (FenceStream c v (v + int (length ts)))) (\<lambda>fenced.
    if pr_rowCount fenced \<noteq> Some 1 then report_conflict c v else insert_batch c v ts)"
  have vs: "map (\<lambda>(_, index). int_str (v + int index + 1)) (indexed ts) = map (int_str \<circ> fst) (batch_rows v ts)"
    by (simp add: batch_rows_def case_prod_unfold)
  have finish: "?safe (bindQ (query Commit) (\<lambda>_. PRet ())) PhLoaded"
    by (rule safe_query) (use assms(1) in \<open>auto simp: with_client_def\<close>)
  have insert: "?safe (insert_batch c v ts) PhFenced"
    unfolding insert_batch_def Let_def vs
    by (rule safe_query)
      (use assms(1) finish in \<open>auto simp: turned_down_def incomplete_batch_def intro!: safe_abort split: if_splits\<close>)
  have conflict: "?safe (report_conflict c v) ph"
    if "ph = PhBegun \<or> ph = PhExists" "\<exists>h. seen h \<and> head_version h \<noteq> v" for ph
    unfolding report_conflict_def
    by (rule safe_query)
      (use assms that in \<open>auto simp: head_rows_read turned_down_def intro!: safe_abort, blast+\<close>)
  have fence: "?safe ?fenced ph" if "ph = PhBegun \<and> v \<noteq> 0 \<or> ph = PhExists \<or> ph = PhCreated" for ph
    by (rule safe_query) (use assms that insert conflict in \<open>auto split: if_splits\<close>)
  have first: "?safe (bindQ (query (InsertStream c)) (\<lambda>_. ?fenced)) PhBegun" if "v = 0"
    by (rule safe_query) (use assms that fence in auto)
  show ?thesis
    unfolding append_statements_def Let_def
    by (rule safe_query) (use assms first fence in auto)
qed


text \<open>What is checked before the first statement, and with it the whole append.\<close>

definition append_checks ::
    "(schema \<Rightarrow> zparser) \<Rightarrow> int \<Rightarrow> jstr \<Rightarrow> int \<Rightarrow> event list \<Rightarrow> (failure, jstr list) result" where
  "append_checks sp limit c v es =
     bindR (validateExpectedVersion v (length es)) (\<lambda>_.
     bindR (guardR (\<not> v + int (length es) > limit) (stream_too_large limit)) (\<lambda>_.
     serializeAppendBatch sp c v es))"

definition append_refused ::
    "(schema \<Rightarrow> zparser) \<Rightarrow> int \<Rightarrow> (int option \<Rightarrow> bool) \<Rightarrow> jstr \<Rightarrow> int \<Rightarrow> event list \<Rightarrow> failure \<Rightarrow> bool" where
  "append_refused sp limit seen c v es e \<longleftrightarrow>
     append_checks sp limit c v es = Inl e \<or>
     (\<exists>ts. append_checks sp limit c v es = Inr ts) \<and> turned_down seen c v e"

definition batch_texts :: "event list \<Rightarrow> jstr list" where
  "batch_texts es = map (stringify \<circ> event_json) es"

lemma batch_texts_simps [simp]: "length (batch_texts es) = length es" "batch_texts es = [] \<longleftrightarrow> es = []"
  by (simp_all add: batch_texts_def)

lemma postgres_append_checks:
  "postgres_append sp env st c v es =
    bindQ (liftQ (append_checks sp (ps_maxEventsPerStream st) c v es)) (\<lambda>ts.
      if length ts = 0 then
        bindQ (pool_query (SelectHead c)) (\<lambda>current.
        bindQ (liftQ (actualVersionFromRows (pr_rows current))) (\<lambda>actualVersion.
          if actualVersion \<noteq> v then PFail (PauseMeshError (VersionConflictError c v actualVersion))
          else PRet ()))
      else bindQ connect (\<lambda>_. with_client env (append_statements c v ts)))"
  by (cases "validateExpectedVersion v (length es)")
    (simp_all add: postgres_append_def append_checks_def)

lemma safe_mono: "safe doubtful seen Q c v ts p ph \<Longrightarrow> (\<And>e. Q e \<Longrightarrow> Q' e) \<Longrightarrow> safe doubtful seen Q' c v ts p ph"
proof (induction p arbitrary: ph)
  case (Release x p)
  then show ?case by (cases ph) auto
qed auto

lemma safe_append:
  assumes checks: "append_checks sp (ps_maxEventsPerStream st) c v es = Inr ts" and valid: "\<And>h. seen h \<Longrightarrow> valid_head h"
  shows "safe doubtful seen (append_refused sp (ps_maxEventsPerStream st) seen c v es) c v ts
    (postgres_append sp env st c v es) PhIdle"
proof -
  have "safe doubtful seen (turned_down seen c v) c v ts (postgres_append sp env st c v es) PhIdle"
  proof (cases "ts = []")
    case True
    then show ?thesis
      using checks valid by (auto simp: postgres_append_checks head_rows_read turned_down_def settled_def)
  next
    case False
    then show ?thesis
      using checks safe_statements [OF False valid] by (auto simp: postgres_append_checks)
  qed
  then show ?thesis
    by (rule safe_mono) (use checks in \<open>auto simp: append_refused_def\<close>)
qed

context zod
begin

lemma append_checks_Inr:
  assumes "events_ok es"
  shows "append_checks sp limit c v es = Inr ts \<longleftrightarrow>
    (0 \<le> v \<and> safe_int v \<and> safe_int (v + int (length es)) \<and> v + int (length es) \<le> limit) \<and>
    numbered c v es \<and> list_all (storable sp) es \<and> ts = batch_texts es"
  using serialize_iff [OF assms, of c v ts]
  by (auto simp: append_checks_def validateExpectedVersion_def bindR_eq_Inr bindR_guardR batch_texts_def split: if_splits)

end

section \<open>Between two statements\<close>

text \<open>The transaction of an append before its \<open>COMMIT\<close>, and the tables with the batch applied.\<close>

definition fenced_tx :: "jstr \<Rightarrow> int \<Rightarrow> jstr list \<Rightarrow> pg_tx" where
  "fenced_tx c v ts = \<lparr>tx_heads = (\<lambda>_. None)(c := Some (v + int (length ts))), tx_events = (\<lambda>_. [])\<rparr>"

definition loaded_tx :: "jstr \<Rightarrow> int \<Rightarrow> jstr list \<Rightarrow> pg_tx" where
  "loaded_tx c v ts = \<lparr>tx_heads = (\<lambda>_. None)(c := Some (v + int (length ts))),
     tx_events = (\<lambda>_. [])(c := batch_rows v ts)\<rparr>"

definition with_batch :: "jstr \<Rightarrow> int \<Rightarrow> jstr list \<Rightarrow> pg_tables \<Rightarrow> pg_tables" where
  "with_batch c v ts T = (if ts = [] then T else apply_tx (loaded_tx c v ts) T)"

text \<open>What the transaction of an append holds in each phase, and what its lock makes sure of.\<close>

fun phase_ok :: "jstr \<Rightarrow> int \<Rightarrow> jstr list \<Rightarrow> pg_tables \<Rightarrow> phase \<Rightarrow> pg_tx option \<Rightarrow> bool" where
  "phase_ok c v ts T PhIdle t \<longleftrightarrow> t = None"
| "phase_ok c v ts T PhBegun t \<longleftrightarrow> t = Some no_writes"
| "phase_ok c v ts T PhExists t \<longleftrightarrow> t = Some no_writes \<and> tb_heads T c \<noteq> None"
| "phase_ok c v ts T PhCreated t \<longleftrightarrow>
     v = 0 \<and> tb_heads T c = None \<and> t = Some (no_writes\<lparr>tx_heads := (\<lambda>_. None)(c := Some 0)\<rparr>)"
| "phase_ok c v ts T PhFenced t \<longleftrightarrow> head_version (tb_heads T c) = v \<and> t = Some (fenced_tx c v ts)"
| "phase_ok c v ts T PhLoaded t \<longleftrightarrow> head_version (tb_heads T c) = v \<and> t = Some (loaded_tx c v ts)"
| "phase_ok c v ts T (PhFailing a) t \<longleftrightarrow> (\<forall>u. t = Some u \<longrightarrow> (\<forall>d. d \<noteq> c \<longrightarrow> tx_heads u d = None))"
| "phase_ok c v ts T PhDone t \<longleftrightarrow> t = None"

fun applied :: "phase \<Rightarrow> bool" where
  "applied PhDone = True"
| "applied (PhFailing a) = a"
| "applied _ = False"

lemma applied_settled [simp]: "applied (settled a) = a" "phase_ok c v ts T (settled a) t = (t = None)"
  by (simp_all add: settled_def)

definition exclusive :: "(nat \<Rightarrow> pg_tx option) \<Rightarrow> bool" where
  "exclusive X \<longleftrightarrow>
     (\<forall>i j t u c. X i = Some t \<longrightarrow> X j = Some u \<longrightarrow> tx_heads t c \<noteq> None \<longrightarrow> tx_heads u c \<noteq> None \<longrightarrow> i = j)"

lemma exclusive_update:
  assumes "exclusive X"
    and "\<And>u d. t = Some u \<Longrightarrow> tx_heads u d \<noteq> None \<Longrightarrow>
      (\<exists>u'. X k = Some u' \<and> tx_heads u' d \<noteq> None) \<or> unlocked X k d"
  shows "exclusive (X(k := t))"
  using assms unfolding exclusive_def unlocked_def by (metis fun_upd_apply option.distinct(1))

lemmas tx_defs = no_writes_def fenced_tx_def loaded_tx_def

context pg_server
begin

definition lock_free :: "'d \<Rightarrow> nat \<Rightarrow> pg_statement \<Rightarrow> bool" where
  "lock_free d k s \<longleftrightarrow> (\<forall>t. tx d k = Some t \<longrightarrow>
     (\<forall>c. s = InsertStream c \<longrightarrow> visible (data d) t c = None \<longrightarrow> unlocked (tx d) k c) \<and>
     (\<forall>c v w. s = FenceStream c v w \<longrightarrow> visible (data d) t c = Some v \<longrightarrow> unlocked (tx d) k c))"

lemma ready_lock_free: "pg_ready db d k s \<Longrightarrow> lock_free d k s"
  unfolding lock_free_def using ready_insert ready_fence by blast

text \<open>What a statement of an append does: to the phase it is in, to the tables, to the locks.\<close>

definition statement_moves :: "(int option \<Rightarrow> bool) \<Rightarrow> jstr \<Rightarrow> int \<Rightarrow> jstr list \<Rightarrow> nat \<Rightarrow> pg_statement \<Rightarrow>
    (failure, pg_result) result \<Rightarrow> 'd \<Rightarrow> phase \<Rightarrow> 'd \<Rightarrow> phase \<Rightarrow> bool" where
  "statement_moves seen c v ts k s r d ph d' ph' \<longleftrightarrow>
     ph' \<in> after doubtful seen v ts ph s r \<and> tx d' = (tx d)(k := tx d' k) \<and>
     phase_ok c v ts (data d') ph' (tx d' k) \<and> exclusive (tx d') \<and>
     (data d' = data d \<and> applied ph' = applied ph \<or>
      data d' = with_batch c v ts (data d) \<and> head_version (tb_heads (data d) c) = v \<and> ph = PhLoaded \<and> applied ph')"

lemmas move_defs = statement_moves_def after_def after_failure_def

lemma step_failed:
  assumes at: "phase_ok c v ts (data d) ph (tx d k)" and excl: "exclusive (tx d)" and ts: "ts \<noteq> []"
    and s: "issues c v ts ph s" and q: "pg_query db d k s = (Inl e, d')"
  shows "\<exists>ph'. statement_moves seen c v ts k s (Inl e) d ph d' ph'"
proof -
  have e: "driver_failure e" using failed [OF q] .
  have excl': "exclusive ((tx d)(k := None))" by (rule exclusive_update [OF excl]) simp
  show ?thesis
  proof (cases "s = Commit")
    case True
    then have t: "tx d k = Some (loaded_tx c v ts)" and v: "head_version (tb_heads (data d) c) = v"
      and ph: "ph = PhLoaded" using at s by auto
    from commit_failed [OF t q [unfolded True]] show ?thesis
    proof
      assume same: "data d' = data d \<and> (tx d' = tx d \<or> tx d' = (tx d)(k := None))"
      then have "statement_moves seen c v ts k s (Inl e) d ph d' (PhFailing False)"
        using True e excl excl' t ph by (auto simp: move_defs loaded_tx_def)
      then show ?thesis by blast
    next
      assume "doubtful \<and> data d' = apply_tx (loaded_tx c v ts) (data d) \<and> tx d' = (tx d)(k := None)"
      then have "statement_moves seen c v ts k s (Inl e) d ph d' (PhFailing True)"
        unfolding statement_moves_def
        using True e excl' ph v ts by (auto simp: after_def after_failure_def with_batch_def)
      then show ?thesis by blast
    qed
  next
    case False
    have "\<forall>u. tx d k = Some u \<longrightarrow> (\<forall>d. d \<noteq> c \<longrightarrow> tx_heads u d = None)"
      using at by (cases ph) (auto simp: tx_defs)
    moreover have "applied ph = (ph = PhFailing True)" using s at by (cases s; cases ph) auto
    ultimately have "statement_moves seen c v ts k s (Inl e) d ph d' (PhFailing (ph = PhFailing True))"
      using failed_kept [OF q False] False e excl excl' by (auto simp: move_defs)
    then show ?thesis by blast
  qed
qed

lemma step_fence:
  assumes at: "phase_ok c v ts (data d) ph (tx d k)" and excl: "exclusive (tx d)"
    and head: "seen (tb_heads (data d) c)" and free: "lock_free d k s"
    and s: "s = FenceStream c v (v + int (length ts))" and ph: "ph = PhBegun \<and> v \<noteq> 0 \<or> ph = PhExists \<or> ph = PhCreated"
    and q: "pg_query db d k s = (Inr r, d')"
  shows "\<exists>ph'. statement_moves seen c v ts k s (Inr r) d ph d' ph'"
proof -
  obtain t where t: "tx d k = Some t"
    and th: "t = no_writes \<and> ph \<noteq> PhCreated \<or> ph = PhCreated \<and> t = no_writes\<lparr>tx_heads := (\<lambda>_. None)(c := Some 0)\<rparr>"
    using ph at by (auto simp: no_writes_def)
  have u: "visible (data d) t c = Some v \<longrightarrow> unlocked (tx d) k c"
    using free t s by (simp add: lock_free_def)
  note f = fence [OF t q [unfolded s] u]
  have vis: "visible (data d) t c = (if ph = PhCreated then Some 0 else tb_heads (data d) c)"
    using th by (auto simp: visible_def no_writes_def)
  show ?thesis
  proof (cases "visible (data d) t c = Some v")
    case True
    then have "head_version (tb_heads (data d) c) = v"
      using vis ph at by (auto simp: head_version_def split: if_splits)
    then have "statement_moves seen c v ts k s (Inr r) d ph d' PhFenced"
      using f True th u t s ph excl
      by (auto simp: move_defs tx_defs intro!: exclusive_update split: if_splits)
    then show ?thesis by blast
  next
    case False
    have "head_version (tb_heads (data d) c) \<noteq> v" "ph \<noteq> PhCreated"
      using False vis ph at by (auto simp: head_version_def split: if_splits option.splits)
    then have "statement_moves seen c v ts k s (Inr r) d ph d' ph"
      using f False s at excl head t by (auto simp: move_defs)
    then show ?thesis by blast
  qed
qed

lemma step_insert_events:
  assumes at: "phase_ok c v ts (data d) PhFenced (tx d k)" and excl: "exclusive (tx d)"
    and s: "s = InsertEvents c (map (int_str \<circ> fst) (batch_rows v ts)) ts" and q: "pg_query db d k s = (Inr r, d')"
  shows "\<exists>ph'. statement_moves seen c v ts k s (Inr r) d PhFenced d' ph'"
proof -
  have t: "tx d k = Some (fenced_tx c v ts)" and v: "head_version (tb_heads (data d) c) = v" using at by auto
  have z: "zip (map fst (batch_rows v ts)) ts = batch_rows v ts"
    by (intro nth_equalityI) (auto simp: batch_rows_def indexed_nth)
  have len: "length (map fst (batch_rows v ts)) = length ts" by (simp add: batch_rows_def)
  obtain ms where ms: "subseq ms (batch_rows v ts)" "pr_rowCount r = Some (int (length ms))" "data d' = data d"
      "tx d' = (tx d)(k := Some (fenced_tx c v ts\<lparr>tx_events := (tx_events (fenced_tx c v ts))
        (c := tx_events (fenced_tx c v ts) c @ ms)\<rparr>))"
    using insert_events [OF t len, of c r d'] q [unfolded s] unfolding z by (auto simp: comp_def)
  show ?thesis
  proof (cases "length ms = length ts")
    case True
    then have "ms = batch_rows v ts" using ms(1) subseq_same_length len by fastforce
    then have "statement_moves seen c v ts k s (Inr r) d PhFenced d' PhLoaded"
      using True ms t v s excl by (auto simp: move_defs tx_defs intro!: exclusive_update)
    then show ?thesis by blast
  next
    case False
    then have "statement_moves seen c v ts k s (Inr r) d PhFenced d' (PhFailing False)"
      using ms t s excl by (auto simp: move_defs tx_defs intro!: exclusive_update)
    then show ?thesis by blast
  qed
qed

lemma step_insert_stream:
  assumes at: "phase_ok c 0 ts (data d) PhBegun (tx d k)" and excl: "exclusive (tx d)"
    and free: "lock_free d k s" and s: "s = InsertStream c" and q: "pg_query db d k s = (Inr r, d')"
  shows "\<exists>ph'. statement_moves seen c 0 ts k s (Inr r) d PhBegun d' ph'"
proof -
  have t: "tx d k = Some no_writes" using at by simp
  have vis: "visible (data d) no_writes c = tb_heads (data d) c" by (simp add: visible_def no_writes_def)
  have u: "visible (data d) no_writes c = None \<longrightarrow> unlocked (tx d) k c"
    using free t s by (simp add: lock_free_def)
  note i = insert_stream [OF t q [unfolded s] u]
  show ?thesis
  proof (cases "tb_heads (data d) c = None")
    case True
    then have "statement_moves seen c 0 ts k s (Inr r) d PhBegun d' PhCreated"
      using i vis u s excl
      by (auto simp: move_defs no_writes_def intro!: exclusive_update split: if_splits)
    then show ?thesis by blast
  next
    case False
    then have "statement_moves seen c 0 ts k s (Inr r) d PhBegun d' PhExists"
      using i vis s excl t by (auto simp: move_defs intro!: exclusive_update)
    then show ?thesis by blast
  qed
qed

lemma step_answered:
  assumes at: "phase_ok c v ts (data d) ph (tx d k)" and excl: "exclusive (tx d)" and ts: "ts \<noteq> []"
    and head: "\<not> applied ph \<Longrightarrow> seen (tb_heads (data d) c)" and free: "lock_free d k s"
    and s: "issues c v ts ph s" and q: "pg_query db d k s = (Inr r, d')"
  shows "\<exists>ph'. statement_moves seen c v ts k s (Inr r) d ph d' ph'"
proof (cases s)
  case BeginReadCommitted
  then have "statement_moves seen c v ts k s (Inr r) d ph d' PhBegun"
    using s at excl begins [of d k r d'] q by (auto simp: move_defs no_writes_def intro!: exclusive_update)
  then show ?thesis by blast
next
  case (InsertStream c')
  then show ?thesis using step_insert_stream [OF _ excl free _ q, of c ts seen] s at by auto
next
  case (FenceStream c' v' w)
  then show ?thesis using step_fence [OF at excl _ free _ _ q, of seen] s head by auto
next
  case (SelectHead c')
  then have c': "c' = c" and ph: "ph = PhBegun \<or> ph = PhExists" and t: "tx d k = Some no_writes" using s at by auto
  then have "statement_moves seen c v ts k s (Inr r) d ph d' ph"
    using select_head [OF t q [unfolded SelectHead]] head SelectHead excl at t
    by (auto simp: move_defs visible_def no_writes_def)
  then show ?thesis by blast
next
  case (InsertEvents c' vs ts')
  then show ?thesis using step_insert_events [OF _ excl _ q, of c v ts seen] s at by auto
next
  case Commit
  then have t: "tx d k = Some (loaded_tx c v ts)" and v: "head_version (tb_heads (data d) c) = v"
    and ph: "ph = PhLoaded" using at s by auto
  have "statement_moves seen c v ts k s (Inr r) d ph d' PhDone"
    using commit [OF t q [unfolded Commit]] Commit ph v excl ts
    by (auto simp: move_defs with_batch_def intro!: exclusive_update)
  then show ?thesis by blast
next
  case Rollback
  then have "statement_moves seen c v ts k s (Inr r) d ph d' (settled (ph = PhFailing True))"
    using rollback [OF q [unfolded Rollback]] s excl
    by (auto simp: move_defs settled_def intro!: exclusive_update)
  then show ?thesis by blast
qed (use s in simp_all)

lemma statement_step:
  assumes "phase_ok c v ts (data d) ph (tx d k)" "exclusive (tx d)" "ts \<noteq> []"
    and "\<not> applied ph \<Longrightarrow> seen (tb_heads (data d) c)" "lock_free d k s"
    and "issues c v ts ph s" "pg_query db d k s = (r, d')"
  shows "\<exists>ph'. statement_moves seen c v ts k s r d ph d' ph'"
  using step_failed [OF assms(1-3,6), of _ d' seen] step_answered [OF assms(1-3) _ assms(5,6), of seen] assms(4,7)
  by (cases r) auto

end

end
