(* ===== verification/PostgresAlone.thy ===== *)
theory PostgresAlone
  imports PostgresServer
begin

text \<open>
  An operation of the PostgreSQL store that runs alone: an append adds its whole batch at the expected
  version or leaves the tables as they were, and a load returns the stream the tables hold, or fails because
  the server does. A \<open>COMMIT\<close> that fails may have been applied all the same; then the batch was added as a
  whole. So the store is an \<open>event_store\<close>, as the service and the other adapters know it. \<open>pg_ref\<close> is such a
  server.
\<close>

section \<open>Streams in the tables\<close>

definition tables_hold :: "(schema \<Rightarrow> zparser) \<Rightarrow> int \<Rightarrow> pg_tables \<Rightarrow> (jstr \<Rightarrow> event list) \<Rightarrow> bool" where
  "tables_hold sp limit T F \<longleftrightarrow>
     (\<forall>c. stored sp c (F c) \<and> int (length (F c)) \<le> limit \<and> tb_rows T c = map event_row (F c) \<and>
        tb_heads T c = (if F c = [] then None else Some (int (length (F c)))))"

lemma hold_head:
  assumes "tables_hold sp limit T F"
  shows "head_version (tb_heads T c) = int (length (F c))" "safe_int limit \<Longrightarrow> valid_head (tb_heads T c)"
  using assms unfolding tables_hold_def valid_head_def head_version_def safe_int_def by (auto split: if_splits)

lemma hold_safe: "tables_hold sp limit T F \<Longrightarrow> safe_int limit \<Longrightarrow> safe_int (int (length (F c)))"
  unfolding tables_hold_def safe_int_def by (metis abs_of_nat abs_ge_self order.trans)

lemma stored_sorted: "stored sp c es \<Longrightarrow> sort_key fst (map event_row es) = map event_row es"
  by (rule sort_key_id_if_sorted)
    (auto simp: sorted_iff_nth_mono event_row_def stored_def numbered_def)

text \<open>A batch that passed the checks of an append.\<close>

definition batch_ok :: "(schema \<Rightarrow> zparser) \<Rightarrow> int \<Rightarrow> jstr \<Rightarrow> int \<Rightarrow> event list \<Rightarrow> bool" where
  "batch_ok sp limit c v es \<longleftrightarrow> events_ok es \<and> numbered c v es \<and> list_all (storable sp) es \<and>
     v + int (length es) \<le> limit \<and> 0 \<le> v"

lemma with_batch_hold:
  assumes "tables_hold sp limit T F" "batch_ok sp limit c v es" "v = int (length (F c))"
  shows "tables_hold sp limit (with_batch c v (batch_texts es) T) (F(c := F c @ es))"
proof (cases "es = []")
  case True
  then show ?thesis using assms(1) by (simp add: with_batch_def)
next
  case False
  have rows: "batch_rows v (batch_texts es) = map event_row es"
    using assms(2) batch_event_rows unfolding batch_ok_def batch_texts_def by blast
  have st: "stored sp e (F e)" for e using assms(1) by (simp add: tables_hold_def)
  have new: "stored sp c (F c @ es)"
    using st [of c] assms(2,3) by (simp add: stored_def numbered_append batch_ok_def)
  show ?thesis
    using assms False st new stored_sorted [OF new] stored_sorted [OF st] rows
    by (auto simp: tables_hold_def with_batch_def loaded_tx_def apply_tx_def visible_def batch_ok_def)
qed

context zod
begin

lemma checked_batch:
  "events_ok es \<Longrightarrow> append_checks sp limit c v es = Inr ts \<Longrightarrow> batch_ok sp limit c v es \<and> ts = batch_texts es"
  using append_checks_Inr by (auto simp: batch_ok_def)

end

section \<open>A program that runs alone\<close>

context pg_server
begin

definition alone :: "jstr \<Rightarrow> int \<Rightarrow> jstr list \<Rightarrow> pg_tables \<Rightarrow> nat \<Rightarrow> 'd \<Rightarrow> phase \<Rightarrow> bool" where
  "alone c v ts T k d ph \<longleftrightarrow>
     data d = (if applied ph then with_batch c v ts T else T) \<and> phase_ok c v ts (data d) ph (tx d k) \<and>
     (\<forall>j. j \<noteq> k \<longrightarrow> tx d j = None) \<and> (applied ph \<longrightarrow> head_version (tb_heads T c) = v)"

lemma alone_settled: "alone c v ts T k d (settled a) \<longleftrightarrow>
    data d = (if a then with_batch c v ts T else T) \<and> (\<forall>j. tx d j = None) \<and>
    (a \<longrightarrow> head_version (tb_heads T c) = v)"
  unfolding alone_def by (cases a) (simp_all, metis+)

lemma alone_exclusive: "alone c v ts T k d ph \<Longrightarrow> exclusive (tx d)"
  unfolding alone_def exclusive_def by (metis option.distinct(1))

lemma alone_query:
  assumes "alone c v ts T k d ph" "ts \<noteq> []" "issues c v ts ph s" "pg_query db d k s = (r, d')"
  shows "\<exists>ph' \<in> after doubtful ((=) (tb_heads T c)) v ts ph s r. alone c v ts T k d' ph'"
proof -
  have a: "phase_ok c v ts (data d) ph (tx d k)" "\<forall>j. j \<noteq> k \<longrightarrow> tx d j = None"
    using assms(1) unfolding alone_def by blast+
  have free: "lock_free d k s" using a(2) by (auto simp: lock_free_def unlocked_def)
  have seen: "\<not> applied ph \<Longrightarrow> tb_heads T c = tb_heads (data d) c" using assms(1) by (simp add: alone_def)
  obtain ph' where m: "statement_moves ((=) (tb_heads T c)) c v ts k s r d ph d' ph'"
    using statement_step [where seen = "(=) (tb_heads T c)", OF a(1) alone_exclusive [OF assms(1)] assms(2) seen free assms(3,4)] by blast
  have "tx d' j = None" if "j \<noteq> k" for j
    using m a(2) that unfolding statement_moves_def by (metis fun_upd_other)
  then have "alone c v ts T k d' ph'"
    using m assms(1) by (auto simp: statement_moves_def alone_def)
  then show ?thesis using m by (auto simp: statement_moves_def)
qed

lemma run_safe:
  assumes "safe doubtful ((=) (tb_heads T c)) Q c v ts p ph" "alone c v ts T k d ph" "run_pg db k p d = (r, d')"
  shows "\<exists>a. alone c v ts T k d' (settled a) \<and> (case r of Inr _ \<Rightarrow> a
    | Inl e \<Rightarrow> (driver_failure e \<or> Q e) \<and> (a \<longrightarrow> driver_failure e \<and> doubtful))"
  using assms
proof (induction p arbitrary: ph d)
  case (PRet u)
  then show ?case by (intro exI [of _ True]) (auto simp: settled_def)
next
  case (PFail e)
  then show ?case by (intro exI [of _ "applied ph"]) (auto simp: settled_def)
next
  case (PoolQuery s f)
  then have ts: "ts = []" and ph: "ph = PhIdle" and s: "s = SelectHead c" by auto
  show ?case
  proof (cases "pg_pool db d s")
    case (Inl e)
    then have "safe doubtful ((=) (tb_heads T c)) Q c v ts (f (Inl e)) PhIdle"
      using PoolQuery.prems(1) pool_failed [OF Inl] by (simp add: ts)
    then show ?thesis using PoolQuery.IH [OF rangeI] PoolQuery.prems(2,3) Inl ph by simp
  next
    case (Inr q)
    have "data d = T" using PoolQuery.prems(2) ph by (simp add: alone_def)
    then have "pr_rows q = head_rows (tb_heads T c)" using pool_head Inr s by blast
    then have "safe doubtful ((=) (tb_heads T c)) Q c v ts (f (Inr q)) (settled (head_version (tb_heads T c) = v))"
      using PoolQuery.prems(1) by (simp add: ts)
    moreover have "alone c v ts T k d (settled (head_version (tb_heads T c) = v))"
      using PoolQuery.prems(2) ph ts by (auto simp: alone_def alone_settled with_batch_def)
    ultimately show ?thesis using PoolQuery.IH [OF rangeI] PoolQuery.prems(3) Inr by simp
  qed
next
  case (Connect f)
  obtain a d1 where con: "pg_connect db d k = (a, d1)" by (cases "pg_connect db d k")
  have ph: "ph = PhIdle" using Connect.prems(1) by simp
  have "safe doubtful ((=) (tb_heads T c)) Q c v ts (f a) PhIdle"
    using Connect.prems(1) con connect_failed by (cases a) auto
  moreover have "alone c v ts T k d1 PhIdle"
    using Connect.prems(2) connect [OF con] ph by (simp add: alone_def)
  ultimately show ?case using Connect.IH [OF rangeI] Connect.prems(3) con by simp
next
  case (Query s f)
  obtain a d1 where q: "pg_query db d k s = (a, d1)" by (cases "pg_query db d k s")
  have "ts \<noteq> []" "issues c v ts ph s" using Query.prems(1) by auto
  from alone_query [OF Query.prems(2) this q]
  obtain ph' where "ph' \<in> after doubtful ((=) (tb_heads T c)) v ts ph s a" "alone c v ts T k d1 ph'" by blast
  then show ?case using Query.IH [OF rangeI, of a ph' d1] Query.prems(1,3) q by simp
next
  case (Release x p)
  define a where "a = applied ph"
  have s: "safe doubtful ((=) (tb_heads T c)) Q c v ts p (settled a)" and x: "x \<noteq> None \<or> tx d k = None"
    using Release.prems(1,2) unfolding a_def by (cases ph; auto simp: settled_def alone_def)+
  have "alone c v ts T k (pg_release db d k x) (settled a)"
    using Release.prems(2) release_tx [OF x] by (auto simp: alone_settled alone_def release_data a_def)
  then show ?case using Release.IH [OF s] Release.prems(3) by simp
qed

text \<open>An append that runs alone, on every branch.\<close>

lemma append_runs:
  assumes idle: "\<forall>j. tx d j = None" and valid: "valid_head (tb_heads (data d) c)"
    and run: "run_pg db k (postgres_append sp env st c v es) d = (r, d')"
  shows "(\<forall>j. tx d' j = None) \<and> (case r of
      Inr _ \<Rightarrow> (\<exists>ts. append_checks sp (ps_maxEventsPerStream st) c v es = Inr ts \<and>
        data d' = with_batch c v ts (data d) \<and> head_version (tb_heads (data d) c) = v)
    | Inl e \<Rightarrow> (data d' = data d \<and>
          (driver_failure e \<or> append_refused sp (ps_maxEventsPerStream st) ((=) (tb_heads (data d) c)) c v es e) \<or>
        doubtful \<and> driver_failure e \<and> head_version (tb_heads (data d) c) = v \<and>
          (\<exists>ts. append_checks sp (ps_maxEventsPerStream st) c v es = Inr ts \<and> data d' = with_batch c v ts (data d))))"
proof (cases "append_checks sp (ps_maxEventsPerStream st) c v es")
  case (Inl e)
  then have "r = Inl e" "d' = d" using run by (simp_all add: postgres_append_checks)
  then show ?thesis using idle Inl by (simp add: append_refused_def)
next
  case (Inr ts)
  have "safe doubtful ((=) (tb_heads (data d) c)) (append_refused sp (ps_maxEventsPerStream st)
      ((=) (tb_heads (data d) c)) c v es) c v ts (postgres_append sp env st c v es) PhIdle"
    by (rule safe_append [OF Inr]) (use valid in simp)
  moreover have "alone c v ts (data d) k d PhIdle" using idle by (simp add: alone_def)
  ultimately show ?thesis
    using run_safe [OF _ _ run] Inr by (fastforce simp: alone_settled split: sum.splits if_splits)
qed

end

section \<open>The row of an event, as the server answers it and as a load reads it\<close>

definition event_object :: "json \<Rightarrow> event \<Rightarrow> json" where
  "event_object head e = JObj [(js ''current_version'', head), (js ''version'', JStr (int_str (ev_version e))),
     (js ''event_json'', JStr (stringify (event_json e)))]"

context zod
begin

lemma postgres_row_event:
  assumes "stored sp c es" "safe_int (int (length es))" "i < length es"
  shows "postgres_row sp c (event_object head (es ! i), i) = Inr (es ! i)"
proof -
  let ?e = "es ! i"
  have e: "ev_continuationId ?e = c" "ev_version ?e = int i + 1" "body_ok (ev_body ?e)" "storable sp ?e"
    using assms(1,3) by (auto simp: stored_def numbered_def events_ok_def list_all_length)
  have "parseDatabaseVersion (Some (JStr (int_str (int i + 1)))) label = Inr (int i + 1)" for label
    by (rule parse_version_text) (use assms(2,3) in \<open>auto simp: safe_int_def\<close>)
  then show ?thesis
    using e deserialize_text [OF e(3,4)] by (simp add: postgres_row_def event_object_def)
qed

lemma postgres_rows_stream:
  assumes st: "stored sp c es" and len: "int (length es) \<le> limit" and safe: "safe_int (int (length es))"
  shows "postgres_rows sp limit c
    (stream_rows (if es = [] then None else Some (int (length es))) (take (nat (limit + 1)) (map event_row es))) = Inr es"
proof (cases "es = []")
  case True
  then show ?thesis by (simp add: stream_rows_def postgres_rows_def)
next
  case False
  let ?len = "int (length es)"
  let ?rows = "map (event_object (JStr (int_str ?len))) es"
  have r: "stream_rows (if es = [] then None else Some ?len) (take (nat (limit + 1)) (map event_row es)) = ?rows"
    using False len by (simp add: stream_rows_def event_object_def event_row_def)
  have "mapR (postgres_row sp c) (indexed ?rows) = Inr es"
    using postgres_row_event [OF st safe] by (simp add: mapR_Inr_iff list_all2_conv_all_nth indexed_nth)
  moreover have "get ''current_version'' (hd ?rows) = Some (JStr (int_str ?len))"
    using False by (cases es) (simp_all add: event_object_def)
  ultimately show ?thesis
    unfolding r using False len parse_version_text [OF _ safe] by (cases es) (simp_all add: postgres_rows_def)
qed

text \<open>A store that is configured for shorter streams refuses the longer ones.\<close>

lemma postgres_rows_refused:
  assumes "limit < int (length es)" "safe_int (int (length es))" "es \<noteq> []"
  shows "postgres_rows sp limit c
    (stream_rows (Some (int (length es))) (take (nat (limit + 1)) (map event_row es))) = Inl (stream_too_large limit)"
  using assms parse_version_text [OF _ assms(2)]
  by (cases "take (nat (limit + 1)) (map event_row es)") (auto simp: stream_rows_def postgres_rows_def Let_def split: prod.splits)

lemma loaded_stream:
  assumes "tables_hold sp limit T F" "safe_int limit"
    and "postgres_rows sp m c (stream_rows (tb_heads T c) (take (nat (m + 1)) (tb_rows T c))) = Inr es"
  shows "es = F c"
proof -
  have "stored sp c (F c)" "int (length (F c)) \<le> limit" "tb_rows T c = map event_row (F c)"
      "tb_heads T c = (if F c = [] then None else Some (int (length (F c))))"
    using assms(1) by (simp_all add: tables_hold_def)
  moreover from this have "safe_int (int (length (F c)))" using assms(2) by (simp add: safe_int_def)
  ultimately show ?thesis
    using assms(3) postgres_rows_stream [of c "F c" m] postgres_rows_refused [of m "F c" c]
    by (cases "int (length (F c)) \<le> m"; cases "F c = []") (auto simp: stream_rows_def postgres_rows_def)
qed

end

text \<open>A database after the migration.\<close>

definition empty_tables :: pg_tables where
  "empty_tables = \<lparr>tb_heads = (\<lambda>_. None), tb_rows = (\<lambda>_. [])\<rparr>"

lemma empty_tables_hold: "0 \<le> limit \<Longrightarrow> tables_hold sp limit empty_tables (\<lambda>_. [])"
  by (simp add: tables_hold_def empty_tables_def stored_def)

section \<open>The store as an event store\<close>

definition load_alone ::
    "(schema \<Rightarrow> zparser) \<Rightarrow> 'd pg \<Rightarrow> pg_store \<Rightarrow> 'd \<Rightarrow> jstr \<Rightarrow> (failure, event list) result" where
  "load_alone sp db st d c = fst (run_pg db 0 (postgres_load sp st c) d)"

definition append_alone ::
    "(schema \<Rightarrow> zparser) \<Rightarrow> pg_env \<Rightarrow> 'd pg \<Rightarrow> pg_store \<Rightarrow> 'd \<Rightarrow> jstr \<Rightarrow> int \<Rightarrow> event list \<Rightarrow>
     (failure, unit) result \<times> 'd" where
  "append_alone sp env db st d c v es = run_pg db 0 (postgres_append sp env st c v es) d"

text \<open>What a load answers when the server does: the stream that the tables hold.\<close>

definition stored_load ::
    "(schema \<Rightarrow> zparser) \<Rightarrow> ('d \<Rightarrow> pg_tables) \<Rightarrow> pg_store \<Rightarrow> 'd \<Rightarrow> jstr \<Rightarrow> (failure, event list) result" where
  "stored_load sp data st d c =
     (let limit = ps_maxEventsPerStream st
      in postgres_rows sp limit c (stream_rows (tb_heads (data d) c) (take (nat (limit + 1)) (tb_rows (data d) c))))"

text \<open>The tables hold streams, and no transaction is open.\<close>

definition pg_good ::
    "(schema \<Rightarrow> zparser) \<Rightarrow> ('d \<Rightarrow> pg_tables) \<Rightarrow> ('d \<Rightarrow> nat \<Rightarrow> pg_tx option) \<Rightarrow> pg_store \<Rightarrow> 'd \<Rightarrow> bool" where
  "pg_good sp data tx st d \<longleftrightarrow>
     (\<forall>j. tx d j = None) \<and> (\<exists>F. tables_hold sp (ps_maxEventsPerStream st) (data d) F)"

locale pg_event_store = zod sp + pg_server db data tx doubtful
  for sp :: "schema \<Rightarrow> zparser"
    and db :: "'d pg"
    and data :: "'d \<Rightarrow> pg_tables"
    and tx :: "'d \<Rightarrow> nat \<Rightarrow> pg_tx option"
    and doubtful :: bool +
  fixes env :: pg_env
    and st :: pg_store
  assumes limit_safe: "safe_int (ps_maxEventsPerStream st)"
begin

abbreviation holds :: "'d \<Rightarrow> (jstr \<Rightarrow> event list) \<Rightarrow> bool" where
  "holds d F \<equiv> tables_hold sp (ps_maxEventsPerStream st) (data d) F"

definition refused :: "(jstr \<Rightarrow> event list) \<Rightarrow> jstr \<Rightarrow> int \<Rightarrow> event list \<Rightarrow> failure \<Rightarrow> bool" where
  "refused F c v es e \<longleftrightarrow>
     append_checks sp (ps_maxEventsPerStream st) c v es = Inl e \<or> e = incomplete_batch \<or>
     v \<noteq> int (length (F c)) \<and> e = PauseMeshError (VersionConflictError c v (int (length (F c))))"

lemma load_holds:
  assumes "holds d F"
  shows "stored_load sp data st d c = Inr (F c)"
proof -
  have st: "stored sp c (F c)" and len: "int (length (F c)) \<le> ps_maxEventsPerStream st"
    and rows: "tb_rows (data d) c = map event_row (F c)"
    and head: "tb_heads (data d) c = (if F c = [] then None else Some (int (length (F c))))"
    using assms by (simp_all add: tables_hold_def)
  show ?thesis
    using postgres_rows_stream [OF st len hold_safe [OF assms limit_safe]]
    unfolding stored_load_def rows head Let_def .
qed

lemma load_answer:
  "load_alone sp db st d c = stored_load sp data st d c \<or> (\<exists>e. load_alone sp db st d c = Inl e \<and> driver_failure e)"
  using pool_stream [of d c "ps_maxEventsPerStream st + 1"] pool_failed [of d "SelectStream c (ps_maxEventsPerStream st + 1)"]
  by (cases "pg_pool db d (SelectStream c (ps_maxEventsPerStream st + 1))")
    (auto simp: load_alone_def postgres_load_def run_pg_simps stored_load_def Let_def)

lemma with_checked_batch:
  assumes "holds d F" "events_ok es" "append_checks sp (ps_maxEventsPerStream st) c v es = Inr ts"
    and "data d' = with_batch c v ts (data d)" "v = int (length (F c))"
  shows "holds d' (F(c := F c @ es)) \<and> numbered c v es"
proof -
  have "batch_ok sp (ps_maxEventsPerStream st) c v es" "ts = batch_texts es"
    using checked_batch [OF assms(2,3)] by blast+
  then show ?thesis using with_batch_hold [OF assms(1) _ assms(5)] assms(4) by (simp add: batch_ok_def)
qed

text \<open>An append on every branch: done, refused with nothing added, or failed with the whole batch added all the same.\<close>

lemma append_outcome:
  assumes good: "pg_good sp data tx st d" and hold: "holds d F" and ok: "events_ok es"
    and ap: "append_alone sp env db st d c v es = (r, d')"
  shows "pg_good sp data tx st d' \<and> (case r of
      Inr _ \<Rightarrow> v = int (length (F c)) \<and> numbered c v es \<and> holds d' (F(c := F c @ es))
    | Inl e \<Rightarrow> holds d' F \<and> (driver_failure e \<or> refused F c v es e) \<or>
        doubtful \<and> driver_failure e \<and> v = int (length (F c)) \<and> numbered c v es \<and> holds d' (F(c := F c @ es)))"
proof -
  have idle: "\<forall>j. tx d j = None" using good by (simp add: pg_good_def)
  have ref: "append_refused sp (ps_maxEventsPerStream st) ((=) (tb_heads (data d) c)) c v es e \<Longrightarrow> refused F c v es e" for e
    using hold_head(1) [OF hold, of c] by (auto simp: append_refused_def turned_down_def refused_def)
  note head = hold_head(1) [OF hold, of c]
  have new: "holds d' (F(c := F c @ es)) \<and> numbered c v es \<and> v = int (length (F c))"
    if "append_checks sp (ps_maxEventsPerStream st) c v es = Inr ts" "data d' = with_batch c v ts (data d)"
      "head_version (tb_heads (data d) c) = v" for ts
    using with_checked_batch [OF hold ok that(1,2)] that(3) head by simp
  note run = append_runs [OF idle hold_head(2) [OF hold limit_safe] ap [unfolded append_alone_def]]
  show ?thesis
  proof (cases r)
    case (Inl e)
    then consider "data d' = data d" "driver_failure e \<or> refused F c v es e"
      | "doubtful" "driver_failure e" "holds d' (F(c := F c @ es)) \<and> numbered c v es \<and> v = int (length (F c))"
      using run ref new by (simp, blast)
    then show ?thesis using run Inl hold unfolding pg_good_def by cases auto
  next
    case (Inr u)
    then have "holds d' (F(c := F c @ es)) \<and> numbered c v es \<and> v = int (length (F c))" using run new by auto
    then show ?thesis using run Inr unfolding pg_good_def by auto
  qed
qed

lemma refused_failure: "refused F c v es e \<Longrightarrow> store_failure e"
  unfolding refused_def append_checks_def validateExpectedVersion_def
  by (auto simp: bindR_eq_Inl stream_too_large_def incomplete_batch_def PostgresEventStoreError_def bindR_guardR
    dest: serialize_errors split: if_splits)

lemma refused_conflict:
  "refused F c v es e \<Longrightarrow> numbered c v es \<Longrightarrow> is_version_conflict e \<Longrightarrow> v \<noteq> int (length (F c))"
  using serialize_no_conflict
  by (auto simp: refused_def append_checks_def validateExpectedVersion_def bindR_eq_Inl bindR_guardR
    stream_too_large_def incomplete_batch_def split: if_splits)

lemma refused_version:
  assumes "v \<noteq> int (length (F c))" "append_alone sp env db st d c v es = (r, d')" "pg_good sp data tx st d" "holds d F"
  shows "\<exists>e. r = Inl e"
proof -
  have "\<forall>j. tx d j = None" using assms(3) by (simp add: pg_good_def)
  from append_runs [OF this hold_head(2) [OF assms(4) limit_safe] assms(2) [unfolded append_alone_def]]
  show ?thesis using hold_head(1) [OF assms(4), of c] assms(1) by (cases r) auto
qed

lemma append_errors:
  assumes "append_alone sp env db st d c v es = (Inl e, d')" "pg_good sp data tx st d" "holds d F"
  shows "driver_failure e \<or> refused F c v es e"
proof -
  have "\<forall>j. tx d j = None" using assms(2) by (simp add: pg_good_def)
  from append_runs [OF this hold_head(2) [OF assms(3) limit_safe] assms(1) [unfolded append_alone_def]]
  show ?thesis using hold_head(1) [OF assms(3), of c] by (auto simp: append_refused_def turned_down_def refused_def)
qed

end

sublocale pg_event_store < postgres: event_store "stored_load sp data st" "append_alone sp env db st" "pg_good sp data tx st"
proof
  fix d c
  assume "pg_good sp data tx st d"
  then obtain F where "holds d F" by (auto simp: pg_good_def)
  then show "\<exists>es. stored_load sp data st d c = Inr es \<and> numbered c 0 es \<and> events_ok es"
    using load_holds [of d F c] unfolding tables_hold_def stored_def by blast
next
  fix d es c v u d' old
  assume good: "pg_good sp data tx st d" "events_ok es" "append_alone sp env db st d c v es = (Inr u, d')"
    and old: "stored_load sp data st d c = Inr old"
  obtain F where F: "holds d F" using good(1) by (auto simp: pg_good_def)
  show "v = int (length old) \<and> numbered c v es \<and> stored_load sp data st d' c = Inr (old @ es)"
    using append_outcome [OF good(1) F good(2,3)] old load_holds [OF F, of c]
      load_holds [of d' "F(c := F c @ es)" c] by auto
next
  fix d c v es e d' old
  assume good: "pg_good sp data tx st d" "events_ok es" and ap: "append_alone sp env db st d c v es = (Inl e, d')"
    and old: "stored_load sp data st d c = Inr old"
  obtain F where F: "holds d F" using good by (auto simp: pg_good_def)
  show "stored_load sp data st d' c = Inr old \<or>
      host_failure e \<and> v = int (length old) \<and> numbered c v es \<and> stored_load sp data st d' c = Inr (old @ es)"
    using append_outcome [OF good(1) F good(2) ap] old load_holds [OF F, of c] load_holds [of d' F c]
      load_holds [of d' "F(c := F c @ es)" c] driver_failure_host by auto
next
  fix d es v and x c :: jstr
  assume good: "pg_good sp data tx st d" "events_ok es" and x: "x \<noteq> c"
  obtain F where F: "holds d F" using good(1) by (auto simp: pg_good_def)
  obtain r d' where ap: "append_alone sp env db st d c v es = (r, d')" by (metis prod.collapse)
  show "stored_load sp data st (snd (append_alone sp env db st d c v es)) x = stored_load sp data st d x"
    using append_outcome [OF good(1) F good(2) ap] ap x
      load_holds [OF F, of x] load_holds [of d' F x] load_holds [of d' "F(c := F c @ es)" x]
    by (cases r) auto
next
  fix d es v and c :: jstr
  assume good: "pg_good sp data tx st d" "events_ok es"
  obtain F where F: "holds d F" using good(1) by (auto simp: pg_good_def)
  then show "pg_good sp data tx st (snd (append_alone sp env db st d c v es))"
    using append_outcome [OF good(1) F good(2)] by (metis prod.collapse)
next
  fix d old v es and c :: jstr
  assume good: "pg_good sp data tx st d" and old: "stored_load sp data st d c = Inr old" and v: "v \<noteq> int (length old)"
  obtain F where F: "holds d F" using good(1) by (auto simp: pg_good_def)
  then show "\<exists>e. fst (append_alone sp env db st d c v es) = Inl e"
    using refused_version [OF _ _ good F] v old load_holds [OF F, of c] by (metis Inr_inject prod.collapse)
next
  fix d c old v es e
  assume good: "pg_good sp data tx st d" and old: "stored_load sp data st d c = Inr old" and n: "numbered c v es"
    and e: "fst (append_alone sp env db st d c v es) = Inl e" "is_version_conflict e"
  obtain F where F: "holds d F" using good(1) by (auto simp: pg_good_def)
  obtain d' where ap: "append_alone sp env db st d c v es = (Inl e, d')" using e(1) by (metis prod.collapse)
  have "\<not> driver_failure e" using e(2) by (cases e) auto
  then show "v \<noteq> int (length old)"
    using append_errors [OF ap good F] refused_conflict [OF _ n e(2)] old load_holds [OF F, of c] by auto
next
  fix d c v es e
  assume good: "pg_good sp data tx st d" and e: "fst (append_alone sp env db st d c v es) = Inl e"
  obtain F where F: "holds d F" using good(1) by (auto simp: pg_good_def)
  obtain d' where ap: "append_alone sp env db st d c v es = (Inl e, d')" using e(1) by (metis prod.collapse)
  have "driver_failure e \<Longrightarrow> store_failure e" by (cases e) auto
  then show "store_failure e" using append_errors [OF ap good F] refused_failure by blast
qed

text \<open>The same over the loaded streams.\<close>

context pg_event_store
begin

lemma append_cases:
  assumes "pg_good sp data tx st d" "events_ok es" "stored_load sp data st d c = Inr old"
  shows "case append_alone sp env db st d c v es of
      (Inr _, d') \<Rightarrow> pg_good sp data tx st d' \<and> v = int (length old) \<and>
        (\<forall>x. stored_load sp data st d' x = (if x = c then Inr (old @ es) else stored_load sp data st d x))
    | (Inl e, d') \<Rightarrow> pg_good sp data tx st d' \<and>
        ((\<forall>x. stored_load sp data st d' x = stored_load sp data st d x) \<and>
           (driver_failure e \<or> append_checks sp (ps_maxEventsPerStream st) c v es = Inl e \<or> e = incomplete_batch \<or>
            v \<noteq> int (length old) \<and> e = PauseMeshError (VersionConflictError c v (int (length old)))) \<or>
         doubtful \<and> driver_failure e \<and> v = int (length old) \<and>
           (\<forall>x. stored_load sp data st d' x = (if x = c then Inr (old @ es) else stored_load sp data st d x)))"
proof -
  obtain F where F: "holds d F" using assms(1) by (auto simp: pg_good_def)
  then have old: "old = F c" using load_holds [of d F c] assms(3) by simp
  obtain r d' where ap: "append_alone sp env db st d c v es = (r, d')" by (metis prod.collapse)
  have same: "holds d' F \<Longrightarrow> stored_load sp data st d' x = stored_load sp data st d x"
    and new: "holds d' (F(c := F c @ es)) \<Longrightarrow>
      stored_load sp data st d' x = (if x = c then Inr (old @ es) else stored_load sp data st d x)" for x
    using load_holds [OF F] load_holds [of d' F] load_holds [of d' "F(c := F c @ es)"] old by simp_all
  show ?thesis
    using append_outcome [OF assms(1) F assms(2) ap] same new ap old
    by (cases r) (auto simp: refused_def)
qed

end

end
