(* ===== verification/PostgresReplicas.thy ===== *)
theory PostgresReplicas
  imports PostgresAlone
begin

text \<open>
  Any number of replicas that append to one PostgreSQL database, each append with a client of its own. The
  appends take turns between their statements in any order; a statement that needs a row another
  transaction has written waits. Whatever is interleaved and whichever statement fails, the committed
  streams are those of the successful appends one after the other: an append has succeeded only if it is
  one of them, at the version it expected, and one that was refused is none of them.
\<close>

section \<open>The replicas\<close>

record append_request =
  aq_continuationId :: jstr
  aq_expectedVersion :: int
  aq_events :: "event list"

type_synonym append_task = "append_request \<times> unit pg_prog"

record 'd fleet =
  fl_server :: 'd
  fl_tasks :: "append_task list"

text \<open>A replica is its environment and its store; the client of the \<open>i\<close>-th append has the number \<open>i\<close>.\<close>

inductive fleet_step ::
    "(schema \<Rightarrow> zparser) \<Rightarrow> (pg_env \<times> pg_store) set \<Rightarrow> 'd pg \<Rightarrow> 'd fleet \<Rightarrow> 'd fleet \<Rightarrow> bool"
  for sp replicas db where
  arrive: "(env, st) \<in> replicas \<Longrightarrow> events_ok (aq_events q) \<Longrightarrow>
    p = postgres_append sp env st (aq_continuationId q) (aq_expectedVersion q) (aq_events q) \<Longrightarrow>
    fleet_step sp replicas db S (S\<lparr>fl_tasks := fl_tasks S @ [(q, p)]\<rparr>)"
| pool: "i < length (fl_tasks S) \<Longrightarrow> fl_tasks S ! i = (q, PoolQuery s k) \<Longrightarrow>
    fleet_step sp replicas db S (S\<lparr>fl_tasks := (fl_tasks S)[i := (q, k (pg_pool db (fl_server S) s))]\<rparr>)"
| connect: "i < length (fl_tasks S) \<Longrightarrow> fl_tasks S ! i = (q, Connect k1) \<Longrightarrow>
    pg_connect db (fl_server S) i = (a, d') \<Longrightarrow>
    fleet_step sp replicas db S \<lparr>fl_server = d', fl_tasks = (fl_tasks S)[i := (q, k1 a)]\<rparr>"
| statement: "i < length (fl_tasks S) \<Longrightarrow> fl_tasks S ! i = (q, Query s k) \<Longrightarrow>
    pg_ready db (fl_server S) i s \<Longrightarrow> pg_query db (fl_server S) i s = (r, d') \<Longrightarrow>
    fleet_step sp replicas db S \<lparr>fl_server = d', fl_tasks = (fl_tasks S)[i := (q, k r)]\<rparr>"
| release: "i < length (fl_tasks S) \<Longrightarrow> fl_tasks S ! i = (q, Release x p) \<Longrightarrow>
    fleet_step sp replicas db S
      \<lparr>fl_server = pg_release db (fl_server S) i x, fl_tasks = (fl_tasks S)[i := (q, p)]\<rparr>"

inductive fleet_reachable ::
    "(schema \<Rightarrow> zparser) \<Rightarrow> (pg_env \<times> pg_store) set \<Rightarrow> 'd pg \<Rightarrow> 'd \<Rightarrow> 'd fleet \<Rightarrow> bool"
  for sp replicas db d0 where
  start: "fleet_reachable sp replicas db d0 \<lparr>fl_server = d0, fl_tasks = []\<rparr>"
| step: "fleet_reachable sp replicas db d0 S \<Longrightarrow> fleet_step sp replicas db S S' \<Longrightarrow>
    fleet_reachable sp replicas db d0 S'"

section \<open>Appends one after the other\<close>

text \<open>What a list of appends makes of the streams, when each is at the version of its stream.\<close>

fun in_turn :: "append_request list \<Rightarrow> (jstr \<Rightarrow> event list) \<Rightarrow> (jstr \<Rightarrow> event list) option" where
  "in_turn [] F = Some F"
| "in_turn (q # qs) F =
     (let c = aq_continuationId q
      in if aq_expectedVersion q = int (length (F c)) then in_turn qs (F(c := F c @ aq_events q)) else None)"

lemma in_turn_snoc: "in_turn qs F = Some G \<Longrightarrow> aq_expectedVersion q = int (length (G (aq_continuationId q))) \<Longrightarrow>
    in_turn (qs @ [q]) F = Some (G(aq_continuationId q := G (aq_continuationId q) @ aq_events q))"
  by (induction qs F rule: in_turn.induct) (auto simp: Let_def split: if_splits)

section \<open>The invariant\<close>

text \<open>The commit of another append leaves what an append relies on: its row is locked, or was there before.\<close>

lemma phase_ok_commit:
  assumes "phase_ok c v ts T ph t" "\<And>u. t = Some u \<Longrightarrow> tx_heads u c \<noteq> None \<Longrightarrow> c \<noteq> c'"
  shows "phase_ok c v ts (with_batch c' v' ts' T) ph t"
  using assms by (cases ph) (auto simp: with_batch_def apply_tx_def visible_def tx_defs split: if_splits)

locale pg_fleet = zod sp + pg_server db data tx doubtful
  for sp :: "schema \<Rightarrow> zparser"
    and db :: "'d pg"
    and data :: "'d \<Rightarrow> pg_tables"
    and tx :: "'d \<Rightarrow> nat \<Rightarrow> pg_tx option"
    and doubtful :: bool +
  fixes replicas :: "(pg_env \<times> pg_store) set"
    and limit :: int
  assumes replicas_limit: "(env, st) \<in> replicas \<Longrightarrow> ps_maxEventsPerStream st \<le> limit"
    and limit_safe: "safe_int limit"
begin

lemmas connected = connect

definition task_ok :: "'d \<Rightarrow> nat \<Rightarrow> append_task \<Rightarrow> phase \<Rightarrow> bool" where
  "task_ok d i t ph \<longleftrightarrow>
     (let c = aq_continuationId (fst t); v = aq_expectedVersion (fst t); es = aq_events (fst t)
      in safe doubtful valid_head (\<lambda>_. True) c v (batch_texts es) (snd t) ph \<and>
         phase_ok c v (batch_texts es) (data d) ph (tx d i) \<and>
         ((\<exists>e. snd t = PFail e) \<or> batch_ok sp limit c v es))"

definition fleet_inv :: "'d fleet \<Rightarrow> phase list \<Rightarrow> nat list \<Rightarrow> (jstr \<Rightarrow> event list) \<Rightarrow> bool" where
  "fleet_inv S phs order F \<longleftrightarrow>
     length phs = length (fl_tasks S) \<and> exclusive (tx (fl_server S)) \<and>
     (\<forall>i. length phs \<le> i \<longrightarrow> tx (fl_server S) i = None) \<and>
     (\<forall>i < length phs. task_ok (fl_server S) i (fl_tasks S ! i) (phs ! i)) \<and>
     distinct order \<and> set order = {i. i < length phs \<and> applied (phs ! i)} \<and>
     in_turn (map (\<lambda>i. fst (fl_tasks S ! i)) order) (\<lambda>_. []) = Some F \<and>
     tables_hold sp limit (data (fl_server S)) F"

lemma fleet_inv_at:
  assumes "fleet_inv S phs order F" "i < length (fl_tasks S)" "fl_tasks S ! i = (q, p)"
  shows "task_ok (fl_server S) i (q, p) (phs ! i)"
  using assms unfolding fleet_inv_def by metis

text \<open>One task moves; the streams stay as they are, or get its batch.\<close>

definition batch_added :: "append_request \<Rightarrow> nat \<Rightarrow> 'd \<Rightarrow> 'd \<Rightarrow> bool" where
  "batch_added q i d d' \<longleftrightarrow>
     (let c = aq_continuationId q; v = aq_expectedVersion q; es = aq_events q
      in data d' = with_batch c v (batch_texts es) (data d) \<and> head_version (tb_heads (data d) c) = v \<and>
         batch_ok sp limit c v es \<and> (es = [] \<or> (\<exists>u. tx d i = Some u \<and> tx_heads u c \<noteq> None)))"

lemma task_ok_other:
  assumes "task_ok d j t ph" "tx d' j = tx d j" "exclusive (tx d)" "i \<noteq> j"
    and "data d' = data d \<or> batch_added q i d d'"
  shows "task_ok d' j t ph"
  using assms(5)
proof
  assume "data d' = data d"
  then show ?thesis using assms(1,2) by (simp add: task_ok_def)
next
  assume add: "batch_added q i d d'"
  show ?thesis
  proof (cases "aq_events q = []")
    case True
    then have "data d' = data d" using add by (simp add: batch_added_def with_batch_def Let_def)
    then show ?thesis using assms(1,2) by (simp add: task_ok_def)
  next
    case False
    then obtain u where "tx d i = Some u" "tx_heads u (aq_continuationId q) \<noteq> None"
      using add by (auto simp: batch_added_def Let_def)
    then have "aq_continuationId (fst t) \<noteq> aq_continuationId q"
      if "tx d j = Some w" "tx_heads w (aq_continuationId (fst t)) \<noteq> None" for w
      using that assms(3,4) unfolding exclusive_def by metis
    then show ?thesis
      using assms(1,2) add phase_ok_commit by (auto simp: task_ok_def batch_added_def Let_def)
  qed
qed

lemma fleet_inv_move:
  assumes inv: "fleet_inv S phs order F" and i: "i < length (fl_tasks S)" "fl_tasks S ! i = (q, p)"
    and new: "task_ok d' i (q, p') ph'" and tx: "tx d' = (tx (fl_server S))(i := tx d' i)" and excl: "exclusive (tx d')"
    and eff: "data d' = data (fl_server S) \<and> applied ph' = applied (phs ! i) \<or>
      batch_added q i (fl_server S) d' \<and> \<not> applied (phs ! i) \<and> applied ph'"
  shows "\<exists>order F. fleet_inv \<lparr>fl_server = d', fl_tasks = (fl_tasks S)[i := (q, p')]\<rparr> (phs[i := ph']) order F"
proof -
  let ?d = "fl_server S" and ?tasks = "(fl_tasks S)[i := (q, p')]"
  have len: "length phs = length (fl_tasks S)" using inv by (simp add: fleet_inv_def)
  have same: "fst (?tasks ! j) = fst (fl_tasks S ! j)" for j using i by (cases "j = i") simp_all
  have others: "tx d' j = tx ?d j" if "j \<noteq> i" for j using tx that by (metis fun_upd_other)
  have "task_ok d' j (?tasks ! j) (phs[i := ph'] ! j)" if "j < length phs" for j
  proof (cases "j = i")
    case True
    then show ?thesis using new i len by simp
  next
    case False
    have "task_ok ?d j (fl_tasks S ! j) (phs ! j)" using inv that by (simp add: fleet_inv_def)
    then have "task_ok d' j (fl_tasks S ! j) (phs ! j)"
      by (rule task_ok_other) (use inv eff others False in \<open>auto simp: fleet_inv_def\<close>)
    then show ?thesis using False by simp
  qed
  moreover have "tx d' j = None" if "length phs \<le> j" for j
    using that others [of j] i len inv by (simp add: fleet_inv_def)
  moreover obtain order' F' where "distinct order'" "set order' = {j. j < length phs \<and> applied (phs[i := ph'] ! j)}"
      "in_turn (map (\<lambda>j. fst (fl_tasks S ! j)) order') (\<lambda>_. []) = Some F'" "tables_hold sp limit (data d') F'"
    using eff
  proof
    assume e: "data d' = data ?d \<and> applied ph' = applied (phs ! i)"
    have "set order = {j. j < length phs \<and> applied (phs[i := ph'] ! j)}"
      using inv e i len by (auto simp: fleet_inv_def nth_list_update)
    then show thesis using that [of order F] inv e by (simp add: fleet_inv_def)
  next
    assume e: "batch_added q i ?d d' \<and> \<not> applied (phs ! i) \<and> applied ph'"
    let ?c = "aq_continuationId q"
    have hold: "tables_hold sp limit (data ?d) F" using inv by (simp add: fleet_inv_def)
    have v: "aq_expectedVersion q = int (length (F ?c))" and batch: "batch_ok sp limit ?c (aq_expectedVersion q) (aq_events q)"
      and d': "data d' = with_batch ?c (aq_expectedVersion q) (batch_texts (aq_events q)) (data ?d)"
      using e hold_head(1) [OF hold] by (auto simp: batch_added_def Let_def)
    have "tables_hold sp limit (data d') (F(?c := F ?c @ aq_events q))"
      unfolding d' by (rule with_batch_hold [OF hold batch v])
    moreover have "set (order @ [i]) = {j. j < length phs \<and> applied (phs[i := ph'] ! j)}"
      using inv e i len by (auto simp: fleet_inv_def nth_list_update)
    moreover have "distinct (order @ [i])" using inv e by (auto simp: fleet_inv_def)
    moreover have "in_turn (map (\<lambda>j. fst (fl_tasks S ! j)) (order @ [i])) (\<lambda>_. []) = Some (F(?c := F ?c @ aq_events q))"
      using in_turn_snoc [where G = F and q = q] v inv i by (simp add: fleet_inv_def)
    ultimately show thesis using that by blast
  qed
  ultimately have "fleet_inv \<lparr>fl_server = d', fl_tasks = ?tasks\<rparr> (phs[i := ph']) order' F'"
    using len excl same by (simp add: fleet_inv_def)
  then show ?thesis by blast
qed

lemma arrived_ok:
  assumes "(env, st) \<in> replicas" "events_ok (aq_events q)" "tx d i = None"
    and "p = postgres_append sp env st (aq_continuationId q) (aq_expectedVersion q) (aq_events q)"
  shows "task_ok d i (q, p) PhIdle"
proof (cases "append_checks sp (ps_maxEventsPerStream st) (aq_continuationId q) (aq_expectedVersion q) (aq_events q)")
  case (Inl e)
  then show ?thesis using assms(3,4) by (simp add: task_ok_def postgres_append_checks)
next
  case (Inr ts)
  note checked_batch [OF assms(2) Inr]
  moreover have "safe doubtful valid_head (\<lambda>_. True) (aq_continuationId q) (aq_expectedVersion q) ts p PhIdle"
    unfolding assms(4) using safe_append [OF Inr, of valid_head doubtful env] by (rule safe_mono) simp_all
  ultimately show ?thesis
    using assms(3) replicas_limit [OF assms(1)] by (auto simp: task_ok_def batch_ok_def Let_def)
qed

lemma fleet_arrive:
  assumes inv: "fleet_inv S phs order F" and new: "\<And>d. tx d (length phs) = None \<Longrightarrow> task_ok d (length phs) t PhIdle"
  shows "fleet_inv (S\<lparr>fl_tasks := fl_tasks S @ [t]\<rparr>) (phs @ [PhIdle]) order F"
proof -
  have len: "length phs = length (fl_tasks S)" and idle: "\<forall>i. length phs \<le> i \<longrightarrow> tx (fl_server S) i = None"
    using inv by (simp_all add: fleet_inv_def)
  have "task_ok (fl_server S) (length phs) t PhIdle" using new idle by simp
  moreover have order: "set order = {i. i < Suc (length phs) \<and> applied ((phs @ [PhIdle]) ! i)}"
    using inv by (auto simp: fleet_inv_def nth_append less_Suc_eq)
  moreover have tasks: "map (\<lambda>i. fst ((fl_tasks S @ [t]) ! i)) order = map (\<lambda>i. fst (fl_tasks S ! i)) order"
    using inv len by (auto simp: fleet_inv_def nth_append)
  ultimately have "task_ok (fl_server S) i ((fl_tasks S @ [t]) ! i) ((phs @ [PhIdle]) ! i)" if "i < Suc (length phs)" for i
    using that inv len by (auto simp: fleet_inv_def nth_append less_Suc_eq)
  then show ?thesis using inv len order tasks by (simp add: fleet_inv_def del: map_eq_conv)
qed

lemma task_known:
  assumes "fleet_inv S phs order F" "i < length (fl_tasks S)" "fl_tasks S ! i = (q, p)" "\<nexists>e. p = PFail e"
  shows "safe doubtful valid_head (\<lambda>_. True) (aq_continuationId q) (aq_expectedVersion q) (batch_texts (aq_events q)) p (phs ! i)"
    "phase_ok (aq_continuationId q) (aq_expectedVersion q) (batch_texts (aq_events q)) (data (fl_server S)) (phs ! i)
      (tx (fl_server S) i)"
    "batch_ok sp limit (aq_continuationId q) (aq_expectedVersion q) (aq_events q)"
    "valid_head (tb_heads (data (fl_server S)) c)"
  using assms fleet_inv_at [OF assms(1-3)] hold_head(2) limit_safe
  by (auto simp: task_ok_def Let_def fleet_inv_def)

lemma fleet_step_statement:
  assumes inv: "fleet_inv S phs order F" and i: "i < length (fl_tasks S)" "fl_tasks S ! i = (q, Query s k)"
    and ready: "pg_ready db (fl_server S) i s" and st: "pg_query db (fl_server S) i s = (r, d')"
  shows "\<exists>phs' order' F'. fleet_inv \<lparr>fl_server = d', fl_tasks = (fl_tasks S)[i := (q, k r)]\<rparr> phs' order' F'"
proof -
  let ?c = "aq_continuationId q" and ?v = "aq_expectedVersion q" and ?ts = "batch_texts (aq_events q)"
  note known = task_known [OF inv i, simplified]
  have ts: "?ts \<noteq> []" and issues: "issues ?c ?v ?ts (phs ! i) s"
    and next_safe: "\<And>ph'. ph' \<in> after doubtful valid_head ?v ?ts (phs ! i) s r \<Longrightarrow>
      safe doubtful valid_head (\<lambda>_. True) ?c ?v ?ts (k r) ph'"
    using known(1) by auto
  have excl: "exclusive (tx (fl_server S))" using inv by (simp add: fleet_inv_def)
  obtain ph' where m: "statement_moves valid_head ?c ?v ?ts i s r (fl_server S) (phs ! i) d' ph'"
    using statement_step [where seen = valid_head, OF known(2) excl ts known(4) ready_lock_free [OF ready] issues st] by blast
  have new: "task_ok d' i (q, k r) ph'"
    using m next_safe known(3) by (simp add: statement_moves_def task_ok_def Let_def)
  have "phs ! i = PhLoaded \<Longrightarrow> \<exists>u. tx (fl_server S) i = Some u \<and> tx_heads u ?c \<noteq> None"
    using known(2) by (simp add: loaded_tx_def)
  then have "data d' = data (fl_server S) \<and> applied ph' = applied (phs ! i) \<or>
      batch_added q i (fl_server S) d' \<and> \<not> applied (phs ! i) \<and> applied ph'"
    using m known(3) by (auto simp: statement_moves_def batch_added_def Let_def)
  with fleet_inv_move [OF inv i new] m show ?thesis unfolding statement_moves_def by blast
qed

lemma fleet_step_pool:
  assumes inv: "fleet_inv S phs order F" and i: "i < length (fl_tasks S)" "fl_tasks S ! i = (q, PoolQuery s k)"
  shows "\<exists>phs' order' F'. fleet_inv
    (S\<lparr>fl_tasks := (fl_tasks S)[i := (q, k (pg_pool db (fl_server S) s))]\<rparr>) phs' order' F'"
proof -
  let ?c = "aq_continuationId q" and ?v = "aq_expectedVersion q" and ?ts = "batch_texts (aq_events q)"
  note known = task_known [OF inv i, simplified]
  have s: "s = SelectHead ?c" "aq_events q = []" "phs ! i = PhIdle" using known(1) by auto
  let ?r = "pg_pool db (fl_server S) s" and ?h = "tb_heads (data (fl_server S)) ?c"
  have excl: "exclusive (tx (fl_server S))" using inv by (simp add: fleet_inv_def)
  define a where "a \<longleftrightarrow> (\<exists>x. ?r = Inr x) \<and> head_version ?h = ?v"
  have "safe doubtful valid_head (\<lambda>_. True) ?c ?v ?ts (k ?r) (settled a)"
  proof (cases ?r)
    case (Inl e)
    then have "driver_failure e" by (rule pool_failed)
    then show ?thesis using known(1) Inl by (simp add: a_def settled_def s(2))
  next
    case (Inr x)
    then have "pr_rows x = head_rows ?h" using pool_head s(1) by blast
    then show ?thesis using known(1) known(4) [of ?c] Inr by (auto simp: a_def)
  qed
  then have new: "task_ok (fl_server S) i (q, k ?r) (settled a)"
    using known(2,3) s(3) by (simp add: task_ok_def Let_def)
  have "data (fl_server S) = data (fl_server S) \<and> applied (settled a) = applied (phs ! i) \<or>
      batch_added q i (fl_server S) (fl_server S) \<and> \<not> applied (phs ! i) \<and> applied (settled a)"
    using s known(3) by (auto simp: batch_added_def Let_def with_batch_def a_def)
  then have "\<exists>order F. fleet_inv \<lparr>fl_server = fl_server S, fl_tasks = (fl_tasks S)[i := (q, k ?r)]\<rparr>
      (phs[i := settled a]) order F"
    by (rule fleet_inv_move [OF inv i new _ excl, rotated]) simp
  then show ?thesis by (cases S) auto
qed

lemma fleet_inv_step:
  assumes "fleet_step sp replicas db S S'" "fleet_inv S phs order F"
  shows "\<exists>phs' order' F'. fleet_inv S' phs' order' F'"
  using assms
proof (induction rule: fleet_step.induct)
  case (arrive env st q p S)
  then show ?case using fleet_arrive [OF arrive.prems arrived_ok [OF arrive.hyps(1,2) _ arrive.hyps(3)]] by blast
next
  case (pool i S q s k)
  then show ?case by (blast intro: fleet_step_pool)
next
  case (connect i S q k a d')
  note known = task_known [OF connect.prems connect.hyps(1,2), simplified]
  have same: "data d' = data (fl_server S)" "tx d' = tx (fl_server S)" 
    using connected [OF connect.hyps(3)] by simp_all
  have "driver_failure e" if "a = Inl e" for e using connect_failed connect.hyps(3) that by blast
  then have "task_ok d' i (q, k a) PhIdle"
    using known by (cases a) (auto simp: task_ok_def Let_def same)
  moreover have "exclusive (tx d')" "applied PhIdle = applied (phs ! i)"
    using connect.prems known(1) same by (simp_all add: fleet_inv_def)
  ultimately have "\<exists>order F. fleet_inv \<lparr>fl_server = d', fl_tasks = (fl_tasks S)[i := (q, k a)]\<rparr> (phs[i := PhIdle]) order F"
    using fleet_inv_move [OF connect.prems connect.hyps(1,2)] same by simp
  then show ?case by blast
next
  case (statement i S q s k r d')
  then show ?case by (blast intro: fleet_step_statement)
next
  case (release i S q x p)
  note known = task_known [OF release.prems release.hyps(1,2), simplified]
  let ?d' = "pg_release db (fl_server S) i x" and ?a = "applied (phs ! i)"
  have x: "x \<noteq> None \<or> tx (fl_server S) i = None" using known(1,2) by (cases "phs ! i") auto
  have "task_ok ?d' i (q, p) (settled ?a)"
    using known(1,3) release_tx [OF x] by (cases "phs ! i") (auto simp: task_ok_def Let_def settled_def)
  moreover have "exclusive (tx ?d')"
    unfolding release_tx [OF x] using release.prems by (intro exclusive_update) (auto simp: fleet_inv_def)
  ultimately show ?case
    using fleet_inv_move [OF release.prems release.hyps(1,2), of ?d' p "settled ?a"] release_tx [OF x]
    by (auto simp: release_data)
qed

lemma fleet_inv_reachable:
  assumes "fleet_reachable sp replicas db d0 S" "data d0 = empty_tables" "tx d0 = (\<lambda>_. None)" "0 \<le> limit"
  shows "\<exists>phs order F. fleet_inv S phs order F"
  using assms
proof (induction rule: fleet_reachable.induct)
  case start
  have "fleet_inv \<lparr>fl_server = d0, fl_tasks = []\<rparr> [] [] (\<lambda>_. [])"
    using start empty_tables_hold by (simp add: fleet_inv_def exclusive_def)
  then show ?case by blast
next
  case (step S S')
  then show ?case using fleet_inv_step by blast
qed

text \<open>The order of the commits accounts for every append that has ended, and for every load.\<close>

lemma fleet_order:
  assumes inv: "fleet_inv S phs order F" and i: "i < length (fl_tasks S)"
  shows "snd (fl_tasks S ! i) = PRet () \<Longrightarrow> i \<in> set order"
    "snd (fl_tasks S ! i) = PFail e \<Longrightarrow> i \<in> set order \<Longrightarrow> driver_failure e \<and> doubtful"
proof -
  obtain q p where t: "fl_tasks S ! i = (q, p)" by (cases "fl_tasks S ! i")
  note ok = fleet_inv_at [OF inv i t]
  have order: "i \<in> set order \<longleftrightarrow> applied (phs ! i)" using inv i by (auto simp: fleet_inv_def)
  show "snd (fl_tasks S ! i) = PRet () \<Longrightarrow> i \<in> set order"
    using ok t by (auto simp: task_ok_def Let_def order)
  show "snd (fl_tasks S ! i) = PFail e \<Longrightarrow> i \<in> set order \<Longrightarrow> driver_failure e \<and> doubtful"
    using ok t by (auto simp: task_ok_def Let_def order)
qed

lemma fleet_load:
  assumes inv: "fleet_inv S phs order F" and load: "run_pg db k (postgres_load sp st c) (fl_server S) = (Inr es, d')"
  shows "es = F c"
proof -
  have hold: "tables_hold sp limit (data (fl_server S)) F" using inv by (simp add: fleet_inv_def)
  obtain r where "pg_pool db (fl_server S) (SelectStream c (ps_maxEventsPerStream st + 1)) = Inr r"
      "postgres_rows sp (ps_maxEventsPerStream st) c (pr_rows r) = Inr es"
    using load by (cases "pg_pool db (fl_server S) (SelectStream c (ps_maxEventsPerStream st + 1))")
      (auto simp: postgres_load_def run_pg_simps)
  then show ?thesis using pool_stream loaded_stream [OF hold limit_safe] by metis
qed

end

end
