(* ===== verification/PostgresReference.thy ===== *)
theory PostgresReference
  imports PostgresAlone
begin

text \<open>
  A server that keeps the laws of \<open>pg_server\<close>, for the interpretations and the witnesses: the tables and the
  open transactions. A statement outside a transaction, or of the migration, is refused.
\<close>

section \<open>The server\<close>

type_synonym pg_ref_state = "pg_tables \<times> (nat \<Rightarrow> pg_tx option)"

definition answered :: "int \<Rightarrow> json list \<Rightarrow> pg_result" where
  "answered n rows = \<lparr>pr_rowCount = Some n, pr_rows = rows\<rparr>"

definition bigint :: "jstr \<Rightarrow> int" where
  "bigint s = (case parse_number s of Some (x, _) \<Rightarrow> int_of_num x | None \<Rightarrow> 0)"

lemma bigint_int_str [simp]: "bigint (int_str n) = n"
  using parse_number_num_str [of "num_of_int n" "[]"] by (simp add: bigint_def int_str_def number_end_def)

fun ref_statement :: "pg_tables \<Rightarrow> pg_tx \<Rightarrow> pg_statement \<Rightarrow> (pg_result \<times> pg_tx) option" where
  "ref_statement T t (InsertStream c) =
     (if visible T t c = None then Some (answered 1 [], t\<lparr>tx_heads := (tx_heads t)(c := Some 0)\<rparr>)
      else Some (answered 0 [], t))"
| "ref_statement T t (FenceStream c v w) =
     (if visible T t c = Some v then Some (answered 1 (head_rows (Some w)), t\<lparr>tx_heads := (tx_heads t)(c := Some w)\<rparr>)
      else Some (answered 0 [], t))"
| "ref_statement T t (SelectHead c) = Some (answered (int (length (head_rows (visible T t c)))) (head_rows (visible T t c)), t)"
| "ref_statement T t (InsertEvents c vs ts) =
     (let ms = zip (map bigint vs) ts
      in Some (answered (int (length ms)) [], t\<lparr>tx_events := (tx_events t)(c := tx_events t c @ ms)\<rparr>))"
| "ref_statement T t _ = None"

fun ref_query :: "pg_ref_state \<Rightarrow> nat \<Rightarrow> pg_statement \<Rightarrow> (failure, pg_result) result \<times> pg_ref_state" where
  "ref_query (T, X) k s =
     (if s = Rollback then (Inr (answered 0 []), (T, X(k := None)))
      else case X k of
        None \<Rightarrow>
          if s = BeginReadCommitted then (Inr (answered 0 []), (T, X(k := Some no_writes)))
          else (Inl (HostError JNull), (T, X))
      | Some t \<Rightarrow>
          if s = Commit then (Inr (answered 0 []), (apply_tx t T, X(k := None)))
          else (case ref_statement T t s of
              None \<Rightarrow> (Inl (HostError JNull), (T, X))
            | Some (r, t') \<Rightarrow> (Inr r, (T, X(k := Some t')))))"

fun ref_ready :: "pg_ref_state \<Rightarrow> nat \<Rightarrow> pg_statement \<Rightarrow> bool" where
  "ref_ready (T, X) k (InsertStream c) = unlocked X k c"
| "ref_ready (T, X) k (FenceStream c v w) = unlocked X k c"
| "ref_ready d k s = True"

fun ref_pool :: "pg_ref_state \<Rightarrow> pg_statement \<Rightarrow> (failure, pg_result) result" where
  "ref_pool (T, X) (SelectHead c) = Inr (answered (int (length (head_rows (tb_heads T c)))) (head_rows (tb_heads T c)))"
| "ref_pool (T, X) (SelectStream c n) =
     (let rows = stream_rows (tb_heads T c) (take (nat n) (tb_rows T c)) in Inr (answered (int (length rows)) rows))"
| "ref_pool d s = Inl (HostError JNull)"

definition pg_ref :: "pg_ref_state pg" where
  "pg_ref = \<lparr>pg_pool = ref_pool, pg_connect = (\<lambda>d k. (Inr (), d)), pg_ready = ref_ready, pg_query = ref_query,
     pg_release = (\<lambda>(T, X) k x. (T, X(k := None)))\<rparr>"

lemma ref_pool_failed: "ref_pool d s = Inl e \<Longrightarrow> driver_failure e"
  by (cases "(d, s)" rule: ref_pool.cases) (auto simp: Let_def)

lemma reference_server: "pg_server pg_ref fst snd doubtful"
proof
  fix d s e
  show "pg_pool pg_ref d s = Inl e \<Longrightarrow> driver_failure e" by (simp add: pg_ref_def ref_pool_failed)
next
  fix d d' :: pg_ref_state and k t r c and ns :: "int list" and ts
  assume "snd d k = Some t" "length ns = length ts" "pg_query pg_ref d k (InsertEvents c (map int_str ns) ts) = (Inr r, d')"
  then show "fst d' = fst d \<and> (\<exists>ms. subseq ms (zip ns ts) \<and> pr_rowCount r = Some (int (length ms)) \<and>
      snd d' = (snd d)(k := Some (t\<lparr>tx_events := (tx_events t)(c := tx_events t c @ ms)\<rparr>)))"
    by (intro conjI exI [of _ "zip ns ts"]; cases d)
      (auto simp: pg_ref_def answered_def Let_def comp_def)
qed (auto simp: pg_ref_def answered_def Let_def split: if_splits option.splits prod.splits)

section \<open>The default store on it\<close>

definition ref_env :: pg_env where
  "ref_env = \<lparr>pe_isError = (\<lambda>_. True), pe_sha256 = (\<lambda>_. [])\<rparr>"

text \<open>The store that the constructor makes of no options.\<close>

definition default_names :: schema_names where
  "default_names =
     \<lparr>sn_migrationTable = js (CHR 0x22 # ''pausemesh'' @ [CHR 0x22, CHR 0x2E, CHR 0x22] @ ''pausemesh_schema_migrations'' @ [CHR 0x22]),
      sn_schema = js ''pausemesh'', sn_schemaSql = js (CHR 0x22 # ''pausemesh'' @ [CHR 0x22]),
      sn_streamsTable = js (CHR 0x22 # ''pausemesh'' @ [CHR 0x22, CHR 0x2E, CHR 0x22] @ ''continuation_streams'' @ [CHR 0x22]),
      sn_eventsTable = js (CHR 0x22 # ''pausemesh'' @ [CHR 0x22, CHR 0x2E, CHR 0x22] @ ''continuation_events'' @ [CHR 0x22])\<rparr>"

definition default_store :: "pg_env \<Rightarrow> pg_store" where
  "default_store env = \<lparr>ps_maxEventsPerStream = DEFAULT_MAX_EVENTS_PER_STREAM,
     ps_migration = migrationFor env default_names, ps_names = default_names\<rparr>"

lemma default_schema: "schemaNames None = Inr default_names"
  by code_simp

lemma default_store: "postgres_store env None None = Inr (default_store env)"
  by (simp add: postgres_store_def default_schema default_store_def DEFAULT_MAX_EVENTS_PER_STREAM_def
    safe_int_def MAX_SAFE_INTEGER_def num_less_def num_le_ints)

interpretation pg_reference: pg_event_store zod_ref pg_ref fst snd doubtful ref_env "default_store ref_env"
  for doubtful
proof -
  have "zod zod_ref" by (rule zod_reference.zod_axioms)
  moreover have "pg_event_store_axioms (default_store ref_env)"
    by unfold_locales (simp add: default_store_def DEFAULT_MAX_EVENTS_PER_STREAM_def safe_int_def MAX_SAFE_INTEGER_def)
  ultimately show "pg_event_store zod_ref pg_ref fst snd doubtful (default_store ref_env)"
    using reference_server by (simp add: pg_event_store_def)
qed

definition ref_start :: pg_ref_state where
  "ref_start = (empty_tables, \<lambda>_. None)"

end
