(* ===== verification/PostgresTrace.thy ===== *)
theory PostgresTrace
  imports PostgresEventStore
begin

text \<open>
  What the programs of the PostgreSQL store do to their clients and their database, read off the calls
  they make on any server whatsoever: every client that is checked out goes back to the pool once, and
  never with an open transaction; and a migration commits only what it has checked.
\<close>

section \<open>The calls of a program\<close>

datatype pg_call =
    PoolQueried pg_statement "(failure, pg_result) result"
  | Connected "(failure, unit) result"
  | Queried pg_statement "(failure, pg_result) result"
  | Released "release_error option"

primrec trace_pg :: "'d pg \<Rightarrow> nat \<Rightarrow> 'r pg_prog \<Rightarrow> 'd \<Rightarrow> pg_call list" where
  "trace_pg db i (PRet x) d = []"
| "trace_pg db i (PFail e) d = []"
| "trace_pg db i (PoolQuery s k) d =
     PoolQueried s (pg_pool db d s) # trace_pg db i (k (pg_pool db d s)) d"
| "trace_pg db i (Connect k) d = (case pg_connect db d i of (r, d') \<Rightarrow> Connected r # trace_pg db i (k r) d')"
| "trace_pg db i (Query s k) d = (case pg_query db d i s of (r, d') \<Rightarrow> Queried s r # trace_pg db i (k r) d')"
| "trace_pg db i (Release x p) d = Released x # trace_pg db i p (pg_release db d i x)"

section \<open>The use of a client\<close>

text \<open>A client in the pool, or checked out, with or without a transaction it may have left open.\<close>

datatype client_use = Home | Out bool

definition still_open :: "bool \<Rightarrow> pg_statement \<Rightarrow> (failure, pg_result) result \<Rightarrow> bool" where
  "still_open x s r =
     (if s = BeginReadCommitted then True
      else if (s = Commit \<or> s = Rollback) \<and> (\<exists>q. r = Inr q) then False else x)"

fun well_used :: "client_use \<Rightarrow> pg_call list \<Rightarrow> bool" where
  "well_used u [] \<longleftrightarrow> u = Home"
| "well_used u (PoolQueried s r # t) \<longleftrightarrow> u = Home \<and> well_used Home t"
| "well_used u (Connected r # t) \<longleftrightarrow> u = Home \<and> well_used (case r of Inl e \<Rightarrow> Home | Inr _ \<Rightarrow> Out False) t"
| "well_used u (Queried s r # t) \<longleftrightarrow>
     (case u of Home \<Rightarrow> False | Out x \<Rightarrow> well_used (Out (still_open x s r)) t)"
| "well_used u (Released e # t) \<longleftrightarrow>
     (case u of Home \<Rightarrow> False | Out x \<Rightarrow> (x \<longrightarrow> e \<noteq> None) \<and> well_used Home t)"

text \<open>A program that uses its client well, whatever it is answered.\<close>

primrec uses_well :: "client_use \<Rightarrow> 'r pg_prog \<Rightarrow> bool" where
  "uses_well u (PRet x) \<longleftrightarrow> u = Home"
| "uses_well u (PFail e) \<longleftrightarrow> u = Home"
| "uses_well u (PoolQuery s k) \<longleftrightarrow> u = Home \<and> (\<forall>r. uses_well Home (k r))"
| "uses_well u (Connect k) \<longleftrightarrow> u = Home \<and> (\<forall>r. uses_well (case r of Inl e \<Rightarrow> Home | Inr _ \<Rightarrow> Out False) (k r))"
| "uses_well u (Query s k) \<longleftrightarrow>
     (case u of Home \<Rightarrow> False | Out x \<Rightarrow> \<forall>r. uses_well (Out (still_open x s r)) (k r))"
| "uses_well u (Release e p) \<longleftrightarrow>
     (case u of Home \<Rightarrow> False | Out x \<Rightarrow> (x \<longrightarrow> e \<noteq> None) \<and> uses_well Home p)"

lemma uses_well_trace: "uses_well u p \<Longrightarrow> well_used u (trace_pg db i p d)"
  by (induction p arbitrary: u d) (auto split: client_use.splits prod.split)

text \<open>The statements of a client between its check out and its release: they end after a \<open>COMMIT\<close>, or fail.\<close>

primrec ends_closed :: "bool \<Rightarrow> 'r pg_prog \<Rightarrow> bool" where
  "ends_closed x (PRet y) \<longleftrightarrow> \<not> x"
| "ends_closed x (PFail e) \<longleftrightarrow> True"
| "ends_closed x (PoolQuery s k) \<longleftrightarrow> False"
| "ends_closed x (Connect k) \<longleftrightarrow> False"
| "ends_closed x (Query s k) \<longleftrightarrow> (\<forall>r. ends_closed (still_open x s r) (k r))"
| "ends_closed x (Release e p) \<longleftrightarrow> False"

text \<open>Statements that neither begin nor end a transaction.\<close>

primrec plain :: "'r pg_prog \<Rightarrow> bool" where
  "plain (PRet y) \<longleftrightarrow> True"
| "plain (PFail e) \<longleftrightarrow> True"
| "plain (PoolQuery s k) \<longleftrightarrow> False"
| "plain (Connect k) \<longleftrightarrow> False"
| "plain (Query s k) \<longleftrightarrow> s \<noteq> BeginReadCommitted \<and> s \<noteq> Commit \<and> s \<noteq> Rollback \<and> (\<forall>r. plain (k r))"
| "plain (Release e p) \<longleftrightarrow> False"

lemma plain_bindQ: "plain p \<Longrightarrow> (\<And>x. plain (f x)) \<Longrightarrow> plain (bindQ p f)"
  by (induction p) auto

lemma plain_liftQ [simp]: "plain (liftQ r)"
  by (cases r) simp_all

lemma ends_closed_bindQ: "plain p \<Longrightarrow> (\<And>y. ends_closed x (f y)) \<Longrightarrow> ends_closed x (bindQ p f)"
  by (induction p) (auto simp: still_open_def)

lemma with_client_uses_well:
  "ends_closed x body \<Longrightarrow> uses_well (Out x) (with_client env body)"
proof (induction body arbitrary: x)
  case (PFail e)
  show ?case
    by (auto simp: with_client_def rollbackPreservingPrimaryError_def still_open_def split: sum.split)
next
  case (Query s k)
  then show ?case by (auto simp: with_client_def)
qed (simp_all add: with_client_def)

lemma ends_closed_query:
  "(\<And>r. ends_closed (still_open x s (Inr r)) (f r)) \<Longrightarrow> ends_closed x (bindQ (query s) f)"
  by (auto simp: bindQ_liftQ split: sum.split)

lemma append_statements_closed: "ends_closed x (append_statements c v ts)"
  by (auto simp: append_statements_def report_conflict_def insert_batch_def Let_def still_open_def bindQ_liftQ
    split: sum.split)

lemma append_uses_well: "uses_well Home (postgres_append sp env st c v es)"
  by (auto simp: postgres_append_def bindQ_liftQ with_client_uses_well append_statements_closed split: sum.split)

lemma load_uses_well: "uses_well Home (postgres_load sp st c)"
  by (auto simp: postgres_load_def bindQ_liftQ liftQ_def split: sum.split)

lemma readiness_uses_well: "uses_well Home (postgres_checkReadiness st)"
  by (auto simp: postgres_checkReadiness_def readMigrationRows_def requireSchemaObjects_def bindQ_liftQ Let_def
    split: sum.split)

lemma plain_query: "s \<noteq> BeginReadCommitted \<Longrightarrow> s \<noteq> Commit \<Longrightarrow> s \<noteq> Rollback \<Longrightarrow> plain (query s)"
  by simp

lemma executeAll_plain: "plain (executeAll ss)"
  by (induction ss) (auto simp: bindQ_liftQ split: sum.split)

lemma migration_parts_plain:
  "plain (readMigrationRows query)" "plain (requireSchemaObjects query names)" "plain (apply_or_check m rows)"
  by (auto simp: readMigrationRows_def requireSchemaObjects_def apply_or_check_def bindQ_liftQ Let_def
    intro!: plain_bindQ executeAll_plain split: sum.split)

text \<open>The statements of the migration before its \<open>COMMIT\<close>.\<close>

definition checked_migration :: "schema_names \<Rightarrow> migration \<Rightarrow> unit pg_prog" where
  "checked_migration names migration =
     bindQ (query (AdvisoryLock MIGRATION_LOCK_NAMESPACE MIGRATION_LOCK_KEY)) (\<lambda>_.
     bindQ (query CreateSchema) (\<lambda>_.
     bindQ (query CreateMigrationTable) (\<lambda>_.
     bindQ (readMigrationRows query) (\<lambda>before.
     bindQ (apply_or_check migration before) (\<lambda>_.
     bindQ (readMigrationRows query) (\<lambda>after.
     bindQ (liftQ (requireMigrationRows after migration)) (\<lambda>_.
     requireSchemaObjects query names)))))))"

definition migration_body :: "schema_names \<Rightarrow> migration \<Rightarrow> unit pg_prog" where
  "migration_body names migration = bindQ (query BeginReadCommitted) (\<lambda>_.
     bindQ (checked_migration names migration) (\<lambda>_. bindQ (query Commit) (\<lambda>_. PRet ())))"

lemma bindQ_assoc: "bindQ (bindQ p f) g = bindQ p (\<lambda>x. bindQ (f x) g)"
  by (induction p) simp_all

lemma migration_checked:
  "migratePostgresEventStore env schema =
    bindQ (liftQ (schemaNames schema)) (\<lambda>names. bindQ connect (\<lambda>_. with_client env
      (migration_body names (migrationFor env names))))"
  unfolding migratePostgresEventStore_def migration_body_def checked_migration_def Let_def bindQ_assoc ..

lemma checked_migration_plain: "plain (checked_migration names m)"
  unfolding checked_migration_def
  by (intro plain_bindQ migration_parts_plain plain_liftQ plain_query) simp_all

lemma migration_uses_well: "uses_well Home (migratePostgresEventStore env schema)"
proof -
  have "ends_closed False (migration_body names m)" for names m
    unfolding migration_body_def
    by (rule ends_closed_query, rule ends_closed_bindQ [OF checked_migration_plain], rule ends_closed_query)
      (simp add: still_open_def)
  then show ?thesis
    unfolding migration_checked by (auto simp: bindQ_liftQ intro!: with_client_uses_well split: sum.split)
qed

section \<open>What a migration has done\<close>

lemma run_bindQ_Inr:
  "run_pg db i (bindQ p f) d = (Inr y, d') \<longleftrightarrow>
    (\<exists>x d1. run_pg db i p d = (Inr x, d1) \<and> run_pg db i (f x) d1 = (Inr y, d'))"
  by (auto simp: run_bindQ split: prod.splits sum.splits)

lemma trace_bindQ:
  "trace_pg db i (bindQ p f) d = trace_pg db i p d @
    (case run_pg db i p d of (Inl e, d') \<Rightarrow> [] | (Inr x, d') \<Rightarrow> trace_pg db i (f x) d')"
  by (induction p arbitrary: d) (simp_all split: prod.split)

lemma trace_catchQ:
  "trace_pg db i (catchQ p h) d = trace_pg db i p d @
    (case run_pg db i p d of (Inl e, d') \<Rightarrow> trace_pg db i (h e) d' | (Inr x, d') \<Rightarrow> [])"
  by (induction p arbitrary: d) (simp_all split: prod.split)

lemma trace_liftQ [simp]: "trace_pg db i (liftQ r) d = []"
  by (cases r) simp_all

text \<open>The statements a client was given, in order.\<close>

fun statement_of :: "pg_call \<Rightarrow> pg_statement list" where
  "statement_of (Queried s r) = [s]"
| "statement_of _ = []"

definition statements :: "pg_call list \<Rightarrow> pg_statement list" where
  "statements t = concat (map statement_of t)"

lemma statements_simps [simp]:
  "statements [] = []" "statements (x # t) = statement_of x @ statements t"
  "statements (t @ u) = statements t @ statements u"
  by (simp_all add: statements_def)

definition committed :: "pg_call list \<Rightarrow> bool" where
  "committed t \<longleftrightarrow> (\<exists>q. Queried Commit (Inr q) \<in> set t)"

lemma plain_not_committed: "plain p \<Longrightarrow> \<not> committed (trace_pg db i p d)"
  by (induction p arbitrary: d) (auto simp: committed_def split: prod.splits)

lemma executeAll_trace:
  "run_pg db i (executeAll ss) d = (Inr u, d') \<Longrightarrow> statements (trace_pg db i (executeAll ss) d) = map Execute ss"
  by (induction ss arbitrary: d)
    (auto simp: run_bindQ_Inr run_pg_simps trace_bindQ bindQ_liftQ split: prod.splits sum.splits)

text \<open>What the rows of the migrations table must say.\<close>

definition row_version :: "json \<Rightarrow> int option" where
  "row_version row = (case parseDatabaseVersion (get ''version'' row) ''migration version'' of
     Inl e \<Rightarrow> None | Inr v \<Rightarrow> Some v)"

definition migration_recorded :: "json list \<Rightarrow> migration \<Rightarrow> bool" where
  "migration_recorded rows m \<longleftrightarrow>
     (\<forall>row \<in> set rows. \<exists>v. row_version row = Some v \<and> v \<le> mg_version m) \<and>
     (\<exists>row \<in> set rows. row_version row = Some (mg_version m) \<and>
        get ''name'' row = Some (JStr (mg_name m)) \<and> get ''checksum'' row = Some (JStr (mg_checksum m)))"

lemma find_version_None:
  "find_version P rows = Inr None \<Longrightarrow> row \<in> set rows \<Longrightarrow> \<exists>v. row_version row = Some v \<and> \<not> P v"
  by (induction rows) (auto simp: bindR_eq_Inr row_version_def split: if_splits)

lemma find_version_Some:
  "find_version P rows = Inr (Some row) \<Longrightarrow> row \<in> set rows \<and> (\<exists>v. row_version row = Some v \<and> P v)"
  by (induction rows) (auto simp: bindR_eq_Inr row_version_def split: if_splits)

lemma requireMigrationRows_recorded:
  assumes "requireMigrationRows rows m = Inr u"
  shows "migration_recorded rows m"
proof -
  obtain row where f: "find_version (\<lambda>v. v > mg_version m) rows = Inr None"
      "find_version (\<lambda>v. v = mg_version m) rows = Inr (Some row)"
      "get ''name'' row = Some (JStr (mg_name m))" "get ''checksum'' row = Some (JStr (mg_checksum m))"
    using assms by (auto simp: requireMigrationRows_def bindR_eq_Inr split: option.splits)
  show ?thesis
    unfolding migration_recorded_def
    using find_version_None [OF f(1)] find_version_Some [OF f(2)] f(3,4) by (auto simp: not_less)
qed

definition schema_complete :: "json list \<Rightarrow> bool" where
  "schema_complete rows \<longleftrightarrow>
     (case rows of
        [] \<Rightarrow> False
      | row # _ \<Rightarrow>
          get ''streams_exists'' row = Some (JBool True) \<and> get ''events_exists'' row = Some (JBool True) \<and>
          get ''migrations_exists'' row = Some (JBool True) \<and>
          parseDatabaseVersion (get ''missing_trigger_count'' row) ''missing_trigger_count'' = Inr 0)"

text \<open>The statements of a migration that is committed: those of the schema only where it is not recorded yet.\<close>

definition migration_statements :: "schema_names \<Rightarrow> migration \<Rightarrow> bool \<Rightarrow> pg_statement list" where
  "migration_statements names m recorded =
     [AdvisoryLock MIGRATION_LOCK_NAMESPACE MIGRATION_LOCK_KEY, CreateSchema, CreateMigrationTable, SelectMigrations] @
     (if recorded then []
      else map Execute (mg_statements m) @ [InsertMigration (mg_version m) (mg_name m) (mg_checksum m)]) @
     [SelectMigrations, SelectSchemaObjects (sn_schema names), ProbeStreams, ProbeEvents]"

text \<open>A read of the migrations table, and the check of the schema, as a trace shows them.\<close>

lemma query_trace: "trace_pg db i (query s) d = [Queried s (fst (pg_query db d i s))]"
  by (simp split: prod.split)

lemma readMigrationRows_trace:
  assumes "run_pg db i (readMigrationRows query) d = (Inr rows, d')"
  shows "\<exists>q. trace_pg db i (readMigrationRows query) d = [Queried SelectMigrations (Inr q)] \<and> pr_rows q = rows"
  using assms by (auto simp: readMigrationRows_def run_bindQ_Inr run_query trace_bindQ query_trace
    simp del: trace_pg.simps(5) bindQ.simps(5) run_pg.simps(5))

lemma requireSchemaObjects_trace:
  assumes "run_pg db i (requireSchemaObjects query names) d = (Inr u, d')"
  shows "\<exists>q. Queried (SelectSchemaObjects (sn_schema names)) (Inr q) \<in> set (trace_pg db i (requireSchemaObjects query names) d) \<and>
    schema_complete (pr_rows q) \<and>
    statements (trace_pg db i (requireSchemaObjects query names) d) =
      [SelectSchemaObjects (sn_schema names), ProbeStreams, ProbeEvents]"
proof -
  let ?s = "SelectSchemaObjects (sn_schema names)"
  obtain q d1 where q: "run_pg db i (query ?s) d = (Inr q, d1)"
    using assms unfolding requireSchemaObjects_def run_bindQ_Inr by blast
  have tr: "trace_pg db i (query ?s) d = [Queried ?s (Inr q)]"
    using q unfolding query_trace run_query by simp
  show ?thesis
  proof (cases "pr_rows q")
    case Nil
    then show ?thesis
      using assms q unfolding requireSchemaObjects_def run_bindQ by (simp add: Let_def del: run_pg.simps(5))
  next
    case (Cons row rest)
    then show ?thesis
      using assms q tr unfolding requireSchemaObjects_def run_bindQ trace_bindQ
      by (auto simp: Let_def run_bindQ trace_bindQ run_query query_trace schema_complete_def run_liftQ
        simp del: run_pg.simps(5) trace_pg.simps(5) bindQ.simps(5) split: if_splits prod.splits sum.splits)
  qed
qed

lemma apply_or_check_trace:
  assumes "run_pg db i (apply_or_check m rows) d = (Inr u, d')"
  shows "\<exists>recorded. statements (trace_pg db i (apply_or_check m rows) d) =
      (if recorded then []
       else map Execute (mg_statements m) @ [InsertMigration (mg_version m) (mg_name m) (mg_checksum m)]) \<and>
    (if recorded then migration_recorded rows m else \<forall>row \<in> set rows. \<exists>v < mg_version m. row_version row = Some v)"
proof -
  obtain existing where f: "find_version (\<lambda>v. v > mg_version m) rows = Inr None"
      "find_version (\<lambda>v. v = mg_version m) rows = Inr existing"
    using assms by (auto simp: apply_or_check_def run_bindQ_Inr run_liftQ split: if_splits)
  show ?thesis
  proof (cases existing)
    case (Some row)
    then have "requireMigrationRows rows m = Inr ()"
      using assms f by (simp add: apply_or_check_def run_liftQ)
    then show ?thesis
      using Some f requireMigrationRows_recorded by (intro exI [of _ True]) (simp add: apply_or_check_def)
  next
    case None
    have "\<forall>row \<in> set rows. \<exists>v < mg_version m. row_version row = Some v"
      using find_version_None [OF f(1)] find_version_None [OF f(2) [unfolded None]]
      by (metis not_less option.inject order_less_le)
    moreover obtain d1 where "run_pg db i (executeAll (mg_statements m)) d = (Inr (), d1)"
      using assms f None by (auto simp: apply_or_check_def run_bindQ_Inr)
    ultimately show ?thesis
      using f None executeAll_trace [of db i "mg_statements m" d]
      by (intro exI [of _ False])
        (simp add: apply_or_check_def trace_bindQ query_trace run_query
          del: run_pg.simps(5) trace_pg.simps(5) bindQ.simps(5) split: prod.split sum.split)
  qed
qed

lemma checked_migration_trace:
  assumes "run_pg db i (checked_migration names m) d = (Inr u, d')"
  shows "\<exists>recorded before after objs. statements (trace_pg db i (checked_migration names m) d) =
      migration_statements names m recorded \<and>
    Queried SelectMigrations (Inr before) \<in> set (trace_pg db i (checked_migration names m) d) \<and>
    (if recorded then migration_recorded (pr_rows before) m
     else \<forall>row \<in> set (pr_rows before). \<exists>v < mg_version m. row_version row = Some v) \<and>
    Queried SelectMigrations (Inr after) \<in> set (trace_pg db i (checked_migration names m) d) \<and>
    migration_recorded (pr_rows after) m \<and>
    Queried (SelectSchemaObjects (sn_schema names)) (Inr objs) \<in> set (trace_pg db i (checked_migration names m) d) \<and>
    schema_complete (pr_rows objs)"
proof -
  obtain q1 d1 q2 d2 q3 d3 before d4 d5 after d6 where
    q: "run_pg db i (query (AdvisoryLock MIGRATION_LOCK_NAMESPACE MIGRATION_LOCK_KEY)) d = (Inr q1, d1)"
      "run_pg db i (query CreateSchema) d1 = (Inr q2, d2)"
      "run_pg db i (query CreateMigrationTable) d2 = (Inr q3, d3)"
    and b: "run_pg db i (readMigrationRows query) d3 = (Inr before, d4)"
    and ap: "run_pg db i (apply_or_check m before) d4 = (Inr (), d5)"
    and a: "run_pg db i (readMigrationRows query) d5 = (Inr after, d6)"
    and r: "requireMigrationRows after m = Inr ()"
    and ob: "run_pg db i (requireSchemaObjects query names) d6 = (Inr (), d')"
    using assms unfolding checked_migration_def run_bindQ_Inr run_liftQ by auto
  obtain qb qa qo where tr: "trace_pg db i (readMigrationRows query) d3 = [Queried SelectMigrations (Inr qb)]" "pr_rows qb = before"
      "trace_pg db i (readMigrationRows query) d5 = [Queried SelectMigrations (Inr qa)]" "pr_rows qa = after"
      "Queried (SelectSchemaObjects (sn_schema names)) (Inr qo) \<in> set (trace_pg db i (requireSchemaObjects query names) d6)"
      "schema_complete (pr_rows qo)" "statements (trace_pg db i (requireSchemaObjects query names) d6) =
      [SelectSchemaObjects (sn_schema names), ProbeStreams, ProbeEvents]"
    using readMigrationRows_trace [OF b] readMigrationRows_trace [OF a] requireSchemaObjects_trace [OF ob] by blast
  obtain recorded where ddl: "statements (trace_pg db i (apply_or_check m before) d4) =
      (if recorded then []
       else map Execute (mg_statements m) @ [InsertMigration (mg_version m) (mg_name m) (mg_checksum m)])"
    "if recorded then migration_recorded before m else \<forall>row \<in> set before. \<exists>v < mg_version m. row_version row = Some v"
    using apply_or_check_trace [OF ap] by blast
  have t: "trace_pg db i (checked_migration names m) d =
      [Queried (AdvisoryLock MIGRATION_LOCK_NAMESPACE MIGRATION_LOCK_KEY) (Inr q1), Queried CreateSchema (Inr q2),
       Queried CreateMigrationTable (Inr q3), Queried SelectMigrations (Inr qb)] @
      trace_pg db i (apply_or_check m before) d4 @ [Queried SelectMigrations (Inr qa)] @
      trace_pg db i (requireSchemaObjects query names) d6"
    using q b ap a r tr unfolding checked_migration_def trace_bindQ query_trace run_bindQ run_liftQ run_query
    by simp
  show ?thesis
    unfolding t using tr ddl requireMigrationRows_recorded [OF r]
    by (intro exI [of _ recorded] exI [of _ qb] exI [of _ qa] exI [of _ qo]) (simp add: migration_statements_def)
qed

text \<open>The end of a transaction, committed or rolled back.\<close>

lemma with_client_done:
  "run_pg db i body d = (Inr (), d') \<Longrightarrow>
    run_pg db i (with_client env body) d = (Inr (), pg_release db d' i None) \<and>
    trace_pg db i (with_client env body) d = trace_pg db i body d @ [Released None]"
  by (simp add: with_client_def run_bindQ run_catchQ trace_bindQ trace_catchQ)

lemma with_client_failed:
  assumes "run_pg db i body d = (Inl e, d')"
  shows "\<exists>r x d''. run_pg db i (with_client env body) d = (Inl e, d'') \<and>
    trace_pg db i (with_client env body) d = trace_pg db i body d @ [Queried Rollback r, Released x]"
  using assms
  by (simp add: with_client_def run_bindQ run_catchQ trace_bindQ trace_catchQ rollbackPreservingPrimaryError_def
    split: prod.split sum.split)

lemma committed_simps [simp]:
  "\<not> committed []" "committed (t @ u) \<longleftrightarrow> committed t \<or> committed u"
  "committed (Queried s r # t) \<longleftrightarrow> s = Commit \<and> (\<exists>q. r = Inr q) \<or> committed t"
  "committed (Connected a # t) = committed t" "committed (Released x # t) = committed t"
  by (auto simp: committed_def)

lemma migration_body_trace:
  assumes run: "run_pg db i (migration_body names m) d = (r, d')"
  shows "committed (trace_pg db i (migration_body names m) d) \<longleftrightarrow> r = Inr ()"
    "r = Inr () \<Longrightarrow> \<exists>q d1 d2 p. run_pg db i (checked_migration names m) d1 = (Inr (), d2) \<and>
      trace_pg db i (migration_body names m) d = Queried BeginReadCommitted (Inr q) # trace_pg db i (checked_migration names m) d1 @
        [Queried Commit (Inr p)]"
proof -
  obtain b d1 where b: "pg_query db d i BeginReadCommitted = (b, d1)" by (cases "pg_query db d i BeginReadCommitted")
  obtain c d2 where c: "run_pg db i (checked_migration names m) d1 = (c, d2)"
    by (cases "run_pg db i (checked_migration names m) d1")
  obtain a d3 where a: "pg_query db d2 i Commit = (a, d3)" by (cases "pg_query db d2 i Commit")
  note plain = plain_not_committed [OF checked_migration_plain, of db i names m d1]
  note defs = migration_body_def run_bindQ run_query trace_bindQ query_trace
  note less = run_pg.simps(5) trace_pg.simps(5) bindQ.simps(5)
  show "committed (trace_pg db i (migration_body names m) d) \<longleftrightarrow> r = Inr ()"
    using run b c a plain by (cases b; cases c; cases a) (auto simp: defs simp del: less)
  show "\<exists>q d1 d2 p. run_pg db i (checked_migration names m) d1 = (Inr (), d2) \<and>
      trace_pg db i (migration_body names m) d = Queried BeginReadCommitted (Inr q) # trace_pg db i (checked_migration names m) d1 @
        [Queried Commit (Inr p)]" if "r = Inr ()"
    using that run b c a by (cases b; cases c; cases a) (auto simp: defs simp del: less)
qed

definition migrated ::
    "schema_names \<Rightarrow> migration \<Rightarrow> pg_call list \<Rightarrow> bool" where
  "migrated names m t \<longleftrightarrow>
     (\<exists>recorded before after objs.
        statements t = BeginReadCommitted # migration_statements names m recorded @ [Commit] \<and>
        Queried SelectMigrations (Inr before) \<in> set t \<and>
        (if recorded then migration_recorded (pr_rows before) m
         else \<forall>row \<in> set (pr_rows before). \<exists>v < mg_version m. row_version row = Some v) \<and>
        Queried SelectMigrations (Inr after) \<in> set t \<and> migration_recorded (pr_rows after) m \<and>
        Queried (SelectSchemaObjects (sn_schema names)) (Inr objs) \<in> set t \<and> schema_complete (pr_rows objs))"

lemma migration_outcome:
  assumes run: "run_pg db i (migratePostgresEventStore env schema) d = (r, d')"
    and t: "t = trace_pg db i (migratePostgresEventStore env schema) d"
  shows "committed t \<longleftrightarrow> r = Inr ()"
    "r = Inr () \<Longrightarrow> \<exists>names. schemaNames schema = Inr names \<and> migrated names (migrationFor env names) t"
proof -
  have "(committed t \<longleftrightarrow> r = Inr ()) \<and>
    (r = Inr () \<longrightarrow> (\<exists>names. schemaNames schema = Inr names \<and> migrated names (migrationFor env names) t))"
  proof (cases "schemaNames schema")
    case (Inl e)
    then show ?thesis using run t by (auto simp: migration_checked)
  next
    case (Inr names)
    let ?m = "migrationFor env names"
    let ?body = "migration_body names ?m"
    obtain a d1 where con: "pg_connect db d i = (a, d1)" by (cases "pg_connect db d i")
    note start = run [unfolded migration_checked Inr] t [unfolded migration_checked Inr]
    show ?thesis
    proof (cases a)
      case (Inl e)
      then show ?thesis using start con by auto
    next
      case a: (Inr u)
      obtain b d2 where body: "run_pg db i ?body d1 = (b, d2)" by (cases "run_pg db i ?body d1")
      note bt = migration_body_trace [OF body]
      show ?thesis
      proof (cases b)
        case (Inl e)
        obtain r' x d'' where "run_pg db i (with_client env ?body) d1 = (Inl e, d'')"
            "trace_pg db i (with_client env ?body) d1 = trace_pg db i ?body d1 @ [Queried Rollback r', Released x]"
          using with_client_failed [OF body [unfolded Inl]] by blast
        then show ?thesis using start con a bt(1) Inl by auto
      next
        case (Inr w)
        then have b: "b = Inr ()" by simp
        obtain q d3 d4 p where ch: "run_pg db i (checked_migration names ?m) d3 = (Inr (), d4)"
          and tr: "trace_pg db i ?body d1 = Queried BeginReadCommitted (Inr q) # trace_pg db i (checked_migration names ?m) d3 @
            [Queried Commit (Inr p)]"
          using bt(2) [OF b] by blast
        have r: "r = Inr ()" using with_client_done [OF body [unfolded b], of env] start(1) con a by simp
        have t': "t = Connected (Inr ()) # trace_pg db i ?body d1 @ [Released None]"
          using with_client_done [OF body [unfolded b], of env] start(2) con a by simp
        have "migrated names ?m t"
          unfolding migrated_def t' tr using checked_migration_trace [OF ch] by auto
        then show ?thesis using r t' tr \<open>schemaNames schema = Inr names\<close> by auto
      qed
    qed
  qed
  then show "committed t \<longleftrightarrow> r = Inr ()"
    "r = Inr () \<Longrightarrow> \<exists>names. schemaNames schema = Inr names \<and> migrated names (migrationFor env names) t"
    by blast+
qed

end
