(* ===== verification/PostgresCatalog.thy ===== *)
theory PostgresCatalog
  imports PostgresServer
begin

text \<open>
  What the SQL of \<open>src/adapters/storage/postgres-event-store.ts\<close> says of the system catalog: the query that
  checks the objects of the schema, over the tables of \<open>pg_catalog\<close> it joins, and the objects that the
  statements of the migration create. The main facts: the check passes exactly for a complete schema, and
  the statements of the migration complete one.
\<close>

section \<open>The catalog\<close>

record pg_namespace =
  ns_oid :: nat
  ns_nspname :: jstr

record pg_class =
  cl_oid :: nat
  cl_relnamespace :: nat
  cl_relname :: jstr
  cl_relkind :: char

record pg_trigger =
  tg_relid :: nat
  tg_name :: jstr
  tg_isinternal :: bool
  tg_enabled :: char
  tg_foid :: nat

record pg_proc =
  pc_oid :: nat
  pc_pronamespace :: nat
  pc_proname :: jstr
  pc_pronargs :: nat

record pg_catalog =
  ct_namespaces :: "pg_namespace list"
  ct_classes :: "pg_class list"
  ct_triggers :: "pg_trigger list"
  ct_procs :: "pg_proc list"
  ct_next :: nat \<comment> \<open>the next oid\<close>

section \<open>The query of the check\<close>

definition expected_triggers :: "(jstr \<times> jstr) list" where
  "expected_triggers = map (\<lambda>(t, n). (js t, js n))
     [(''continuation_events'', ''pausemesh_events_no_update_delete''),
      (''continuation_events'', ''pausemesh_events_no_truncate''),
      (''continuation_streams'', ''pausemesh_streams_no_delete''),
      (''continuation_streams'', ''pausemesh_streams_no_truncate''),
      (''pausemesh_schema_migrations'', ''pausemesh_migrations_no_update_delete''),
      (''pausemesh_schema_migrations'', ''pausemesh_migrations_no_truncate'')]"

definition reject_mutation :: jstr where
  "reject_mutation = js ''pausemesh_reject_mutation''"

text \<open>\<open>JOIN table ON condition\<close>, with the rest of the query as a function of the row that is joined.\<close>

definition joined :: "'a list \<Rightarrow> ('a \<Rightarrow> bool) \<Rightarrow> ('a \<Rightarrow> 'b list) \<Rightarrow> 'b list" where
  "joined rows condition rest = concat (map rest (filter condition rows))"

lemma in_joined: "x \<in> set (joined rows condition rest) \<longleftrightarrow> (\<exists>y \<in> set rows. condition y \<and> x \<in> set (rest y))"
  by (auto simp: joined_def)

text \<open>The joins below an expected trigger: its name, for each way to find it on its table with its function.\<close>

definition found_triggers :: "pg_catalog \<Rightarrow> jstr \<Rightarrow> jstr \<Rightarrow> jstr \<Rightarrow> jstr list" where
  "found_triggers cat schema table_name trigger_name =
     joined (ct_namespaces cat) (\<lambda>n. ns_nspname n = schema) (\<lambda>n.
     joined (ct_classes cat) (\<lambda>c. cl_relnamespace c = ns_oid n \<and> cl_relname c = table_name \<and> cl_relkind c = CHR ''r'') (\<lambda>c.
     joined (ct_triggers cat) (\<lambda>t. tg_relid t = cl_oid c \<and> tg_name t = trigger_name \<and> \<not> tg_isinternal t \<and>
       tg_enabled t \<in> {CHR ''O'', CHR ''A''}) (\<lambda>t.
     joined (ct_procs cat) (\<lambda>f. pc_oid f = tg_foid t) (\<lambda>f.
     joined (ct_namespaces cat) (\<lambda>m. ns_oid m = pc_pronamespace f \<and> ns_nspname m = schema) (\<lambda>m.
     if pc_proname f = reject_mutation \<and> pc_pronargs f = 0 then [trigger_name] else [])))))"

definition valid_triggers :: "pg_catalog \<Rightarrow> jstr \<Rightarrow> jstr list" where
  "valid_triggers cat schema =
     joined expected_triggers (\<lambda>_. True) (\<lambda>(table_name, trigger_name). found_triggers cat schema table_name trigger_name)"

definition table_exists :: "pg_catalog \<Rightarrow> jstr \<Rightarrow> string \<Rightarrow> bool" where
  "table_exists cat schema name \<longleftrightarrow>
     list_ex (\<lambda>c. list_ex (\<lambda>n. ns_oid n = cl_relnamespace c \<and> ns_nspname n = schema) (ct_namespaces cat) \<and>
       cl_relname c = js name \<and> cl_relkind c = CHR ''r'') (ct_classes cat)"

definition schema_objects_row :: "pg_catalog \<Rightarrow> jstr \<Rightarrow> json" where
  "schema_objects_row cat schema = obj
     [(''streams_exists'', JBool (table_exists cat schema ''continuation_streams'')),
      (''events_exists'', JBool (table_exists cat schema ''continuation_events'')),
      (''migrations_exists'', JBool (table_exists cat schema ''pausemesh_schema_migrations'')),
      (''missing_trigger_count'',
       JStr (dec (length (filter (\<lambda>(t, n). n \<notin> set (valid_triggers cat schema)) expected_triggers))))]"

section \<open>What the migration creates\<close>

text \<open>A statement of the migration, with the schema still to be filled in, as the object it creates.\<close>

datatype 'a ddl = CreateTable 'a | CreateFunction 'a | CreateTrigger 'a 'a 'a

fun strip :: "'a list \<Rightarrow> 'a list \<Rightarrow> 'a list option" where
  "strip [] s = Some s"
| "strip (p # ps) [] = None"
| "strip (p # ps) (c # s) = (if p = c then strip ps s else None)"

fun after_text :: "'a list \<Rightarrow> 'a list \<Rightarrow> 'a list option" where
  "after_text p [] = strip p []"
| "after_text p (c # s) = (case strip p (c # s) of Some r \<Rightarrow> Some r | None \<Rightarrow> after_text p s)"

text \<open>
  The parser is the same for characters and for code units: \<open>k\<close> turns a literal into one or the other. A
  name ends at its quotation mark, or at the end of the word.
\<close>

definition quoted :: "(string \<Rightarrow> 'a list) \<Rightarrow> 'a list \<Rightarrow> 'a list" where
  "quoted k = takeWhile (\<lambda>c. [c] \<noteq> k [CHR 0x22])"

definition first_word :: "(string \<Rightarrow> 'a list) \<Rightarrow> 'a list \<Rightarrow> 'a list" where
  "first_word k = takeWhile (\<lambda>c. [c] \<noteq> k [CHR 0x0A] \<and> [c] \<noteq> k [CHR 0x20])"

definition ddl_parse :: "(string \<Rightarrow> 'a list) \<Rightarrow> 'a list \<Rightarrow> 'a list ddl option" where
  \<open>ddl_parse k statement =
     (case strip (k ''CREATE TABLE {{schema}}."'') statement of
        Some r \<Rightarrow> Some (CreateTable (quoted k r))
      | None \<Rightarrow>
     (case strip (k ''CREATE FUNCTION {{schema}}."'') statement of
        Some r \<Rightarrow> Some (CreateFunction (quoted k r))
      | None \<Rightarrow>
     (case strip (k ''CREATE TRIGGER '') statement of
        None \<Rightarrow> None
      | Some r \<Rightarrow>
     (case after_text (k '' ON {{schema}}."'') r of
        None \<Rightarrow> None
      | Some t \<Rightarrow>
     (case after_text (k ''EXECUTE FUNCTION {{schema}}."'') t of
        None \<Rightarrow> None
      | Some f \<Rightarrow> Some (CreateTrigger (first_word k r) (quoted k t) (quoted k f)))))))\<close>

abbreviation ddl_of :: "jstr \<Rightarrow> jstr ddl option" where
  "ddl_of \<equiv> ddl_parse js"

text \<open>
  Its effect, in the namespace \<open>ns\<close>: an error, as PostgreSQL gives, where the object exists already or one
  that it refers to does not.
\<close>

definition relation :: "pg_catalog \<Rightarrow> nat \<Rightarrow> jstr \<Rightarrow> pg_class option" where
  "relation cat ns name = find (\<lambda>c. cl_relnamespace c = ns \<and> cl_relname c = name) (ct_classes cat)"

definition nullary :: "pg_catalog \<Rightarrow> nat \<Rightarrow> jstr \<Rightarrow> pg_proc option" where
  "nullary cat ns name = find (\<lambda>f. pc_pronamespace f = ns \<and> pc_proname f = name \<and> pc_pronargs f = 0) (ct_procs cat)"

fun ddl_run :: "nat \<Rightarrow> jstr ddl \<Rightarrow> pg_catalog \<Rightarrow> pg_catalog option" where
  "ddl_run ns (CreateTable name) cat =
     (if relation cat ns name \<noteq> None then None
      else Some (cat\<lparr>ct_classes := ct_classes cat @
        [\<lparr>cl_oid = ct_next cat, cl_relnamespace = ns, cl_relname = name, cl_relkind = CHR ''r''\<rparr>],
        ct_next := ct_next cat + 1\<rparr>))"
| "ddl_run ns (CreateFunction name) cat =
     (if nullary cat ns name \<noteq> None then None
      else Some (cat\<lparr>ct_procs := ct_procs cat @
        [\<lparr>pc_oid = ct_next cat, pc_pronamespace = ns, pc_proname = name, pc_pronargs = 0\<rparr>],
        ct_next := ct_next cat + 1\<rparr>))"
| "ddl_run ns (CreateTrigger name table function) cat =
     (case (relation cat ns table, nullary cat ns function) of
        (Some c, Some f) \<Rightarrow>
          if list_ex (\<lambda>t. tg_relid t = cl_oid c \<and> tg_name t = name) (ct_triggers cat) then None
          else Some (cat\<lparr>ct_triggers := ct_triggers cat @
            [\<lparr>tg_relid = cl_oid c, tg_name = name, tg_isinternal = False, tg_enabled = CHR ''O'', tg_foid = pc_oid f\<rparr>]\<rparr>)
      | _ \<Rightarrow> None)"

fun ddl_all :: "nat \<Rightarrow> jstr list \<Rightarrow> pg_catalog \<Rightarrow> pg_catalog option" where
  "ddl_all ns [] cat = Some cat"
| "ddl_all ns (s # ss) cat =
     (case ddl_of s of
        None \<Rightarrow> None
      | Some d \<Rightarrow> (case ddl_run ns d cat of None \<Rightarrow> None | Some cat' \<Rightarrow> ddl_all ns ss cat'))"

section \<open>The check decides completeness\<close>

text \<open>A trigger of the table, enabled, that calls the function of the schema which rejects the mutation.\<close>

definition guarded :: "pg_catalog \<Rightarrow> jstr \<Rightarrow> jstr \<Rightarrow> jstr \<Rightarrow> bool" where
  "guarded cat schema table trigger \<longleftrightarrow>
     (\<exists>n \<in> set (ct_namespaces cat). ns_nspname n = schema \<and>
     (\<exists>c \<in> set (ct_classes cat). (cl_relnamespace c = ns_oid n \<and> cl_relname c = table \<and> cl_relkind c = CHR ''r'') \<and>
     (\<exists>t \<in> set (ct_triggers cat). (tg_relid t = cl_oid c \<and> tg_name t = trigger \<and> \<not> tg_isinternal t \<and>
        tg_enabled t \<in> {CHR ''O'', CHR ''A''}) \<and>
     (\<exists>f \<in> set (ct_procs cat). pc_oid f = tg_foid t \<and>
     (\<exists>m \<in> set (ct_namespaces cat). (ns_oid m = pc_pronamespace f \<and> ns_nspname m = schema) \<and>
        pc_proname f = reject_mutation \<and> pc_pronargs f = 0)))))"

definition schema_complete :: "pg_catalog \<Rightarrow> jstr \<Rightarrow> bool" where
  "schema_complete cat schema \<longleftrightarrow>
     table_exists cat schema ''continuation_streams'' \<and> table_exists cat schema ''continuation_events'' \<and>
     table_exists cat schema ''pausemesh_schema_migrations'' \<and>
     (\<forall>(table, trigger) \<in> set expected_triggers. guarded cat schema table trigger)"

lemma distinct_triggers: "distinct (map snd expected_triggers)"
  by code_simp

lemma in_joined_and:
  "(\<And>y. x \<in> set (rest y) \<longleftrightarrow> P y \<and> e) \<Longrightarrow>
    x \<in> set (joined rows condition rest) \<longleftrightarrow> (\<exists>y \<in> set rows. condition y \<and> P y) \<and> e"
  by (auto simp: in_joined)

lemma found_iff: "x \<in> set (found_triggers cat schema table trigger) \<longleftrightarrow> guarded cat schema table trigger \<and> x = trigger"
  unfolding found_triggers_def guarded_def by (intro in_joined_and) auto

lemma valid_triggers_iff:
  assumes "(table, trigger) \<in> set expected_triggers"
  shows "trigger \<in> set (valid_triggers cat schema) \<longleftrightarrow> guarded cat schema table trigger"
proof -
  have same: "table' = table" if "(table', trigger) \<in> set expected_triggers" for table'
    using that assms distinct_triggers by (metis distinct_map inj_onD prod.inject snd_conv)
  have "trigger \<in> set (valid_triggers cat schema) \<longleftrightarrow>
      (\<exists>(table', trigger') \<in> set expected_triggers. guarded cat schema table' trigger' \<and> trigger' = trigger)"
    by (auto simp: valid_triggers_def in_joined found_iff)
  then show ?thesis using same assms by blast
qed

lemma missing_none:
  "filter (\<lambda>(t, n). n \<notin> set (valid_triggers cat schema)) expected_triggers = [] \<longleftrightarrow>
    (\<forall>(table, trigger) \<in> set expected_triggers. guarded cat schema table trigger)"
  using valid_triggers_iff by (fastforce simp: filter_empty_conv)

text \<open>The check, on a server whose catalog is \<open>cat\<close>: it fails at once, or goes on to probe the two tables.\<close>

lemma schema_check:
  assumes "pg_query db d i (SelectSchemaObjects (sn_schema names)) = (Inr q, d1)"
    and "pr_rows q = [schema_objects_row cat (sn_schema names)]"
  shows "run_pg db i (requireSchemaObjects query names) d =
    (if schema_complete cat (sn_schema names)
     then run_pg db i (bindQ (query ProbeStreams) (\<lambda>_. bindQ (query ProbeEvents) (\<lambda>_. PRet ()))) d1
     else (Inl (PostgresEventStoreError SCHEMA_INCOMPLETE
       (js ''PostgreSQL event-store schema objects are incomplete'')), d1))"
proof -
  let ?missing = "filter (\<lambda>(t, n). n \<notin> set (valid_triggers cat (sn_schema names))) expected_triggers"
  have "length ?missing \<le> 6"
    by (rule order.trans [OF length_filter_le]) (simp add: expected_triggers_def)
  then have "parseDatabaseVersion (Some (JStr (dec (length ?missing)))) l = Inr (int (length ?missing))" for l
    using parse_version_text [of "int (length ?missing)" l] int_str_dec [of "int (length ?missing)"]
    by (simp add: safe_int_def MAX_SAFE_INTEGER_def)
  then show ?thesis
    using assms missing_none [of cat "sn_schema names"]
    by (auto simp: requireSchemaObjects_def run_bindQ run_liftQ schema_complete_def schema_objects_row_def
        obj_def js_inject Let_def split: if_splits)
qed

section \<open>The migration completes a schema\<close>

definition migration_objects :: "jstr ddl list" where
  "migration_objects =
     [CreateTable (js ''continuation_streams''), CreateTable (js ''continuation_events''),
      CreateFunction reject_mutation] @
     map (\<lambda>(table, trigger). CreateTrigger trigger table reject_mutation) expected_triggers"

text \<open>The statements are ASCII, so they can be read as characters.\<close>

lemma strip_js: "strip (js p) (js s) = map_option js (strip p s)"
  by (induction p s rule: strip.induct) (simp_all add: js_def ch_inject)

lemma after_js: "after_text (js p) (js s) = map_option js (after_text p s)"
proof (induction p s rule: after_text.induct)
  case (1 p)
  then show ?case using strip_js [of p "[]"] by (simp add: js_def [abs_def])
next
  case (2 p c s)
  then show ?case using strip_js [of p "c # s"] by (auto simp: js_def [abs_def] split: option.split)
qed

lemma quoted_js: "quoted js (js s) = js (quoted id s)"
  by (simp add: quoted_def js_def takeWhile_map comp_def)

lemma first_word_js: "first_word js (js s) = js (first_word id s)"
  by (simp add: first_word_def js_def takeWhile_map comp_def)

lemma ddl_parse_js: "ddl_of (js s) = map_option (map_ddl js) (ddl_parse id s)"
  by (simp add: ddl_parse_def strip_js after_js quoted_js first_word_js split: option.split del: js_simps)

fun text_lines :: "string list \<Rightarrow> string" where
  "text_lines [] = []"
| "text_lines [l] = l"
| "text_lines (l # ls) = l @ CHR 0x0A # text_lines ls"

lemma lines_js: "lines ls = js (text_lines ls)"
  unfolding lines_def by (induction ls rule: text_lines.induct) (simp_all add: js_def)

lemma statements_objects: "map ddl_of canonicalMigrationStatements = map Some migration_objects"
  unfolding canonicalMigrationStatements_def list.map lines_js ddl_parse_js by code_simp

fun ddl_runs :: "nat \<Rightarrow> jstr ddl list \<Rightarrow> pg_catalog \<Rightarrow> pg_catalog option" where
  "ddl_runs ns [] cat = Some cat"
| "ddl_runs ns (d # ds) cat = (case ddl_run ns d cat of None \<Rightarrow> None | Some cat' \<Rightarrow> ddl_runs ns ds cat')"

lemma ddl_all_runs: "map ddl_of ss = map Some ds \<Longrightarrow> ddl_all ns ss cat = ddl_runs ns ds cat"
  by (induction ss arbitrary: ds cat) (auto split: option.split)

text \<open>
  What the migration finds: the schema and the table of its migrations, made by the two statements before,
  none of its own objects, and oids that are not used yet.
\<close>

definition schema_fresh :: "pg_catalog \<Rightarrow> nat \<Rightarrow> jstr \<Rightarrow> bool" where
  "schema_fresh cat ns schema \<longleftrightarrow>
     \<lparr>ns_oid = ns, ns_nspname = schema\<rparr> \<in> set (ct_namespaces cat) \<and>
     relation cat ns (js ''continuation_streams'') = None \<and> relation cat ns (js ''continuation_events'') = None \<and>
     nullary cat ns reject_mutation = None \<and>
     (\<exists>c. relation cat ns (js ''pausemesh_schema_migrations'') = Some c \<and> cl_relkind c = CHR ''r'' \<and>
        cl_oid c < ct_next cat \<and> list_all (\<lambda>t. tg_relid t \<noteq> cl_oid c) (ct_triggers cat)) \<and>
     list_all (\<lambda>t. tg_relid t < ct_next cat) (ct_triggers cat)"

definition new_table :: "nat \<Rightarrow> nat \<Rightarrow> jstr \<Rightarrow> pg_class" where
  "new_table oid ns name = \<lparr>cl_oid = oid, cl_relnamespace = ns, cl_relname = name, cl_relkind = CHR ''r''\<rparr>"

definition new_trigger :: "nat \<Rightarrow> nat \<Rightarrow> jstr \<Rightarrow> pg_trigger" where
  "new_trigger relid foid name =
     \<lparr>tg_relid = relid, tg_name = name, tg_isinternal = False, tg_enabled = CHR ''O'', tg_foid = foid\<rparr>"

text \<open>The triggers of a list of tables, when the tables and the function are there.\<close>

lemma trigger_runs:
  assumes "\<forall>(table, trigger) \<in> set ts. \<exists>c. relation cat ns table = Some c \<and> oid table = cl_oid c \<and>
      (\<forall>t \<in> set (ct_triggers cat). tg_relid t = cl_oid c \<longrightarrow> tg_name t \<notin> snd ` set ts)"
    and "nullary cat ns f = Some p" "distinct (map snd ts)"
  shows "ddl_runs ns (map (\<lambda>(table, trigger). CreateTrigger trigger table f) ts) cat =
    Some (cat\<lparr>ct_triggers := ct_triggers cat @ map (\<lambda>(table, trigger). new_trigger (oid table) (pc_oid p) trigger) ts\<rparr>)"
  using assms
proof (induction ts arbitrary: cat)
  case (Cons x ts)
  obtain table trigger where x: "x = (table, trigger)" by (cases x)
  obtain c where c: "relation cat ns table = Some c" "oid table = cl_oid c"
      "\<forall>t \<in> set (ct_triggers cat). tg_relid t = cl_oid c \<longrightarrow> tg_name t \<noteq> trigger"
    using Cons.prems(1) x by auto
  let ?cat = "cat\<lparr>ct_triggers := ct_triggers cat @ [new_trigger (oid table) (pc_oid p) trigger]\<rparr>"
  have run: "ddl_run ns (CreateTrigger trigger table f) cat = Some ?cat"
    using c Cons.prems(2) by (auto simp: new_trigger_def list_ex_iff)
  have same: "relation ?cat ns = relation cat ns" "nullary ?cat ns f = Some p"
    using Cons.prems(2) by (simp_all add: relation_def nullary_def fun_eq_iff)
  have "\<forall>(table', trigger') \<in> set ts. \<exists>c. relation ?cat ns table' = Some c \<and> oid table' = cl_oid c \<and>
      (\<forall>t \<in> set (ct_triggers ?cat). tg_relid t = cl_oid c \<longrightarrow> tg_name t \<notin> snd ` set ts)"
    using Cons.prems(1,3) unfolding same x by (fastforce simp: new_trigger_def)
  then have "ddl_runs ns (map (\<lambda>(table, trigger). CreateTrigger trigger table f) ts) ?cat =
      Some (?cat\<lparr>ct_triggers := ct_triggers ?cat @ map (\<lambda>(table, trigger). new_trigger (oid table) (pc_oid p) trigger) ts\<rparr>)"
    using Cons.IH same(2) Cons.prems(3) by simp
  then show ?case using run by (simp add: x del: ddl_run.simps)
qed simp

lemma find_appended: "find P (xs @ ys) = (case find P xs of None \<Rightarrow> find P ys | Some x \<Rightarrow> Some x)"
  by (induction xs) auto

lemma find_relation: "relation cat ns name = Some c \<Longrightarrow> c \<in> set (ct_classes cat) \<and> cl_relnamespace c = ns \<and> cl_relname c = name"
  by (auto simp: relation_def find_Some_iff in_set_conv_nth)

lemma find_nullary:
  "nullary cat ns name = Some f \<Longrightarrow> f \<in> set (ct_procs cat) \<and> pc_pronamespace f = ns \<and> pc_proname f = name \<and> pc_pronargs f = 0"
  by (auto simp: nullary_def find_Some_iff in_set_conv_nth)

lemma guardedI:
  assumes "n \<in> set (ct_namespaces cat)" "c \<in> set (ct_classes cat)" "new_trigger (cl_oid c) (pc_oid f) trigger \<in> set (ct_triggers cat)"
    and "f \<in> set (ct_procs cat)" "ns_nspname n = schema" "cl_relnamespace c = ns_oid n" "cl_relname c = table" "cl_relkind c = CHR ''r''"
    and "pc_pronamespace f = ns_oid n" "pc_proname f = reject_mutation" "pc_pronargs f = 0"
  shows "guarded cat schema table trigger"
  unfolding guarded_def
  by (rule bexI [OF _ assms(1)], intro conjI assms(5), rule bexI [OF _ assms(2)], intro conjI assms(6-8),
    rule bexI [OF _ assms(3)], simp add: new_trigger_def, rule bexI [OF _ assms(4)], simp add: new_trigger_def,
    rule bexI [OF _ assms(1)], simp add: assms)

lemma table_existsI:
  assumes "n \<in> set (ct_namespaces cat)" "c \<in> set (ct_classes cat)" "ns_nspname n = schema"
    and "cl_relnamespace c = ns_oid n" "cl_relname c = js name" "cl_relkind c = CHR ''r''"
  shows "table_exists cat schema name"
  unfolding table_exists_def list_ex_iff using assms by metis

text \<open>The catalog with the two tables and the function, and what it has of them.\<close>

definition with_tables :: "nat \<Rightarrow> pg_catalog \<Rightarrow> pg_catalog" where
  "with_tables ns cat = cat\<lparr>
     ct_classes := ct_classes cat @ [new_table (ct_next cat) ns (js ''continuation_streams''),
       new_table (ct_next cat + 1) ns (js ''continuation_events'')],
     ct_procs := ct_procs cat @
       [\<lparr>pc_oid = ct_next cat + 2, pc_pronamespace = ns, pc_proname = reject_mutation, pc_pronargs = 0\<rparr>],
     ct_next := ct_next cat + 3\<rparr>"

lemma table_names:
  "js ''continuation_streams'' \<noteq> js ''continuation_events''"
  "js ''continuation_streams'' \<noteq> js ''pausemesh_schema_migrations''"
  "js ''continuation_events'' \<noteq> js ''pausemesh_schema_migrations''"
  by (simp_all add: js_inject del: js_simps)

lemma trigger_tables:
  "(table, trigger) \<in> set expected_triggers \<Longrightarrow>
    table = js ''continuation_streams'' \<or> table = js ''continuation_events'' \<or> table = js ''pausemesh_schema_migrations''"
  by (auto simp: expected_triggers_def simp del: js_simps)

lemma each_table:
  "(js ''continuation_streams'', js ''pausemesh_streams_no_delete'') \<in> set expected_triggers"
  "(js ''continuation_events'', js ''pausemesh_events_no_truncate'') \<in> set expected_triggers"
  "(js ''pausemesh_schema_migrations'', js ''pausemesh_migrations_no_truncate'') \<in> set expected_triggers"
  by (simp_all add: expected_triggers_def del: js_simps)

lemma tables_made:
  assumes "schema_fresh cat ns schema"
  shows "ddl_runs ns (CreateTable (js ''continuation_streams'') # CreateTable (js ''continuation_events'') #
      CreateFunction reject_mutation # ds) cat = ddl_runs ns ds (with_tables ns cat)"
  using assms table_names
  by (simp add: schema_fresh_def with_tables_def relation_def nullary_def find_appended new_table_def
    numeral_3_eq_3 del: js_simps)

text \<open>Each table a trigger is meant for is there, and has no trigger yet.\<close>

lemma tables_found:
  assumes fresh: "schema_fresh cat ns schema" and "(table, trigger) \<in> set expected_triggers"
  obtains c where "relation (with_tables ns cat) ns table = Some c" "cl_relkind c = CHR ''r''"
    "\<forall>t \<in> set (ct_triggers (with_tables ns cat)). tg_relid t \<noteq> cl_oid c"
proof -
  have "tg_relid t \<noteq> ct_next cat \<and> tg_relid t \<noteq> Suc (ct_next cat)" if "t \<in> set (ct_triggers cat)" for t
    using fresh that by (auto simp: schema_fresh_def list_all_iff)
  then show thesis
    using that trigger_tables [OF assms(2)] fresh table_names
    by (auto simp: schema_fresh_def with_tables_def relation_def find_appended new_table_def list_all_iff simp del: js_simps)
qed

lemma function_found:
  assumes "schema_fresh cat ns schema"
  obtains p where "nullary (with_tables ns cat) ns reject_mutation = Some p"
  using assms by (auto simp: schema_fresh_def with_tables_def nullary_def find_appended)

lemma migration_completes:
  assumes fresh: "schema_fresh cat ns schema"
  shows "\<exists>cat'. ddl_all ns canonicalMigrationStatements cat = Some cat' \<and> schema_complete cat' schema"
proof -
  let ?cat = "with_tables ns cat" and ?n = "\<lparr>ns_oid = ns, ns_nspname = schema\<rparr>"
  obtain p where p: "nullary ?cat ns reject_mutation = Some p" by (rule function_found [OF fresh])
  define oid where "oid = (\<lambda>table. cl_oid (the (relation ?cat ns table)))"
  define cat' where "cat' = ?cat\<lparr>ct_triggers := ct_triggers ?cat @
      map (\<lambda>(table, trigger). new_trigger (oid table) (pc_oid p) trigger) expected_triggers\<rparr>"
  have "\<exists>c. relation ?cat ns table = Some c \<and> oid table = cl_oid c \<and>
      (\<forall>t \<in> set (ct_triggers ?cat). tg_relid t = cl_oid c \<longrightarrow> tg_name t \<notin> snd ` set expected_triggers)"
    if "(table, trigger) \<in> set expected_triggers" for table trigger
    by (rule tables_found [OF fresh that]) (auto simp: oid_def)
  then have run: "ddl_runs ns (map (\<lambda>(table, trigger). CreateTrigger trigger table reject_mutation) expected_triggers) ?cat =
      Some cat'"
    unfolding cat'_def by (intro trigger_runs [OF _ p distinct_triggers]) auto
  have n: "?n \<in> set (ct_namespaces cat')" using fresh by (simp add: schema_fresh_def cat'_def with_tables_def)
  have guard: "guarded cat' schema table trigger" and exist: "\<exists>c \<in> set (ct_classes cat'). cl_relnamespace c = ns \<and>
      cl_relname c = table \<and> cl_relkind c = CHR ''r''"
    if t: "(table, trigger) \<in> set expected_triggers" for table trigger
  proof -
    obtain c where c: "relation ?cat ns table = Some c" "cl_relkind c = CHR ''r''"
      by (rule tables_found [OF fresh t])
    have "new_trigger (oid table) (pc_oid p) trigger \<in> set (ct_triggers cat')"
      using t by (force simp: cat'_def)
    then have "new_trigger (cl_oid c) (pc_oid p) trigger \<in> set (ct_triggers cat')"
      using c(1) by (simp add: oid_def)
    moreover have "c \<in> set (ct_classes cat')" "p \<in> set (ct_procs cat')"
      using find_relation [OF c(1)] find_nullary [OF p] by (simp_all add: cat'_def)
    ultimately show "guarded cat' schema table trigger"
        "\<exists>c \<in> set (ct_classes cat'). cl_relnamespace c = ns \<and> cl_relname c = table \<and> cl_relkind c = CHR ''r''"
      using guardedI [OF n, of c p] find_relation [OF c(1)] find_nullary [OF p] c(2) by auto
  qed
  have tables: "table_exists cat' schema name" if "(js name, trigger) \<in> set expected_triggers" for name trigger
    using exist [OF that] table_existsI [OF n, of _ schema name] by auto
  have "schema_complete cat' schema"
    unfolding schema_complete_def using guard tables [OF each_table(1)] tables [OF each_table(2)] tables [OF each_table(3)] by auto
  then show ?thesis
    using run tables_made [OF fresh] unfolding ddl_all_runs [OF statements_objects] migration_objects_def by auto
qed

end
