(* ===== verification/PostgresProperties.thy ===== *)
theory PostgresProperties
  imports PostgresReplicas PostgresReference PostgresTrace PostgresCatalog Scenario
begin

text \<open>
  The properties of the PostgreSQL event store: replicas that append at once, an append alone, what a load
  accepts, how clients are used, and what a migration commits. First what the proofs and the witnesses
  need: the errors of a load, and two appends that race on the reference server.
\<close>

section \<open>The errors of a load\<close>

definition corrupt_stream :: "failure \<Rightarrow> bool" where
  "corrupt_stream e \<longleftrightarrow> (\<exists>m. e = PostgresEventStoreError CORRUPT_STREAM m)"

lemma parse_version_error: "parseDatabaseVersion v l = Inl e \<Longrightarrow> corrupt_stream e"
  by (auto simp: parseDatabaseVersion_def Let_def bindR_guardR corrupt_stream_def
    split: option.splits json.splits if_splits)

lemma postgres_row_error:
  assumes "postgres_row sp c (row, i) = Inl e"
  shows "corrupt_stream e"
proof (cases "parseDatabaseVersion (get ''version'' row) ''event version''")
  case (Inl x)
  then show ?thesis using assms parse_version_error by (simp add: postgres_row_def)
next
  case (Inr v)
  then show ?thesis
    using assms by (auto simp: postgres_row_def Let_def bindR_guardR corrupt_stream_def
      split: if_splits option.splits json.splits sum.splits)
qed

lemma postgres_rows_error:
  assumes "postgres_rows sp limit c rows = Inl e"
  shows "corrupt_stream e \<or> e = stream_too_large limit"
proof -
  obtain row rest where rows: "rows = row # rest" using assms by (cases rows) (simp_all add: postgres_rows_def)
  show ?thesis
  proof (cases "mapR (postgres_row sp c) (indexed rows)")
    case (Inl x)
    then have "corrupt_stream x" using mapR_Inl postgres_row_error by fastforce
    then show ?thesis
      using assms rows parse_version_error Inl
      by (auto simp: postgres_rows_def bindR_eq_Inl bindR_guardR corrupt_stream_def split: if_splits)
  next
    case (Inr es)
    then show ?thesis
      using assms rows parse_version_error
      by (auto simp: postgres_rows_def bindR_eq_Inl bindR_guardR corrupt_stream_def split: if_splits)
  qed
qed

section \<open>A race on the reference server\<close>

interpretation pg_reference_fleet: pg_fleet zod_ref pg_ref fst snd doubtful "{(ref_env, default_store ref_env)}" 32
  for doubtful
  using zod_reference.zod_axioms reference_server
  by (simp add: pg_fleet_def pg_fleet_axioms_def default_store_def DEFAULT_MAX_EVENTS_PER_STREAM_def safe_int_def
    MAX_SAFE_INTEGER_def)

lemma ref_query_others: "ref_query d k s = (a, d') \<Longrightarrow> j \<noteq> k \<Longrightarrow> snd d' j = snd d j"
  by (cases d) (auto split: if_splits option.splits prod.splits)

lemma fleet_task_runs:
  assumes "fleet_reachable sp replicas pg_ref d0 S" "i < length (fl_tasks S)" "fl_tasks S ! i = (q, p)"
    and "\<forall>j. j \<noteq> i \<longrightarrow> snd (fl_server S) j = None" "run_pg pg_ref i p (fl_server S) = (r, d')"
  shows "fleet_reachable sp replicas pg_ref d0
    \<lparr>fl_server = d', fl_tasks = (fl_tasks S)[i := (q, case r of Inl e \<Rightarrow> PFail e | Inr u \<Rightarrow> PRet ())]\<rparr>"
  using assms
proof (induction p arbitrary: S)
  case (PRet u)
  then have "d' = fl_server S" "(fl_tasks S)[i := (q, PRet ())] = fl_tasks S" "r = Inr ()"
    by (simp_all add: list_update_same_conv)
  then show ?case using PRet.prems(1) by (cases S) simp
next
  case (PFail e)
  then have "d' = fl_server S" "(fl_tasks S)[i := (q, PFail e)] = fl_tasks S" "r = Inl e"
    by (simp_all add: list_update_same_conv)
  then show ?case using PFail.prems(1) by (cases S) simp
next
  case (PoolQuery s k)
  note st = fleet_reachable.step [OF PoolQuery.prems(1) fleet_step.pool [OF PoolQuery.prems(2,3)]]
  show ?case using PoolQuery.IH [OF rangeI st] PoolQuery.prems by simp
next
  case (Connect k)
  note st = fleet_reachable.step [OF Connect.prems(1) fleet_step.connect
    [where a = "Inr ()" and d' = "fl_server S", OF Connect.prems(2,3)]]
  show ?case using Connect.IH [OF rangeI st] Connect.prems by (simp add: pg_ref_def)
next
  case (Query s k)
  obtain a d1 where q: "pg_query pg_ref (fl_server S) i s = (a, d1)" by (cases "pg_query pg_ref (fl_server S) i s")
  have "pg_ready pg_ref (fl_server S) i s"
    using Query.prems(4) by (cases "(fl_server S, i, s)" rule: ref_ready.cases) (auto simp: pg_ref_def unlocked_def)
  note st = fleet_reachable.step [OF Query.prems(1) fleet_step.statement [OF Query.prems(2,3) this q]]
  have "\<forall>j. j \<noteq> i \<longrightarrow> snd d1 j = None"
    using q Query.prems(4) ref_query_others by (simp add: pg_ref_def)
  then show ?case using Query.IH [OF rangeI st] Query.prems q by simp
next
  case (Release x p)
  note st = fleet_reachable.step [OF Release.prems(1) fleet_step.release [OF Release.prems(2,3)]]
  show ?case
    using Release.IH [OF st] Release.prems by (auto simp: pg_ref_def case_prod_unfold)
qed

text \<open>The first append to a stream succeeds, and another one at version zero is refused.\<close>

lemma length_batch: "length (batch_rows v ts) = length ts"
  by (simp add: batch_rows_def)

lemma ref_append_first:
  assumes "append_checks sp (ps_maxEventsPerStream st) c 0 es = Inr ts" "ts \<noteq> []" "tb_heads T c = None"
  shows "run_pg pg_ref i (postgres_append sp env st c 0 es) (T, \<lambda>_. None) =
    (Inr (), (with_batch c 0 ts T, \<lambda>_. None))"
proof -
  have z: "zip (map (bigint \<circ> (\<lambda>(_, index). int_str (0 + int index + 1))) (indexed ts)) ts = batch_rows 0 ts"
    by (intro nth_equalityI) (auto simp: batch_rows_def indexed_nth)
  show ?thesis
    using assms z length_batch by (simp add: postgres_append_checks pg_ref_def with_client_def append_statements_def
      insert_batch_def answered_def visible_def no_writes_def Let_def with_batch_def loaded_tx_def fun_upd_idem)
qed

lemma ref_append_late:
  assumes "append_checks sp (ps_maxEventsPerStream st) c 0 es = Inr ts" "ts \<noteq> []" "tb_heads T c = Some w"
    and "0 < w" "safe_int w"
  shows "run_pg pg_ref i (postgres_append sp env st c 0 es) (T, \<lambda>_. None) =
    (Inl (PauseMeshError (VersionConflictError c 0 w)), (T, \<lambda>_. None))"
  using assms head_rows_read [of "Some w"]
  by (simp add: postgres_append_checks pg_ref_def with_client_def append_statements_def report_conflict_def
    rollbackPreservingPrimaryError_def answered_def visible_def no_writes_def fun_upd_idem valid_head_def head_version_def)

text \<open>Two replicas append the same first event: the second comes too late.\<close>

definition first_append :: append_request where
  "first_append = \<lparr>aq_continuationId = js ''c1'', aq_expectedVersion = 0, aq_events = [created_event]\<rparr>"

definition race :: "pg_ref_state fleet" where
  "race = \<lparr>fl_server = (with_batch (js ''c1'') 0 (batch_texts [created_event]) empty_tables, \<lambda>_. None),
     fl_tasks = [(first_append, PRet ()),
       (first_append, PFail (PauseMeshError (VersionConflictError (js ''c1'') 0 1)))]\<rparr>"

lemma first_checked: "append_checks zod_ref (ps_maxEventsPerStream (default_store env)) (js ''c1'') 0 [created_event] =
    Inr (batch_texts [created_event])"
proof -
  have "events_ok [created_event]" "numbered (js ''c1'') 0 [created_event]" by (simp_all add: created_event_def)
  then show ?thesis
    using created_storable
    by (simp add: zod_reference.append_checks_Inr default_store_def DEFAULT_MAX_EVENTS_PER_STREAM_def safe_int_def
      MAX_SAFE_INTEGER_def)
qed

lemma race_reachable: "fleet_reachable zod_ref {(ref_env, default_store ref_env)} pg_ref ref_start race"
proof -
  let ?R = "{(ref_env, default_store ref_env)}"
  let ?p = "postgres_append zod_ref ref_env (default_store ref_env) (js ''c1'') 0 [created_event]"
  let ?T = "with_batch (js ''c1'') 0 (batch_texts [created_event]) empty_tables"
  have ok: "events_ok (aq_events first_append)" by (simp add: first_append_def created_event_def)
  have p: "?p = postgres_append zod_ref ref_env (default_store ref_env) (aq_continuationId first_append)
      (aq_expectedVersion first_append) (aq_events first_append)" by (simp add: first_append_def)
  note arrive = fleet_step.arrive [of ref_env "default_store ref_env" ?R, OF _ ok p]
  have "fleet_reachable zod_ref ?R pg_ref ref_start \<lparr>fl_server = ref_start, fl_tasks = [(first_append, ?p), (first_append, ?p)]\<rparr>"
    using fleet_reachable.step [OF fleet_reachable.step [OF fleet_reachable.start arrive] arrive] by simp
  moreover have "run_pg pg_ref 0 ?p ref_start = (Inr (), (?T, \<lambda>_. None))"
    unfolding ref_start_def by (rule ref_append_first [OF first_checked]) (simp_all add: empty_tables_def)
  ultimately have one: "fleet_reachable zod_ref ?R pg_ref ref_start
      \<lparr>fl_server = (?T, \<lambda>_. None), fl_tasks = [(first_append, PRet ()), (first_append, ?p)]\<rparr>"
    using fleet_task_runs [where i = 0 and q = first_append and p = ?p] by (fastforce simp: ref_start_def)
  have "tb_heads ?T (js ''c1'') = Some 1"
    by (simp add: with_batch_def apply_tx_def loaded_tx_def visible_def)
  then have "run_pg pg_ref 1 ?p (?T, \<lambda>_. None) =
      (Inl (PauseMeshError (VersionConflictError (js ''c1'') 0 1)), (?T, \<lambda>_. None))"
    by (intro ref_append_late [OF first_checked]) (simp_all add: safe_int_def MAX_SAFE_INTEGER_def)
  with one show ?thesis
    unfolding race_def using fleet_task_runs [where i = 1 and q = first_append and p = ?p] by fastforce
qed

lemma ref_start_holds: "pg_reference.holds ref_start (\<lambda>_. [])"
  by (simp add: ref_start_def empty_tables_hold default_store_def DEFAULT_MAX_EVENTS_PER_STREAM_def)

lemma ref_start_good: "pg_good zod_ref fst snd (default_store ref_env) ref_start"
  unfolding pg_good_def using ref_start_holds by (auto simp: ref_start_def)

lemma ref_start_load: "stored_load zod_ref fst (default_store ref_env) ref_start c = Inr []"
  by (rule pg_reference.load_holds [OF ref_start_holds])

section \<open>A migration on a fresh database\<close>

text \<open>A server of which only the migrations table matters.\<close>

definition migration_row :: "int \<Rightarrow> jstr \<Rightarrow> jstr \<Rightarrow> json" where
  "migration_row v name checksum =
     JObj [(js ''version'', JStr (int_str v)), (js ''name'', JStr name), (js ''checksum'', JStr checksum)]"

definition complete_row :: json where
  "complete_row = JObj [(js ''streams_exists'', JBool True), (js ''events_exists'', JBool True),
     (js ''migrations_exists'', JBool True), (js ''missing_trigger_count'', JStr (int_str 0))]"

fun migration_query :: "json list \<Rightarrow> nat \<Rightarrow> pg_statement \<Rightarrow> (failure, pg_result) result \<times> json list" where
  "migration_query rows k SelectMigrations = (Inr (answered (int (length rows)) rows), rows)"
| "migration_query rows k (InsertMigration v name checksum) =
     (Inr (answered 1 []), rows @ [migration_row v name checksum])"
| "migration_query rows k (SelectSchemaObjects s) = (Inr (answered 1 [complete_row]), rows)"
| "migration_query rows k s = (Inr (answered 0 []), rows)"

definition migration_ref :: "json list pg" where
  "migration_ref = \<lparr>pg_pool = (\<lambda>d s. fst (migration_query d 0 s)), pg_connect = (\<lambda>d k. (Inr (), d)),
     pg_ready = (\<lambda>d k s. True), pg_query = migration_query, pg_release = (\<lambda>d k x. d)\<rparr>"

lemma migration_ref_simps:
  "pg_query migration_ref = migration_query" "pg_connect migration_ref d k = (Inr (), d)" "pg_release migration_ref d k x = d"
  by (simp_all add: migration_ref_def)

lemma executeAll_ref: "run_pg migration_ref i (executeAll ss) rows = (Inr (), rows)"
  by (induction ss) (simp_all add: migration_ref_simps)

lemma fresh_migration: "fst (run_pg migration_ref i (migratePostgresEventStore env None) []) = Inr ()"
proof -
  have v: "parseDatabaseVersion (Some (JStr (int_str 1))) l = Inr 1" "parseDatabaseVersion (Some (JStr (int_str 0))) l = Inr 0" for l
    using parse_version_text [of 1] parse_version_text [of 0] by (simp_all add: safe_int_def MAX_SAFE_INTEGER_def)
  have m: "mg_version (migrationFor env default_names) = 1"
    by (simp add: migrationFor_def POSTGRES_EVENT_STORE_SCHEMA_VERSION_def)
  show ?thesis
    by (simp add: migratePostgresEventStore_def default_schema with_client_def readMigrationRows_def apply_or_check_def
      requireSchemaObjects_def requireMigrationRows_def migration_row_def complete_row_def answered_def
      run_bindQ run_catchQ executeAll_ref migration_ref_simps v m Let_def)
qed

section \<open>Properties\<close>

text \<open>
  C13 Replicas that append to one database in any interleaving, with any statement failing, leave the streams
  of appends that ran one after the other: every append that succeeded is one of them, at the version it
  expected, and no other is but one whose client lost the answer to its commit. Every load returns one of
  these streams.
\<close>

theorem replicas_append_in_turn:
  assumes "zod sp" "pg_server db data tx doubtful" "safe_int limit" "0 \<le> limit"
    and "\<forall>(env, st) \<in> replicas. ps_maxEventsPerStream st \<le> limit"
    and "data d0 = empty_tables" "tx d0 = (\<lambda>_. None)" "fleet_reachable sp replicas db d0 S"
  shows "\<exists>order F. distinct order \<and> set order \<subseteq> {..<length (fl_tasks S)} \<and>
    in_turn (map (\<lambda>i. fst (fl_tasks S ! i)) order) (\<lambda>_. []) = Some F \<and> (\<forall>c. numbered c 0 (F c)) \<and>
    (\<forall>i < length (fl_tasks S). snd (fl_tasks S ! i) = PRet () \<longrightarrow> i \<in> set order) \<and>
    (\<forall>i < length (fl_tasks S). \<forall>e. snd (fl_tasks S ! i) = PFail e \<and> i \<in> set order \<longrightarrow> driver_failure e \<and> doubtful) \<and>
    (\<forall>st c k es d'. run_pg db k (postgres_load sp st c) (fl_server S) = (Inr es, d') \<longrightarrow> es = F c)"
proof -
  have "pg_fleet sp db data tx doubtful replicas limit"
    using assms(1-3,5) by (auto simp: pg_fleet_def pg_fleet_axioms_def)
  note fleet = pg_fleet.fleet_inv_reachable [OF this assms(8,6,7,4)] pg_fleet.fleet_order [OF this] pg_fleet.fleet_load [OF this]
  obtain phs order F where inv: "pg_fleet.fleet_inv sp data tx doubtful limit S phs order F" using fleet(1) by blast
  note parts = inv [unfolded pg_fleet.fleet_inv_def [OF \<open>pg_fleet sp db data tx doubtful replicas limit\<close>]]
  show ?thesis
    using parts fleet(2,3) [OF inv] fleet(4) [OF inv]
    by (intro exI [of _ order] exI [of _ F]) (auto simp: tables_hold_def stored_def)
qed

theorem replicas_append_in_turn_witness:
  "snd (fl_tasks race ! 0) = PRet () \<and>
   (\<exists>F. in_turn [first_append] (\<lambda>_. []) = Some F \<and> F (js ''c1'') = [created_event] \<and>
     (\<forall>st c k es d'. run_pg pg_ref k (postgres_load zod_ref st c) (fl_server race) = (Inr es, d') \<longrightarrow> es = F c))"
proof -
  have "safe_int 32" "(0::int) \<le> 32" by (simp_all add: safe_int_def MAX_SAFE_INTEGER_def)
  note limit = this
  have store: "\<forall>(env, st) \<in> {(ref_env, default_store ref_env)}. ps_maxEventsPerStream st \<le> 32"
    by (simp add: default_store_def DEFAULT_MAX_EVENTS_PER_STREAM_def)
  have start: "fst ref_start = empty_tables" "snd ref_start = (\<lambda>_. None)" by (simp_all add: ref_start_def)
  have tasks: "length (fl_tasks race) = 2" "fl_tasks race ! 0 = (first_append, PRet ())"
      "fl_tasks race ! 1 = (first_append, PFail (PauseMeshError (VersionConflictError (js ''c1'') 0 1)))"
    by (simp_all add: race_def)
  obtain order F where o: "distinct order" "set order \<subseteq> {..<length (fl_tasks race)}"
      "in_turn (map (\<lambda>i. fst (fl_tasks race ! i)) order) (\<lambda>_. []) = Some F"
      "\<forall>i < length (fl_tasks race). snd (fl_tasks race ! i) = PRet () \<longrightarrow> i \<in> set order"
      "\<forall>i < length (fl_tasks race). \<forall>e. snd (fl_tasks race ! i) = PFail e \<and> i \<in> set order \<longrightarrow> driver_failure e \<and> False"
      "\<forall>st c k es d'. run_pg pg_ref k (postgres_load zod_ref st c) (fl_server race) = (Inr es, d') \<longrightarrow> es = F c"
    using replicas_append_in_turn [OF zod_reference.zod_axioms reference_server limit store start race_reachable, of False]
    by blast
  have "0 \<in> set order" "1 \<notin> set order" using o(4,5) tasks by auto
  then have "set order = {0}" using o(2) tasks(1) by (auto simp: less_2_cases_iff)
  then have "order = [0]" using o(1) distinct_card [OF o(1)] by (cases order; cases "tl order") auto
  then show ?thesis using o(3,6) tasks(2) by (auto simp: first_append_def)
qed

text \<open>
  C14 An append to PostgreSQL that runs alone is an atomic compare-and-swap whichever of its statements
  fails: it succeeds only at the version of the stream and then adds exactly the batch. If it fails, then
  either every stream stays as it was, and the error is the driver's, the refusal of the batch or of its
  length, the report that the server inserted fewer rows than it was sent, or the version conflict with the
  version the stream has; or the driver failed and the server, which may apply a \<open>COMMIT\<close> it does not answer,
  has added exactly the batch at the version of the stream. No transaction stays open. A load answers the
  stream that is stored, unless the driver fails.
\<close>

theorem postgres_append_atomic:
  assumes "pg_event_store sp db data tx doubtful st" "pg_good sp data tx st d" "events_ok es"
    and "stored_load sp data st d c = Inr old"
  shows "(load_alone sp db st d x = stored_load sp data st d x \<or>
      (\<exists>e. load_alone sp db st d x = Inl e \<and> driver_failure e)) \<and>
    (case append_alone sp env db st d c v es of
      (Inr _, d') \<Rightarrow> pg_good sp data tx st d' \<and> v = int (length old) \<and>
        (\<forall>x. stored_load sp data st d' x = (if x = c then Inr (old @ es) else stored_load sp data st d x))
    | (Inl e, d') \<Rightarrow> pg_good sp data tx st d' \<and>
        ((\<forall>x. stored_load sp data st d' x = stored_load sp data st d x) \<and>
           (driver_failure e \<or> append_checks sp (ps_maxEventsPerStream st) c v es = Inl e \<or> e = incomplete_batch \<or>
            v \<noteq> int (length old) \<and> e = PauseMeshError (VersionConflictError c v (int (length old)))) \<or>
         doubtful \<and> driver_failure e \<and> v = int (length old) \<and>
           (\<forall>x. stored_load sp data st d' x = (if x = c then Inr (old @ es) else stored_load sp data st d x))))"
  by (intro conjI pg_event_store.load_answer [OF assms(1)] pg_event_store.append_cases [OF assms])

theorem postgres_append_atomic_witness:
  "stored_load zod_ref fst (default_store ref_env)
    (snd (append_alone zod_ref ref_env pg_ref (default_store ref_env) ref_start (js ''c1'') 0 [created_event])) (js ''c1'') =
    Inr [created_event]"
proof -
  have ok: "events_ok [created_event]" by (simp add: created_event_def)
  obtain d' where "append_alone zod_ref ref_env pg_ref (default_store ref_env) ref_start (js ''c1'') 0 [created_event] = (Inr (), d')"
    using ref_append_first [OF first_checked, of empty_tables] by (fastforce simp: append_alone_def ref_start_def empty_tables_def)
  then show ?thesis
    using postgres_append_atomic [OF pg_reference.pg_event_store_axioms [of True] ref_start_good ok ref_start_load,
        where env = ref_env and c = "js ''c1''" and v = 0]
    by simp
qed

text \<open>
  C15 Whatever rows the server answers, a load that succeeds returns a gapless stream of the continuation no
  longer than the configured limit; otherwise the error is the one of the query, a stream that is too
  large, or a corrupt stream.
\<close>

theorem postgres_load_never_damaged:
  "case run_pg db i (postgres_load sp st c) d of
     (Inr es, d') \<Rightarrow> d' = d \<and> numbered c 0 es \<and> (es = [] \<or> int (length es) \<le> ps_maxEventsPerStream st)
   | (Inl e, d') \<Rightarrow> d' = d \<and> (pg_pool db d (SelectStream c (ps_maxEventsPerStream st + 1)) = Inl e \<or>
       e = stream_too_large (ps_maxEventsPerStream st) \<or> corrupt_stream e)"
proof (cases "pg_pool db d (SelectStream c (ps_maxEventsPerStream st + 1))")
  case (Inl e)
  then show ?thesis by (simp add: postgres_load_def)
next
  case (Inr q)
  then show ?thesis
    using postgres_rows_Inr [of sp "ps_maxEventsPerStream st" c "pr_rows q"] postgres_rows_error [of sp _ c "pr_rows q"]
    by (cases "postgres_rows sp (ps_maxEventsPerStream st) c (pr_rows q)") (auto simp: postgres_load_def)
qed

text \<open>
  C16 Whatever a server answers, every operation and the migration return each client they check out to the
  pool exactly once, use none after that, and hand back a client whose transaction may still be open only
  with an error, on which the pool discards it.
\<close>

theorem postgres_clients_are_returned:
  "well_used Home (trace_pg db i (postgres_append sp env st c v es) d) \<and>
   well_used Home (trace_pg db i (postgres_load sp st c) d) \<and>
   well_used Home (trace_pg db i (postgres_checkReadiness st) d) \<and>
   well_used Home (trace_pg db i (migratePostgresEventStore env schema) d)"
  by (intro conjI uses_well_trace append_uses_well load_uses_well readiness_uses_well migration_uses_well)

text \<open>
  C17 A migration succeeds exactly when its commit was answered, and it commits only what it has checked:
  under the advisory lock it created the objects only if the migration was not recorded, and then read
  back that exactly this migration is recorded, none newer, and that all objects of the schema exist.
\<close>

theorem migration_commits_what_it_checked:
  assumes "run_pg db i (migratePostgresEventStore env schema) d = (r, d')"
  shows "(committed (trace_pg db i (migratePostgresEventStore env schema) d) \<longleftrightarrow> r = Inr ()) \<and>
    (r = Inr () \<longrightarrow> (\<exists>names. schemaNames schema = Inr names \<and>
       migrated names (migrationFor env names) (trace_pg db i (migratePostgresEventStore env schema) d)))"
  using migration_outcome [OF assms refl] by blast

theorem migration_commits_what_it_checked_witness:
  "migrated default_names (migrationFor ref_env default_names)
    (trace_pg migration_ref 0 (migratePostgresEventStore ref_env None) [])"
proof -
  obtain d' where "run_pg migration_ref 0 (migratePostgresEventStore ref_env None) [] = (Inr (), d')"
    using fresh_migration [of 0 ref_env] by (metis prod.collapse)
  from migration_commits_what_it_checked [OF this] show ?thesis by (simp add: default_schema)
qed

section \<open>The objects of the schema\<close>

text \<open>A server that answers the check from its catalog, and a catalog with nothing but the schema and the table of migrations.\<close>

definition catalog_server :: "pg_catalog pg" where
  "catalog_server = \<lparr>pg_pool = (\<lambda>cat s. Inr (answered 0 [])), pg_connect = (\<lambda>cat i. (Inr (), cat)),
     pg_ready = (\<lambda>cat i s. True),
     pg_query = (\<lambda>cat i s. (case s of
        SelectSchemaObjects schema \<Rightarrow> (Inr (answered 1 [schema_objects_row cat schema]), cat)
      | _ \<Rightarrow> (Inr (answered 0 []), cat))),
     pg_release = (\<lambda>cat i x. cat)\<rparr>"

definition fresh_catalog :: pg_catalog where
  "fresh_catalog =
     \<lparr>ct_namespaces = [\<lparr>ns_oid = 1, ns_nspname = js ''pausemesh''\<rparr>],
      ct_classes = [new_table 2 1 (js ''pausemesh_schema_migrations'')], ct_triggers = [], ct_procs = [], ct_next = 3\<rparr>"

lemma fresh_catalog_fresh: "schema_fresh fresh_catalog 1 (sn_schema default_names)"
  by (simp add: schema_fresh_def fresh_catalog_def relation_def nullary_def new_table_def default_names_def
    js_inject del: js_simps)

lemma catalog_answers:
  "pg_query catalog_server cat i (SelectSchemaObjects s) = (Inr (answered 1 [schema_objects_row cat s]), cat)"
  "pr_rows (answered n rows) = rows"
  by (simp_all add: catalog_server_def answered_def)

text \<open>
  C18 The check of the schema decides: on a server that answers its query from a catalog, it goes on to
  read the two tables exactly if the three tables exist and each of the six expected triggers stands
  enabled on its table and calls the function of this schema that rejects the mutation; else it fails
  as incomplete, at once.
\<close>

theorem schema_check_decides:
  assumes "pg_query db d i (SelectSchemaObjects (sn_schema names)) = (Inr q, d1)"
    and "pr_rows q = [schema_objects_row cat (sn_schema names)]"
  shows "run_pg db i (requireSchemaObjects query names) d =
    (if schema_complete cat (sn_schema names)
     then run_pg db i (bindQ (query ProbeStreams) (\<lambda>_. bindQ (query ProbeEvents) (\<lambda>_. PRet ()))) d1
     else (Inl (PostgresEventStoreError SCHEMA_INCOMPLETE
       (js ''PostgreSQL event-store schema objects are incomplete'')), d1))"
  by (rule schema_check [OF assms])

theorem schema_check_decides_witness:
  "fst (run_pg catalog_server 0 (requireSchemaObjects query default_names) fresh_catalog) =
    Inl (PostgresEventStoreError SCHEMA_INCOMPLETE (js ''PostgreSQL event-store schema objects are incomplete''))"
proof -
  have "\<not> schema_complete fresh_catalog (sn_schema default_names)"
    by (simp add: schema_complete_def table_exists_def fresh_catalog_def new_table_def js_inject del: js_simps)
  then show ?thesis
    using schema_check_decides [OF catalog_answers] by simp
qed

text \<open>
  C19 The migration makes what the check asks for: its statements, executed in a schema that has only the
  table of migrations, succeed one after the other and leave a catalog for which the check passes.
\<close>

theorem migration_passes_its_check:
  assumes "schema_fresh cat ns (sn_schema names)"
  shows "\<exists>cat'. ddl_all ns canonicalMigrationStatements cat = Some cat' \<and>
    (\<forall>d i q d1. pg_query db d i (SelectSchemaObjects (sn_schema names)) = (Inr q, d1) \<longrightarrow>
       pr_rows q = [schema_objects_row cat' (sn_schema names)] \<longrightarrow>
       run_pg db i (requireSchemaObjects query names) d =
         run_pg db i (bindQ (query ProbeStreams) (\<lambda>_. bindQ (query ProbeEvents) (\<lambda>_. PRet ()))) d1)"
proof -
  obtain cat' where "ddl_all ns canonicalMigrationStatements cat = Some cat'" "schema_complete cat' (sn_schema names)"
    using migration_completes [OF assms] by blast
  then show ?thesis using schema_check by metis
qed

theorem migration_passes_its_check_witness:
  "\<exists>cat'. ddl_all 1 canonicalMigrationStatements fresh_catalog = Some cat' \<and>
    fst (run_pg catalog_server 0 (requireSchemaObjects query default_names) cat') = Inr ()"
proof -
  obtain cat' where cat': "ddl_all 1 canonicalMigrationStatements fresh_catalog = Some cat'"
    and check: "\<forall>d i q d1. pg_query catalog_server d i (SelectSchemaObjects (sn_schema default_names)) = (Inr q, d1) \<longrightarrow>
       pr_rows q = [schema_objects_row cat' (sn_schema default_names)] \<longrightarrow>
       run_pg catalog_server i (requireSchemaObjects query default_names) d =
         run_pg catalog_server i (bindQ (query ProbeStreams) (\<lambda>_. bindQ (query ProbeEvents) (\<lambda>_. PRet ()))) d1"
    using migration_passes_its_check [OF fresh_catalog_fresh, where db = catalog_server] by blast
  have "run_pg catalog_server 0 (requireSchemaObjects query default_names) cat' =
      run_pg catalog_server 0 (bindQ (query ProbeStreams) (\<lambda>_. bindQ (query ProbeEvents) (\<lambda>_. PRet ()))) cat'"
    by (rule check [rule_format, OF catalog_answers])
  with cat' show ?thesis by (simp add: catalog_server_def)
qed

end
