(* ===== verification/Cli.thy ===== *)
theory Cli
  imports Config SqliteEventStore HttpApp TokenIssuer
begin

text \<open>
  \<open>src/cli.ts\<close>: the process of the reference server. \<open>runCli\<close> reads the command line and the
  configuration, opens the database, builds the service and the HTTP adapter over it, and listens; it is
  modelled with the list of what it does to the world, in order. Then what the signals do to the running
  process, and the entry point. Also \<open>src/observability/pino-observer.ts\<close>: what is logged of an
  observation.

  Parameters, from Node.js and third-party packages, are the members of \<open>cli_host\<close>: \<open>parseArgs\<close> with its
  two options, the environment, the file system, the SQLite driver and the database files it finds, the conversion of URLs to paths, the
  version in \<open>package.json\<close>, and the message of a thrown value that is an \<open>Error\<close>.
\<close>

section \<open>The world\<close>

record cli_arguments =
  ca_help :: bool
  ca_version :: bool
  ca_positionals :: "jstr list"

text \<open>What \<open>runCli\<close> may throw.\<close>

datatype cli_error = CliFailure failure | CliConfigError config_error

record ('d, 'f) cli_host =
  ch_parse :: "schema \<Rightarrow> zparser"
  ch_parseArgs :: "jstr list \<Rightarrow> (failure, cli_arguments) result"
  ch_env :: "string \<rightharpoonup> jstr"
  ch_readTextFile :: "jstr \<Rightarrow> (failure, jstr) result"
  ch_dirname :: "jstr \<Rightarrow> jstr"
  ch_mkdir :: "jstr \<Rightarrow> (failure, unit) result"
  ch_sqlite :: "('d, 'f) sqlite"
  ch_files :: "jstr \<Rightarrow> 'f"
  ch_version :: jstr
  ch_fileURLToPath :: "jstr \<Rightarrow> (failure, jstr) result"
  ch_realpath :: "jstr \<Rightarrow> (failure, jstr) result"
  ch_message :: "cli_error \<Rightarrow> jstr option"

text \<open>What is done to the world.\<close>

datatype cli_action =
    WriteStdout jstr
  | WriteStderr jstr
  | MakeDirectory jstr
  | OpenDatabase jstr
  | Listen jstr int

type_synonym 'a cli = "cli_action list \<times> (cli_error, 'a) result"

definition retC :: "'a \<Rightarrow> 'a cli" where
  "retC x = ([], Inr x)"

text \<open>An action, with its answer.\<close>

definition act :: "cli_action \<Rightarrow> (cli_error, 'a) result \<Rightarrow> 'a cli" where
  "act a r = ([a], r)"

definition liftC :: "(cli_error, 'a) result \<Rightarrow> 'a cli" where
  "liftC r = ([], r)"

definition bindC :: "'a cli \<Rightarrow> ('a \<Rightarrow> 'b cli) \<Rightarrow> 'b cli" where
  "bindC m f = (case snd m of
     Inl e \<Rightarrow> (fst m, Inl e)
   | Inr x \<Rightarrow> (fst m @ fst (f x), snd (f x)))"

definition failing :: "(failure, 'a) result \<Rightarrow> (cli_error, 'a) result" where
  "failing r = (case r of Inl e \<Rightarrow> Inl (CliFailure e) | Inr x \<Rightarrow> Inr x)"

section \<open>Starting\<close>

definition newline :: jstr where
  "newline = js [CHR 0x0A]"

definition HELP :: "jstr \<Rightarrow> jstr" where
  "HELP version = join newline
     [js ''PauseMesh '' @ version,
      [],
      js ''Usage:'',
      js ''  pausemesh serve     Start the local reference HTTP server'',
      js ''  pausemesh --help    Show this help'',
      [],
      js ''Configuration is read from PAUSEMESH_* environment variables or the JSON file named by'',
      js ''PAUSEMESH_CONFIG_PATH. See .env.example. The reference server has no identity layer and must not'',
      js ''be exposed to an untrusted network.'',
      []]"

text \<open>
  The running server: its database, what the adapter and the service were built with, the address it
  listens on, and what the logger never shows.
\<close>

record 'd server =
  sv_database :: 'd
  sv_maxPayloadBytes :: int
  sv_tokenBytes :: int
  sv_tokenTtl :: int
  sv_host :: jstr
  sv_port :: int
  sv_logLevel :: jstr
  sv_redacted :: "jstr list"

text \<open>The options of the HTTP adapter when a request arrives and the database is in a state \<open>d\<close>.\<close>

definition server_options :: "('d, 'f) cli_host \<Rightarrow> 'd server \<Rightarrow> 'd \<Rightarrow> http_options" where
  "server_options H sv d =
     \<lparr>op_maxPayloadBytes = sv_maxPayloadBytes sv, op_mcpProjectionPolicy = None,
      op_readinessProbe = Some (sqlite_checkReadiness (ch_sqlite H) d)\<rparr>"

definition redacted_paths :: "jstr list" where
  "redacted_paths = map js
     [''req.headers.authorization'', ''resumeToken'', ''token'', ''payload'', ''resumePayload'']"

text \<open>The command, or the error at one the program does not know.\<close>

definition cli_command :: "jstr list \<Rightarrow> (cli_error, unit) result" where
  "cli_command positionals =
     (let command = (case positionals of [] \<Rightarrow> js ''serve'' | c # _ \<Rightarrow> c);
          all = join (js '' '') positionals
      in guardR (\<not> (command \<noteq> js ''serve'' \<or> 1 < length positionals))
           (CliFailure (PlainError (js ''Unknown command: '' @ (if all = [] then command else all)))))"

text \<open>From the loaded configuration to the listening server.\<close>

definition start_server :: "('d, 'f) cli_host \<Rightarrow> pausemesh_config \<Rightarrow> 'd server cli" where
  "start_server H config =
     bindC (if cfg_databasePath config \<noteq> js '':memory:'' then
              (let directory = ch_dirname H (cfg_databasePath config)
               in act (MakeDirectory directory) (failing (ch_mkdir H directory)))
            else retC ()) (\<lambda>_.
     bindC (act (OpenDatabase (cfg_databasePath config))
              (failing (fst (sqlite_open (ch_sqlite H) (ch_files H) (cfg_databasePath config) None)))) (\<lambda>eventStore.
     bindC (liftC (failing (sha256_issuer None))) (\<lambda>tokenBytes.
     bindC (liftC (failing (tokenTtlMilliseconds (cfg_tokenTtlSeconds config)))) (\<lambda>ttl.
     act (Listen (cfg_host config) (cfg_port config))
       (Inr \<lparr>sv_database = eventStore, sv_maxPayloadBytes = cfg_maxPayloadBytes config,
             sv_tokenBytes = tokenBytes, sv_tokenTtl = ttl, sv_host = cfg_host config,
             sv_port = cfg_port config, sv_logLevel = cfg_logLevel config,
             sv_redacted = redacted_paths\<rparr>)))))"

text \<open>The whole: the server it has started, if any.\<close>

definition runCli :: "('d, 'f) cli_host \<Rightarrow> jstr list \<Rightarrow> 'd server option cli" where
  "runCli H argv =
     bindC (liftC (failing (ch_parseArgs H argv))) (\<lambda>parsed.
     if ca_help parsed then act (WriteStdout (HELP (ch_version H))) (Inr None)
     else if ca_version parsed then act (WriteStdout (ch_version H @ newline)) (Inr None)
     else
       bindC (liftC (cli_command (ca_positionals parsed))) (\<lambda>_.
       bindC (liftC (case loadConfig (ch_parse H) (ch_env H) (ch_readTextFile H) of
                Inl e \<Rightarrow> Inl (CliConfigError e) | Inr config \<Rightarrow> Inr config)) (\<lambda>config.
       bindC (start_server H config) (\<lambda>sv. retC (Some sv)))))"

section \<open>The entry point\<close>

definition isDirectExecution :: "('d, 'f) cli_host \<Rightarrow> jstr \<Rightarrow> jstr option \<Rightarrow> bool" where
  "isDirectExecution H moduleUrl entrypoint =
     (case entrypoint of
        None \<Rightarrow> False
      | Some path \<Rightarrow>
          (case bindR (ch_fileURLToPath H moduleUrl) (ch_realpath H) of
             Inl _ \<Rightarrow> False
           | Inr this \<Rightarrow> (case ch_realpath H path of Inl _ \<Rightarrow> False | Inr that \<Rightarrow> this = that)))"

text \<open>What the module does when it is loaded: its actions, the server, and \<open>process.exitCode\<close>.\<close>

definition main :: "('d, 'f) cli_host \<Rightarrow> jstr \<Rightarrow> jstr option \<Rightarrow> jstr list \<Rightarrow> cli_action list \<times> 'd server option \<times> int option" where
  "main H moduleUrl entrypoint argv =
     (if isDirectExecution H moduleUrl entrypoint then
        (case runCli H argv of
           (actions, Inr sv) \<Rightarrow> (actions, sv, None)
         | (actions, Inl e) \<Rightarrow>
             (let message = (case ch_message H e of Some m \<Rightarrow> m | None \<Rightarrow> js ''Unknown startup error'')
              in (actions @ [WriteStderr (js ''PauseMesh failed to start: '' @ message @ newline)], None, Some 1)))
      else ([], None, None))"

section \<open>Stopping\<close>

text \<open>
  The process once it listens. \<open>pr_armed\<close> are the signals whose handler is still registered
  (\<open>process.once\<close> removes it when it runs; a signal without a handler ends the process),
  \<open>pr_closing\<close> counts the calls of \<open>server.close\<close> whose callback is still to come, \<open>pr_closed\<close> the
  callbacks that came.
\<close>

datatype signal = SIGINT | SIGTERM

datatype process_log = LogStopping signal | LogShutdownFailed

record 'd proc =
  pr_database :: 'd
  pr_armed :: "signal set"
  pr_stopping :: bool
  pr_closing :: nat
  pr_closed :: nat
  pr_exitCode :: "int option"
  pr_log :: "process_log list"
  pr_killed :: bool

definition listening :: "'d \<Rightarrow> 'd proc" where
  "listening d =
     \<lparr>pr_database = d, pr_armed = {SIGINT, SIGTERM}, pr_stopping = False, pr_closing = 0, pr_closed = 0,
      pr_exitCode = None, pr_log = [], pr_killed = False\<rparr>"

text \<open>The handler, and the callback of \<open>server.close\<close> with its error, if any.\<close>

definition stop :: "signal \<Rightarrow> 'd proc \<Rightarrow> 'd proc" where
  "stop signal p =
     (if pr_stopping p then p
      else p\<lparr>pr_stopping := True, pr_log := pr_log p @ [LogStopping signal], pr_closing := pr_closing p + 1\<rparr>)"

definition on_closed :: "('d, 'f) sqlite \<Rightarrow> bool \<Rightarrow> 'd proc \<Rightarrow> 'd proc" where
  "on_closed db error p =
     (let p1 = p\<lparr>pr_closing := pr_closing p - 1, pr_closed := pr_closed p + 1,
            pr_database := sqlite_close db (pr_database p)\<rparr>
      in if error then p1\<lparr>pr_log := pr_log p1 @ [LogShutdownFailed], pr_exitCode := Some 1\<rparr> else p1)"

definition on_signal :: "signal \<Rightarrow> 'd proc \<Rightarrow> 'd proc" where
  "on_signal signal p =
     (if signal \<in> pr_armed p then stop signal (p\<lparr>pr_armed := pr_armed p - {signal}\<rparr>)
      else p\<lparr>pr_killed := True\<rparr>)"

text \<open>
  What happens to the process: until the server reports that it is closed, its requests work on the database
  and never close it; a signal arrives; \<open>server.close\<close> calls back, with an error or without.
\<close>

datatype 'd process_event = Request 'd | Signalled signal | ServerClosed bool

inductive proc_step :: "('d, 'f) sqlite \<Rightarrow> 'd process_event \<Rightarrow> 'd proc \<Rightarrow> 'd proc \<Rightarrow> bool" for db where
  request: "\<not> pr_killed p \<Longrightarrow> pr_closed p = 0 \<Longrightarrow> sq_isOpen db d = sq_isOpen db (pr_database p) \<Longrightarrow>
    proc_step db (Request d) p (p\<lparr>pr_database := d\<rparr>)"
| signalled: "\<not> pr_killed p \<Longrightarrow> proc_step db (Signalled signal) p (on_signal signal p)"
| closed: "\<not> pr_killed p \<Longrightarrow> 0 < pr_closing p \<Longrightarrow> proc_step db (ServerClosed error) p (on_closed db error p)"

inductive proc_run :: "('d, 'f) sqlite \<Rightarrow> 'd proc \<Rightarrow> 'd process_event list \<Rightarrow> 'd proc \<Rightarrow> bool" for db p where
  nothing: "proc_run db p [] p"
| next_event: "proc_run db p events q \<Longrightarrow> proc_step db event q r \<Longrightarrow> proc_run db p (events @ [event]) r"

section \<open>The observer\<close>

fun observation_name :: "observation \<Rightarrow> jstr" where
  "observation_name (ObsCreated _ _ _ _) = js ''continuation.created''"
| "observation_name (ObsTransitioned _ _ _ _) = js ''continuation.transitioned''"
| "observation_name (ObsRejected _ _ _) = js ''continuation.rejected''"

fun observation_json :: "observation \<Rightarrow> json" where
  "observation_json (ObsCreated continuationId correlationId at v) = obj
     [(''name'', JStr (js ''continuation.created'')), (''continuationId'', JStr continuationId),
      (''correlationId'', JStr correlationId), (''observedAt'', JStr at), (''status'', JStr (js ''pending'')),
      (''version'', JInt v)]"
| "observation_json (ObsTransitioned continuationId at v st) = obj
     [(''name'', JStr (js ''continuation.transitioned'')), (''continuationId'', JStr continuationId),
      (''observedAt'', JStr at), (''status'', JStr (status_str st)), (''version'', JInt v)]"
| "observation_json (ObsRejected continuationId at code) = obj
     [(''name'', JStr (js ''continuation.rejected'')), (''continuationId'', JStr continuationId),
      (''observedAt'', JStr at), (''code'', JStr (code_str code))]"

text \<open>The object and the message that are logged.\<close>

definition pino_observe :: "observation \<Rightarrow> json \<times> jstr" where
  "pino_observe event = (obj [(''pausemesh'', observation_json event)], observation_name event)"

text \<open>No observation has a member for a token or a payload, so the redaction of the logger has nothing to hide.\<close>

lemma observation_redacted:
  "k \<in> {''resumeToken'', ''token'', ''payload'', ''resumePayload''} \<Longrightarrow> get k (observation_json event) = None"
  by (cases event) (auto simp: obj_def js_inject)

section \<open>What a start does\<close>

lemma bindC_simps [simp]:
  "bindC (liftC (Inl e)) f = ([], Inl e)" "bindC (liftC (Inr x)) f = f x" "bindC (retC x) f = f x"
  "bindC (act a (Inl e)) f = ([a], Inl e)" "bindC (act a (Inr x)) f = (a # fst (f x), snd (f x))"
  by (simp_all add: bindC_def liftC_def retC_def act_def)

lemma act_simps [simp]: "fst (act a r) = [a]" "snd (act a r) = r"
  by (simp_all add: act_def)

lemma failing_simps [simp]: "failing (Inl e) = Inl (CliFailure e)" "failing (Inr x) = Inr x"
  by (simp_all add: failing_def)

lemma default_token_bytes [simp]: "sha256_issuer None = Inr 32"
  by (simp add: sha256_issuer_def Let_def num_less_def num_le_ints)

lemma config_ttl: "config_ok cfg \<Longrightarrow> tokenTtlMilliseconds (cfg_tokenTtlSeconds cfg) = Inr (cfg_tokenTtlSeconds cfg * 1000)"
  by (simp add: config_ok_def tokenTtlMilliseconds_def safe_int_def MAX_SAFE_INTEGER_def)

text \<open>The actions that open the store.\<close>

definition directory_actions :: "('d, 'f) cli_host \<Rightarrow> pausemesh_config \<Rightarrow> cli_action list" where
  "directory_actions H cfg =
     (if cfg_databasePath cfg = js '':memory:'' then [] else [MakeDirectory (ch_dirname H (cfg_databasePath cfg))])"

text \<open>The server of a configuration within its bounds.\<close>

definition configured_server :: "pausemesh_config \<Rightarrow> 'd \<Rightarrow> 'd server" where
  "configured_server cfg d =
     \<lparr>sv_database = d, sv_maxPayloadBytes = cfg_maxPayloadBytes cfg, sv_tokenBytes = 32,
      sv_tokenTtl = cfg_tokenTtlSeconds cfg * 1000, sv_host = cfg_host cfg, sv_port = cfg_port cfg,
      sv_logLevel = cfg_logLevel cfg, sv_redacted = redacted_paths\<rparr>"

lemma start_server_cases:
  assumes "config_ok cfg" "start_server H cfg = (actions, r)"
  obtains (directory) e where "cfg_databasePath cfg \<noteq> js '':memory:''"
      "ch_mkdir H (ch_dirname H (cfg_databasePath cfg)) = Inl e"
      "actions = directory_actions H cfg" "r = Inl (CliFailure e)"
  | (database) e where "fst (sqlite_open (ch_sqlite H) (ch_files H) (cfg_databasePath cfg) None) = Inl e"
      "actions = directory_actions H cfg @ [OpenDatabase (cfg_databasePath cfg)]" "r = Inl (CliFailure e)"
  | (serving) d where "fst (sqlite_open (ch_sqlite H) (ch_files H) (cfg_databasePath cfg) None) = Inr d"
      "actions = directory_actions H cfg @ [OpenDatabase (cfg_databasePath cfg), Listen (cfg_host cfg) (cfg_port cfg)]"
      "r = Inr (configured_server cfg d)"
proof (cases "cfg_databasePath cfg = js '':memory:'' \<or> ch_mkdir H (ch_dirname H (cfg_databasePath cfg)) = Inr ()")
  case True
  then show thesis
    using assms(2) database serving
    by (cases "fst (sqlite_open (ch_sqlite H) (ch_files H) (cfg_databasePath cfg) None)")
      (auto simp: start_server_def directory_actions_def configured_server_def config_ttl [OF assms(1)] Let_def
        split: if_splits)
next
  case False
  then show thesis
    using assms(2) directory
    by (cases "ch_mkdir H (ch_dirname H (cfg_databasePath cfg))")
      (auto simp: start_server_def directory_actions_def Let_def split: if_splits)
qed

lemma start_server_database:
  "snd (start_server H cfg) = Inr sv \<Longrightarrow>
    fst (sqlite_open (ch_sqlite H) (ch_files H) (cfg_databasePath cfg) None) = Inr (sv_database sv)"
  by (auto simp: start_server_def bindC_def liftC_def act_def failing_def retC_def Let_def split: if_splits sum.splits)

text \<open>
  A command line is refused, as are a command that is unknown and a configuration that does not load; or it
  asks for a text, or starts the server with what was loaded.
\<close>

definition cli_refused :: "('d, 'f) cli_host \<Rightarrow> jstr list \<Rightarrow> cli_error \<Rightarrow> bool" where
  "cli_refused H argv e \<longleftrightarrow>
     (case ch_parseArgs H argv of
        Inl f \<Rightarrow> e = CliFailure f
      | Inr parsed \<Rightarrow> \<not> ca_help parsed \<and> \<not> ca_version parsed \<and>
          (case cli_command (ca_positionals parsed) of
             Inl f \<Rightarrow> e = f
           | Inr _ \<Rightarrow> (\<exists>f. loadConfig (ch_parse H) (ch_env H) (ch_readTextFile H) = Inl f \<and> e = CliConfigError f)))"

lemma runCli_cases:
  assumes "runCli H argv = (actions, r)"
  obtains (refused) e where "actions = []" "r = Inl e" "cli_refused H argv e"
  | (shown) t where "actions = [WriteStdout t]" "r = Inr None"
  | (started) cfg where "loadConfig (ch_parse H) (ch_env H) (ch_readTextFile H) = Inr cfg"
      "fst (start_server H cfg) = actions" "r = map_sum id Some (snd (start_server H cfg))"
  using assms
  by (auto simp: runCli_def bindC_def liftC_def act_def retC_def failing_def cli_refused_def
      split: if_splits sum.splits prod.splits)

end
