(* ===== verification/Restarts.thy ===== *)
theory Restarts
  imports HttpService
begin

text \<open>
  A service that is stopped and started again, at any moment and as often as one likes: the requests it
  was serving are gone, and the next process finds in its store what the last one left there. What a
  continuation was closed with is the same for ever.
\<close>

text \<open>
  A deployment is the running process, with the token lifetime it was started with, and its system.
  \<open>starts ttl s s'\<close> says that a process may start, with that lifetime, over the store \<open>s\<close> and then sees it
  as \<open>s'\<close>.
\<close>

inductive deployment_step ::
    "('s \<Rightarrow> jstr \<Rightarrow> (failure, event list) result) \<Rightarrow>
     ('s \<Rightarrow> jstr \<Rightarrow> int \<Rightarrow> event list \<Rightarrow> (failure, unit) result \<times> 's) \<Rightarrow>
     (jstr \<Rightarrow> jstr) \<Rightarrow> (int \<Rightarrow> 's \<Rightarrow> 's \<Rightarrow> bool) \<Rightarrow> int \<times> 's system \<Rightarrow> int \<times> 's system \<Rightarrow> bool"
  for ld ap h starts where
  work: "sys_step ld ap h ttl S T \<Longrightarrow> deployment_step ld ap h starts (ttl, S) (ttl, T)"
| restart: "starts ttl' (sys_store S) s' \<Longrightarrow>
    deployment_step ld ap h starts (ttl, S) (ttl', \<lparr>sys_store = s', sys_tasks = []\<rparr>)"

lemma reachable_deployment:
  "reachable ld ap h ttl s0 S \<Longrightarrow>
    (deployment_step ld ap h starts)\<^sup>*\<^sup>* (ttl, \<lparr>sys_store = s0, sys_tasks = []\<rparr>) (ttl, S)"
  by (induction rule: reachable.induct) (auto intro: rtranclp.rtrancl_into_rtrancl deployment_step.work)

lemma deployment_loads:
  assumes "\<And>s c. ld s c = ld' s c \<or> (\<exists>e. ld s c = Inl e \<and> host_failure e)"
  shows "(deployment_step ld ap h starts)\<^sup>*\<^sup>* x y \<Longrightarrow> (deployment_step ld' ap h starts)\<^sup>*\<^sup>* x y"
  by (induction rule: rtranclp_induct)
    (auto elim!: deployment_step.cases dest!: sys_step_loads [OF _ assms]
      intro: deployment_step.intros rtranclp.rtrancl_into_rtrancl)

context event_store
begin

text \<open>A start that finds the streams as they were.\<close>

definition keeps_streams :: "(int \<Rightarrow> 's \<Rightarrow> 's \<Rightarrow> bool) \<Rightarrow> bool" where
  "keeps_streams starts \<longleftrightarrow>
     (\<forall>ttl s s'. starts ttl s s' \<longrightarrow> good s \<longrightarrow> good s' \<and> (\<forall>c. load s' c = load s c))"

lemma step_grows:
  assumes "sys_step load append h ttl S T" "sys_inv h S"
  shows "prefix (stream (sys_store S) c) (stream (sys_store T) c)"
  using assms(1)
proof cases
  case (append i req c' v es k r s')
  obtain H where "sat h (response_ok h req) (error_ok h req) (Append c' v es k) H"
    using task_known [OF assms(2) append(2,3)] by blast
  then have "events_ok es" by simp
  moreover have "good (sys_store S)" using assms(2) by (simp add: sys_inv_def)
  ultimately show ?thesis using stream_grows [of "sys_store S" es c c' v] append(1,4) by simp
qed auto

lemma deployment_inv:
  assumes "(deployment_step load append h starts)\<^sup>*\<^sup>* (ttl, S) (ttl', T)" "keeps_streams starts" "sys_inv h S"
  shows "sys_inv h T \<and> (\<forall>c. prefix (stream (sys_store S) c) (stream (sys_store T) c))"
  using assms(1)
proof (induction "(ttl', T)" arbitrary: ttl' T rule: rtranclp_induct)
  case base
  then show ?case using assms(3) by simp
next
  case (step y)
  obtain ttl1 U where y: "y = (ttl1, U)" by (cases y)
  with step have IH: "sys_inv h U" "\<And>c. prefix (stream (sys_store S) c) (stream (sys_store U) c)" by blast+
  have "sys_inv h T \<and> (\<forall>c. prefix (stream (sys_store U) c) (stream (sys_store T) c))"
    using step.hyps(2) unfolding y
  proof cases
    case work
    then show ?thesis using step_inv IH(1) step_grows by blast
  next
    case (restart s')
    have good: "good (sys_store U)" using IH(1) by (simp add: sys_inv_def)
    have "good s' \<and> (\<forall>c. load s' c = load (sys_store U) c)"
      using assms(2) restart good by (auto simp: keeps_streams_def)
    then show ?thesis using restart IH(1) by (simp add: sys_inv_def stream_def)
  qed
  then show ?case using IH(2) by (blast intro: prefix_order.trans)
qed

lemma closed_forever:
  assumes "(deployment_step load append h starts)\<^sup>*\<^sup>* (ttl, S) (ttl', T)" "keeps_streams starts" "sys_inv h S"
    and "stored_state load (sys_store S) c s" "env_status s \<noteq> StPending"
  shows "stored_state load (sys_store T) c s"
proof (rule stored_terminal [OF _ _ _ assms(5)])
  let ?H = "{(c, stream (sys_store S) c)}"
  note T = deployment_inv [OF assms(1-3)]
  then show "sys_inv h T" "knows (sys_store T) ?H" by (simp_all add: knows_def)
  have "load (sys_store S) c = Inr (stream (sys_store S) c)" "proper c (stream (sys_store S) c)"
    using assms(3) by (simp_all add: sys_inv_def load_stream stream_proper)
  then show "snap ?H c s" using assms(4) by (auto simp: snap_def stored_state_def)
qed

text \<open>A resume that was answered before is answered the same after.\<close>

lemma http_resumed_later:
  assumes run: "(deployment_step load append h starts)\<^sup>*\<^sup>* (ttl, S) (ttl', T)" "keeps_streams starts" "sys_inv h S"
    and before: "http_answer env opts S (ResumeRoute i) c (Some r)" "rs_status r = 200"
    and after: "http_answer env' opts' T (ResumeRoute i) d (Some q)" "rs_status q = 200"
  shows "r = q \<and> idempotencyKey c = idempotencyKey d \<and>
    (\<exists>s. stored_state load (sys_store T) i s \<and> env_status s = StResumed \<and>
      rs_body r = obj [(''continuation'', envelope_json s)])"
proof -
  obtain input s where one: "resume_request env opts i c = Inr input"
      "resumed_by load h (sys_store S) input s" "r = show_envelope (EnvelopeResp s)"
    by (rule http_resumed [OF run(3) before])
  obtain input' t where two: "resume_request env' opts' i d = Inr input'"
      "resumed_by load h (sys_store T) input' t" "q = show_envelope (EnvelopeResp t)"
    by (rule http_resumed [OF conjunct1 [OF deployment_inv [OF run]] after])
  have ids: "ri_continuationId input = i" "ri_continuationId input' = i"
    "idempotencyKey c = Inr (ri_idempotencyKey input)" "idempotencyKey d = Inr (ri_idempotencyKey input')"
    using one(1) two(1) by (auto simp: resume_request_Inr)
  obtain at p where s: "stored_state load (sys_store S) i s" "env_state s = ResumedState at (ri_idempotencyKey input) p"
    using one(2) ids(1) by (auto simp: resumed_by_def)
  obtain at' p' where t: "stored_state load (sys_store T) i t" "env_state t = ResumedState at' (ri_idempotencyKey input') p'"
    using two(2) ids(2) by (auto simp: resumed_by_def)
  have "stored_state load (sys_store T) i s"
    by (rule closed_forever [OF run s(1)]) (simp add: env_status_def s(2))
  then have "s = t" using t(1) by (rule stored_unique)
  then show ?thesis
    using s t one(3) two(3) ids by (auto simp: env_status_def show_envelope_def)
qed

end

end
