(* ===== verification/ServerProperties.thy ===== *)
theory ServerProperties
  imports Cli Restarts StoreProperties HttpProperties HostProperties
begin

text \<open>
  The properties of the reference server as a process: what a start does and what it serves, that what a
  continuation was resumed with survives any number of restarts, and how the process ends.
\<close>

section \<open>Processes over one database\<close>

text \<open>A start that serves over the database at \<open>path\<close>, with its token lifetime and its connection.\<close>

definition started ::
    "(schema \<Rightarrow> zparser) \<Rightarrow> ('d, 'f) sqlite \<Rightarrow> (jstr \<Rightarrow> 'f) \<Rightarrow> jstr \<Rightarrow> int \<Rightarrow> 'd \<Rightarrow> bool" where
  "started sp db files path ttl d \<longleftrightarrow>
     (\<exists>H argv actions sv cfg. ch_parse H = sp \<and> ch_sqlite H = db \<and> ch_files H = files \<and>
        loadConfig sp (ch_env H) (ch_readTextFile H) = Inr cfg \<and> cfg_databasePath cfg = path \<and>
        runCli H argv = (actions, Inr (Some sv)) \<and> sv_tokenTtl sv = ttl \<and> sv_database sv = d)"

text \<open>
  A process that starts after one whose connection was \<open>d\<close> when it ended, closed or not: it finds the file that
  one left. Nothing is said of the other files.
\<close>

definition restarted ::
    "(schema \<Rightarrow> zparser) \<Rightarrow> ('d, 'f) sqlite \<Rightarrow> ('d \<Rightarrow> 'f) \<Rightarrow> jstr \<Rightarrow> int \<Rightarrow> 'd \<Rightarrow> 'd \<Rightarrow> bool" where
  "restarted sp db file_of path ttl d d' \<longleftrightarrow>
     (\<exists>files. (files path = file_of d \<or> files path = file_of (sqlite_close db d)) \<and> started sp db files path ttl d')"

abbreviation server_steps ::
    "(schema \<Rightarrow> zparser) \<Rightarrow> ('d, 'f) sqlite \<Rightarrow> ('d \<Rightarrow> 'f) \<Rightarrow> jstr \<Rightarrow> (jstr \<Rightarrow> jstr) \<Rightarrow>
     int \<times> 'd system \<Rightarrow> int \<times> 'd system \<Rightarrow> bool" where
  "server_steps sp db file_of path h \<equiv>
     (deployment_step (sqlite_load sp db) (sqlite_append sp db) h (restarted sp db file_of path))\<^sup>*\<^sup>*"

text \<open>A server serves over the connection that the constructor opened at the path of the configuration.\<close>

lemma started_open:
  assumes "started sp db files path ttl d"
  shows "fst (sqlite_open db files path None) = Inr d"
proof -
  obtain H argv actions sv cfg where H: "ch_parse H = sp" "ch_sqlite H = db" "ch_files H = files"
    and cfg: "loadConfig sp (ch_env H) (ch_readTextFile H) = Inr cfg" "cfg_databasePath cfg = path"
    and run: "runCli H argv = (actions, Inr (Some sv))" "sv_database sv = d"
    using assms unfolding started_def by blast
  show ?thesis
  proof (rule runCli_cases [OF run(1)])
    fix cfg'
    assume "loadConfig (ch_parse H) (ch_env H) (ch_readTextFile H) = Inr cfg'"
      and "Inr (Some sv) = map_sum id Some (snd (start_server H cfg'))"
    then have "cfg' = cfg" "snd (start_server H cfg') = Inr sv"
      using cfg(1) H(1) by (simp, cases "snd (start_server H cfg')") auto
    then show ?thesis using start_server_database [of H cfg' sv] H cfg(2) run(2) by simp
  qed simp_all
qed

locale sqlite_server = settling_sqlite_store sp db rows saved + sqlite_disk db rows saved file_of content on_disk
  for sp :: "schema \<Rightarrow> zparser"
    and db :: "('d, 'f) sqlite"
    and rows saved :: "'d \<Rightarrow> jstr \<Rightarrow> (int \<times> jstr) list"
    and file_of :: "'d \<Rightarrow> 'f"
    and content :: "'f \<Rightarrow> jstr \<Rightarrow> (int \<times> jstr) list"
    and on_disk :: "jstr \<Rightarrow> bool"
begin

lemma good_file: "sqlite_good d \<Longrightarrow> content (file_of d) = rows d"
  by (simp add: file_content committed_rows_def sqlite_good_def)

lemma started_rows:
  "started sp db files path ttl d \<Longrightarrow> on_disk path \<Longrightarrow> rows d = content (files path) \<and> \<not> sq_isTransaction db d"
  using opened [OF started_open] .

lemma restarts_keep: "on_disk path \<Longrightarrow> sqlite.keeps_streams (restarted sp db file_of path)"
  unfolding sqlite.keeps_streams_def
proof (intro allI impI)
  fix ttl d d' assume disk: "on_disk path" and re: "restarted sp db file_of path ttl d d'" and good: "sqlite_good d"
  obtain files where "started sp db files path ttl d'" "content (files path) = committed_rows db rows saved d"
    using re left_behind [of d] by (auto simp: restarted_def)
  then have "rows d' = rows d" "\<not> sq_isTransaction db d'"
    using started_rows [OF _ disk] good by (auto simp: committed_rows_def sqlite_good_def)
  then show "sqlite_good d' \<and> (\<forall>c. table_load sp rows d' c = table_load sp rows d c)"
    using good by (simp add: sqlite_good_def table_load_def)
qed

lemma first_start_inv:
  assumes "started sp db files path ttl d" "on_disk path" "content (files path) = (\<lambda>_. [])"
  shows "sqlite.sys_inv h \<lparr>sys_store = d, sys_tasks = []\<rparr>"
proof (rule sqlite.reachable_inv [OF reachable.start])
  have d: "rows d = (\<lambda>_. [])" "\<not> sq_isTransaction db d" using started_rows [OF assms(1,2)] assms(3) by simp_all
  then show "sqlite_good d" by (auto simp: sqlite_good_def stored_def)
  show "lifecycle_stream (sqlite.stream d c)" for c
    using load_rows [of d c "[]"] d(1) by (simp add: sqlite.stream_def stored_def)
qed

lemmas server_loads = deployment_loads [of "sqlite_load sp db" "table_load sp rows", OF load_answer]

lemma server_inv:
  assumes "server_steps sp db file_of path h (ttl, \<lparr>sys_store = d, sys_tasks = []\<rparr>) (ttl', S)"
    and "started sp db files path ttl d" "on_disk path" "content (files path) = (\<lambda>_. [])"
  shows "sqlite.sys_inv h S"
  using sqlite.deployment_inv [OF server_loads [OF assms(1)] restarts_keep [OF assms(3)] first_start_inv [OF assms(2-4)]]
  by blast

lemma server_good:
  assumes "server_steps sp db file_of path h (ttl, \<lparr>sys_store = d, sys_tasks = []\<rparr>) (ttl', S)"
    and "started sp db files path ttl d" "on_disk path" "content (files path) = (\<lambda>_. [])"
  shows "sqlite_good (sys_store S)"
  using server_inv [OF assms] by (simp add: sqlite.sys_inv_def)

text \<open>A resume that was answered before is answered the same after, and the file holds it.\<close>

lemma server_resumed:
  assumes start: "started sp db files path ttl0 d0" "on_disk path" "content (files path) = (\<lambda>_. [])"
    and run: "server_steps sp db file_of path h (ttl0, \<lparr>sys_store = d0, sys_tasks = []\<rparr>) (ttl, S)"
      "server_steps sp db file_of path h (ttl, S) (ttl', T)"
    and before: "http_answer env opts S (ResumeRoute i) c (Some r)" "rs_status r = 200"
    and after: "http_answer env' opts' T (ResumeRoute i) c' (Some q)" "rs_status q = 200"
  shows "r = q \<and> idempotencyKey c = idempotencyKey c' \<and>
    (\<exists>s. stored_state (table_load sp (\<lambda>d. content (file_of d))) (sys_store T) i s \<and> env_status s = StResumed \<and>
      rs_body r = obj [(''continuation'', envelope_json s)])"
proof -
  note inv = server_inv [OF run(1) start]
  note later = sqlite.http_resumed_later [OF server_loads [OF run(2)] restarts_keep [OF start(2)] inv before after]
  have "sqlite.sys_inv h T"
    using sqlite.deployment_inv [OF server_loads [OF run(2)] restarts_keep [OF start(2)] inv] by blast
  then have "content (file_of (sys_store T)) = rows (sys_store T)"
    by (simp add: sqlite.sys_inv_def good_file)
  then have "table_load sp (\<lambda>d. content (file_of d)) (sys_store T) = table_load sp rows (sys_store T)"
    by (simp add: table_load_def fun_eq_iff)
  then show ?thesis using later unfolding stored_state_def by metis
qed

end

section \<open>Two starts of one machine\<close>

text \<open>A machine with one database, and what its file holds: at first nothing, then what the scenario leaves behind.\<close>

definition machine :: "table \<Rightarrow> (sqlite_table, table) cli_host" where
  "machine t =
     \<lparr>ch_parse = zod_ref, ch_parseArgs = (\<lambda>argv. Inr \<lparr>ca_help = False, ca_version = False, ca_positionals = argv\<rparr>),
      ch_env = [''PAUSEMESH_DATABASE_PATH'' \<mapsto> js ''pausemesh.db''], ch_readTextFile = (\<lambda>p. Inr []),
      ch_dirname = (\<lambda>p. js ''.''), ch_mkdir = (\<lambda>p. Inr ()), ch_sqlite = sqlite_ref,
      ch_files = (\<lambda>p. if p = js ''pausemesh.db'' then t else (\<lambda>_. [])), ch_version = js ''1.0.0'',
      ch_fileURLToPath = Inr, ch_realpath = Inr, ch_message = (\<lambda>e. None)\<rparr>"

lemma machine_simps [simp]:
  "ch_parse (machine t) = zod_ref" "ch_sqlite (machine t) = sqlite_ref"
  "ch_files (machine t) = (\<lambda>p. if p = js ''pausemesh.db'' then t else (\<lambda>_. []))"
  "ch_env (machine t) = [''PAUSEMESH_DATABASE_PATH'' \<mapsto> js ''pausemesh.db'']" "ch_readTextFile (machine t) = (\<lambda>p. Inr [])"
  "ch_mkdir (machine t) p = Inr ()"
  "ch_parseArgs (machine t) argv = Inr \<lparr>ca_help = False, ca_version = False, ca_positionals = argv\<rparr>"
  by (simp_all add: machine_def del: js_simps)

lemma database_path:
  "trim (js ''pausemesh.db'') = js ''pausemesh.db''" "js ''pausemesh.db'' \<noteq> js '':memory:''" "js ''pausemesh.db'' \<noteq> []"
  by code_simp+

lemma machine_open: "fst (sqlite_open sqlite_ref (ch_files (machine t)) (js ''pausemesh.db'') None) = Inr (t, None)"
  using database_path(2)
  by (simp add: sqlite_open_def sqlite_busyTimeout_def DEFAULT_BUSY_TIMEOUT_MS_def safe_int_def
    MAX_SAFE_INTEGER_def sqlite_ref_def Let_def del: js_simps)

lemma empty_file: "plain_file (\<lambda>p. Inr [])"
  by (simp add: plain_file_def json_parse_def parse_text_def skip_ws_def)

lemma machine_config:
  obtains cfg where "loadConfig zod_ref (ch_env (machine t)) (ch_readTextFile (machine t)) = Inr cfg"
    "config_ok cfg" "cfg_databasePath cfg = js ''pausemesh.db''" "cfg_tokenTtlSeconds cfg = 900"
proof -
  let ?load = "loadConfig zod_ref [''PAUSEMESH_DATABASE_PATH'' \<mapsto> js ''pausemesh.db''] (\<lambda>p. Inr [])"
  have "\<exists>cfg. ?load = Inr cfg"
    using database_path
    by (simp add: loadConfig_def readJsonConfig_def optionalInteger_def environment_entries_def parse_or_def
      js_obj_id PauseMeshConfigSchema_def object_parse_def extra_fields_def default_parse_def string_parse_def
      Suc_le_eq del: js_simps)
  then obtain cfg where cfg: "?load = Inr cfg" ..
  obtain fs where "readJsonConfig None (\<lambda>p. Inr []) = Inr fs" "config_ok cfg"
      "config_from [''PAUSEMESH_DATABASE_PATH'' \<mapsto> js ''pausemesh.db''] fs cfg"
    by (rule zod_reference.loaded_config [OF empty_file cfg]) simp
  then show thesis
    using that cfg database_path
    by (auto simp: config_from_def configured_def readJsonConfig_def env_integer_def simp del: js_simps)
qed

lemma machine_start:
  obtains actions sv where "runCli (machine t) [] = (actions, Inr (Some sv))"
    "sv_database sv = (t, None)" "sv_tokenTtl sv = 900000"
proof -
  obtain cfg where cfg: "loadConfig zod_ref (ch_env (machine t)) (ch_readTextFile (machine t)) = Inr cfg"
      "config_ok cfg" "cfg_databasePath cfg = js ''pausemesh.db''" "cfg_tokenTtlSeconds cfg = 900"
    by (rule machine_config)
  have run: "runCli (machine t) [] = bindC (start_server (machine t) cfg) (\<lambda>sv. retC (Some sv))"
    using cfg(1) by (simp add: runCli_def cli_command_def guardR_def)
  obtain actions r where start: "start_server (machine t) cfg = (actions, r)" by (rule prod.exhaust)
  have "r = Inr (configured_server cfg (t, None))"
    by (rule start_server_cases [OF cfg(2) start])
      (use machine_open [of t] in \<open>simp_all add: cfg(3) del: js_simps machine_simps(3)\<close>)
  then show thesis
    using that [of actions "configured_server cfg (t, None)"] start
    by (simp add: run bindC_def retC_def configured_server_def cfg(4) del: js_simps)
qed

lemma machine_started: "started zod_ref sqlite_ref (ch_files (machine t)) (js ''pausemesh.db'') 900000 (t, None)"
proof -
  obtain actions sv where "runCli (machine t) [] = (actions, Inr (Some sv))" "sv_database sv = (t, None)" "sv_tokenTtl sv = 900000"
    by (rule machine_start)
  moreover obtain cfg where "loadConfig zod_ref (ch_env (machine t)) (ch_readTextFile (machine t)) = Inr cfg"
      "cfg_databasePath cfg = js ''pausemesh.db''"
    by (rule machine_config)
  ultimately show ?thesis unfolding started_def using machine_simps(1,2) by blast
qed

interpretation reference_server: sqlite_server zod_ref sqlite_ref fst table_saved table_saved "\<lambda>t. t"
    "\<lambda>path. path \<noteq> js '':memory:''"
  by unfold_locales

text \<open>The first process runs the scenario; after a restart over its file the resume is asked for again.\<close>

definition restarted_system :: "sqlite_table system" where
  "restarted_system = \<lparr>sys_store = sys_store sqlite_run.sample_system,
     sys_tasks = [(ResumeReq sample_resume, Ret (EnvelopeResp resumed_env))]\<rparr>"

abbreviation reference_steps :: "int \<times> sqlite_table system \<Rightarrow> int \<times> sqlite_table system \<Rightarrow> bool" where
  "reference_steps \<equiv> server_steps zod_ref sqlite_ref table_saved (js ''pausemesh.db'') sample_hash"

lemma first_run: "reference_steps (900000, \<lparr>sys_store = empty_table, sys_tasks = []\<rparr>) (900000, sqlite_run.sample_system)"
  unfolding reference_load by (rule reachable_deployment [OF sqlite_run.sample_reachable])

lemma second_run: "reference_steps (900000, sqlite_run.sample_system) (900000, restarted_system)"
proof -
  let ?d = "sys_store sqlite_run.sample_system"
  let ?S = "\<lparr>sys_store = ?d, sys_tasks = []\<rparr> :: sqlite_table system"
  have "sqlite_reference.sqlite_good ?d"
    using reference_server.server_good [OF first_run machine_started [of "\<lambda>_. []"]] database_path(2)
    by (simp del: js_simps)
  then have "snd ?d = None"
    by (cases ?d) (simp add: sqlite_reference.sqlite_good_def, simp add: sqlite_ref_def)
  then have d: "?d = (table_saved ?d, None)" by (cases ?d) (simp add: table_saved_def)
  have "restarted zod_ref sqlite_ref table_saved (js ''pausemesh.db'') 900000 ?d ?d"
    using machine_started [of "table_saved ?d"] unfolding restarted_def d [symmetric]
    by (intro exI [of _ "ch_files (machine (table_saved ?d))"]) simp
  then have restart: "deployment_step (sqlite_load zod_ref sqlite_ref) (sqlite_append zod_ref sqlite_ref) sample_hash
      (restarted zod_ref sqlite_ref table_saved (js ''pausemesh.db'')) (900000, sqlite_run.sample_system) (900000, ?S)"
    by (rule deployment_step.restart)
  have "reachable (table_load zod_ref fst) (sqlite_append zod_ref sqlite_ref) sample_hash 900000 ?d restarted_system"
    using run_reachable [OF reachable.start sample_requests_ok(2) sample_ports_ok sqlite_run.sample_serves(3), of ?d]
    by (simp add: restarted_system_def sqlite_run.sample_system_def ended_def)
  then have "reference_steps (900000, ?S) (900000, restarted_system)"
    unfolding reference_load by (rule reachable_deployment)
  with restart show ?thesis by (rule converse_rtranclp_into_rtranclp)
qed

lemma restarted_answer:
  "http_answer sample_http_env sample_http_options sqlite_run.sample_system (ResumeRoute (js ''c1'')) sample_http (Some sample_answer)"
  "http_answer sample_http_env sample_http_options restarted_system (ResumeRoute (js ''c1'')) sample_http (Some sample_answer)"
  using sample_plan
  by (auto simp: http_answer_def settle_def sample_answer_def finished_def restarted_system_def
      sqlite_run.sample_system_def simp del: plan.simps js_simps)

section \<open>Properties\<close>

text \<open>
  C34 Exactly once across restarts: a server is started over the file of an empty database, serves, is stopped
  at any moment and started again over the same file, as often as one likes. A resume that is answered with
  200 before, and one of the same continuation that is answered with 200 at any time after, get the same
  response; they carry the same idempotency key, and the file holds what the response shows. Any statement
  of the driver may fail, a \<open>SELECT\<close> too, but for the \<open>ROLLBACK\<close> of a transaction that is still open.
\<close>

theorem resume_survives_restarts:
  assumes "sqlite_server sp db rows saved file_of content on_disk" "on_disk path"
    and "started sp db files path ttl0 d0" "content (files path) = (\<lambda>_. [])"
    and "server_steps sp db file_of path h (ttl0, \<lparr>sys_store = d0, sys_tasks = []\<rparr>) (ttl, S)"
    and "server_steps sp db file_of path h (ttl, S) (ttl', T)"
    and "http_answer env opts S (ResumeRoute i) c (Some r)" "rs_status r = 200"
    and "http_answer env' opts' T (ResumeRoute i) c' (Some q)" "rs_status q = 200"
  shows "r = q \<and> idempotencyKey c = idempotencyKey c' \<and>
    (\<exists>s. stored_state (table_load sp (\<lambda>d. content (file_of d))) (sys_store T) i s \<and> env_status s = StResumed \<and>
      rs_body r = obj [(''continuation'', envelope_json s)])"
  by (rule sqlite_server.server_resumed [OF assms(1,3,2,4-10)])

theorem resume_survives_restarts_witness:
  "\<exists>s. stored_state (table_load zod_ref table_saved) (sys_store restarted_system) (js ''c1'') s \<and> env_status s = StResumed"
  using resume_survives_restarts [OF reference_server.sqlite_server_axioms _ machine_started [of "\<lambda>_. []"] _ first_run second_run
    restarted_answer(1) sample_answer_status restarted_answer(2) sample_answer_status] database_path(2)
  by (simp del: js_simps) blast

text \<open>
  C39 What a start does: it serves only with a configuration that loads and is within its bounds, every
  setting of which is the value of its environment variable, else that of the file, else the default; it
  creates the directory of a database that is a file before it opens the database, and listens last, with
  the database that opened, the lifetime in milliseconds and tokens of 32 bytes. It fails before it has
  done anything because the arguments, the command or the configuration was refused, or because the
  directory or the database was; then it does not listen.
\<close>

theorem server_startup:
  assumes "zod (ch_parse H)" "plain_file (ch_readTextFile H)" "runCli H argv = (actions, r)"
  shows "case r of
      Inr (Some sv) \<Rightarrow> (\<exists>cfg fs. loadConfig (ch_parse H) (ch_env H) (ch_readTextFile H) = Inr cfg \<and>
        readJsonConfig (ch_env H ''PAUSEMESH_CONFIG_PATH'') (ch_readTextFile H) = Inr fs \<and>
        config_ok cfg \<and> config_from (ch_env H) fs cfg \<and>
        fst (sqlite_open (ch_sqlite H) (ch_files H) (cfg_databasePath cfg) None) = Inr (sv_database sv) \<and>
        sv = configured_server cfg (sv_database sv) \<and>
        actions = directory_actions H cfg @ [OpenDatabase (cfg_databasePath cfg), Listen (cfg_host cfg) (cfg_port cfg)])
    | Inr None \<Rightarrow> (\<exists>t. actions = [WriteStdout t])
    | Inl e \<Rightarrow> actions = [] \<and> cli_refused H argv e \<or>
        (\<exists>cfg f. loadConfig (ch_parse H) (ch_env H) (ch_readTextFile H) = Inr cfg \<and> e = CliFailure f \<and>
          (actions = directory_actions H cfg \<and> ch_mkdir H (ch_dirname H (cfg_databasePath cfg)) = Inl f \<or>
           actions = directory_actions H cfg @ [OpenDatabase (cfg_databasePath cfg)] \<and>
             fst (sqlite_open (ch_sqlite H) (ch_files H) (cfg_databasePath cfg) None) = Inl f))"
proof (rule runCli_cases [OF assms(3)])
  fix cfg
  assume load: "loadConfig (ch_parse H) (ch_env H) (ch_readTextFile H) = Inr cfg"
    and start: "fst (start_server H cfg) = actions" "r = map_sum id Some (snd (start_server H cfg))"
  obtain fs where fs: "readJsonConfig (ch_env H ''PAUSEMESH_CONFIG_PATH'') (ch_readTextFile H) = Inr fs"
      "config_ok cfg" "config_from (ch_env H) fs cfg"
    by (rule zod.loaded_config [OF assms(1,2) load])
  have "start_server H cfg = (actions, snd (start_server H cfg))" using start(1) by (metis prod.collapse)
  then show ?thesis
    by (rule start_server_cases [OF fs(2)]) (use load start(2) fs in \<open>auto simp: configured_server_def\<close>)
qed auto

theorem server_startup_witness:
  "\<exists>sv actions cfg. runCli (machine (\<lambda>_. [])) [] = (actions, Inr (Some sv)) \<and> config_ok cfg \<and>
    sv = configured_server cfg (sv_database sv)"
proof -
  obtain actions sv where "runCli (machine (\<lambda>_. [])) [] = (actions, Inr (Some sv))"
    by (rule machine_start)
  moreover have "zod (ch_parse (machine (\<lambda>_. [])))" "plain_file (ch_readTextFile (machine (\<lambda>_. [])))"
    using zod_reference.zod_axioms empty_file by simp_all
  ultimately show ?thesis using server_startup by fastforce
qed

text \<open>
  C40 How the process ends, whatever signals arrive, in whatever order, while it serves: the server is asked
  to close at most once; the store stays open until the server has reported that it is closed, so no
  request finds a closed store, and is closed then; the exit code is 1, and the failure is logged, exactly
  when the server reported an error as it closed, and else there is none; and the first signal never kills
  the process, only one that comes while it is stopping.
\<close>

theorem shutdown_in_order:
  assumes "\<forall>x. \<not> sq_isOpen db (sq_close db x)" "sq_isOpen db d" "proc_run db (listening d) events p"
  shows "pr_closing p + pr_closed p = (if pr_stopping p then 1 else 0) \<and>
    (sq_isOpen db (pr_database p) \<longleftrightarrow> pr_closed p = 0) \<and>
    (pr_closed p = 0 \<longleftrightarrow> (\<forall>error. ServerClosed error \<notin> set events)) \<and>
    pr_exitCode p = (if ServerClosed True \<in> set events then Some 1 else None) \<and>
    (LogShutdownFailed \<in> set (pr_log p) \<longleftrightarrow> ServerClosed True \<in> set events) \<and>
    (pr_killed p \<longrightarrow> pr_stopping p) \<and> (pr_stopping p \<longleftrightarrow> (\<exists>signal. Signalled signal \<in> set events)) \<and>
    (pr_stopping p \<longleftrightarrow> pr_armed p \<noteq> {SIGINT, SIGTERM})"
  using assms(3)
proof induction
  case nothing
  then show ?case using assms(2) by (simp add: listening_def)
next
  case (next_event events p event q)
  show ?case
    using next_event.hyps(2)
  proof cases
    case (request d)
    then show ?thesis using next_event.IH by auto
  next
    case (signalled signal)
    then show ?thesis
      using next_event.IH by (cases signal) (auto simp: on_signal_def stop_def)
  next
    case (closed error)
    then show ?thesis
      using next_event.IH assms(1) by (auto simp: on_closed_def sqlite_close_def Let_def split: if_splits)
  qed
qed

text \<open>A connection of which only its being open matters; a signal, and a server that closes with an error.\<close>

definition flag_db :: "(bool, unit) sqlite" where
  "flag_db =
     \<lparr>sq_select = (\<lambda>d c. Inr []), sq_begin = (\<lambda>d. (Inr (), d)), sq_max = (\<lambda>d c. (Inr (Some 0), d)),
      sq_insert = (\<lambda>d c v e. (Inr (), d)), sq_commit = (\<lambda>d. (Inr (), d)), sq_rollback = (\<lambda>d. (Inr (), d)),
      sq_isTransaction = (\<lambda>d. False), sq_ping = (\<lambda>d. Inr ()), sq_open = (\<lambda>files path ms. Inr True),
      sq_pragma = (\<lambda>d ms. (Inr (), d)), sq_schema = (\<lambda>d. (Inr (), d)), sq_isOpen = id, sq_close = (\<lambda>d. False)\<rparr>"

theorem shutdown_in_order_witness:
  "\<not> pr_database (on_closed flag_db True (on_signal SIGTERM (listening True))) \<and>
    pr_exitCode (on_closed flag_db True (on_signal SIGTERM (listening True))) = Some 1"
proof -
  have first: "proc_step flag_db (Signalled SIGTERM) (listening True) (on_signal SIGTERM (listening True))"
    by (rule proc_step.signalled) (simp add: listening_def)
  have second: "proc_step flag_db (ServerClosed True) (on_signal SIGTERM (listening True))
      (on_closed flag_db True (on_signal SIGTERM (listening True)))"
    by (rule proc_step.closed) (simp_all add: listening_def on_signal_def stop_def)
  have "proc_run flag_db (listening True) [Signalled SIGTERM, ServerClosed True]
      (on_closed flag_db True (on_signal SIGTERM (listening True)))"
    using proc_run.next_event [OF proc_run.next_event [OF proc_run.nothing first] second] by simp
  from shutdown_in_order [OF _ _ this]
  show ?thesis
    by (simp add: flag_db_def) (simp add: listening_def on_signal_def stop_def on_closed_def)
qed

end
