(* ===== verification/Spec2Isabelle.thy ===== *)
theory Spec2Isabelle
  imports ServiceProperties DomainProperties StoreProperties AdapterProperties HostProperties AguiProperties McpProperties HttpProperties PostgresProperties ServerProperties
begin

text \<open>
  PauseMesh: a verification development.

  \<^bold>\<open>The program.\<close> PauseMesh keeps durable continuations: a workflow that has to wait for a person or another
  agent is stored as a continuation and gets a one-time resume token; whoever holds the token resumes it
  once, before it expires, or it is cancelled. The life of a continuation is a stream of events in an event
  store. The parts, from the inside out:

  \<^item> the domain (\<open>src/domain\<close>): events, envelopes, the reducer that folds the one into the other, the canonical
    text of JSON values, and the errors;
  \<^item> the application service (\<open>src/application/continuation-service.ts\<close>), which reads the stream, decides and
    appends, against the ports of \<open>src/ports\<close>;
  \<^item> the event stores (\<open>src/adapters/storage\<close>): in memory, SQLite, PostgreSQL, and the serialization they share;
  \<^item> the protocol adapters (\<open>src/adapters/a2a\<close>, \<open>agui\<close>, \<open>mcp\<close>), which turn a pending continuation into a task, an
    interrupt or an elicitation, and answers of the peer into commands;
  \<^item> the HTTP adapter (\<open>src/adapters/http/app.ts\<close>), the token issuer (\<open>src/adapters/crypto\<close>), the configuration
    (\<open>src/config\<close>), and the process of the reference server (\<open>src/cli.ts\<close>).

  \<^bold>\<open>How the code is read.\<close> A function that may throw returns an error or a value (\<open>result\<close>, \<open>Inl\<close> the error); an
  early return is a branch. An asynchronous operation is a tree of its calls (\<open>prog\<close> over the ports of the
  service, \<open>pg_prog\<close> over a database pool): the same definition is run alone (\<open>run\<close>, \<open>run_pg\<close>) and interleaved with
  others at every call (\<open>sys_step\<close>, \<open>fleet_step\<close>); a load of a store may fail at any time. What happens to the process
  is a sequence of labelled events (\<open>proc_run\<close>: a request, a signal, the server that closes). Strings are lists of UTF-16 code units (\<open>16 word\<close>), numbers are
  finite decimals in normal form, objects are lists of members in insertion order, dates are milliseconds or
  invalid. Interfaces are locales: \<open>event_store\<close> and \<open>reliable_event_store\<close> (what the service relies on), \<open>zod\<close>
  (the documented laws of the schema parser), \<open>sqlite_driver\<close>, \<open>pg_server\<close>, \<open>pg_fleet\<close>. Each is interpreted on the
  code's own definitions, over a reference parser, table or server that keeps the laws of the third party.

  \<^bold>\<open>What is relied on of the databases.\<close> For \<open>sqlite_driver\<close> any statement may fail, reads and \<open>ROLLBACK\<close> included; a
  transaction is applied as a whole or not at all, and \<open>BEGIN\<close> within a transaction is an error. \<open>settling_sqlite_store\<close>
  adds that the \<open>ROLLBACK\<close> of an open transaction works: only then is the store an \<open>event_store\<close>, because a connection
  that is stuck in a transaction shows what was never committed. \<open>reliable_sqlite_store\<close> adds that the statements of an
  append work. \<open>sqlite_disk\<close> says that a connection opened at a path finds what the file holds, and leaves in it what
  was committed. For \<open>pg_server\<close> any statement may fail as well, and a \<open>COMMIT\<close> that fails may have been applied
  (\<open>doubtful\<close>); the contract \<open>event_store\<close> allows for that: an append that reports a failure of the host has
  changed nothing, or has added the whole batch.

  \<^bold>\<open>The theories\<close>, in the order of the layers:

  \<^item> \<open>Prelude\<close>, \<open>JsString\<close>, \<open>JsNumber\<close>, \<open>Json\<close>, \<open>JsonRead\<close>, \<open>JsDate\<close>, \<open>TextEncoding\<close>: what the program uses of the language:
    results, strings and \<open>trim\<close>, numbers and their texts, \<open>JSON.stringify\<close> and \<open>JSON.parse\<close> with their round trip,
    \<open>toISOString\<close> and \<open>Date.parse\<close> with theirs, UTF-8, hex and base64url.
  \<^item> \<open>Errors\<close> (\<open>errors.ts\<close>), \<open>Reducer\<close> (\<open>types.ts\<close>, \<open>events.ts\<close>, \<open>reducer.ts\<close>), \<open>CanonicalJson\<close> (\<open>canonical-json.ts\<close>).
    Lemmas: what an accepted event is and gives, the first rule a rejected one breaks, which histories replay;
    canonical texts are equal exactly for values equal up to the order of members.
  \<^item> \<open>Zod\<close>: the language of schemas and the locale of the parser's laws, with a reference parser; \<open>ZodStable\<close>: schemas
    that only check accept their own output again. \<open>Protocol\<close> (\<open>protocol-error.ts\<close>): what the adapters share.
  \<^item> \<open>EventSerialization\<close> (\<open>event-serialization.ts\<close>), \<open>EventStore\<close> (\<open>ports/event-store.ts\<close>, the contract),
    \<open>InMemoryEventStore\<close>, \<open>SqliteEventStore\<close> (the files of these names): appends are compare-and-swap and all or
    nothing, loads are gapless.
  \<^item> \<open>Program\<close> (the ports as actions), \<open>ContinuationService\<close> (every method of the service), \<open>ServiceRuns\<close> (each operation
    alone, on every branch), \<open>Knowledge\<close>, \<open>ServiceContract\<close>, \<open>Concurrency\<close>, \<open>Outcomes\<close> (any number of requests at once: what a
    request has read stays a prefix of the stream, so its answer stays true), \<open>Restarts\<close> (the same across
    processes), \<open>Scenario\<close> (a concrete run for the witnesses).
  \<^item> \<open>PgProgram\<close>, \<open>PostgresCommon\<close>, \<open>PostgresMigration\<close>, \<open>PostgresEventStore\<close> (\<open>postgres-event-store.ts\<close>); \<open>PostgresServer\<close>
    (the laws of the server, and what each statement of an append does), \<open>PostgresAlone\<close> (an append alone),
    \<open>PostgresReplicas\<close> (appends of many replicas, statement by statement), \<open>PostgresTrace\<close> (clients and migrations, on any
    server), \<open>PostgresCatalog\<close> (the query of the schema check over the system catalog, and the objects the statements
    of the migration create), \<open>PostgresReference\<close> (a server that keeps the laws).
  \<^item> \<open>A2A\<close> (\<open>a2a/task.ts\<close>); \<open>AguiPreflight\<close>, \<open>Agui\<close>, \<open>AguiResume\<close> (\<open>agui/interrupt.ts\<close>) with \<open>AguiCohort\<close> and \<open>AguiCommands\<close> (what a
    receipt and a command rest on); \<open>McpSchemas\<close>, \<open>Mcp\<close>, \<open>McpResult\<close> (\<open>mcp/elicitation.ts\<close>) with \<open>McpFields\<close>, \<open>McpLaws\<close> and
    \<open>McpScenario\<close>.
  \<^item> \<open>HttpRequest\<close>, \<open>HttpApp\<close> (\<open>http/app.ts\<close>), \<open>HttpService\<close> (a route decodes, asks the service once, renders),
    \<open>TokenIssuer\<close> (\<open>sha256-token-issuer.ts\<close>), \<open>Config\<close> (\<open>config/schema.ts\<close>, \<open>config/load.ts\<close>), \<open>Cli\<close> (\<open>cli.ts\<close>,
    \<open>pino-observer.ts\<close>).
  \<^item> The properties, each with the number of its claim: \<open>ServiceProperties\<close>, \<open>DomainProperties\<close>, \<open>StoreProperties\<close>,
    \<open>PostgresProperties\<close>, \<open>AdapterProperties\<close>, \<open>AguiProperties\<close>, \<open>McpProperties\<close>, \<open>HttpProperties\<close>, \<open>ServerProperties\<close>;
    \<open>HostProperties\<close> holds the theorem on loaded configurations.

  \<^bold>\<open>What is shown.\<close> The service: in every interleaving of requests a continuation is closed at most once, all
  answers agree on how, a resume needs the token that was issued, and a retry gets the first answer. This holds
  for every store that keeps the contract; the contract is proved of the three stores, of the SQLite one where rollbacks
  work, also across restarts of the server over its file, and of the PostgreSQL one where an append runs alone. A
  SQLite append is atomic whichever statement fails. Replicas that share a PostgreSQL database append statement by
  statement, and their appends turn out to take effect one after the other. The adapters: what is projected,
  that an issued request is accepted when it comes back, that commands can be sent again while each
  continuation is as it was or was closed by its command, what the service answers then, and that neither
  authorizations nor data the peer was not asked for get through. The HTTP adapter: status codes are true, and
  exactly-once reaches the client. The process: it serves only what a valid configuration says, and closes its
  store after its server.

  \<^bold>\<open>Bounds and termination.\<close> Every loop of the code is structural, or has a measure: the traversal of untrusted values
  ends because it counts the nodes it visits, the normal form of a number because its mantissa shrinks. Only the
  engine's \<open>JSON.parse\<close> takes a bound: \<open>parse_value\<close> counts the nesting of its calls, and \<open>parse_text\<close> gives it more
  than twice the length of the text, which is enough for every text (\<open>parse_bound_enough\<close> in \<open>JsonRead\<close>). Versions and times are unbounded
  integers guarded by the checks of the code (\<open>safe_int\<close>, the limits of a date); a token has the 32 bytes of the
  default of its issuer.

  \<^bold>\<open>Parameters\<close>, code that is not in the repository: the zod parser (laws in \<open>zod\<close>; the issues of a failed parse), the
  schema of \<open>@ag-ui/core\<close>, SHA-256 and random bytes of \<open>node:crypto\<close>, \<open>new URL\<close>, hono's routing and body limit and
  which thrown values it passes on, \<open>node:sqlite\<close>, \<open>pg\<close> and the PostgreSQL server, \<open>parseArgs\<close> and the file system, the
  clock and the validators of the host. A PostgreSQL statement is a constructor named by what its SQL text
  says. Two texts are read closer, in \<open>PostgresCatalog\<close>: the query of the schema check, whose joins are
  functions of the tables of \<open>pg_catalog\<close>, and the statements of the migration, which are kept verbatim
  (their checksum is stored) and parsed, with the schema not yet filled in, into the objects they create. A commit whose answer is lost may have taken effect: the model keeps it as a doubtful one.

  \<^bold>\<open>Not modelled.\<close> Numbers are exact decimals, so the rounding of a literal with more than 17 digits is not seen.
  The text of the engine's own messages (a \<open>SyntaxError\<close>, a driver's error) is opaque, and so is the
  \<open>rollbackError\<close> property that the PostgreSQL store attaches to an error. \<open>src/index.ts\<close> only exports, the
  system clock is \<open>new Date()\<close>; the layout of log lines, the sockets of the HTTP server, the scripts, the
  demo and the test configuration are outside the program.
\<close>

end
